(* ===== verification/Ordered_Map.thy ===== *)
theory Ordered_Map
  imports Main "HOL-Library.Char_ord" "HOL-Library.List_Lexorder"
begin

text \<open>
  The ordered dictionaries of the program (\<open>std::map\<close>), as association lists that
  are strictly sorted by key. A byte string is a \<open>char list\<close>; the imported orders
  compare strings lexicographically by unsigned byte, as \<open>std::string\<close> does.
  The locale \<open>dictionary\<close> is the contract a client of such a map relies on; inside
  it the replay of a log of writes and erasures is characterised by its last entry
  per key, the fact on which the recovery proofs of the stores rest.
\<close>

named_theorems omap_simps \<open>lookup and well-formedness equations of ordered maps\<close>

type_synonym ('k, 'v) omap = "('k \<times> 'v) list"

definition omap_wf :: "('k::linorder, 'v) omap \<Rightarrow> bool" where
  "omap_wf m \<longleftrightarrow> sorted_wrt (<) (map fst m)"

fun omap_put :: "'k::linorder \<Rightarrow> 'v \<Rightarrow> ('k, 'v) omap \<Rightarrow> ('k, 'v) omap" where
  "omap_put k v [] = [(k, v)]"
| "omap_put k v ((a, b) # m) =
     (if k < a then (k, v) # (a, b) # m
      else if k = a then (k, v) # m
      else (a, b) # omap_put k v m)"

definition omap_erase :: "'k \<Rightarrow> ('k, 'v) omap \<Rightarrow> ('k, 'v) omap" where
  "omap_erase k m = filter (\<lambda>p. fst p \<noteq> k) m"

text \<open>\<open>emplace\<close> and \<open>insert\<close> of \<open>std::map\<close> keep an entry that is already there.\<close>

definition omap_emplace :: "'k::linorder \<Rightarrow> 'v \<Rightarrow> ('k, 'v) omap \<Rightarrow> ('k, 'v) omap" where
  "omap_emplace k v m = (case map_of m k of Some _ \<Rightarrow> m | None \<Rightarrow> omap_put k v m)"

definition omap_lower_bound :: "'k::linorder \<Rightarrow> ('k, 'v) omap \<Rightarrow> ('k, 'v) omap" where
  "omap_lower_bound k m = dropWhile (\<lambda>p. fst p < k) m"

subsection \<open>Lookups\<close>

lemma omap_wf_Nil [simp]: "omap_wf []"
  by (simp add: omap_wf_def)

lemma omap_wf_Cons: "omap_wf ((a, b) # m) \<longleftrightarrow> (\<forall>k \<in> fst ` set m. a < k) \<and> omap_wf m"
  by (auto simp: omap_wf_def)

lemma map_of_omap_put [simp, omap_simps]: "map_of (omap_put k v m) = (map_of m)(k \<mapsto> v)"
  by (induction m rule: omap_put.induct) (auto simp: fun_eq_iff)

lemma map_of_omap_erase [simp, omap_simps]: "map_of (omap_erase k m) = (map_of m)(k := None)"
  by (induction m) (auto simp: omap_erase_def fun_eq_iff)

lemma map_of_omap_emplace [omap_simps]:
  "map_of (omap_emplace k v m) = (if map_of m k = None then (map_of m)(k \<mapsto> v) else map_of m)"
  by (auto simp: omap_emplace_def split: option.splits)

lemma keys_omap_put [simp]: "fst ` set (omap_put k v m) = insert k (fst ` set m)"
  by (induction m rule: omap_put.induct) auto

lemma keys_omap_erase [simp]: "fst ` set (omap_erase k m) = fst ` set m - {k}"
  by (auto simp: omap_erase_def)

lemma set_omap_put_subset: "set (omap_put k v m) \<subseteq> insert (k, v) (set m)"
  by (induction m rule: omap_put.induct) auto

subsection \<open>Well-formedness\<close>

lemma omap_wf_put [simp, intro]: "omap_wf m \<Longrightarrow> omap_wf (omap_put k v m)"
proof (induction m rule: omap_put.induct)
  case (2 k v a b m)
  then show ?case
    by (auto simp: omap_wf_Cons image_iff dest: order.strict_trans)
qed (simp add: omap_wf_Cons)

lemma sorted_wrt_filter_fst:
  "sorted_wrt P (map fst m) \<Longrightarrow> sorted_wrt P (map fst (filter Q m))"
  by (induction m) auto

lemma omap_wf_filter [simp, intro]: "omap_wf m \<Longrightarrow> omap_wf (filter Q m)"
  by (simp add: omap_wf_def sorted_wrt_filter_fst)

lemma omap_wf_erase [simp, intro]: "omap_wf m \<Longrightarrow> omap_wf (omap_erase k m)"
  by (simp add: omap_erase_def omap_wf_filter)

lemma omap_wf_emplace [simp, intro]: "omap_wf m \<Longrightarrow> omap_wf (omap_emplace k v m)"
  by (simp add: omap_emplace_def split: option.splits)

lemma omap_wf_distinct: "omap_wf m \<Longrightarrow> distinct (map fst m)"
  by (simp add: omap_wf_def strict_sorted_iff)

lemma omap_wf_sorted: "omap_wf m \<Longrightarrow> sorted (map fst m)"
  by (simp add: omap_wf_def strict_sorted_iff)

lemma omap_in_set: "omap_wf m \<Longrightarrow> (k, v) \<in> set m \<longleftrightarrow> map_of m k = Some v"
  by (auto dest: omap_wf_distinct intro: map_of_is_SomeI map_of_SomeD)

text \<open>Two well-formed maps with the same lookups are the same map.\<close>

lemma omap_eqI:
  assumes "omap_wf m" and "omap_wf n" and "map_of m = map_of n"
  shows "m = n"
  using assms
proof (induction m arbitrary: n)
  case Nil
  then have "set n = {}"
    by (metis empty_iff equals0I map_of_eq_None_iff map_of.simps(1) image_is_empty dom_map_of_conv_image_fst dom_empty)
  then show ?case by simp
next
  case (Cons p m)
  obtain a b where p: "p = (a, b)" by (cases p)
  have mem: "(k, v) \<in> set n \<longleftrightarrow> (k, v) \<in> set (p # m)" for k v
    using Cons.prems by (simp only: omap_in_set)
  obtain c d n' where n: "n = (c, d) # n'"
    using mem[of a b] p by (cases n) auto
  have "a \<le> c"
    using mem[of c d] Cons.prems(1) p n by (fastforce simp: omap_wf_Cons)
  moreover have "c \<le> a"
    using mem[of a b] Cons.prems(2) p n by (fastforce simp: omap_wf_Cons)
  ultimately have ac: "a = c" by simp
  have bd: "b = d"
    using Cons.prems(3) p n ac by (metis map_of_Cons_code(2) option.inject)
  have "map_of m = map_of n'"
  proof
    fix k
    have "map_of m a = None" "map_of n' a = None"
      using Cons.prems(1,2) p n ac by (auto simp: omap_wf_Cons map_of_eq_None_iff)
    moreover have "map_of (p # m) k = map_of n k" by (simp only: Cons.prems(3))
    ultimately show "map_of m k = map_of n' k"
      using p n ac by (cases "k = a") simp_all
  qed
  then have "m = n'"
    using Cons.IH Cons.prems(1,2) p n by (simp add: omap_wf_Cons)
  then show ?case using p n ac bd by simp
qed

subsection \<open>Iteration from a lower bound\<close>

lemma omap_lower_bound_filter:
  assumes "omap_wf m"
  shows "omap_lower_bound k m = filter (\<lambda>p. k \<le> fst p) m"
  using assms
proof (induction m)
  case (Cons p m)
  obtain a b where p: "p = (a, b)" by (cases p)
  from Cons.prems p have wf: "omap_wf m" and gt: "\<forall>x \<in> fst ` set m. a < x"
    by (simp_all add: omap_wf_Cons)
  show ?case
  proof (cases "a < k")
    case True
    with Cons.IH wf p show ?thesis by (simp add: omap_lower_bound_def)
  next
    case False
    have "filter (\<lambda>p. k \<le> fst p) m = m"
      using gt False by (fastforce simp: filter_id_conv)
    with False p show ?thesis by (simp add: omap_lower_bound_def)
  qed
qed (simp add: omap_lower_bound_def)

lemma omap_takeWhile_filter:
  assumes "omap_wf m"
  shows "takeWhile (\<lambda>p. fst p \<le> k) m = filter (\<lambda>p. fst p \<le> k) m"
  using assms
proof (induction m)
  case (Cons p m)
  obtain a b where p: "p = (a, b)" by (cases p)
  from Cons.prems p have wf: "omap_wf m" and gt: "\<forall>x \<in> fst ` set m. a < x"
    by (simp_all add: omap_wf_Cons)
  show ?case
  proof (cases "a \<le> k")
    case True
    with Cons.IH wf p show ?thesis by simp
  next
    case False
    have "filter (\<lambda>p. fst p \<le> k) m = []"
      using gt False by (fastforce simp: filter_empty_conv)
    with False p show ?thesis by simp
  qed
qed simp

lemma map_of_filter_key:
  assumes "omap_wf m"
  shows "map_of (filter (\<lambda>p. P (fst p)) m) = (\<lambda>k. if P k then map_of m k else None)"
  by (induction m) (auto simp: fun_eq_iff)

lemma omap_wf_fold_put: "omap_wf m \<Longrightarrow> omap_wf (fold (\<lambda>(k, v). omap_put k v) kvs m)"
  by (induction kvs arbitrary: m) auto

lemma map_of_fold_put:
  "distinct (map fst kvs) \<Longrightarrow>
     map_of (fold (\<lambda>(k, v). omap_put k v) kvs m) = map_of m ++ map_of kvs"
proof (induction kvs arbitrary: m)
  case (Cons p kvs)
  obtain k v where p: "p = (k, v)" by (cases p)
  from Cons.prems p have "map_of kvs k = None"
    by (simp add: map_of_eq_None_iff)
  with Cons p show ?case
    by (auto simp: fun_eq_iff map_add_def split: option.splits)
qed simp

text \<open>Copying a map entry by entry gives the map back.\<close>

lemma fold_put_self: "omap_wf m \<Longrightarrow> fold (\<lambda>(k, v). omap_put k v) m [] = m"
  by (rule omap_eqI) (simp_all add: omap_wf_fold_put map_of_fold_put omap_wf_distinct)

subsection \<open>Logs of writes and erasures\<close>

datatype ('k, 'v) log_op = Write 'k 'v | Erase 'k

fun log_key :: "('k, 'v) log_op \<Rightarrow> 'k" where
  "log_key (Write k v) = k"
| "log_key (Erase k) = k"

fun apply_op :: "('k \<Rightarrow> 'v \<Rightarrow> 'm \<Rightarrow> 'm) \<Rightarrow> ('k \<Rightarrow> 'm \<Rightarrow> 'm) \<Rightarrow> ('k, 'v) log_op \<Rightarrow> 'm \<Rightarrow> 'm" where
  "apply_op put erase (Write k v) m = put k v m"
| "apply_op put erase (Erase k) m = erase k m"

definition replay ::
  "('k \<Rightarrow> 'v \<Rightarrow> 'm \<Rightarrow> 'm) \<Rightarrow> ('k \<Rightarrow> 'm \<Rightarrow> 'm) \<Rightarrow> ('k, 'v) log_op list \<Rightarrow> 'm \<Rightarrow> 'm" where
  "replay put erase ops m = fold (apply_op put erase) ops m"

text \<open>What the log says of a key: \<open>None\<close> if it does not mention it, else its last entry.\<close>

fun last_entry :: "('k, 'v) log_op list \<Rightarrow> 'k \<Rightarrow> 'v option option" where
  "last_entry [] k = None"
| "last_entry (e # es) k =
     (case last_entry es k of
        Some r \<Rightarrow> Some r
      | None \<Rightarrow> (case e of Write k' v \<Rightarrow> if k' = k then Some (Some v) else None
                          | Erase k' \<Rightarrow> if k' = k then Some None else None))"

lemma last_entry_None: "last_entry es k = None \<longleftrightarrow> k \<notin> log_key ` set es"
  by (induction es) (auto split: option.splits log_op.splits)

lemma replay_Nil [simp]: "replay put erase [] m = m"
  by (simp add: replay_def)

lemma replay_Cons [simp]:
  "replay put erase (e # es) m = replay put erase es (apply_op put erase e m)"
  by (simp add: replay_def)

lemma replay_append: "replay put erase (es @ fs) m = replay put erase fs (replay put erase es m)"
  by (simp add: replay_def)

locale dictionary =
  fixes find :: "'m \<Rightarrow> 'k \<Rightarrow> 'v option"
    and put :: "'k \<Rightarrow> 'v \<Rightarrow> 'm \<Rightarrow> 'm"
    and erase :: "'k \<Rightarrow> 'm \<Rightarrow> 'm"
    and wf :: "'m \<Rightarrow> bool"
  assumes find_put: "find (put k v m) = (find m)(k \<mapsto> v)"
    and find_erase: "find (erase k m) = (find m)(k := None)"
    and wf_put: "wf m \<Longrightarrow> wf (put k v m)"
    and wf_erase: "wf m \<Longrightarrow> wf (erase k m)"
    and ext: "wf m \<Longrightarrow> wf n \<Longrightarrow> find m = find n \<Longrightarrow> m = n"
begin

lemma wf_replay: "wf m \<Longrightarrow> wf (replay put erase es m)"
proof (induction es arbitrary: m)
  case (Cons e es)
  then show ?case by (cases e) (simp_all add: wf_put wf_erase)
qed simp

lemma find_replay:
  "find (replay put erase es m) k =
     (case last_entry es k of None \<Rightarrow> find m k | Some r \<Rightarrow> r)"
proof (induction es arbitrary: m)
  case (Cons e es)
  show ?case
    by (cases e; cases "last_entry es k")
      (simp_all add: Cons.IH find_put find_erase)
qed simp

lemma replay_idem: "wf m \<Longrightarrow> replay put erase es (replay put erase es m) = replay put erase es m"
  by (rule ext) (auto simp: wf_replay find_replay fun_eq_iff split: option.splits)

lemma replay_puts_find:
  "find (replay put erase (map (\<lambda>(k, v). Write k v) kvs) m) k =
     (case map_of (rev kvs) k of None \<Rightarrow> find m k | Some v \<Rightarrow> Some v)"
proof (induction kvs arbitrary: m)
  case (Cons p kvs)
  then show ?case
    by (cases p) (auto simp: find_put map_add_def split: option.splits)
qed simp

end

interpretation omap: dictionary map_of omap_put omap_erase omap_wf
  by unfold_locales (auto intro: omap_eqI)

end
