(* ===== verification/Status_Model.thy ===== *)
theory Status_Model
  imports Main
begin

text \<open>
  Results of operations: \<open>src/infra/status.h\<close> and \<open>status.cpp\<close>. A \<open>Status\<close> is a code
  and a message; \<open>StatusOr<T>\<close> is a sum, \<open>Inl\<close> the status of a failure and \<open>Inr\<close> the
  value. A C++ exception that leaves a function is the constructor \<open>Throw\<close> of
  \<open>outcome\<close>, so that every exit of the source is a value of the model.
\<close>

datatype StatusCode =
    kOk | kInvalidArgument | kNotFound | kUnavailable | kTimeout | kInternal | kNotSupported

record Status =
  code :: StatusCode
  message :: string

type_synonym 'a StatusOr = "Status + 'a"

definition Ok :: Status where
  "Ok = \<lparr>code = kOk, message = []\<rparr>"

definition InvalidArgument :: "string \<Rightarrow> Status" where
  "InvalidArgument m = \<lparr>code = kInvalidArgument, message = m\<rparr>"

definition NotFound :: "string \<Rightarrow> Status" where
  "NotFound m = \<lparr>code = kNotFound, message = m\<rparr>"

definition Unavailable :: "string \<Rightarrow> Status" where
  "Unavailable m = \<lparr>code = kUnavailable, message = m\<rparr>"

definition Timeout :: "string \<Rightarrow> Status" where
  "Timeout m = \<lparr>code = kTimeout, message = m\<rparr>"

definition Internal :: "string \<Rightarrow> Status" where
  "Internal m = \<lparr>code = kInternal, message = m\<rparr>"

definition NotSupported :: "string \<Rightarrow> Status" where
  "NotSupported m = \<lparr>code = kNotSupported, message = m\<rparr>"

definition ok :: "Status \<Rightarrow> bool" where
  "ok s \<longleftrightarrow> code s = kOk"

fun StatusCodeToString :: "StatusCode \<Rightarrow> string" where
  "StatusCodeToString kOk = ''OK''"
| "StatusCodeToString kInvalidArgument = ''INVALID_ARGUMENT''"
| "StatusCodeToString kNotFound = ''NOT_FOUND''"
| "StatusCodeToString kUnavailable = ''UNAVAILABLE''"
| "StatusCodeToString kTimeout = ''TIMEOUT''"
| "StatusCodeToString kInternal = ''INTERNAL''"
| "StatusCodeToString kNotSupported = ''NOT_SUPPORTED''"

definition Status_ToString :: "Status \<Rightarrow> string" where
  "Status_ToString s =
     (if ok s then ''OK'' else StatusCodeToString (code s) @ '': '' @ message s)"

lemma ok_simps [simp]:
  "ok Ok" "\<not> ok (InvalidArgument m)" "\<not> ok (NotFound m)" "\<not> ok (Unavailable m)"
  "\<not> ok (Timeout m)" "\<not> ok (Internal m)" "\<not> ok (NotSupported m)"
  by (simp_all add: ok_def Ok_def InvalidArgument_def NotFound_def Unavailable_def
      Timeout_def Internal_def NotSupported_def)

lemma code_simps [simp]:
  "code Ok = kOk" "code (InvalidArgument m) = kInvalidArgument" "code (NotFound m) = kNotFound"
  "code (Unavailable m) = kUnavailable" "code (Timeout m) = kTimeout"
  "code (Internal m) = kInternal" "code (NotSupported m) = kNotSupported"
  by (simp_all add: Ok_def InvalidArgument_def NotFound_def Unavailable_def
      Timeout_def Internal_def NotSupported_def)

lemma message_simps [simp]:
  "message Ok = []" "message (InvalidArgument m) = m" "message (NotFound m) = m"
  "message (Unavailable m) = m" "message (Timeout m) = m" "message (Internal m) = m"
  "message (NotSupported m) = m"
  by (simp_all add: Ok_def InvalidArgument_def NotFound_def Unavailable_def
      Timeout_def Internal_def NotSupported_def)

lemma Status_neq_Ok [simp]:
  "InvalidArgument m \<noteq> Ok" "NotFound m \<noteq> Ok" "Unavailable m \<noteq> Ok"
  "Timeout m \<noteq> Ok" "Internal m \<noteq> Ok" "NotSupported m \<noteq> Ok"
  using ok_simps by metis+

lemma Status_inject [simp]:
  "InvalidArgument m = InvalidArgument n \<longleftrightarrow> m = n" "NotFound m = NotFound n \<longleftrightarrow> m = n"
  "Unavailable m = Unavailable n \<longleftrightarrow> m = n" "Timeout m = Timeout n \<longleftrightarrow> m = n"
  "Internal m = Internal n \<longleftrightarrow> m = n" "NotSupported m = NotSupported n \<longleftrightarrow> m = n"
  by (simp_all add: InvalidArgument_def NotFound_def Unavailable_def Timeout_def Internal_def
      NotSupported_def)

text \<open>The exceptions of the C++ library that the code can meet, and a call that may throw.\<close>

datatype cxx_exception =
    invalid_argument string
  | out_of_range string
  | json_error string
  | runtime_error string

datatype 'a outcome = Throw cxx_exception | Ret 'a

fun outcome_bind :: "'a outcome \<Rightarrow> ('a \<Rightarrow> 'b outcome) \<Rightarrow> 'b outcome" where
  "outcome_bind (Throw e) f = Throw e"
| "outcome_bind (Ret x) f = f x"

lemma outcome_bind_Ret_iff:
  "outcome_bind m f = Ret y \<longleftrightarrow> (\<exists>x. m = Ret x \<and> f x = Ret y)"
  by (cases m) auto

end
