(* ===== verification/Cxx_Strings.thy ===== *)
theory Cxx_Strings
  imports Status_Model "HOL-Library.Word" "HOL-Library.Char_ord" "HOL-Library.List_Lexorder"
begin

text \<open>
  What the program uses of the C++ standard library on byte strings: searching, trimming,
  \<open>std::getline\<close> splitting, the C-locale character classes, and the number parsers
  \<open>std::stoul\<close>, \<open>std::stoull\<close>, \<open>std::stoll\<close> and \<open>std::stoi\<close> with their exceptions
  (64-bit \<open>unsigned long\<close>, 32-bit \<open>int\<close>). Positions that the library reports as
  \<open>npos\<close> are \<open>None\<close>.
\<close>

named_theorems string_simps \<open>evaluation of the string library on literals\<close>

definition byte_of :: "char \<Rightarrow> nat" where
  "byte_of c = of_char c"

lemma byte_of_less: "byte_of c < 256"
proof -
  have "of_char c = (of_char c :: nat) mod 256" by simp
  then show ?thesis unfolding byte_of_def by (metis mod_less_divisor zero_less_numeral)
qed

lemma byte_of_inject [simp]: "byte_of c = byte_of d \<longleftrightarrow> c = d"
  by (simp add: byte_of_def)

lemma char_of_byte_of [simp]: "char_of (byte_of c) = c"
  by (simp add: byte_of_def)

lemma byte_of_char_of: "n < 256 \<Longrightarrow> byte_of (char_of n) = n"
  by (simp add: byte_of_def)

subsection \<open>Searching\<close>

fun find_char :: "char \<Rightarrow> string \<Rightarrow> nat option" where
  "find_char c [] = None"
| "find_char c (x # xs) = (if x = c then Some 0 else map_option Suc (find_char c xs))"

definition rfind_char :: "char \<Rightarrow> string \<Rightarrow> nat option" where
  "rfind_char c s = map_option (\<lambda>i. length s - 1 - i) (find_char c (rev s))"

text \<open>\<open>s.rfind(p, 0) == 0\<close>\<close>

definition starts_with :: "string \<Rightarrow> string \<Rightarrow> bool" where
  "starts_with p s \<longleftrightarrow> take (length p) s = p"

fun find_str :: "string \<Rightarrow> string \<Rightarrow> nat option" where
  "find_str p [] = (if p = [] then Some 0 else None)"
| "find_str p (x # xs) =
     (if starts_with p (x # xs) then Some 0 else map_option Suc (find_str p xs))"

definition contains :: "string \<Rightarrow> string \<Rightarrow> bool" where
  "contains s p \<longleftrightarrow> find_str p s \<noteq> None"

lemma find_char_None: "find_char c s = None \<longleftrightarrow> c \<notin> set s"
  by (induction s) auto

lemma find_char_Some:
  "find_char c s = Some i \<Longrightarrow> i < length s \<and> s ! i = c \<and> c \<notin> set (take i s)"
proof (induction s arbitrary: i)
  case (Cons x xs)
  then show ?case by (auto split: if_splits)
qed simp

lemma find_char_append:
  "find_char c (xs @ ys) =
     (case find_char c xs of Some i \<Rightarrow> Some i | None \<Rightarrow> map_option ((+) (length xs)) (find_char c ys))"
proof (induction xs)
  case Nil
  show ?case by (cases "find_char c ys") auto
next
  case (Cons x xs)
  then show ?case
    by (cases "find_char c xs"; cases "find_char c ys") auto
qed

lemma rfind_char_None: "rfind_char c s = None \<longleftrightarrow> c \<notin> set s"
  by (simp add: rfind_char_def find_char_None)

lemma rfind_char_snoc:
  assumes "c \<notin> set ys"
  shows "rfind_char c (xs @ c # ys) = Some (length xs)"
proof -
  have "find_char c (rev ys) = None" using assms by (simp add: find_char_None)
  then show ?thesis by (simp add: rfind_char_def find_char_append)
qed

lemma starts_with_append [simp]: "starts_with p (p @ s)"
  by (simp add: starts_with_def)

lemma starts_with_iff: "starts_with p s \<longleftrightarrow> (\<exists>t. s = p @ t)"
  by (auto simp: starts_with_def) (metis append_take_drop_id)

lemma starts_with_length: "starts_with p s \<Longrightarrow> length p \<le> length s"
  by (auto simp: starts_with_iff)

lemma find_str_Some:
  "find_str p s = Some i \<Longrightarrow> i + length p \<le> length s \<and> starts_with p (drop i s)"
proof (induction s arbitrary: i)
  case Nil
  then show ?case by (auto simp: starts_with_def split: if_splits)
next
  case (Cons x xs)
  then show ?case
    by (cases i) (auto dest: starts_with_length split: if_splits)
qed

lemma contains_iff: "contains s p \<longleftrightarrow> (\<exists>u v. s = u @ p @ v)"
proof
  assume "contains s p"
  then obtain i where "find_str p s = Some i" by (auto simp: contains_def)
  then have "starts_with p (drop i s)" by (simp add: find_str_Some)
  then obtain v where "drop i s = p @ v" by (auto simp: starts_with_iff)
  then have "s = take i s @ p @ v" by (metis append_take_drop_id)
  then show "\<exists>u v. s = u @ p @ v" by blast
next
  assume "\<exists>u v. s = u @ p @ v"
  then obtain u v where "s = u @ p @ v" by blast
  moreover have "find_str p (u @ p @ v) \<noteq> None"
  proof (induction u)
    case Nil
    have "starts_with p (p @ v)" by simp
    then show ?case by (cases "p @ v") (auto simp del: starts_with_append)
  qed auto
  ultimately show "contains s p" by (simp add: contains_def)
qed

subsection \<open>Character classes of the C locale\<close>

definition isspace :: "char \<Rightarrow> bool" where
  "isspace c \<longleftrightarrow> 9 \<le> byte_of c \<and> byte_of c \<le> 13 \<or> byte_of c = 32"

definition isdigit :: "char \<Rightarrow> bool" where
  "isdigit c \<longleftrightarrow> 48 \<le> byte_of c \<and> byte_of c \<le> 57"

definition isupper :: "char \<Rightarrow> bool" where
  "isupper c \<longleftrightarrow> 65 \<le> byte_of c \<and> byte_of c \<le> 90"

definition islower :: "char \<Rightarrow> bool" where
  "islower c \<longleftrightarrow> 97 \<le> byte_of c \<and> byte_of c \<le> 122"

definition isalnum :: "char \<Rightarrow> bool" where
  "isalnum c \<longleftrightarrow> isdigit c \<or> isupper c \<or> islower c"

definition tolower :: "char \<Rightarrow> char" where
  "tolower c = (if isupper c then char_of (byte_of c + 32) else c)"

definition ToLower :: "string \<Rightarrow> string" where
  "ToLower s = map tolower s"

lemma byte_of_tolower: "byte_of (tolower c) = (if isupper c then byte_of c + 32 else byte_of c)"
  by (simp add: tolower_def isupper_def byte_of_char_of)

lemma tolower_idem [simp]: "tolower (tolower c) = tolower c"
proof -
  have "\<not> isupper (tolower c)"
    by (auto simp: isupper_def byte_of_tolower)
  then show ?thesis by (simp add: tolower_def [of "tolower c"])
qed

lemma ToLower_idem [simp]: "ToLower (ToLower s) = ToLower s"
  by (simp add: ToLower_def)

lemma length_ToLower [simp]: "length (ToLower s) = length s"
  by (simp add: ToLower_def)

subsection \<open>Trimming and splitting\<close>

text \<open>The two loops of \<open>Trim\<close>: spaces off the front, then off the back.\<close>

fun trim_front :: "string \<Rightarrow> string" where
  "trim_front [] = []"
| "trim_front (c # s) = (if isspace c then trim_front s else c # s)"

definition trim_back :: "string \<Rightarrow> string" where
  "trim_back s = rev (trim_front (rev s))"

definition Trim :: "string \<Rightarrow> string" where
  "Trim s = trim_back (trim_front s)"

lemma trim_front_dropWhile: "trim_front s = dropWhile isspace s"
  by (induction s) auto

lemma trim_front_suffix: "\<exists>u. s = u @ trim_front s \<and> (\<forall>c \<in> set u. isspace c)"
proof (induction s)
  case (Cons c s)
  then obtain u where u: "s = u @ trim_front s" "\<forall>c \<in> set u. isspace c" by blast
  show ?case
  proof (cases "isspace c")
    case True
    from u(1) have "c # s = (c # u) @ trim_front s" by simp
    with True u(2) show ?thesis by (metis set_ConsD trim_front.simps(2))
  qed simp
qed simp

lemma trim_front_hd: "trim_front s \<noteq> [] \<Longrightarrow> \<not> isspace (hd (trim_front s))"
  by (induction s) auto

lemma trim_back_prefix: "\<exists>v. s = trim_back s @ v \<and> (\<forall>c \<in> set v. isspace c)"
proof -
  obtain u where "rev s = u @ trim_front (rev s)" and sp: "\<forall>c \<in> set u. isspace c"
    using trim_front_suffix by blast
  then have "s = trim_back s @ rev u"
    unfolding trim_back_def by (metis rev_append rev_rev_ident)
  with sp show ?thesis by (metis set_rev)
qed

lemma Trim_split: "\<exists>u v. s = u @ Trim s @ v \<and> (\<forall>c \<in> set u \<union> set v. isspace c)"
proof -
  obtain u where u: "s = u @ trim_front s" "\<forall>c \<in> set u. isspace c"
    using trim_front_suffix by blast
  obtain v where v: "trim_front s = Trim s @ v" "\<forall>c \<in> set v. isspace c"
    unfolding Trim_def using trim_back_prefix by blast
  from u v have "s = u @ Trim s @ v" by simp
  with u(2) v(2) show ?thesis by blast
qed

lemma Trim_ends:
  assumes "Trim s \<noteq> []"
  shows "\<not> isspace (hd (Trim s)) \<and> \<not> isspace (last (Trim s))"
proof -
  obtain v where v: "trim_front s = Trim s @ v"
    unfolding Trim_def using trim_back_prefix by blast
  with assms have "hd (Trim s) = hd (trim_front s)" and "trim_front s \<noteq> []" by auto
  moreover have "\<not> isspace (last (Trim s))"
    using assms trim_front_hd [of "rev (trim_front s)"]
    by (simp add: Trim_def trim_back_def last_rev)
  ultimately show ?thesis using trim_front_hd by metis
qed

lemma Trim_id: "s = [] \<or> \<not> isspace (hd s) \<and> \<not> isspace (last s) \<Longrightarrow> Trim s = s"
proof -
  have front: "trim_front t = t" if "t = [] \<or> \<not> isspace (hd t)" for t
    using that by (cases t) auto
  assume "s = [] \<or> \<not> isspace (hd s) \<and> \<not> isspace (last s)"
  then show ?thesis
    by (auto simp: Trim_def trim_back_def front hd_rev)
qed

text \<open>
  The pieces that \<open>while (std::getline(stream, token, d))\<close> yields: no piece for an empty
  stream and none after a final delimiter.
\<close>

fun getlines :: "char \<Rightarrow> string \<Rightarrow> string list" where
  "getlines d [] = []"
| "getlines d (c # s) =
     (if c = d then [] # getlines d s
      else (case getlines d s of [] \<Rightarrow> [[c]] | l # ls \<Rightarrow> (c # l) # ls))"

lemma getlines_no_delim: "d \<notin> set s \<Longrightarrow> s \<noteq> [] \<Longrightarrow> getlines d s = [s]"
proof (induction s)
  case (Cons c s)
  then show ?case by (cases s) auto
qed simp

lemma getlines_append: "d \<notin> set s \<Longrightarrow> getlines d (s @ d # t) = s # getlines d t"
proof (induction s)
  case (Cons c s)
  then show ?case by (cases s) auto
qed simp

lemma getlines_pieces: "l \<in> set (getlines d s) \<Longrightarrow> d \<notin> set l"
proof (induction d s arbitrary: l rule: getlines.induct)
  case (2 d c s)
  then show ?case by (auto split: if_splits list.splits)
qed simp

subsection \<open>Numbers\<close>

definition digit_value :: "char \<Rightarrow> nat" where
  "digit_value c = byte_of c - 48"

definition digits_value :: "string \<Rightarrow> nat" where
  "digits_value s = foldl (\<lambda>a c. a * 10 + digit_value c) 0 s"

text \<open>
  The common part of the \<open>strto...\<close> functions in base 10: leading white space, an optional
  sign, then the longest run of digits; \<open>None\<close> if there is no digit. Whatever follows the
  digits is ignored, as \<open>std::stoul\<close> does without its position argument.
\<close>

definition parse_digits :: "bool \<Rightarrow> string \<Rightarrow> (bool \<times> nat) option" where
  "parse_digits neg s =
     (case takeWhile isdigit s of [] \<Rightarrow> None | ds \<Rightarrow> Some (neg, digits_value ds))"

definition parse_number :: "string \<Rightarrow> (bool \<times> nat) option" where
  "parse_number s =
     (case trim_front s of
        [] \<Rightarrow> None
      | c # t \<Rightarrow> if c = CHR ''-'' then parse_digits True t
                 else if c = CHR ''+'' then parse_digits False t
                 else parse_digits False (c # t))"

text \<open>A negative argument of the unsigned parsers wraps around instead of failing.\<close>

definition parse_unsigned :: "string \<Rightarrow> string \<Rightarrow> nat outcome" where
  "parse_unsigned name s =
     (case parse_number s of
        None \<Rightarrow> Throw (invalid_argument name)
      | Some (neg, v) \<Rightarrow>
          if 2 ^ 64 \<le> v then Throw (out_of_range name)
          else Ret (if neg then (2 ^ 64 - v) mod 2 ^ 64 else v))"

definition cxx_stoul :: "string \<Rightarrow> nat outcome" where
  "cxx_stoul s = parse_unsigned ''stoul'' s"

definition cxx_stoull :: "string \<Rightarrow> nat outcome" where
  "cxx_stoull s = parse_unsigned ''stoull'' s"

definition cxx_stoll :: "string \<Rightarrow> int outcome" where
  "cxx_stoll s =
     (case parse_number s of
        None \<Rightarrow> Throw (invalid_argument ''stoll'')
      | Some (neg, v) \<Rightarrow>
          let x = (if neg then - int v else int v)
          in if x < - (2 ^ 63) \<or> 2 ^ 63 \<le> x then Throw (out_of_range ''stoll'') else Ret x)"

definition cxx_stoi :: "string \<Rightarrow> int outcome" where
  "cxx_stoi s =
     (case parse_number s of
        None \<Rightarrow> Throw (invalid_argument ''stoi'')
      | Some (neg, v) \<Rightarrow>
          let x = (if neg then - int v else int v)
          in if x < - (2 ^ 31) \<or> 2 ^ 31 \<le> x then Throw (out_of_range ''stoi'') else Ret x)"

text \<open>\<open>std::to_string\<close> of an unsigned and of a signed integer.\<close>

fun to_string :: "nat \<Rightarrow> string" where
  "to_string n =
     (if n < 10 then [char_of (48 + n)] else to_string (n div 10) @ [char_of (48 + n mod 10)])"

declare to_string.simps [simp del]

definition to_string_int :: "int \<Rightarrow> string" where
  "to_string_int i = (if i < 0 then CHR ''-'' # to_string (nat (- i)) else to_string (nat i))"

lemma digits_value_snoc: "digits_value (s @ [c]) = digits_value s * 10 + digit_value c"
  by (simp add: digits_value_def)

lemma to_string_digits: "to_string n \<noteq> [] \<and> (\<forall>c \<in> set (to_string n). isdigit c)"
proof (induction n rule: to_string.induct)
  case (1 n)
  show ?case
  proof (cases "n < 10")
    case True
    then show ?thesis by (simp add: to_string.simps [of n] isdigit_def byte_of_char_of)
  next
    case False
    with 1 show ?thesis
      by (subst to_string.simps) (auto simp: to_string.simps [of n] isdigit_def byte_of_char_of)
  qed
qed

lemma digits_value_to_string [simp]: "digits_value (to_string n) = n"
proof (induction n rule: to_string.induct)
  case (1 n)
  show ?case
  proof (cases "n < 10")
    case True
    then show ?thesis
      by (simp add: to_string.simps [of n] digits_value_def digit_value_def byte_of_char_of)
  next
    case False
    with 1 show ?thesis
      by (simp add: to_string.simps [of n] digits_value_snoc digit_value_def byte_of_char_of)
  qed
qed

lemma to_string_inject [simp]: "to_string m = to_string n \<longleftrightarrow> m = n"
  by (metis digits_value_to_string)

lemma isdigit_not_space: "isdigit c \<Longrightarrow> \<not> isspace c"
  by (auto simp: isdigit_def isspace_def)

lemma isdigit_not_sign: "isdigit c \<Longrightarrow> c \<noteq> CHR ''-'' \<and> c \<noteq> CHR ''+''"
  by (auto simp: isdigit_def byte_of_def)

lemma parse_number_to_string:
  assumes "s = [] \<or> \<not> isdigit (hd s)"
  shows "parse_number (to_string n @ s) = Some (False, n)"
proof -
  have dg: "\<forall>c \<in> set (to_string n). isdigit c" and "to_string n \<noteq> []"
    using to_string_digits by auto
  then obtain d ds where d: "to_string n = d # ds" and "isdigit d"
    by (metis list.exhaust list.set_intros(1))
  then have "trim_front (to_string n @ s) = d # ds @ s"
    by (simp add: isdigit_not_space)
  moreover have "takeWhile isdigit (d # ds @ s) = d # ds"
  proof -
    have "takeWhile isdigit (to_string n @ s) = to_string n @ takeWhile isdigit s"
      using dg by (intro takeWhile_append2) blast
    moreover have "takeWhile isdigit s = []"
      using assms by (cases s) auto
    ultimately show ?thesis by (simp add: d)
  qed
  moreover have "digits_value (d # ds) = n"
    by (metis d digits_value_to_string)
  ultimately show ?thesis
    using isdigit_not_sign [OF \<open>isdigit d\<close>] by (simp add: parse_number_def parse_digits_def)
qed

lemma cxx_stoul_to_string [simp]: "n < 2 ^ 64 \<Longrightarrow> cxx_stoul (to_string n) = Ret n"
  using parse_number_to_string [of "[]" n] by (simp add: cxx_stoul_def parse_unsigned_def)

lemma cxx_stoull_to_string [simp]: "n < 2 ^ 64 \<Longrightarrow> cxx_stoull (to_string n) = Ret n"
  using parse_number_to_string [of "[]" n] by (simp add: cxx_stoull_def parse_unsigned_def)

lemma parse_number_to_string_int:
  "parse_number (to_string_int i) = Some (i < 0, nat \<bar>i\<bar>)"
proof (cases "i < 0")
  case True
  obtain d ds where d: "to_string (nat (- i)) = d # ds" and dg: "\<forall>c \<in> set (d # ds). isdigit c"
    using to_string_digits [of "nat (- i)"] by (cases "to_string (nat (- i))") auto
  have digits: "takeWhile isdigit (d # ds) = d # ds"
    using dg by (simp add: takeWhile_eq_all_conv)
  moreover have "digits_value (d # ds) = nat (- i)"
    by (metis d digits_value_to_string)
  ultimately have "parse_digits True (d # ds) = Some (True, nat (- i))"
    unfolding parse_digits_def digits by simp
  with True show ?thesis
    unfolding to_string_int_def d
    by (simp add: parse_number_def isspace_def byte_of_def d)
next
  case False
  then show ?thesis
    using parse_number_to_string [of "[]" "nat i"] by (simp add: to_string_int_def)
qed

lemma cxx_stoll_to_string_int:
  "- (2 ^ 63) \<le> i \<Longrightarrow> i < 2 ^ 63 \<Longrightarrow> cxx_stoll (to_string_int i) = Ret i"
  by (auto simp: cxx_stoll_def parse_number_to_string_int Let_def)

lemma parse_unsigned_bound: "parse_unsigned name s = Ret n \<Longrightarrow> n < 2 ^ 64"
  by (auto simp: parse_unsigned_def split: option.splits if_splits prod.splits)

end
