(* ===== verification/Documents.thy ===== *)
theory Documents
  imports Ordered_Map Cxx_Strings
begin

text \<open>
  \<open>src/core/document.h\<close>, \<open>document.cpp\<close>: the stored document and the composite key under
  which the stores file it. \<open>std::uint64_t\<close> and \<open>std::int64_t\<close> fields are 64-bit words
  (\<open>sint\<close> reads the signed one). The separator byte of the composite key is not escaped,
  so two pairs collide exactly when a collection name contains it.
\<close>

record DocumentRecord =
  doc_collection :: string
  doc_key :: string
  doc_title :: string
  doc_body :: string
  doc_metadata :: "(string, string) omap"
  doc_version :: "64 word"
  doc_updated_at :: "64 word"
  doc_mutation_id :: string

text \<open>The default constructor.\<close>

definition empty_document :: DocumentRecord where
  "empty_document = \<lparr>doc_collection = [], doc_key = [], doc_title = [], doc_body = [],
     doc_metadata = [], doc_version = 0, doc_updated_at = 0, doc_mutation_id = []\<rparr>"

record 'd SearchReference =
  ref_collection :: string
  ref_key :: string
  ref_score :: 'd
  ref_metadata :: "(string, string) omap"

definition key_separator :: char where
  "key_separator = CHR 0x1F"

definition BuildCompositeKey :: "string \<Rightarrow> string \<Rightarrow> string" where
  "BuildCompositeKey c k = c @ [key_separator] @ k"

definition document_key :: "DocumentRecord \<Rightarrow> string" where
  "document_key r = BuildCompositeKey (doc_collection r) (doc_key r)"

lemma split_unique:
  assumes "xs @ s # ys = us @ s # vs" and "s \<notin> set xs" and "s \<notin> set us"
  shows "xs = us \<and> ys = vs"
  using assms
proof (induction xs arbitrary: us)
  case Nil
  then show ?case by (cases us) auto
next
  case (Cons x xs)
  then show ?case by (cases us) auto
qed

lemma BuildCompositeKey_inject:
  assumes "key_separator \<notin> set c" and "key_separator \<notin> set d"
  shows "BuildCompositeKey c k = BuildCompositeKey d l \<longleftrightarrow> c = d \<and> k = l"
proof
  assume "BuildCompositeKey c k = BuildCompositeKey d l"
  then have "c @ key_separator # k = d @ key_separator # l"
    by (simp add: BuildCompositeKey_def)
  then show "c = d \<and> k = l" using assms by (rule split_unique)
qed simp

lemma BuildCompositeKey_same_collection [simp]:
  "BuildCompositeKey c k = BuildCompositeKey c l \<longleftrightarrow> k = l"
  by (simp add: BuildCompositeKey_def)

lemma append_less_append [simp]: "(p @ xs :: string) < p @ ys \<longleftrightarrow> xs < ys"
  by (induction p) auto

lemma append_le_append [simp]: "(p @ xs :: string) \<le> p @ ys \<longleftrightarrow> xs \<le> ys"
  by (induction p) auto

lemma BuildCompositeKey_le [simp]: "BuildCompositeKey c k \<le> BuildCompositeKey c l \<longleftrightarrow> k \<le> l"
  by (simp add: BuildCompositeKey_def)

lemma BuildCompositeKey_less [simp]: "BuildCompositeKey c k < BuildCompositeKey c l \<longleftrightarrow> k < l"
  by (simp add: BuildCompositeKey_def)

text \<open>
  The keys of one collection are an interval: between two composite keys of a collection
  lie only strings that begin with that collection and the separator.
\<close>

lemma between_prefix:
  assumes "p @ xs \<le> (s :: string)" and "s \<le> p @ ys"
  shows "\<exists>t. s = p @ t"
  using assms
proof (induction p arbitrary: s)
  case (Cons a p)
  then obtain b u where s: "s = b # u"
    by (cases s) auto
  with Cons.prems have "a = b" and "p @ xs \<le> u" and "u \<le> p @ ys"
    by auto
  with Cons.IH s show ?case by auto
qed simp

lemma between_composite:
  assumes "BuildCompositeKey c k \<le> s" and "s \<le> BuildCompositeKey c l"
  shows "\<exists>t. s = BuildCompositeKey c t"
  using between_prefix [of "c @ [key_separator]" k s l] assms
  by (simp add: BuildCompositeKey_def)

end
