(* ===== verification/Kv_Interface.thy ===== *)
theory Kv_Interface
  imports Documents Status_Model
begin

text \<open>
  The mutation rules of \<open>src/core/kv_store.cpp\<close> and the interface \<open>KvStore\<close> of
  \<open>src/core/kv_store.h\<close>. The locale \<open>kv_store\<close> holds what every implementation promises of
  \<open>Put\<close>: a mutation is applied, or recognised as a retry, or refused as stale; \<open>retry_store\<close>
  adds that a retry is recognised whatever happens around the store. In them the facts that
  the clients rest on are proved once.
\<close>

subsection \<open>Mutations\<close>

definition IsDuplicateMutation :: "DocumentRecord \<Rightarrow> DocumentRecord \<Rightarrow> bool" where
  "IsDuplicateMutation existing incoming \<longleftrightarrow>
     doc_mutation_id incoming \<noteq> [] \<and> doc_mutation_id existing = doc_mutation_id incoming"

definition ValidateMutation :: "DocumentRecord \<Rightarrow> DocumentRecord \<Rightarrow> Status" where
  "ValidateMutation existing incoming =
     (if IsDuplicateMutation existing incoming then Ok
      else if doc_version incoming \<noteq> 0 \<and> doc_version existing \<noteq> 0
              \<and> doc_version incoming < doc_version existing
      then InvalidArgument
        ''stale document mutation: incoming version is older than stored version''
      else Ok)"

subsection \<open>Facts about mutations\<close>

lemma ValidateMutation_ok:
  "ok (ValidateMutation e r) \<longleftrightarrow>
     IsDuplicateMutation e r \<or> doc_version r = 0 \<or> doc_version e = 0 \<or> doc_version e \<le> doc_version r"
  by (auto simp: ValidateMutation_def not_less)

lemma ValidateMutation_cases:
  "ValidateMutation e r = Ok \<or> (\<exists>m. ValidateMutation e r = InvalidArgument m)"
  by (auto simp: ValidateMutation_def)


text \<open>Whether a stored document admits a mutation, and what is stored after it.\<close>

definition accepts :: "DocumentRecord option \<Rightarrow> DocumentRecord \<Rightarrow> bool" where
  "accepts old r = (case old of None \<Rightarrow> True | Some e \<Rightarrow> ok (ValidateMutation e r))"

definition settle :: "DocumentRecord option \<Rightarrow> DocumentRecord \<Rightarrow> DocumentRecord" where
  "settle old r = (case old of None \<Rightarrow> r | Some e \<Rightarrow> if IsDuplicateMutation e r then e else r)"

lemma accepts_None [simp]: "accepts None r"
  by (simp add: accepts_def)

lemma settle_None [simp]: "settle None r = r"
  by (simp add: settle_def)

text \<open>The last version at a key, where zero stands for a document without a version.\<close>

lemma settle_version:
  assumes "accepts (Some e) r" and "doc_version e \<noteq> 0" and "doc_version r \<noteq> 0"
  shows "doc_version e \<le> doc_version (settle (Some e) r) \<and> doc_version (settle (Some e) r) \<noteq> 0"
  using assms by (auto simp: accepts_def settle_def ValidateMutation_ok)

lemma settle_retry:
  assumes "doc_mutation_id r \<noteq> []"
  shows "accepts (Some (settle old r)) r" and "settle (Some (settle old r)) r = settle old r"
    and "IsDuplicateMutation (settle old r) r"
proof -
  show d: "IsDuplicateMutation (settle old r) r"
    using assms by (auto simp: settle_def IsDuplicateMutation_def split: option.splits)
  then show "accepts (Some (settle old r)) r"
    by (simp add: accepts_def ValidateMutation_ok)
  from d show "settle (Some (settle old r)) r = settle old r"
    by (simp add: settle_def [of "Some _"])
qed

locale kv_store =
  fixes good :: "'s \<Rightarrow> bool"
    and storable :: "DocumentRecord \<Rightarrow> bool"
    and place :: "DocumentRecord \<Rightarrow> 'k"
    and lookup :: "'s \<Rightarrow> 'k \<Rightarrow> DocumentRecord option"
    and put :: "DocumentRecord \<Rightarrow> 's \<Rightarrow> Status \<times> 's"
  assumes put_good: "good s \<Longrightarrow> storable r \<Longrightarrow> put r s = (status, s') \<Longrightarrow> good s'"
    and put_ok: "good s \<Longrightarrow> storable r \<Longrightarrow> put r s = (status, s') \<Longrightarrow> ok status \<Longrightarrow>
      accepts (lookup s (place r)) r \<and> lookup s' = (lookup s)(place r \<mapsto> settle (lookup s (place r)) r)"
    and put_failed: "good s \<Longrightarrow> storable r \<Longrightarrow> put r s = (status, s') \<Longrightarrow> \<not> ok status \<Longrightarrow>
      lookup s' = lookup s \<or>
      accepts (lookup s (place r)) r \<and> lookup s' = (lookup s)(place r \<mapsto> settle (lookup s (place r)) r)"
begin

lemma put_cases:
  assumes "good s" and "storable r" and "put r s = (status, s')"
  obtains "lookup s' = lookup s"
  | "accepts (lookup s (place r)) r" "lookup s' = (lookup s)(place r \<mapsto> settle (lookup s (place r)) r)"
  using put_ok [OF assms] put_failed [OF assms] by (cases "ok status") blast+

lemma put_frame:
  "good s \<Longrightarrow> storable r \<Longrightarrow> put r s = (status, s') \<Longrightarrow> k \<noteq> place r \<Longrightarrow> lookup s' k = lookup s k"
  by (erule (2) put_cases) simp_all

lemma put_stale:
  assumes "good s" and "storable r" and "lookup s (place r) = Some e" and "\<not> IsDuplicateMutation e r"
    and "doc_version r \<noteq> 0" and "doc_version r < doc_version e"
  shows "\<not> ok (fst (put r s)) \<and> lookup (snd (put r s)) = lookup s"
proof -
  obtain status s' where p: "put r s = (status, s')" by (cases "put r s")
  have "\<not> accepts (Some e) r"
    using assms by (auto simp: accepts_def ValidateMutation_ok)
  with assms(3) put_ok [OF assms(1,2) p] put_failed [OF assms(1,2) p] p show ?thesis by auto
qed

definition puts :: "DocumentRecord list \<Rightarrow> 's \<Rightarrow> 's" where
  "puts rs s = fold (\<lambda>r s. snd (put r s)) rs s"

lemma versions_grow:
  assumes "good s" and "\<forall>r \<in> set rs. storable r \<and> doc_version r \<noteq> 0"
    and "lookup s k = Some e" and "doc_version e \<noteq> 0"
  shows "\<exists>e'. lookup (puts rs s) k = Some e' \<and> doc_version e \<le> doc_version e'"
  using assms
proof (induction rs arbitrary: s e)
  case (Cons r rs)
  obtain status s' where p: "put r s = (status, s')" by (cases "put r s")
  from Cons.prems(1,2) p have "\<exists>e1. lookup s' k = Some e1 \<and> doc_version e \<le> doc_version e1 \<and> doc_version e1 \<noteq> 0"
  proof (elim put_cases)
    assume "lookup s' = lookup s"
    with Cons.prems show ?thesis by auto
  next
    assume a: "accepts (lookup s (place r)) r"
      and l: "lookup s' = (lookup s)(place r \<mapsto> settle (lookup s (place r)) r)"
    show ?thesis
    proof (cases "k = place r")
      case True
      with Cons.prems(3) have old: "lookup s (place r) = Some e" by simp
      with a have "accepts (Some e) r" by simp
      from settle_version [OF this Cons.prems(4)] Cons.prems(2) l True old show ?thesis by simp
    next
      case False
      with l Cons.prems show ?thesis by simp
    qed
  qed simp
  then obtain e1 where "lookup s' k = Some e1" "doc_version e \<le> doc_version e1" "doc_version e1 \<noteq> 0"
    by blast
  with Cons.IH [of s' e1] put_good [OF Cons.prems(1) _ p] Cons.prems(2) p show ?case
    by (auto simp: puts_def intro: order.trans)
qed (simp add: puts_def)

end

text \<open>A store that also recognises every retry, whatever its surroundings do.\<close>

locale retry_store = kv_store +
  assumes put_retry: "good s \<Longrightarrow> storable r \<Longrightarrow> lookup s (place r) = Some e \<Longrightarrow> IsDuplicateMutation e r \<Longrightarrow>
      put r s = (Ok, s)"
begin

lemma put_idempotent:
  assumes "good s" and "storable r" and "put r s = (status, s')" and "ok status" and "doc_mutation_id r \<noteq> []"
  shows "put r s' = (Ok, s')"
  using put_ok [OF assms(1-4)] settle_retry(3) [OF assms(5)]
  by (intro put_retry [OF put_good [OF assms(1-3)] assms(2)]) (simp, blast)

end

end
