(* ===== verification/Codec.thy ===== *)
theory Codec
  imports Documents
begin

text \<open>
  \<open>src/core/persistence_codec.h\<close>, \<open>persistence_codec.cpp\<close>: the messages that the store
  files hold and their length-framed stream. The message classes are generated from
  \<open>src/proto/search.proto\<close>: a generated class is a record with the fields of its message,
  and its serialiser and parser are the fields of the parameter \<open>pb_api\<close>. \<open>pb_laws\<close> states
  what the protocol buffer documentation promises of them: a message that can be
  serialised (UTF-8 text, at most 2 GiB) is read back with the same fields, a map field in
  any iteration order. The locale \<open>framed_codec\<close> is the contract between a message codec
  and the framed files; it is interpreted on the three codecs of the program.
\<close>

unbundle bit_operations_syntax

type_synonym float32 = "32 word"

subsection \<open>Generated message classes\<close>

record pb_document =
  pb_collection :: string
  pb_key :: string
  pb_title :: string
  pb_body :: string
  pb_metadata :: "(string \<times> string) list"
  pb_version :: "64 word"
  pb_updated_at :: "64 word"
  pb_mutation_id :: string

datatype pb_operation = WAL_OPERATION_UNSPECIFIED | WAL_OPERATION_PUT | WAL_OPERATION_DELETE

record pb_wal_entry =
  pbw_operation :: pb_operation
  pbw_record :: "pb_document option"
  pbw_collection :: string
  pbw_key :: string

record pb_vector_entry =
  pbv_record :: "pb_document option"
  pbv_vector :: "float32 list"

definition default_pb_document :: pb_document where
  "default_pb_document = \<lparr>pb_collection = [], pb_key = [], pb_title = [], pb_body = [],
     pb_metadata = [], pb_version = 0, pb_updated_at = 0, pb_mutation_id = []\<rparr>"

text \<open>A submessage that is not set reads as the default message.\<close>

definition get_record :: "pb_document option \<Rightarrow> pb_document" where
  "get_record r = (case r of None \<Rightarrow> default_pb_document | Some d \<Rightarrow> d)"

record pb_api =
  ser_doc :: "pb_document \<Rightarrow> string"
  parse_doc :: "string \<Rightarrow> pb_document option"
  doc_ok :: "pb_document \<Rightarrow> bool"
  ser_wal :: "pb_wal_entry \<Rightarrow> string"
  parse_wal :: "string \<Rightarrow> pb_wal_entry option"
  wal_ok :: "pb_wal_entry \<Rightarrow> bool"
  ser_vec :: "pb_vector_entry \<Rightarrow> string"
  parse_vec :: "string \<Rightarrow> pb_vector_entry option"
  vec_ok :: "pb_vector_entry \<Rightarrow> bool"

text \<open>The same message, up to the iteration order of its map field.\<close>

definition same_doc :: "pb_document \<Rightarrow> pb_document \<Rightarrow> bool" where
  "same_doc m m' \<longleftrightarrow>
     m'\<lparr>pb_metadata := []\<rparr> = m\<lparr>pb_metadata := []\<rparr> \<and>
     distinct (map fst (pb_metadata m')) \<and> map_of (pb_metadata m') = map_of (pb_metadata m)"

definition same_wal :: "pb_wal_entry \<Rightarrow> pb_wal_entry \<Rightarrow> bool" where
  "same_wal m m' \<longleftrightarrow>
     pbw_operation m' = pbw_operation m \<and> pbw_collection m' = pbw_collection m \<and>
     pbw_key m' = pbw_key m \<and> rel_option same_doc (pbw_record m) (pbw_record m')"

definition same_vec :: "pb_vector_entry \<Rightarrow> pb_vector_entry \<Rightarrow> bool" where
  "same_vec m m' \<longleftrightarrow>
     pbv_vector m' = pbv_vector m \<and> rel_option same_doc (pbv_record m) (pbv_record m')"

definition codec_law ::
  "('m \<Rightarrow> bool) \<Rightarrow> ('m \<Rightarrow> 'm \<Rightarrow> bool) \<Rightarrow> ('m \<Rightarrow> string) \<Rightarrow> (string \<Rightarrow> 'm option) \<Rightarrow> bool" where
  "codec_law good same ser parse \<longleftrightarrow>
     (\<forall>m. good m \<longrightarrow> length (ser m) < 2 ^ 31 \<and> (\<exists>m'. parse (ser m) = Some m' \<and> same m m'))"

definition pb_laws :: "pb_api \<Rightarrow> bool" where
  "pb_laws pb \<longleftrightarrow>
     codec_law (doc_ok pb) same_doc (ser_doc pb) (parse_doc pb) \<and>
     codec_law (wal_ok pb) same_wal (ser_wal pb) (parse_wal pb) \<and>
     codec_law (vec_ok pb) same_vec (ser_vec pb) (parse_vec pb)"

subsection \<open>Conversion to and from the messages\<close>

datatype WalOperation = kPut | kDelete

record WalEntry =
  wal_operation :: WalOperation
  wal_record :: DocumentRecord
  wal_collection :: string
  wal_key :: string

definition default_WalEntry :: WalEntry where
  "default_WalEntry = \<lparr>wal_operation = kPut, wal_record = empty_document,
     wal_collection = [], wal_key = []\<rparr>"

record VectorEntry =
  ve_record :: DocumentRecord
  ve_vector :: "float32 list"

definition ToProto :: "DocumentRecord \<Rightarrow> pb_document" where
  "ToProto r = \<lparr>pb_collection = doc_collection r, pb_key = doc_key r, pb_title = doc_title r,
     pb_body = doc_body r, pb_metadata = doc_metadata r, pb_version = doc_version r,
     pb_updated_at = doc_updated_at r, pb_mutation_id = doc_mutation_id r\<rparr>"

definition FromProto :: "pb_document \<Rightarrow> DocumentRecord" where
  "FromProto m = \<lparr>doc_collection = pb_collection m, doc_key = pb_key m, doc_title = pb_title m,
     doc_body = pb_body m,
     doc_metadata = fold (\<lambda>(k, v). omap_put k v) (pb_metadata m) [],
     doc_version = pb_version m, doc_updated_at = pb_updated_at m,
     doc_mutation_id = pb_mutation_id m\<rparr>"

fun ToProtoOperation :: "WalOperation \<Rightarrow> pb_operation" where
  "ToProtoOperation kPut = WAL_OPERATION_PUT"
| "ToProtoOperation kDelete = WAL_OPERATION_DELETE"

definition FromProtoOperation :: "pb_operation \<Rightarrow> WalOperation" where
  "FromProtoOperation p = (if p = WAL_OPERATION_DELETE then kDelete else kPut)"

definition EncodeDocumentRecord :: "pb_api \<Rightarrow> DocumentRecord \<Rightarrow> string" where
  "EncodeDocumentRecord pb r = ser_doc pb (ToProto r)"

definition DecodeDocumentRecord :: "pb_api \<Rightarrow> string \<Rightarrow> DocumentRecord StatusOr" where
  "DecodeDocumentRecord pb payload =
     (case parse_doc pb payload of
        None \<Rightarrow> Inl (Internal ''failed to parse protobuf DocumentRecord'')
      | Some m \<Rightarrow> Inr (FromProto m))"

definition ToProtoWal :: "WalEntry \<Rightarrow> pb_wal_entry" where
  "ToProtoWal e =
     (if wal_operation e = kPut
      then \<lparr>pbw_operation = ToProtoOperation (wal_operation e),
            pbw_record = Some (ToProto (wal_record e)), pbw_collection = [], pbw_key = []\<rparr>
      else \<lparr>pbw_operation = ToProtoOperation (wal_operation e), pbw_record = None,
            pbw_collection = wal_collection e, pbw_key = wal_key e\<rparr>)"

definition EncodeWalEntry :: "pb_api \<Rightarrow> WalEntry \<Rightarrow> string" where
  "EncodeWalEntry pb e = ser_wal pb (ToProtoWal e)"

definition DecodeWalEntry :: "pb_api \<Rightarrow> string \<Rightarrow> WalEntry StatusOr" where
  "DecodeWalEntry pb payload =
     (case parse_wal pb payload of
        None \<Rightarrow> Inl (Internal ''failed to parse protobuf WalEntry'')
      | Some m \<Rightarrow>
          Inr (if FromProtoOperation (pbw_operation m) = kPut
               then default_WalEntry\<lparr>wal_operation := kPut,
                      wal_record := FromProto (get_record (pbw_record m))\<rparr>
               else default_WalEntry\<lparr>wal_operation := kDelete,
                      wal_collection := pbw_collection m, wal_key := pbw_key m\<rparr>))"

definition ToProtoVector :: "VectorEntry \<Rightarrow> pb_vector_entry" where
  "ToProtoVector e = \<lparr>pbv_record = Some (ToProto (ve_record e)), pbv_vector = ve_vector e\<rparr>"

definition EncodeVectorEntry :: "pb_api \<Rightarrow> VectorEntry \<Rightarrow> string" where
  "EncodeVectorEntry pb e = ser_vec pb (ToProtoVector e)"

definition DecodeVectorEntry :: "pb_api \<Rightarrow> string \<Rightarrow> VectorEntry StatusOr" where
  "DecodeVectorEntry pb payload =
     (case parse_vec pb payload of
        None \<Rightarrow> Inl (Internal ''failed to parse protobuf VectorEntry'')
      | Some m \<Rightarrow> Inr \<lparr>ve_record = FromProto (get_record (pbv_record m)),
                        ve_vector = pbv_vector m\<rparr>)"

subsection \<open>The framed stream\<close>

definition MagicHeader :: string where
  "MagicHeader = ''KVAI-PB1'' @ [CHR 0x0A]"

text \<open>The four length bytes, least significant first; the length is cut to 32 bits.\<close>

definition length_bytes :: "32 word \<Rightarrow> string" where
  "length_bytes w = map (\<lambda>shift. char_of (unat (drop_bit shift w AND 0xFF))) [0, 8, 16, 24]"

definition EncodeFrame :: "string \<Rightarrow> string" where
  "EncodeFrame payload = length_bytes (word_of_nat (length payload)) @ payload"

definition read_length :: "string \<Rightarrow> 32 word" where
  "read_length b =
     fold (\<lambda>i w. w OR push_bit (8 * i) (word_of_nat (byte_of (b ! i)))) [0, 1, 2, 3] 0"

text \<open>The loop of \<open>DecodeFrames\<close>; its argument is what lies behind \<open>offset\<close>.\<close>

function decode_frames_from :: "string \<Rightarrow> string list StatusOr" where
  "decode_frames_from rest =
     (if rest = [] then Inr []
      else if length rest < 4 then Inl (Internal ''truncated protobuf persistence frame'')
      else
        let n = unat (read_length (take 4 rest)); rest' = drop 4 rest in
        if n > length rest' then Inl (Internal ''truncated protobuf persistence payload'')
        else
          (case decode_frames_from (drop n rest') of
             Inl e \<Rightarrow> Inl e
           | Inr frames \<Rightarrow> Inr (take n rest' # frames)))"
  by pat_completeness auto
termination
  by (relation "measure length") auto

declare decode_frames_from.simps [simp del]

definition DecodeFrames :: "string \<Rightarrow> string list StatusOr" where
  "DecodeFrames bytes =
     (if \<not> starts_with MagicHeader bytes
      then Inl (InvalidArgument ''missing protobuf persistence magic header'')
      else decode_frames_from (drop (length MagicHeader) bytes))"

subsection \<open>Round trips of the messages\<close>

lemma FromProto_ToProto:
  assumes "omap_wf (doc_metadata r)" and "same_doc (ToProto r) m"
  shows "FromProto m = r"
proof -
  have d: "distinct (map fst (pb_metadata m))" and l: "map_of (pb_metadata m) = map_of (doc_metadata r)"
    and rest: "m\<lparr>pb_metadata := []\<rparr> = (ToProto r)\<lparr>pb_metadata := []\<rparr>"
    using assms(2) by (simp_all add: same_doc_def ToProto_def)
  have md: "fold (\<lambda>(k, v). omap_put k v) (pb_metadata m) [] = doc_metadata r"
    using d l assms(1) by (intro omap_eqI) (simp_all add: omap_wf_fold_put map_of_fold_put)
  have "pb_collection m = doc_collection r" "pb_key m = doc_key r" "pb_title m = doc_title r"
    "pb_body m = doc_body r" "pb_version m = doc_version r" "pb_updated_at m = doc_updated_at r"
    "pb_mutation_id m = doc_mutation_id r"
    using rest by (cases m; simp add: ToProto_def)+
  with md show ?thesis by (simp add: FromProto_def)
qed

definition document_ok :: "pb_api \<Rightarrow> DocumentRecord \<Rightarrow> bool" where
  "document_ok pb r \<longleftrightarrow> omap_wf (doc_metadata r) \<and> doc_ok pb (ToProto r)"

text \<open>An entry carries either a record (put) or the two names of a key (delete).\<close>

definition wal_entry_ok :: "pb_api \<Rightarrow> WalEntry \<Rightarrow> bool" where
  "wal_entry_ok pb e \<longleftrightarrow>
     wal_ok pb (ToProtoWal e) \<and>
     (case wal_operation e of
        kPut \<Rightarrow> omap_wf (doc_metadata (wal_record e)) \<and> wal_collection e = [] \<and> wal_key e = []
      | kDelete \<Rightarrow> wal_record e = empty_document)"

definition vector_entry_ok :: "pb_api \<Rightarrow> VectorEntry \<Rightarrow> bool" where
  "vector_entry_ok pb e \<longleftrightarrow>
     vec_ok pb (ToProtoVector e) \<and> omap_wf (doc_metadata (ve_record e))"

lemma codec_lawD:
  assumes "codec_law good same ser parse" and "good m"
  obtains m' where "parse (ser m) = Some m'" and "same m m'" and "length (ser m) < 2 ^ 31"
  using assms by (auto simp: codec_law_def)

lemma DecodeDocumentRecord_Encode:
  assumes "pb_laws pb" and "document_ok pb r"
  shows "DecodeDocumentRecord pb (EncodeDocumentRecord pb r) = Inr r"
    and "length (EncodeDocumentRecord pb r) < 2 ^ 31"
proof -
  from assms obtain m where m: "parse_doc pb (ser_doc pb (ToProto r)) = Some m" "same_doc (ToProto r) m"
    and len: "length (ser_doc pb (ToProto r)) < 2 ^ 31"
    unfolding pb_laws_def document_ok_def by (blast elim: codec_lawD)
  then have "FromProto m = r"
    using assms(2) FromProto_ToProto by (simp add: document_ok_def)
  with m show "DecodeDocumentRecord pb (EncodeDocumentRecord pb r) = Inr r"
    by (simp add: DecodeDocumentRecord_def EncodeDocumentRecord_def)
  from len show "length (EncodeDocumentRecord pb r) < 2 ^ 31"
    by (simp add: EncodeDocumentRecord_def)
qed

lemma DecodeWalEntry_Encode:
  assumes "pb_laws pb" and "wal_entry_ok pb e"
  shows "DecodeWalEntry pb (EncodeWalEntry pb e) = Inr e"
    and "length (EncodeWalEntry pb e) < 2 ^ 31"
proof -
  from assms obtain m where m: "parse_wal pb (ser_wal pb (ToProtoWal e)) = Some m" "same_wal (ToProtoWal e) m"
    and len: "length (ser_wal pb (ToProtoWal e)) < 2 ^ 31"
    unfolding pb_laws_def wal_entry_ok_def by (blast elim: codec_lawD)
  from len show "length (EncodeWalEntry pb e) < 2 ^ 31"
    by (simp add: EncodeWalEntry_def)
  show "DecodeWalEntry pb (EncodeWalEntry pb e) = Inr e"
  proof (cases "wal_operation e")
    case kPut
    with m(2) obtain d where d: "pbw_record m = Some d" "same_doc (ToProto (wal_record e)) d"
      and op: "pbw_operation m = WAL_OPERATION_PUT"
      by (auto simp: same_wal_def ToProtoWal_def option_rel_Some1)
    have "FromProto d = wal_record e"
      using assms(2) kPut d(2) by (intro FromProto_ToProto) (simp_all add: wal_entry_ok_def)
    with m d op kPut assms(2) show ?thesis
      by (simp add: DecodeWalEntry_def EncodeWalEntry_def FromProtoOperation_def get_record_def
          default_WalEntry_def wal_entry_ok_def)
  next
    case kDelete
    with m assms(2) show ?thesis
      by (simp add: DecodeWalEntry_def EncodeWalEntry_def FromProtoOperation_def
          default_WalEntry_def wal_entry_ok_def same_wal_def ToProtoWal_def)
  qed
qed

lemma DecodeVectorEntry_Encode:
  assumes "pb_laws pb" and "vector_entry_ok pb e"
  shows "DecodeVectorEntry pb (EncodeVectorEntry pb e) = Inr e"
    and "length (EncodeVectorEntry pb e) < 2 ^ 31"
proof -
  from assms obtain m where m: "parse_vec pb (ser_vec pb (ToProtoVector e)) = Some m" "same_vec (ToProtoVector e) m"
    and len: "length (ser_vec pb (ToProtoVector e)) < 2 ^ 31"
    unfolding pb_laws_def vector_entry_ok_def by (blast elim: codec_lawD)
  from len show "length (EncodeVectorEntry pb e) < 2 ^ 31"
    by (simp add: EncodeVectorEntry_def)
  from m(2) obtain d where d: "pbv_record m = Some d" "same_doc (ToProto (ve_record e)) d"
    by (auto simp: same_vec_def ToProtoVector_def option_rel_Some1)
  have "FromProto d = ve_record e"
    using assms(2) d(2) by (intro FromProto_ToProto) (simp_all add: vector_entry_ok_def)
  with m d show "DecodeVectorEntry pb (EncodeVectorEntry pb e) = Inr e"
    by (simp add: DecodeVectorEntry_def EncodeVectorEntry_def get_record_def same_vec_def
        ToProtoVector_def)
qed

subsection \<open>Round trips of the framed stream\<close>

lemma length_length_bytes [simp]: "length (length_bytes w) = 4"
  by (simp add: length_bytes_def)

lemma length_bytes_not_Nil [simp]: "length_bytes w \<noteq> []"
  by (simp add: length_bytes_def)

lemma byte_word: "word_of_nat (byte_of (char_of (unat (x AND 0xFF :: 32 word)))) = x AND 0xFF"
proof -
  have "unat (x AND 0xFF) \<le> unat (0xFF :: 32 word)"
    by (rule word_and_le1 [THEN word_le_nat_alt [THEN iffD1]])
  then have "unat (x AND 0xFF) < 256" by simp
  then show ?thesis by (simp add: byte_of_char_of)
qed

lemma read_length_bytes [simp]: "read_length (length_bytes w) = w"
proof -
  have m: "(0xFF :: 32 word) = mask 8" by (simp add: mask_eq_exp_minus_1)
  have "read_length (length_bytes w) =
      (w AND mask 8) OR push_bit 8 (drop_bit 8 w AND mask 8)
      OR push_bit 16 (drop_bit 16 w AND mask 8) OR push_bit 24 (drop_bit 24 w AND mask 8)"
    unfolding read_length_def length_bytes_def
    by (simp add: byte_word m [symmetric] ac_simps)
  also have "\<dots> = w"
  proof (rule bit_word_eqI)
    fix n :: nat
    assume "n < LENGTH(32)"
    then consider "n < 8" | "8 \<le> n" "n < 16" | "16 \<le> n" "n < 24" | "24 \<le> n" "n < 32"
      by fastforce
    then show "bit (w AND mask 8 OR push_bit 8 (drop_bit 8 w AND mask 8)
        OR push_bit 16 (drop_bit 16 w AND mask 8) OR push_bit 24 (drop_bit 24 w AND mask 8)) n = bit w n"
      by cases (auto simp: bit_simps)
  qed
  finally show ?thesis .
qed

lemma unat_frame_length: "length p < 2 ^ 32 \<Longrightarrow> unat (word_of_nat (length p) :: 32 word) = length p"
  by (simp add: unat_of_nat take_bit_nat_eq_self)

lemma decode_frames_from_frame:
  assumes "length p < 2 ^ 32"
  shows "decode_frames_from (EncodeFrame p @ rest) =
    (case decode_frames_from rest of Inl e \<Rightarrow> Inl e | Inr fs \<Rightarrow> Inr (p # fs))"
proof -
  have "length (EncodeFrame p @ rest) = 4 + length p + length rest"
    by (simp add: EncodeFrame_def)
  moreover have "EncodeFrame p @ rest \<noteq> []"
    by (simp add: EncodeFrame_def)
  ultimately show ?thesis
    by (subst decode_frames_from.simps)
      (simp add: EncodeFrame_def unat_frame_length [OF assms] Let_def split: sum.split)
qed

lemma decode_frames_from_Nil [simp]: "decode_frames_from [] = Inr []"
  by (simp add: decode_frames_from.simps)

lemma decode_frames_from_frames:
  "\<forall>p \<in> set ps. length p < 2 ^ 32 \<Longrightarrow>
   decode_frames_from (concat (map EncodeFrame ps) @ rest) =
     (case decode_frames_from rest of Inl e \<Rightarrow> Inl e | Inr fs \<Rightarrow> Inr (ps @ fs))"
proof (induction ps)
  case Nil
  show ?case by (cases "decode_frames_from rest") auto
next
  case (Cons p ps)
  then show ?case
    by (auto simp: decode_frames_from_frame split: sum.splits)
qed

text \<open>A frame that was cut short is reported, whatever part of it is missing.\<close>

lemma decode_frames_from_torn:
  assumes "length p < 2 ^ 32" and "0 < n" and "n < length (EncodeFrame p)"
  shows "\<exists>m. decode_frames_from (take n (EncodeFrame p)) = Inl (Internal m)"
proof (cases "n < 4")
  case True
  then have "length (take n (EncodeFrame p)) = n" using assms(3) by simp
  then show ?thesis
    using True assms(2) by (subst decode_frames_from.simps) auto
next
  case False
  have "take n (EncodeFrame p) = length_bytes (word_of_nat (length p)) @ take (n - 4) p"
    using False by (simp add: EncodeFrame_def)
  moreover have "n - 4 < length p"
    using False assms(3) by (simp add: EncodeFrame_def)
  ultimately show ?thesis
    using False assms
    by (subst decode_frames_from.simps) (auto simp: unat_frame_length [OF assms(1)] Let_def)
qed

text \<open>Conversely a stream that decodes is exactly the frames it decodes to.\<close>

lemma byte_bit_bound: "bit (byte_of c) n \<Longrightarrow> n < 8"
proof -
  have "take_bit 8 (byte_of c) = byte_of c"
    using byte_of_less [of c] by (simp add: take_bit_nat_eq_self)
  then show "bit (byte_of c) n \<Longrightarrow> n < 8" by (metis bit_take_bit_iff)
qed

lemma read_byte:
  fixes a b c d :: char
  defines "w \<equiv> read_length [a, b, c, d]"
  shows "w AND 0xFF = word_of_nat (byte_of a)"
    and "drop_bit 8 w AND 0xFF = word_of_nat (byte_of b)"
    and "drop_bit 16 w AND 0xFF = word_of_nat (byte_of c)"
    and "drop_bit 24 w AND 0xFF = word_of_nat (byte_of d)"
proof -
  have m: "(0xFF :: 32 word) = mask 8" by (simp add: mask_eq_exp_minus_1)
  have w: "w = word_of_nat (byte_of a) OR push_bit 8 (word_of_nat (byte_of b))
      OR push_bit 16 (word_of_nat (byte_of c)) OR push_bit 24 (word_of_nat (byte_of d))"
    by (simp add: w_def read_length_def ac_simps)
  have z: "\<not> bit (byte_of x) (8 + n)" "\<not> bit (byte_of x) (16 + n)" "\<not> bit (byte_of x) (24 + n)"
    for x n using byte_bit_bound [of x] by fastforce+
  show "w AND 0xFF = word_of_nat (byte_of a)"
    unfolding w m by (rule bit_word_eqI) (auto simp: bit_simps dest: byte_bit_bound)
  show "drop_bit 8 w AND 0xFF = word_of_nat (byte_of b)"
    unfolding w m by (rule bit_word_eqI) (auto simp: bit_simps z dest: byte_bit_bound)
  show "drop_bit 16 w AND 0xFF = word_of_nat (byte_of c)"
    unfolding w m by (rule bit_word_eqI) (auto simp: bit_simps z dest: byte_bit_bound)
  show "drop_bit 24 w AND 0xFF = word_of_nat (byte_of d)"
    unfolding w m by (rule bit_word_eqI) (auto simp: bit_simps z dest: byte_bit_bound)
qed

lemma length_bytes_read [simp]:
  assumes "length s = 4"
  shows "length_bytes (read_length s) = s"
proof -
  obtain a b c d where s: "s = [a, b, c, d]"
    using assms by (auto simp: length_Suc_conv eval_nat_numeral)
  have u: "char_of (unat (word_of_nat (byte_of x) :: 32 word)) = x" for x
    using byte_of_less [of x] by (simp add: unat_of_nat take_bit_nat_eq_self)
  show ?thesis unfolding s length_bytes_def by (simp add: read_byte u)
qed

lemma unat_32_bound: "unat (w :: 32 word) < 2 ^ 32"
  using unsigned_less [of w] by simp

lemma decode_frames_from_sound:
  "decode_frames_from s = Inr fs \<Longrightarrow>
     s = concat (map EncodeFrame fs) \<and> (\<forall>p \<in> set fs. length p < 2 ^ 32)"
proof (induction s arbitrary: fs rule: decode_frames_from.induct)
  case (1 s)
  show ?case
  proof (cases "s = []")
    case True
    with 1 show ?thesis by simp
  next
    case False
    let ?n = "unat (read_length (take 4 s))"
    from False "1.prems" have len: "\<not> length s < 4" and n: "\<not> ?n > length (drop 4 s)"
      by (subst (asm) decode_frames_from.simps, auto simp: Let_def split: if_splits)+
    with False "1.prems" obtain gs where gs: "decode_frames_from (drop ?n (drop 4 s)) = Inr gs"
      and fs: "fs = take ?n (drop 4 s) # gs"
      by (subst (asm) decode_frames_from.simps) (auto simp: Let_def split: sum.splits)
    have "drop ?n (drop 4 s) = concat (map EncodeFrame gs) \<and> (\<forall>p \<in> set gs. length p < 2 ^ 32)"
      using "1.IH" [OF False len _ _ n gs] by simp
    moreover have "EncodeFrame (take ?n (drop 4 s)) = take 4 s @ take ?n (drop 4 s)"
      using n len by (simp add: EncodeFrame_def min_def)
    moreover have "?n < 2 ^ 32"
      by (rule unat_32_bound)
    ultimately show ?thesis
      using fs n by (auto simp del: drop_drop) (metis append.assoc append_take_drop_id)
  qed
qed

subsection \<open>Files of frames\<close>

definition framed_file :: "('a \<Rightarrow> string) \<Rightarrow> 'a list \<Rightarrow> string" where
  "framed_file enc xs = MagicHeader @ concat (map (EncodeFrame \<circ> enc) xs)"

text \<open>
  The loop over the frames of a file: decode, apply, and stop with the decoder's status at
  the first frame it refuses; what was applied before stays.
\<close>

fun frame_loop ::
  "(string \<Rightarrow> 'a StatusOr) \<Rightarrow> ('a \<Rightarrow> 's \<Rightarrow> 's) \<Rightarrow> string list \<Rightarrow> 's \<Rightarrow> 's \<times> Status" where
  "frame_loop dec apply [] s = (s, Ok)"
| "frame_loop dec apply (f # fs) s =
     (case dec f of Inl e \<Rightarrow> (s, e) | Inr x \<Rightarrow> frame_loop dec apply fs (apply x s))"

lemma DecodeFrames_framed_file:
  assumes "\<forall>x \<in> set xs. length (enc x) < 2 ^ 32"
  shows "DecodeFrames (framed_file enc xs) = Inr (map enc xs)"
  using decode_frames_from_frames [of "map enc xs" "[]"] assms
  by (simp add: DecodeFrames_def framed_file_def comp_def)

lemma DecodeFrames_torn:
  assumes "\<forall>x \<in> set xs. length (enc x) < 2 ^ 32"
    and "length p < 2 ^ 32" and "0 < n" and "n < length (EncodeFrame p)"
  shows "\<exists>m. DecodeFrames (framed_file enc xs @ take n (EncodeFrame p)) = Inl (Internal m)"
  using decode_frames_from_frames [of "map enc xs" "take n (EncodeFrame p)"]
    decode_frames_from_torn [OF assms(2-4)] assms(1)
  by (auto simp: DecodeFrames_def framed_file_def comp_def)

lemma DecodeFrames_sound:
  "DecodeFrames b = Inr fs \<Longrightarrow> b = framed_file id fs \<and> (\<forall>p \<in> set fs. length p < 2 ^ 32)"
  using decode_frames_from_sound
  by (fastforce simp: DecodeFrames_def framed_file_def starts_with_iff split: if_splits)

lemma framed_file_append:
  "framed_file enc (xs @ ys) = framed_file enc xs @ concat (map (EncodeFrame \<circ> enc) ys)"
  by (simp add: framed_file_def)

lemma framed_file_not_Nil [simp]: "framed_file enc xs \<noteq> []" "[] \<noteq> framed_file enc xs"
  by (simp_all add: framed_file_def MagicHeader_def)

lemma starts_with_framed_file [simp]: "starts_with MagicHeader (framed_file enc xs @ t)"
  by (simp add: framed_file_def)

lemma starts_with_framed_file' [simp]: "starts_with MagicHeader (framed_file enc xs)"
  by (simp add: framed_file_def)

locale framed_codec =
  fixes good :: "'a \<Rightarrow> bool"
    and enc :: "'a \<Rightarrow> string"
    and dec :: "string \<Rightarrow> 'a StatusOr"
  assumes dec_enc: "good x \<Longrightarrow> dec (enc x) = Inr x"
    and enc_length: "good x \<Longrightarrow> length (enc x) < 2 ^ 31"
begin

lemma frames_of_file:
  assumes "\<forall>x \<in> set xs. good x"
  shows "DecodeFrames (framed_file enc xs) = Inr (map enc xs)"
  using assms enc_length by (intro DecodeFrames_framed_file) (fastforce intro: order.strict_trans)

lemma frame_loop_enc:
  "\<forall>x \<in> set xs. good x \<Longrightarrow> frame_loop dec apply (map enc xs) s = (fold apply xs s, Ok)"
  by (induction xs arbitrary: s) (simp_all add: dec_enc)

lemma torn_file:
  assumes "\<forall>x \<in> set xs. good x" and "good y" and "0 < n" and "n < length (EncodeFrame (enc y))"
  shows "\<exists>m. DecodeFrames (framed_file enc xs @ take n (EncodeFrame (enc y))) = Inl (Internal m)"
proof (rule DecodeFrames_torn)
  show "\<forall>x \<in> set xs. length (enc x) < 2 ^ 32"
    using assms(1) enc_length by (fastforce intro: order.strict_trans)
  show "length (enc y) < 2 ^ 32"
    using enc_length [OF assms(2)] by simp
qed (use assms in simp_all)

lemma enc_inj: "good x \<Longrightarrow> good y \<Longrightarrow> enc x = enc y \<Longrightarrow> x = y"
  by (metis dec_enc sum.inject(2))

end

interpretation doc_codec: framed_codec
  "\<lambda>r. pb_laws pb \<and> document_ok pb r" "EncodeDocumentRecord pb" "DecodeDocumentRecord pb" for pb
  by unfold_locales (blast intro: DecodeDocumentRecord_Encode)+

interpretation wal_codec: framed_codec
  "\<lambda>e. pb_laws pb \<and> wal_entry_ok pb e" "EncodeWalEntry pb" "DecodeWalEntry pb" for pb
  by unfold_locales (blast intro: DecodeWalEntry_Encode)+

interpretation vector_codec: framed_codec
  "\<lambda>e. pb_laws pb \<and> vector_entry_ok pb e" "EncodeVectorEntry pb" "DecodeVectorEntry pb" for pb
  by unfold_locales (blast intro: DecodeVectorEntry_Encode)+

end
