(* ===== verification/Wire_Format.thy ===== *)
theory Wire_Format
  imports Codec
begin

text \<open>
  A concrete serialiser for the message classes, with which the parameter \<open>pb_api\<close> can be
  instantiated: every character of a field is preceded by a byte 1 and a field ends with a
  byte 0. It satisfies \<open>pb_laws\<close>, so the theorems under that hypothesis have instances.
\<close>

fun put_text :: "string \<Rightarrow> string" where
  "put_text [] = [CHR 0x00]"
| "put_text (c # s) = CHR 0x01 # c # put_text s"

fun get_text :: "string \<Rightarrow> (string \<times> string) option" where
  "get_text (t # c # s) =
     (if t = CHR 0x00 then Some ([], c # s)
      else case get_text s of None \<Rightarrow> None | Some (x, rest) \<Rightarrow> Some (c # x, rest))"
| "get_text [t] = (if t = CHR 0x00 then Some ([], []) else None)"
| "get_text [] = None"

lemma get_put_text [simp]: "get_text (put_text s @ rest) = Some (s, rest)"
proof (induction s)
  case Nil
  show ?case by (cases rest) simp_all
qed simp

lemma length_put_text [simp]: "length (put_text s) = 2 * length s + 1"
  by (induction s) simp_all

lemma length_to_string_digit [simp]: "n < 10 \<Longrightarrow> length (to_string n) = 1"
  by (simp add: to_string.simps)

text \<open>A list of fields, each announced by a byte 1, ended by a byte 0.\<close>

fun put_texts :: "string list \<Rightarrow> string" where
  "put_texts [] = [CHR 0x00]"
| "put_texts (s # ss) = CHR 0x01 # put_text s @ put_texts ss"

fun get_texts :: "nat \<Rightarrow> string \<Rightarrow> (string list \<times> string) option" where
  "get_texts 0 _ = None"
| "get_texts (Suc n) [] = None"
| "get_texts (Suc n) (t # s) =
     (if t = CHR 0x00 then Some ([], s)
      else case get_text s of None \<Rightarrow> None
           | Some (x, rest) \<Rightarrow>
               (case get_texts n rest of None \<Rightarrow> None
                | Some (xs, rest') \<Rightarrow> Some (x # xs, rest')))"

lemma length_put_texts: "length ss < length (put_texts ss @ rest)"
  by (induction ss) auto

lemma get_put_texts: "length ss < n \<Longrightarrow> get_texts n (put_texts ss @ rest) = Some (ss, rest)"
proof (induction ss arbitrary: n)
  case Nil
  then show ?case by (cases n) simp_all
next
  case (Cons s ss)
  then show ?case by (cases n) simp_all
qed

definition read_texts :: "string \<Rightarrow> string list option" where
  "read_texts s = map_option fst (get_texts (length s) s)"

lemma read_put_texts [simp]: "read_texts (put_texts ss) = Some ss"
  using get_put_texts [of ss "length (put_texts ss)" "[]"] length_put_texts [of ss "[]"]
  by (simp add: read_texts_def)

definition word_text :: "'a::len word \<Rightarrow> string" where
  "word_text w = to_string (unat w)"

definition text_word :: "string \<Rightarrow> 'a::len word" where
  "text_word s = word_of_nat (digits_value s)"

lemma text_word_text [simp]: "text_word (word_text w) = w"
  by (simp add: text_word_def word_text_def)

fun pair_up :: "string list \<Rightarrow> (string \<times> string) list" where
  "pair_up (k # v # rest) = (k, v) # pair_up rest"
| "pair_up _ = []"

definition flatten_pairs :: "(string \<times> string) list \<Rightarrow> string list" where
  "flatten_pairs kvs = concat (map (\<lambda>(k, v). [k, v]) kvs)"

lemma pair_up_flatten [simp]: "pair_up (flatten_pairs kvs) = kvs"
  by (induction kvs) (auto simp: flatten_pairs_def)

definition doc_fields :: "pb_document \<Rightarrow> string list" where
  "doc_fields m = [pb_collection m, pb_key m, pb_title m, pb_body m, word_text (pb_version m),
     word_text (pb_updated_at m), pb_mutation_id m] @ flatten_pairs (pb_metadata m)"

fun fields_doc :: "string list \<Rightarrow> pb_document option" where
  "fields_doc (c # k # t # b # v # u # i # md) =
     Some \<lparr>pb_collection = c, pb_key = k, pb_title = t, pb_body = b, pb_metadata = pair_up md,
       pb_version = text_word v, pb_updated_at = text_word u, pb_mutation_id = i\<rparr>"
| "fields_doc _ = None"

lemma fields_doc_fields [simp]: "fields_doc (doc_fields m) = Some m"
  by (simp add: doc_fields_def)

text \<open>An absent submessage is the empty field.\<close>

definition record_field :: "pb_document option \<Rightarrow> string" where
  "record_field r = (case r of None \<Rightarrow> [] | Some m \<Rightarrow> put_texts (doc_fields m))"

definition field_record :: "string \<Rightarrow> pb_document option" where
  "field_record s = (if s = [] then None else Option.bind (read_texts s) fields_doc)"

lemma put_texts_not_Nil [simp]: "put_texts ss \<noteq> []"
  by (cases ss) simp_all

lemma field_record_field [simp]: "field_record (record_field r) = r"
  by (cases r) (simp_all add: field_record_def record_field_def)

fun operation_field :: "pb_operation \<Rightarrow> string" where
  "operation_field WAL_OPERATION_UNSPECIFIED = []"
| "operation_field WAL_OPERATION_PUT = ''P''"
| "operation_field WAL_OPERATION_DELETE = ''D''"

definition field_operation :: "string \<Rightarrow> pb_operation" where
  "field_operation s = (if s = ''P'' then WAL_OPERATION_PUT else if s = ''D'' then WAL_OPERATION_DELETE
     else WAL_OPERATION_UNSPECIFIED)"

lemma field_operation_field [simp]: "field_operation (operation_field p) = p"
  by (cases p) (simp_all add: field_operation_def)

fun fields_wal :: "string list \<Rightarrow> pb_wal_entry option" where
  "fields_wal [p, r, c, k] = Some \<lparr>pbw_operation = field_operation p,
     pbw_record = field_record r, pbw_collection = c, pbw_key = k\<rparr>"
| "fields_wal _ = None"

fun fields_vec :: "string list \<Rightarrow> pb_vector_entry option" where
  "fields_vec (r # ws) = Some \<lparr>pbv_record = field_record r, pbv_vector = map text_word ws\<rparr>"
| "fields_vec _ = None"

definition plain_pb :: pb_api where
  "plain_pb = \<lparr>
     ser_doc = (\<lambda>m. put_texts (doc_fields m)),
     parse_doc = (\<lambda>s. Option.bind (read_texts s) fields_doc),
     doc_ok = (\<lambda>m. distinct (map fst (pb_metadata m)) \<and> length (put_texts (doc_fields m)) < 2 ^ 31),
     ser_wal = (\<lambda>m. put_texts [operation_field (pbw_operation m), record_field (pbw_record m),
        pbw_collection m, pbw_key m]),
     parse_wal = (\<lambda>s. Option.bind (read_texts s) fields_wal),
     wal_ok = (\<lambda>m. pred_option (\<lambda>d. distinct (map fst (pb_metadata d))) (pbw_record m) \<and>
        length (put_texts [operation_field (pbw_operation m), record_field (pbw_record m),
          pbw_collection m, pbw_key m]) < 2 ^ 31),
     ser_vec = (\<lambda>m. put_texts (record_field (pbv_record m) # map word_text (pbv_vector m))),
     parse_vec = (\<lambda>s. Option.bind (read_texts s) fields_vec),
     vec_ok = (\<lambda>m. pred_option (\<lambda>d. distinct (map fst (pb_metadata d))) (pbv_record m) \<and>
        length (put_texts (record_field (pbv_record m) # map word_text (pbv_vector m))) < 2 ^ 31)\<rparr>"

lemma same_doc_refl: "distinct (map fst (pb_metadata m)) \<Longrightarrow> same_doc m m"
  by (simp add: same_doc_def)

lemma plain_pb_laws [simp]: "pb_laws plain_pb"
proof -
  have r: "rel_option same_doc r r" if "pred_option (\<lambda>d. distinct (map fst (pb_metadata d))) r" for r
    using that by (cases r) (simp_all add: same_doc_refl)
  show ?thesis
    unfolding pb_laws_def codec_law_def
    by (auto simp: plain_pb_def same_doc_refl same_wal_def same_vec_def r comp_def
        simp del: put_texts.simps)
qed

end
