(* ===== verification/Files.thy ===== *)
theory Files
  imports Codec
begin

text \<open>
  The part of \<open>std::filesystem\<close> and \<open>std::fstream\<close> that the stores use, with the helpers
  \<open>EnsureParentDirectory\<close>, \<open>ReadWholeFile\<close>, \<open>HasPersistenceMagic\<close> that
  \<open>src/core/kv_store.cpp\<close>, \<open>src/search/vector_index.cpp\<close>,
  \<open>src/gateway/vector_index_outbox.cpp\<close> and \<open>data_migration.cpp\<close> each repeat. A file
  system maps paths to contents; which directories can be created and which files can be
  opened is part of the state, so that every failing branch of the code can be taken.
  A write after a successful open always succeeds: the code does not look at the stream
  again after opening it.
\<close>

record fs =
  fs_files :: "string \<rightharpoonup> string"
  fs_mkdir_error :: "string \<Rightarrow> string option"
  fs_readable :: "string \<Rightarrow> bool"
  fs_writable :: "string \<Rightarrow> bool"

fun strip_slashes :: "string \<Rightarrow> string" where
  "strip_slashes [] = []"
| "strip_slashes (c # s) = (if c = CHR ''/'' then strip_slashes s else c # s)"

text \<open>\<open>std::filesystem::path(p).parent_path()\<close>\<close>

definition parent_path :: "string \<Rightarrow> string" where
  "parent_path p =
     (case rfind_char CHR ''/'' p of
        None \<Rightarrow> []
      | Some i \<Rightarrow> let q = rev (strip_slashes (rev (take i p))) in if q = [] then ''/'' else q)"

definition EnsureParentDirectory :: "string \<Rightarrow> fs \<Rightarrow> string \<Rightarrow> Status" where
  "EnsureParentDirectory what s path =
     (let parent = parent_path path in
      if parent = [] then Ok
      else case fs_mkdir_error s parent of
             Some m \<Rightarrow> Internal (what @ m)
           | None \<Rightarrow> Ok)"

definition file_exists :: "fs \<Rightarrow> string \<Rightarrow> bool" where
  "file_exists s path \<longleftrightarrow> fs_files s path \<noteq> None"

definition file_bytes :: "fs \<Rightarrow> string \<Rightarrow> string" where
  "file_bytes s path = (case fs_files s path of None \<Rightarrow> [] | Some b \<Rightarrow> b)"

definition ReadWholeFile :: "string \<Rightarrow> fs \<Rightarrow> string \<Rightarrow> string StatusOr" where
  "ReadWholeFile what s path =
     (case fs_files s path of
        None \<Rightarrow> Inl (NotFound what)
      | Some b \<Rightarrow> if fs_readable s path then Inr b else Inl (NotFound what))"

definition HasPersistenceMagic :: "string \<Rightarrow> bool" where
  "HasPersistenceMagic bytes \<longleftrightarrow> starts_with MagicHeader bytes"

text \<open>\<open>std::ofstream\<close> with \<open>trunc\<close> and with \<open>app\<close>, after a successful open.\<close>

definition write_file :: "string \<Rightarrow> string \<Rightarrow> fs \<Rightarrow> fs" where
  "write_file path b s = s\<lparr>fs_files := (fs_files s)(path \<mapsto> b)\<rparr>"

definition append_file :: "string \<Rightarrow> string \<Rightarrow> fs \<Rightarrow> fs" where
  "append_file path b s = write_file path (file_bytes s path @ b) s"

lemma write_file_simps [simp]:
  "fs_files (write_file p b s) = (fs_files s)(p \<mapsto> b)"
  "fs_mkdir_error (write_file p b s) = fs_mkdir_error s"
  "fs_readable (write_file p b s) = fs_readable s"
  "fs_writable (write_file p b s) = fs_writable s"
  by (simp_all add: write_file_def)

lemma append_file_simps [simp]:
  "fs_files (append_file p b s) = (fs_files s)(p \<mapsto> file_bytes s p @ b)"
  "fs_mkdir_error (append_file p b s) = fs_mkdir_error s"
  "fs_readable (append_file p b s) = fs_readable s"
  "fs_writable (append_file p b s) = fs_writable s"
  by (simp_all add: append_file_def)

text \<open>A file system on which every operation succeeds, for the concrete runs.\<close>

definition empty_fs :: fs where
  "empty_fs = \<lparr>fs_files = (\<lambda>_. None), fs_mkdir_error = (\<lambda>_. None),
     fs_readable = (\<lambda>_. True), fs_writable = (\<lambda>_. True)\<rparr>"

text \<open>A path on which every operation succeeds.\<close>

definition usable :: "fs \<Rightarrow> string \<Rightarrow> bool" where
  "usable s path \<longleftrightarrow>
     (parent_path path = [] \<or> fs_mkdir_error s (parent_path path) = None) \<and>
     fs_readable s path \<and> fs_writable s path"

lemma usable_write_file [simp]: "usable (write_file p b s) q = usable s q"
  by (simp add: usable_def)

lemma usable_EnsureParentDirectory: "usable s p \<Longrightarrow> EnsureParentDirectory w s p = Ok"
  by (auto simp: usable_def EnsureParentDirectory_def Let_def)

lemma not_magic_Nil [simp]: "\<not> HasPersistenceMagic []"
  by (simp add: HasPersistenceMagic_def MagicHeader_def starts_with_iff)

lemma magic_framed_file [simp]: "HasPersistenceMagic (framed_file enc xs)"
  by (simp add: HasPersistenceMagic_def)

lemma usable_empty_fs [simp]: "usable empty_fs p"
  by (simp add: usable_def empty_fs_def)

lemma empty_fs_simps [simp]: "fs_files empty_fs p = None" "fs_readable empty_fs p" "fs_writable empty_fs p"
  by (simp_all add: empty_fs_def)

end
