(* ===== verification/Legacy_Text.thy ===== *)
theory Legacy_Text
  imports Documents
begin

text \<open>
  The readers of the older text persistence format, \<open>Unescape\<close>, \<open>SplitEscaped\<close>,
  \<open>DeserializeMetadata\<close>, \<open>DeserializeRecord\<close> of \<open>src/core/kv_store.cpp\<close> (the first two
  are repeated in \<open>src/search/vector_index.cpp\<close>). The format itself is stated as a
  writer, \<open>escape_text\<close> and \<open>legacy_line\<close>: a line that escapes the delimiters is read
  back unchanged.
\<close>

abbreviation backslash :: char where
  "backslash \<equiv> CHR 0x5C"

abbreviation newline :: char where
  "newline \<equiv> CHR 0x0A"

subsection \<open>The readers\<close>

text \<open>The argument of type \<open>bool\<close> is the flag \<open>escaping\<close> of the loop.\<close>

fun unescape_loop :: "bool \<Rightarrow> string \<Rightarrow> string" where
  "unescape_loop esc [] = []"
| "unescape_loop esc (c # s) =
     (if \<not> esc then (if c = backslash then unescape_loop True s else c # unescape_loop False s)
      else (if c = CHR ''n'' then newline else c) # unescape_loop False s)"

definition Unescape :: "string \<Rightarrow> string" where
  "Unescape s = unescape_loop False s"

fun split_loop :: "char \<Rightarrow> bool \<Rightarrow> string \<Rightarrow> string \<Rightarrow> string list" where
  "split_loop d esc current [] = [current]"
| "split_loop d esc current (c # s) =
     (if \<not> esc \<and> c = backslash then split_loop d True (current @ [c]) s
      else if \<not> esc \<and> c = d then current # split_loop d esc [] s
      else split_loop d False (current @ [c]) s)"

definition SplitEscaped :: "string \<Rightarrow> char \<Rightarrow> string list" where
  "SplitEscaped s d = split_loop d False [] s"

definition metadata_part :: "string \<Rightarrow> (string, string) omap \<Rightarrow> (string, string) omap" where
  "metadata_part part m =
     (case find_char CHR ''='' part of
        None \<Rightarrow> m
      | Some i \<Rightarrow> omap_emplace (Unescape (take i part)) (Unescape (drop (i + 1) part)) m)"

definition DeserializeMetadata :: "string \<Rightarrow> (string, string) omap" where
  "DeserializeMetadata encoded =
     (if encoded = [] then [] else fold metadata_part (SplitEscaped encoded CHR '';'') [])"

definition DeserializeRecord :: "string \<Rightarrow> DocumentRecord StatusOr outcome" where
  "DeserializeRecord encoded =
     (let parts = SplitEscaped encoded CHR ''|'' in
      if length parts \<noteq> 5 \<and> length parts \<noteq> 8
      then Ret (Inl (Internal ''malformed record serialization''))
      else
        let r = empty_document\<lparr>
              doc_collection := Unescape (parts ! 0), doc_key := Unescape (parts ! 1),
              doc_title := Unescape (parts ! 2), doc_body := Unescape (parts ! 3),
              doc_metadata := DeserializeMetadata (parts ! 4)\<rparr>
        in if length parts = 8
           then outcome_bind (cxx_stoull (parts ! 5)) (\<lambda>v.
                outcome_bind (cxx_stoll (parts ! 6)) (\<lambda>u.
                Ret (Inr (r\<lparr>doc_version := word_of_nat v, doc_updated_at := word_of_int u,
                             doc_mutation_id := Unescape (parts ! 7)\<rparr>))))
           else Ret (Inr r))"

subsection \<open>The format\<close>

definition special :: "char \<Rightarrow> bool" where
  "special c \<longleftrightarrow> c \<in> {backslash, CHR ''|'', CHR '';'', CHR ''=''}"

fun escape_text :: "string \<Rightarrow> string" where
  "escape_text [] = []"
| "escape_text (c # s) =
     (if c = newline then backslash # CHR ''n'' # escape_text s
      else if special c then backslash # c # escape_text s
      else c # escape_text s)"

fun join_with :: "char \<Rightarrow> string list \<Rightarrow> string" where
  "join_with d [] = []"
| "join_with d [s] = s"
| "join_with d (s # ss) = s @ d # join_with d ss"

lemma Unescape_escape_text [simp]: "Unescape (escape_text s) = s"
proof -
  have "unescape_loop False (escape_text s) = s"
  proof (induction s)
    case (Cons c s)
    then show ?case
      by (cases "c = CHR ''n''") (simp_all add: special_def)
  qed simp
  then show ?thesis by (simp add: Unescape_def)
qed

text \<open>
  A text is closed for a delimiter if the splitter walks over it without splitting and
  ends outside an escape.
\<close>

fun closed_for :: "char \<Rightarrow> string \<Rightarrow> bool" where
  "closed_for d [] = True"
| "closed_for d (c # s) =
     (if c = backslash then (case s of [] \<Rightarrow> False | _ # t \<Rightarrow> closed_for d t)
      else c \<noteq> d \<and> closed_for d s)"

lemma closed_for_escape: "special d \<Longrightarrow> d \<noteq> backslash \<Longrightarrow> closed_for d (escape_text s)"
  by (induction s) (auto simp: special_def)

lemma closed_for_append: "closed_for d s \<Longrightarrow> closed_for d t \<Longrightarrow> closed_for d (s @ t)"
  by (induction d s rule: closed_for.induct) (auto split: list.splits if_splits)

lemma split_loop_closed:
  "d \<noteq> backslash \<Longrightarrow> closed_for d s \<Longrightarrow> split_loop d False cur (s @ t) = split_loop d False (cur @ s) t"
proof (induction d s arbitrary: cur rule: closed_for.induct)
  case (2 d c s)
  show ?case
  proof (cases "c = backslash")
    case True
    with 2 obtain e u where "s = e # u" "closed_for d u" by (auto split: list.splits)
    with True 2 show ?thesis by simp
  next
    case False
    with 2 show ?thesis by simp
  qed
qed simp

lemma split_join:
  assumes "d \<noteq> backslash" and "\<forall>s \<in> set ss. closed_for d s" and "ss \<noteq> []"
  shows "SplitEscaped (join_with d ss) d = ss"
proof -
  have "split_loop d False [] (join_with d ss) = ss"
    using assms(2,3)
  proof (induction ss)
    case (Cons s ss)
    show ?case
    proof (cases ss)
      case Nil
      with Cons.prems split_loop_closed [OF assms(1), of s "[]" "[]"] show ?thesis by simp
    next
      case (Cons t ts)
      with Cons.prems have "split_loop d False [] (s @ d # join_with d ss) =
          split_loop d False s (d # join_with d ss)"
        using split_loop_closed [OF assms(1), of s "[]"] by simp
      also have "\<dots> = s # split_loop d False [] (join_with d ss)"
        using assms(1) by simp
      finally show ?thesis using Cons Cons.IH Cons.prems by simp
    qed
  qed simp
  then show ?thesis by (simp add: SplitEscaped_def)
qed

definition legacy_metadata :: "(string, string) omap \<Rightarrow> string" where
  "legacy_metadata m = join_with CHR '';'' (map (\<lambda>(k, v). escape_text k @ CHR ''='' # escape_text v) m)"

definition legacy_line :: "DocumentRecord \<Rightarrow> string" where
  "legacy_line r = join_with CHR ''|''
     [escape_text (doc_collection r), escape_text (doc_key r), escape_text (doc_title r),
      escape_text (doc_body r), legacy_metadata (doc_metadata r),
      to_string (unat (doc_version r)), to_string_int (sint (doc_updated_at r)),
      escape_text (doc_mutation_id r)]"

lemma metadata_part_entry:
  assumes "CHR ''='' \<notin> set k" and "map_of m k = None"
  shows "metadata_part (escape_text k @ CHR ''='' # escape_text v) m = omap_put k v m"
proof -
  have "CHR ''='' \<notin> set (escape_text k)"
    using assms(1) by (induction k) (auto simp: special_def)
  then have "find_char CHR ''='' (escape_text k @ CHR ''='' # escape_text v) = Some (length (escape_text k))"
    by (simp add: find_char_append find_char_None [THEN iffD2])
  with assms(2) show ?thesis by (simp add: metadata_part_def omap_emplace_def)
qed

lemma fold_metadata_parts:
  assumes "\<forall>(k, v) \<in> set kvs. CHR ''='' \<notin> set k" and "distinct (map fst kvs)"
    and "\<forall>k \<in> fst ` set kvs. map_of m k = None"
  shows "fold metadata_part (map (\<lambda>(k, v). escape_text k @ CHR ''='' # escape_text v) kvs) m =
         fold (\<lambda>(k, v). omap_put k v) kvs m"
  using assms
proof (induction kvs arbitrary: m)
  case (Cons p kvs)
  obtain k v where p: "p = (k, v)" by (cases p)
  with Cons.prems have "metadata_part (escape_text k @ CHR ''='' # escape_text v) m = omap_put k v m"
    by (simp add: metadata_part_entry)
  moreover have "\<forall>l \<in> fst ` set kvs. map_of (omap_put k v m) l = None"
    using Cons.prems p by (auto simp: image_iff)
  ultimately show ?case using Cons p by auto
qed simp

lemma DeserializeMetadata_legacy:
  assumes "omap_wf m" and "\<forall>(k, v) \<in> set m. CHR ''='' \<notin> set k"
  shows "DeserializeMetadata (legacy_metadata m) = m"
proof (cases "m = []")
  case True
  then show ?thesis by (simp add: DeserializeMetadata_def legacy_metadata_def)
next
  case False
  let ?ps = "map (\<lambda>(k, v). escape_text k @ CHR ''='' # escape_text v) m"
  have "\<forall>s \<in> set ?ps. closed_for CHR '';'' s"
    by (auto intro!: closed_for_append simp: closed_for_escape special_def)
  then have "SplitEscaped (legacy_metadata m) CHR '';'' = ?ps"
    using False by (simp add: legacy_metadata_def split_join)
  moreover have "legacy_metadata m \<noteq> []"
    using False by (cases m rule: list.exhaust; cases "tl m") (auto simp: legacy_metadata_def)
  moreover have "fold metadata_part ?ps [] = fold (\<lambda>(k, v). omap_put k v) m []"
    using assms by (intro fold_metadata_parts) (auto dest: omap_wf_distinct)
  ultimately show ?thesis
    using fold_put_self [OF assms(1)] by (simp add: DeserializeMetadata_def)
qed

lemma closed_for_plain: "d \<notin> set s \<Longrightarrow> backslash \<notin> set s \<Longrightarrow> closed_for d s"
proof (induction s)
  case (Cons c s)
  then show ?case by auto
qed simp

lemma closed_for_join:
  assumes "\<forall>s \<in> set ss. closed_for d s" and "d \<noteq> e" and "e \<noteq> backslash"
  shows "closed_for d (join_with e ss)"
  using assms(1)
proof (induction ss)
  case (Cons s ss)
  show ?case
  proof (cases ss)
    case Nil
    with Cons show ?thesis by simp
  next
    case (Cons t ts)
    then have "closed_for d (e # join_with e ss)"
      using Cons.IH Cons.prems assms(2,3) by simp
    with Cons.prems have "closed_for d (s @ e # join_with e ss)"
      by (intro closed_for_append) simp_all
    with Cons show ?thesis by simp
  qed
qed simp

lemma number_closed:
  "closed_for CHR ''|'' (to_string n)" "closed_for CHR ''|'' (to_string_int i)"
proof -
  have no: "c \<notin> set (to_string n)" if "\<not> isdigit c" for c n
    using that to_string_digits by blast
  have a: "\<not> isdigit CHR ''|''" "\<not> isdigit backslash"
    by (simp_all add: isdigit_def byte_of_def)
  show "closed_for CHR ''|'' (to_string n)"
    by (intro closed_for_plain no a)
  show "closed_for CHR ''|'' (to_string_int i)"
    using no [OF a(1)] no [OF a(2)] by (auto simp: to_string_int_def intro!: closed_for_plain)
qed

lemma legacy_metadata_closed: "closed_for CHR ''|'' (legacy_metadata m)"
  unfolding legacy_metadata_def
  by (rule closed_for_join) (auto intro!: closed_for_append simp: closed_for_escape special_def)

lemma DeserializeRecord_legacy_line:
  assumes "omap_wf (doc_metadata r)" and "\<forall>(k, v) \<in> set (doc_metadata r). CHR ''='' \<notin> set k"
  shows "DeserializeRecord (legacy_line r) = Ret (Inr r)"
proof -
  let ?parts = "[escape_text (doc_collection r), escape_text (doc_key r), escape_text (doc_title r),
      escape_text (doc_body r), legacy_metadata (doc_metadata r),
      to_string (unat (doc_version r)), to_string_int (sint (doc_updated_at r)),
      escape_text (doc_mutation_id r)]"
  have "SplitEscaped (legacy_line r) CHR ''|'' = ?parts"
    unfolding legacy_line_def
    by (rule split_join) (auto simp: closed_for_escape special_def number_closed legacy_metadata_closed)
  moreover have "cxx_stoull (to_string (unat (doc_version r))) = Ret (unat (doc_version r))"
    using unsigned_less [of "doc_version r"] by (intro cxx_stoull_to_string) simp
  moreover have "cxx_stoll (to_string_int (sint (doc_updated_at r))) = Ret (sint (doc_updated_at r))"
    using sint_greater_eq [of "doc_updated_at r"] sint_less [of "doc_updated_at r"]
    by (intro cxx_stoll_to_string_int) simp_all
  ultimately show ?thesis
    using DeserializeMetadata_legacy [OF assms]
    by (simp add: DeserializeRecord_def Let_def empty_document_def)
qed

text \<open>The escaped line has no newline, so the line splitter of the replay loop keeps it whole.\<close>

lemma escape_text_no_newline [simp]: "newline \<notin> set (escape_text s)"
  by (induction s) (auto simp: special_def)

end
