(* ===== verification/Wal_Store.thy ===== *)
theory Wal_Store
  imports Kv_Interface Wire_Format Files Legacy_Text
begin

text \<open>
  \<open>WriteAheadKvStore\<close> of \<open>src/core/kv_store.h\<close> and \<open>kv_store.cpp\<close>: documents in an
  ordered map, every accepted mutation appended to a write-ahead log, the whole map written
  to a snapshot file on request and in the destructor, and both files read back by
  \<open>Recover\<close>. The state of an operation is the file system and the store. Operations hold
  the store's mutex from their first to their last line, so one call is one step.
\<close>

subsection \<open>State\<close>

record wal_store =
  wal_path :: string
  snapshot_path :: string
  records :: "(string, DocumentRecord) omap"

definition new_wal_store :: "string \<Rightarrow> string \<Rightarrow> wal_store" where
  "new_wal_store wal snapshot = \<lparr>wal_path = wal, snapshot_path = snapshot, records = []\<rparr>"

subsection \<open>The log\<close>

definition kv_parent_error :: string where
  "kv_parent_error = ''failed to create parent directory: ''"

definition kv_not_found :: "string \<Rightarrow> string" where
  "kv_not_found path = ''file not found: '' @ path"

definition ShouldRewriteLegacyWal :: "fs \<Rightarrow> string \<Rightarrow> bool" where
  "ShouldRewriteLegacyWal s path =
     (if \<not> file_exists s path \<or> file_bytes s path = [] then False
      else case ReadWholeFile (kv_not_found path) s path of
             Inl _ \<Rightarrow> False
           | Inr bytes \<Rightarrow> \<not> HasPersistenceMagic bytes)"

definition put_entry :: "DocumentRecord \<Rightarrow> WalEntry" where
  "put_entry r = default_WalEntry\<lparr>wal_operation := kPut, wal_record := r\<rparr>"

definition delete_entry :: "string \<Rightarrow> string \<Rightarrow> WalEntry" where
  "delete_entry c k =
     default_WalEntry\<lparr>wal_operation := kDelete, wal_collection := c, wal_key := k\<rparr>"

definition encode_entries :: "pb_api \<Rightarrow> WalEntry list \<Rightarrow> string" where
  "encode_entries pb es = concat (map (EncodeFrame \<circ> EncodeWalEntry pb) es)"

text \<open>
  The body that the three append functions share: \<open>entries\<close> is what the caller logs,
  \<open>current\<close> the map that replaces a log still in the text format.
\<close>

definition append_entries ::
  "pb_api \<Rightarrow> string \<Rightarrow> WalEntry list \<Rightarrow> (string, DocumentRecord) omap \<Rightarrow> fs \<Rightarrow> Status \<times> fs" where
  "append_entries pb path entries current s =
     (let status = EnsureParentDirectory kv_parent_error s path in
      if \<not> ok status then (status, s)
      else
        let rewrite_legacy = ShouldRewriteLegacyWal s path;
            needs_header = rewrite_legacy \<or> \<not> file_exists s path \<or> file_bytes s path = []
        in if \<not> fs_writable s path then (Internal ''failed to open wal file for writing'', s)
           else
             let kept = (if rewrite_legacy then [] else file_bytes s path);
                 header = (if needs_header then MagicHeader else []);
                 body = (if rewrite_legacy
                         then encode_entries pb (map (put_entry \<circ> snd) current)
                         else encode_entries pb entries)
             in (Ok, write_file path (kept @ header @ body) s))"

definition AppendWalLocked ::
  "pb_api \<Rightarrow> char \<Rightarrow> DocumentRecord \<Rightarrow> fs \<Rightarrow> wal_store \<Rightarrow> Status \<times> fs" where
  "AppendWalLocked pb operation r s st =
     append_entries pb (wal_path st)
       [(put_entry r)\<lparr>wal_operation := (if operation = CHR ''D'' then kDelete else kPut)\<rparr>]
       (records st) s"

definition AppendWalBatchLocked ::
  "pb_api \<Rightarrow> DocumentRecord list \<Rightarrow> (string, DocumentRecord) omap \<Rightarrow> fs \<Rightarrow> wal_store \<Rightarrow> Status \<times> fs" where
  "AppendWalBatchLocked pb rs snapshot_after s st =
     append_entries pb (wal_path st) (map put_entry rs) snapshot_after s"

definition AppendDeleteLocked ::
  "pb_api \<Rightarrow> string \<Rightarrow> string \<Rightarrow> fs \<Rightarrow> wal_store \<Rightarrow> Status \<times> fs" where
  "AppendDeleteLocked pb c k s st =
     append_entries pb (wal_path st) [delete_entry c k] (records st) s"

subsection \<open>Operations\<close>

definition Wal_Put :: "pb_api \<Rightarrow> DocumentRecord \<Rightarrow> fs \<times> wal_store \<Rightarrow> Status \<times> fs \<times> wal_store" where
  "Wal_Put pb r = (\<lambda>(s, st).
     let composite_key = document_key r;
         store = (let st' = st\<lparr>records := omap_put composite_key r (records st)\<rparr>;
                      (status, s') = AppendWalLocked pb CHR ''P'' r s st'
                  in (status, s', st'))
     in case map_of (records st) composite_key of
          Some existing \<Rightarrow>
            (let mutation_status = ValidateMutation existing r in
             if \<not> ok mutation_status then (mutation_status, s, st)
             else if IsDuplicateMutation existing r then (Ok, s, st)
             else store)
        | None \<Rightarrow> store)"

text \<open>
  The loop of \<open>BatchPut\<close> over the records: the keys seen, the staged map and the records to
  apply, or the status with which it returns.
\<close>

fun batch_loop ::
  "DocumentRecord list \<Rightarrow> string set \<Rightarrow> (string, DocumentRecord) omap \<Rightarrow> DocumentRecord list \<Rightarrow>
     ((string, DocumentRecord) omap \<times> DocumentRecord list) StatusOr" where
  "batch_loop [] batch_keys staged to_apply = Inr (staged, to_apply)"
| "batch_loop (r # rs) batch_keys staged to_apply =
     (let composite_key = document_key r in
      if composite_key \<in> batch_keys
      then Inl (InvalidArgument (''kv batch contains duplicate key: '' @ doc_collection r @ '':'' @ doc_key r))
      else
        let batch_keys' = insert composite_key batch_keys;
            stage = batch_loop rs batch_keys' (omap_put composite_key r staged) (to_apply @ [r])
        in case map_of staged composite_key of
             Some existing \<Rightarrow>
               (let mutation_status = ValidateMutation existing r in
                if \<not> ok mutation_status then Inl mutation_status
                else if IsDuplicateMutation existing r
                then batch_loop rs batch_keys' staged to_apply
                else stage)
           | None \<Rightarrow> stage)"

definition Wal_BatchPut ::
  "pb_api \<Rightarrow> DocumentRecord list \<Rightarrow> fs \<times> wal_store \<Rightarrow> Status \<times> fs \<times> wal_store" where
  "Wal_BatchPut pb rs = (\<lambda>(s, st).
     case batch_loop rs {} (records st) [] of
       Inl e \<Rightarrow> (e, s, st)
     | Inr (staged, to_apply) \<Rightarrow>
         if to_apply = [] then (Ok, s, st)
         else
           let (status, s') = AppendWalBatchLocked pb to_apply staged s st in
           if \<not> ok status then (status, s', st)
           else (Ok, s', st\<lparr>records := staged\<rparr>))"

definition Wal_Delete ::
  "pb_api \<Rightarrow> string \<Rightarrow> string \<Rightarrow> fs \<times> wal_store \<Rightarrow> Status \<times> fs \<times> wal_store" where
  "Wal_Delete pb c k = (\<lambda>(s, st).
     let st' = st\<lparr>records := omap_erase (BuildCompositeKey c k) (records st)\<rparr>;
         (status, s') = AppendDeleteLocked pb c k s st'
     in (status, s', st'))"

definition Wal_Get :: "string \<Rightarrow> string \<Rightarrow> wal_store \<Rightarrow> DocumentRecord StatusOr" where
  "Wal_Get c k st =
     (case map_of (records st) (BuildCompositeKey c k) of
        None \<Rightarrow> Inl (NotFound ''document not found'')
      | Some r \<Rightarrow> Inr r)"

fun multi_get_loop ::
  "(string, DocumentRecord) omap \<Rightarrow> 'd SearchReference list \<Rightarrow> DocumentRecord list" where
  "multi_get_loop m [] = []"
| "multi_get_loop m (ref # refs) =
     (case map_of m (BuildCompositeKey (ref_collection ref) (ref_key ref)) of
        Some r \<Rightarrow> r # multi_get_loop m refs
      | None \<Rightarrow> multi_get_loop m refs)"

definition Wal_MultiGet :: "'d SearchReference list \<Rightarrow> wal_store \<Rightarrow> DocumentRecord list StatusOr" where
  "Wal_MultiGet refs st = Inr (multi_get_loop (records st) refs)"

text \<open>The loop of \<open>Range\<close>; the limit is looked at after a result was pushed.\<close>

fun range_loop ::
  "string \<Rightarrow> string \<Rightarrow> nat \<Rightarrow> (string, DocumentRecord) omap \<Rightarrow> DocumentRecord list \<Rightarrow> DocumentRecord list" where
  "range_loop c finish limit [] results = results"
| "range_loop c finish limit ((k, r) # m) results =
     (if k > finish \<or> doc_collection r \<noteq> c then results
      else let results' = results @ [r] in
           if length results' \<ge> limit then results'
           else range_loop c finish limit m results')"

definition Wal_Range :: "string \<Rightarrow> string \<Rightarrow> string \<Rightarrow> nat \<Rightarrow> wal_store \<Rightarrow> DocumentRecord list StatusOr" where
  "Wal_Range c begin_key end_key limit st =
     (let start = BuildCompositeKey c begin_key;
          finish = (if end_key = [] then BuildCompositeKey c [CHR 0x7F] else BuildCompositeKey c end_key)
      in Inr (range_loop c finish limit (omap_lower_bound start (records st)) []))"

definition Wal_Collections :: "wal_store \<Rightarrow> string list StatusOr" where
  "Wal_Collections st =
     Inr (map fst (fold (\<lambda>(_, r) names.
            if doc_collection r \<noteq> [] then omap_put (doc_collection r) () names else names)
          (records st) []))"

definition snapshot_bytes :: "pb_api \<Rightarrow> (string, DocumentRecord) omap \<Rightarrow> string" where
  "snapshot_bytes pb m =
     MagicHeader @ concat (map (\<lambda>(_, r). EncodeFrame (EncodeDocumentRecord pb r)) m)"

definition Wal_FlushSnapshot :: "pb_api \<Rightarrow> fs \<times> wal_store \<Rightarrow> Status \<times> fs \<times> wal_store" where
  "Wal_FlushSnapshot pb = (\<lambda>(s, st).
     let status = EnsureParentDirectory kv_parent_error s (snapshot_path st) in
     if \<not> ok status then (status, s, st)
     else if \<not> fs_writable s (snapshot_path st)
     then (Internal ''failed to open snapshot file for writing'', s, st)
     else (Ok, write_file (snapshot_path st) (snapshot_bytes pb (records st)) s, st))"

text \<open>The destructor.\<close>

definition Wal_destroy :: "pb_api \<Rightarrow> fs \<times> wal_store \<Rightarrow> fs" where
  "Wal_destroy pb sst = fst (snd (Wal_FlushSnapshot pb sst))"

subsection \<open>Recovery\<close>

definition put_record :: "DocumentRecord \<Rightarrow> (string, DocumentRecord) omap \<Rightarrow> (string, DocumentRecord) omap" where
  "put_record r m = omap_put (document_key r) r m"

fun snapshot_lines ::
  "string list \<Rightarrow> (string, DocumentRecord) omap \<Rightarrow> (string, DocumentRecord) omap \<times> Status outcome" where
  "snapshot_lines [] m = (m, Ret Ok)"
| "snapshot_lines (line # ls) m =
     (case DeserializeRecord line of
        Throw e \<Rightarrow> (m, Throw e)
      | Ret (Inl status) \<Rightarrow> (m, Ret status)
      | Ret (Inr r) \<Rightarrow> snapshot_lines ls (put_record r m))"

definition ReplaySnapshotLocked :: "pb_api \<Rightarrow> fs \<Rightarrow> wal_store \<Rightarrow> wal_store \<times> Status outcome" where
  "ReplaySnapshotLocked pb s st =
     (case ReadWholeFile (kv_not_found (snapshot_path st)) s (snapshot_path st) of
        Inl _ \<Rightarrow> (st, Ret Ok)
      | Inr bytes \<Rightarrow>
          if HasPersistenceMagic bytes
          then (case DecodeFrames bytes of
                  Inl e \<Rightarrow> (st, Ret e)
                | Inr frames \<Rightarrow>
                    let (m, status) = frame_loop (DecodeDocumentRecord pb) put_record frames (records st)
                    in (st\<lparr>records := m\<rparr>, Ret status))
          else let (m, status) = snapshot_lines (getlines newline bytes) (records st)
               in (st\<lparr>records := m\<rparr>, status))"

definition apply_entry :: "WalEntry \<Rightarrow> (string, DocumentRecord) omap \<Rightarrow> (string, DocumentRecord) omap" where
  "apply_entry e m =
     (if wal_operation e = kPut then put_record (wal_record e) m
      else omap_erase (BuildCompositeKey (wal_collection e) (wal_key e)) m)"

text \<open>One line of a text log: a put, a deletion, or anything else, which is skipped.\<close>

fun wal_lines ::
  "string list \<Rightarrow> (string, DocumentRecord) omap \<Rightarrow> (string, DocumentRecord) omap \<times> Status outcome" where
  "wal_lines [] m = (m, Ret Ok)"
| "wal_lines (line # ls) m =
     (if length line < 2 \<or> line ! 1 \<noteq> CHR ''|'' then wal_lines ls m
      else if line ! 0 = CHR ''P''
      then (case DeserializeRecord (drop 2 line) of
              Throw e \<Rightarrow> (m, Throw e)
            | Ret (Inl status) \<Rightarrow> (m, Ret status)
            | Ret (Inr r) \<Rightarrow> wal_lines ls (put_record r m))
      else if line ! 0 = CHR ''D''
      then (let parts = SplitEscaped (drop 2 line) CHR ''|'' in
            if length parts \<ge> 2
            then wal_lines ls (omap_erase (BuildCompositeKey (Unescape (parts ! 0)) (Unescape (parts ! 1))) m)
            else wal_lines ls m)
      else wal_lines ls m)"

definition ReplayWalLocked :: "pb_api \<Rightarrow> fs \<Rightarrow> wal_store \<Rightarrow> wal_store \<times> Status outcome" where
  "ReplayWalLocked pb s st =
     (case ReadWholeFile (kv_not_found (wal_path st)) s (wal_path st) of
        Inl _ \<Rightarrow> (st, Ret Ok)
      | Inr bytes \<Rightarrow>
          if HasPersistenceMagic bytes
          then (case DecodeFrames bytes of
                  Inl e \<Rightarrow> (st, Ret e)
                | Inr frames \<Rightarrow>
                    let (m, status) = frame_loop (DecodeWalEntry pb) apply_entry frames (records st)
                    in (st\<lparr>records := m\<rparr>, Ret status))
          else let (m, status) = wal_lines (getlines newline bytes) (records st)
               in (st\<lparr>records := m\<rparr>, status))"

definition Wal_Recover :: "pb_api \<Rightarrow> fs \<Rightarrow> wal_store \<Rightarrow> wal_store \<times> Status outcome" where
  "Wal_Recover pb s st =
     (case ReplaySnapshotLocked pb s (st\<lparr>records := []\<rparr>) of
        (st', Throw e) \<Rightarrow> (st', Throw e)
      | (st', Ret status) \<Rightarrow>
          if \<not> ok status then (st', Ret status) else ReplayWalLocked pb s st')"

text \<open>
  The branch of \<open>CreateKvStore\<close> that builds this store. When \<open>Recover\<close> does not succeed
  the local \<open>unique_ptr\<close> dies with the frame, and with it runs the destructor.
\<close>

definition CreateWalStore :: "pb_api \<Rightarrow> string \<Rightarrow> string \<Rightarrow> fs \<Rightarrow> wal_store StatusOr outcome \<times> fs" where
  "CreateWalStore pb wal snapshot s =
     (case Wal_Recover pb s (new_wal_store wal snapshot) of
        (st, Throw e) \<Rightarrow> (Throw e, Wal_destroy pb (s, st))
      | (st, Ret status) \<Rightarrow>
          if \<not> ok status then (Ret (Inl status), Wal_destroy pb (s, st))
          else (Ret (Inr st), s))"

subsection \<open>The invariant of the store\<close>

text \<open>Every record is filed under its own composite key, in key order.\<close>

definition map_inv :: "(string, DocumentRecord) omap \<Rightarrow> bool" where
  "map_inv m \<longleftrightarrow> omap_wf m \<and> (\<forall>(k, r) \<in> set m. k = document_key r)"

lemma map_inv_Nil [simp]: "map_inv []"
  by (simp add: map_inv_def)

lemma map_inv_put [simp, intro]: "map_inv m \<Longrightarrow> map_inv (omap_put (document_key r) r m)"
  using set_omap_put_subset [of "document_key r" r m] by (auto simp: map_inv_def)

lemma map_inv_put_record [simp, intro]: "map_inv m \<Longrightarrow> map_inv (put_record r m)"
  by (simp add: put_record_def map_inv_put)

lemma map_inv_erase [simp, intro]: "map_inv m \<Longrightarrow> map_inv (omap_erase k m)"
  by (auto simp: map_inv_def omap_erase_def)

lemma map_inv_lookup: "map_inv m \<Longrightarrow> map_of m k = Some r \<Longrightarrow> document_key r = k"
  by (auto simp: map_inv_def dest!: map_of_SomeD)

lemma map_inv_wf [simp]: "map_inv m \<Longrightarrow> omap_wf m"
  by (simp add: map_inv_def)

lemma map_inv_fold_put_record: "map_inv m \<Longrightarrow> map_inv (fold put_record rs m)"
  by (induction rs arbitrary: m) auto

lemma map_inv_apply_entry: "map_inv m \<Longrightarrow> map_inv (apply_entry e m)"
  by (simp add: apply_entry_def map_inv_put_record map_inv_erase)

lemma map_inv_fold_entries: "map_inv m \<Longrightarrow> map_inv (fold apply_entry es m)"
  by (induction es arbitrary: m) (auto simp: map_inv_apply_entry)

lemma map_inv_frame_loop:
  assumes "\<And>x m. map_inv m \<Longrightarrow> map_inv (app x m)"
  shows "map_inv m \<Longrightarrow> map_inv (fst (frame_loop dec app fs m))"
  by (induction fs arbitrary: m) (auto simp: assms split: sum.splits)

lemma map_inv_snapshot_lines: "map_inv m \<Longrightarrow> map_inv (fst (snapshot_lines ls m))"
  by (induction ls m rule: snapshot_lines.induct) (auto split: outcome.splits sum.splits)

lemma map_inv_wal_lines: "map_inv m \<Longrightarrow> map_inv (fst (wal_lines ls m))"
  by (induction ls m rule: wal_lines.induct)
    (auto simp: Let_def split: outcome.splits sum.splits)

text \<open>Copying the records of a map gives the map back.\<close>

lemma fold_put_record_self:
  assumes "map_inv m"
  shows "fold put_record (map snd m) [] = m"
proof -
  have "fold put_record (map snd xs) n = fold (\<lambda>(k, v). omap_put k v) xs n"
    if "\<forall>(k, r) \<in> set xs. k = document_key r" for xs n
    using that by (induction xs arbitrary: n) (auto simp: put_record_def)
  with assms show ?thesis
    using fold_put_self [of m] by (simp add: map_inv_def)
qed

text \<open>The entries of the log as operations of the dictionary.\<close>

definition entry_op :: "WalEntry \<Rightarrow> (string, DocumentRecord) log_op" where
  "entry_op e =
     (if wal_operation e = kPut then Write (document_key (wal_record e)) (wal_record e)
      else Erase (BuildCompositeKey (wal_collection e) (wal_key e)))"

lemma fold_apply_entry: "fold apply_entry es m = replay omap_put omap_erase (map entry_op es) m"
  by (induction es arbitrary: m) (simp_all add: apply_entry_def entry_op_def put_record_def)

lemma fold_entries_idem:
  "omap_wf m \<Longrightarrow> fold apply_entry es (fold apply_entry es m) = fold apply_entry es m"
  by (simp add: fold_apply_entry omap.replay_idem)

lemma put_entry_simps [simp]:
  "wal_operation (put_entry r) = kPut" "wal_record (put_entry r) = r"
  "wal_collection (put_entry r) = []" "wal_key (put_entry r) = []"
  "(put_entry r)\<lparr>wal_operation := kPut\<rparr> = put_entry r"
  "apply_entry (put_entry r) m = put_record r m"
  by (simp_all add: put_entry_def default_WalEntry_def apply_entry_def)

lemma delete_entry_simps [simp]:
  "wal_operation (delete_entry c k) = kDelete" "wal_record (delete_entry c k) = empty_document"
  "wal_collection (delete_entry c k) = c" "wal_key (delete_entry c k) = k"
  "apply_entry (delete_entry c k) m = omap_erase (BuildCompositeKey c k) m"
  by (simp_all add: delete_entry_def default_WalEntry_def apply_entry_def)

lemma fold_put_entries: "fold apply_entry (map put_entry rs) m = fold put_record rs m"
  by (induction rs arbitrary: m) simp_all

subsection \<open>Files that hold a log or a snapshot\<close>

definition file_image :: "('a \<Rightarrow> string) \<Rightarrow> string option \<Rightarrow> 'a list \<Rightarrow> bool" where
  "file_image enc b xs \<longleftrightarrow> xs = [] \<and> (b = None \<or> b = Some []) \<or> b = Some (framed_file enc xs)"

lemma file_image_readable:
  assumes "file_image enc (fs_files s p) xs" and "fs_readable s p"
  obtains (absent) "xs = []" "\<exists>e. ReadWholeFile w s p = Inl e"
  | (empty) "xs = []" "ReadWholeFile w s p = Inr []"
  | (framed) "ReadWholeFile w s p = Inr (framed_file enc xs)"
  using assms by (auto simp: file_image_def ReadWholeFile_def)

lemma ReplaySnapshotLocked_image:
  assumes "file_image (EncodeDocumentRecord pb) (fs_files s (snapshot_path st)) docs"
    and "fs_readable s (snapshot_path st)"
    and "pb_laws pb" and "\<forall>r \<in> set docs. document_ok pb r"
  shows "ReplaySnapshotLocked pb s st =
    (st\<lparr>records := fold put_record docs (records st)\<rparr>, Ret Ok)"
  using assms(1,2)
proof (cases rule: file_image_readable [where w = "kv_not_found (snapshot_path st)"])
  case framed
  have "DecodeFrames (framed_file (EncodeDocumentRecord pb) docs) = Inr (map (EncodeDocumentRecord pb) docs)"
    using assms(3,4) by (intro doc_codec.frames_of_file) simp
  moreover have "frame_loop (DecodeDocumentRecord pb) put_record (map (EncodeDocumentRecord pb) docs) (records st)
      = (fold put_record docs (records st), Ok)"
    using assms(3,4) by (intro doc_codec.frame_loop_enc) simp
  ultimately show ?thesis by (simp add: ReplaySnapshotLocked_def framed)
qed (auto simp: ReplaySnapshotLocked_def)

lemma ReplayWalLocked_image:
  assumes "file_image (EncodeWalEntry pb) (fs_files s (wal_path st)) es"
    and "fs_readable s (wal_path st)"
    and "pb_laws pb" and "\<forall>e \<in> set es. wal_entry_ok pb e"
  shows "ReplayWalLocked pb s st =
    (st\<lparr>records := fold apply_entry es (records st)\<rparr>, Ret Ok)"
  using assms(1,2)
proof (cases rule: file_image_readable [where w = "kv_not_found (wal_path st)"])
  case framed
  have "DecodeFrames (framed_file (EncodeWalEntry pb) es) = Inr (map (EncodeWalEntry pb) es)"
    using assms(3,4) by (intro wal_codec.frames_of_file) simp
  moreover have "frame_loop (DecodeWalEntry pb) apply_entry (map (EncodeWalEntry pb) es) (records st)
      = (fold apply_entry es (records st), Ok)"
    using assms(3,4) by (intro wal_codec.frame_loop_enc) simp
  ultimately show ?thesis by (simp add: ReplayWalLocked_def framed)
qed (auto simp: ReplayWalLocked_def)

lemma append_entries_image:
  assumes "file_image (EncodeWalEntry pb) (fs_files s p) es" and "usable s p" and "new \<noteq> []"
  shows "\<exists>s'. append_entries pb p new current s = (Ok, s') \<and>
    (\<exists>b. s' = write_file p b s) \<and> file_image (EncodeWalEntry pb) (fs_files s' p) (es @ new)"
proof -
  have "\<not> ShouldRewriteLegacyWal s p"
    using assms(1,2)
    by (auto simp: ShouldRewriteLegacyWal_def file_image_def usable_def ReadWholeFile_def
        file_exists_def file_bytes_def)
  moreover have "fs_writable s p" using assms(2) by (simp add: usable_def)
  ultimately show ?thesis
    using assms(1)
    by (auto simp: append_entries_def usable_EnsureParentDirectory [OF assms(2)] Let_def file_image_def
        file_exists_def file_bytes_def framed_file_def encode_entries_def)
qed

subsection \<open>Durability\<close>

text \<open>
  The files determine the store: the map is the snapshot with the log replayed over it.
\<close>

definition storable :: "pb_api \<Rightarrow> DocumentRecord \<Rightarrow> bool" where
  "storable pb r \<longleftrightarrow> document_ok pb r \<and> wal_entry_ok pb (put_entry r)"

definition loggable :: "pb_api \<Rightarrow> WalEntry \<Rightarrow> bool" where
  "loggable pb e \<longleftrightarrow>
     wal_entry_ok pb e \<and> (wal_operation e = kPut \<longrightarrow> document_ok pb (wal_record e))"

definition durable :: "pb_api \<Rightarrow> fs \<Rightarrow> wal_store \<Rightarrow> bool" where
  "durable pb s st \<longleftrightarrow>
     wal_path st \<noteq> snapshot_path st \<and> usable s (wal_path st) \<and> usable s (snapshot_path st) \<and>
     (\<exists>es docs.
        file_image (EncodeWalEntry pb) (fs_files s (wal_path st)) es \<and>
        file_image (EncodeDocumentRecord pb) (fs_files s (snapshot_path st)) docs \<and>
        (\<forall>e \<in> set es. loggable pb e) \<and> (\<forall>r \<in> set docs. document_ok pb r) \<and>
        records st = fold apply_entry es (fold put_record docs []))"

lemma durableE:
  assumes "durable pb s st"
  obtains es docs where
    "wal_path st \<noteq> snapshot_path st" "usable s (wal_path st)" "usable s (snapshot_path st)"
    "file_image (EncodeWalEntry pb) (fs_files s (wal_path st)) es"
    "file_image (EncodeDocumentRecord pb) (fs_files s (snapshot_path st)) docs"
    "\<forall>e \<in> set es. loggable pb e" "\<forall>r \<in> set docs. document_ok pb r"
    "records st = fold apply_entry es (fold put_record docs [])"
  using assms unfolding durable_def by blast

lemma durable_map_inv: "durable pb s st \<Longrightarrow> map_inv (records st)"
  by (auto simp: durable_def map_inv_fold_entries map_inv_fold_put_record)

lemma durable_Recover:
  assumes "pb_laws pb" and "durable pb s st"
  shows "Wal_Recover pb s (st\<lparr>records := m\<rparr>) = (st, Ret Ok)"
  using assms(2)
proof (cases rule: durableE)
  case (1 es docs)
  have "ReplaySnapshotLocked pb s (st\<lparr>records := []\<rparr>) =
      (st\<lparr>records := fold put_record docs []\<rparr>, Ret Ok)"
    using 1 assms(1) by (subst ReplaySnapshotLocked_image) (auto simp: usable_def)
  moreover have "ReplayWalLocked pb s (st\<lparr>records := fold put_record docs []\<rparr>) = (st, Ret Ok)"
    using 1 assms(1) by (subst ReplayWalLocked_image) (auto simp: usable_def loggable_def)
  ultimately show ?thesis by (simp add: Wal_Recover_def)
qed

text \<open>Logging entries whose effect the map already shows keeps the files in step.\<close>

lemma durable_append:
  assumes "durable pb s st" and "\<forall>e \<in> set new. loggable pb e" and "new \<noteq> []"
  shows "\<exists>s'. append_entries pb (wal_path st) new current s = (Ok, s') \<and>
    durable pb s' (st\<lparr>records := fold apply_entry new (records st)\<rparr>)"
  using assms(1)
proof (cases rule: durableE)
  case (1 es docs)
  from append_entries_image [OF 1(4) 1(2) assms(3)] obtain s' b where
    s': "append_entries pb (wal_path st) new current s = (Ok, s')" "s' = write_file (wal_path st) b s"
    and im: "file_image (EncodeWalEntry pb) (fs_files s' (wal_path st)) (es @ new)"
    by blast
  have "durable pb s' (st\<lparr>records := fold apply_entry new (records st)\<rparr>)"
    unfolding durable_def
    using 1 assms(2) s'(2) im
    by (intro conjI exI [of _ "es @ new"] exI [of _ docs]) auto
  with s' show ?thesis by blast
qed

lemma loggable_put_entry: "storable pb r \<Longrightarrow> loggable pb (put_entry r)"
  by (simp add: storable_def loggable_def)

definition documents_ok :: "pb_api \<Rightarrow> (string, DocumentRecord) omap \<Rightarrow> bool" where
  "documents_ok pb m \<longleftrightarrow> (\<forall>r \<in> snd ` set m. document_ok pb r)"

lemma documents_ok_put_record:
  "documents_ok pb m \<Longrightarrow> document_ok pb r \<Longrightarrow> documents_ok pb (put_record r m)"
  using set_omap_put_subset [of "document_key r" r m]
  by (auto simp: documents_ok_def put_record_def)

lemma documents_ok_apply_entry:
  "documents_ok pb m \<Longrightarrow> loggable pb e \<Longrightarrow> documents_ok pb (apply_entry e m)"
  by (simp add: apply_entry_def loggable_def documents_ok_put_record)
    (simp add: documents_ok_def omap_erase_def)

lemma documents_ok_folds:
  "documents_ok pb m \<Longrightarrow> \<forall>r \<in> set rs. document_ok pb r \<Longrightarrow> documents_ok pb (fold put_record rs m)"
  "documents_ok pb m \<Longrightarrow> \<forall>e \<in> set es. loggable pb e \<Longrightarrow> documents_ok pb (fold apply_entry es m)"
  by (induction rs arbitrary: m, simp_all add: documents_ok_put_record)
    (induction es arbitrary: m, simp_all add: documents_ok_apply_entry)

lemma durable_documents:
  assumes "durable pb s st"
  shows "documents_ok pb (records st)"
  using assms
proof (cases rule: durableE)
  case (1 es docs)
  have "documents_ok pb []" by (simp add: documents_ok_def)
  with 1 show ?thesis by (simp add: documents_ok_folds)
qed

lemma put_record_eq: "apply_entry (put_entry r) m = omap_put (document_key r) r m"
  by (simp add: put_record_def)

lemma durable_Put:
  assumes "durable pb s st" and "storable pb r"
  shows "\<exists>status s' st'. Wal_Put pb r (s, st) = (status, s', st') \<and> durable pb s' st' \<and>
    wal_path st' = wal_path st \<and> snapshot_path st' = snapshot_path st"
proof -
  let ?st = "st\<lparr>records := omap_put (document_key r) r (records st)\<rparr>"
  obtain s' where s': "append_entries pb (wal_path st) [put_entry r] (records ?st) s = (Ok, s')"
    and d: "durable pb s' (st\<lparr>records := fold apply_entry [put_entry r] (records st)\<rparr>)"
    using durable_append [OF assms(1), of "[put_entry r]"] assms(2) loggable_put_entry by fastforce
  from d have "durable pb s' ?st" by (simp add: put_record_eq del: put_entry_simps(6))
  with s' assms(1) show ?thesis
    by (auto simp: Wal_Put_def AppendWalLocked_def Let_def split: option.splits)
qed

lemma durable_Delete:
  assumes "durable pb s st" and "loggable pb (delete_entry c k)"
  shows "\<exists>s' st'. Wal_Delete pb c k (s, st) = (Ok, s', st') \<and> durable pb s' st' \<and>
    wal_path st' = wal_path st \<and> snapshot_path st' = snapshot_path st"
proof -
  let ?st = "st\<lparr>records := omap_erase (BuildCompositeKey c k) (records st)\<rparr>"
  obtain s' where "append_entries pb (wal_path st) [delete_entry c k] (records ?st) s = (Ok, s')"
    and "durable pb s' (st\<lparr>records := fold apply_entry [delete_entry c k] (records st)\<rparr>)"
    using durable_append [OF assms(1), of "[delete_entry c k]"] assms(2) by fastforce
  then show ?thesis
    by (auto simp: Wal_Delete_def AppendDeleteLocked_def Let_def)
qed

lemma batch_loop_Inr:
  "batch_loop rs keys staged ta = Inr (staged', ta') \<Longrightarrow>
     \<exists>new. ta' = ta @ new \<and> staged' = fold put_record new staged \<and> set new \<subseteq> set rs"
proof (induction rs keys staged ta rule: batch_loop.induct)
  case (2 r rs keys staged ta)
  have stage: ?case
    if "batch_loop rs (insert (document_key r) keys) (omap_put (document_key r) r staged) (ta @ [r])
        = Inr (staged', ta')" and
      "\<exists>new. ta' = (ta @ [r]) @ new \<and>
        staged' = fold put_record new (omap_put (document_key r) r staged) \<and> set new \<subseteq> set rs"
  proof -
    from that(2) obtain new where "ta' = (ta @ [r]) @ new" "set new \<subseteq> set rs"
      "staged' = fold put_record new (omap_put (document_key r) r staged)" by blast
    then show ?thesis by (intro exI [of _ "r # new"]) (auto simp: put_record_def [of r staged])
  qed
  show ?case
  proof (cases "map_of staged (document_key r)")
    case None
    with 2 stage show ?thesis by (auto simp: Let_def split: if_splits)
  next
    case (Some e)
    show ?thesis
    proof (cases "IsDuplicateMutation e r")
      case True
      with 2 Some show ?thesis by (fastforce simp: Let_def split: if_splits)
    next
      case False
      with 2 Some stage show ?thesis by (auto simp: Let_def split: if_splits)
    qed
  qed
qed simp

lemma durable_BatchPut:
  assumes "durable pb s st" and "\<forall>r \<in> set rs. storable pb r"
  shows "\<exists>status s' st'. Wal_BatchPut pb rs (s, st) = (status, s', st') \<and> durable pb s' st' \<and>
    wal_path st' = wal_path st \<and> snapshot_path st' = snapshot_path st"
proof (cases "batch_loop rs {} (records st) []")
  case (Inl e)
  with assms(1) show ?thesis by (simp add: Wal_BatchPut_def)
next
  case (Inr p)
  then obtain new where p: "p = (fold put_record new (records st), new)" and sub: "set new \<subseteq> set rs"
    using batch_loop_Inr [of rs "{}" "records st" "[]"] by (cases p) auto
  show ?thesis
  proof (cases "new = []")
    case True
    with Inr p assms(1) show ?thesis by (simp add: Wal_BatchPut_def)
  next
    case False
    obtain s' where "append_entries pb (wal_path st) (map put_entry new)
          (fold put_record new (records st)) s = (Ok, s')"
      and "durable pb s' (st\<lparr>records := fold put_record new (records st)\<rparr>)"
      using durable_append [OF assms(1), of "map put_entry new"] assms(2) sub False
        loggable_put_entry by (fastforce simp: fold_put_entries)
    with Inr p False show ?thesis
      by (simp add: Wal_BatchPut_def AppendWalBatchLocked_def)
  qed
qed

lemma snapshot_bytes_framed: "snapshot_bytes pb m = framed_file (EncodeDocumentRecord pb) (map snd m)"
  by (induction m) (auto simp: snapshot_bytes_def framed_file_def)

lemma durable_FlushSnapshot:
  assumes "durable pb s st"
  shows "\<exists>s'. Wal_FlushSnapshot pb (s, st) = (Ok, s', st) \<and> durable pb s' st"
  using assms
proof (cases rule: durableE)
  case (1 es docs)
  let ?s = "write_file (snapshot_path st) (snapshot_bytes pb (records st)) s"
  have "records st = fold apply_entry es (fold put_record (map snd (records st)) [])"
    using fold_put_record_self [OF durable_map_inv [OF assms]] 1(8)
      fold_entries_idem [of "fold put_record docs []" es]
    by (simp add: map_inv_fold_put_record)
  moreover have "\<forall>r \<in> set (map snd (records st)). document_ok pb r"
    using durable_documents [OF assms] by (simp add: documents_ok_def)
  moreover have "file_image (EncodeDocumentRecord pb) (fs_files ?s (snapshot_path st)) (map snd (records st))"
    by (simp add: file_image_def snapshot_bytes_framed)
  ultimately have "durable pb ?s st"
    unfolding durable_def using 1
    by (intro conjI exI [of _ es] exI [of _ "map snd (records st)"]) auto
  moreover have "Wal_FlushSnapshot pb (s, st) = (Ok, ?s, st)"
    using 1(3) by (auto simp: Wal_FlushSnapshot_def Let_def usable_EnsureParentDirectory usable_def [of s])
  ultimately show ?thesis by blast
qed

subsection \<open>The store as a key-value store\<close>

lemma Wal_Put_duplicate:
  "map_of (records st) (document_key r) = Some e \<Longrightarrow> IsDuplicateMutation e r \<Longrightarrow>
   Wal_Put pb r (s, st) = (Ok, s, st)"
  by (simp add: Wal_Put_def ValidateMutation_def)

lemma Wal_Put_stale:
  "map_of (records st) (document_key r) = Some e \<Longrightarrow> \<not> ok (ValidateMutation e r) \<Longrightarrow>
   Wal_Put pb r (s, st) = (ValidateMutation e r, s, st)"
  by (simp add: Wal_Put_def)

lemma Wal_Put_stored:
  assumes "\<forall>e. map_of (records st) (document_key r) = Some e \<longrightarrow>
      ok (ValidateMutation e r) \<and> \<not> IsDuplicateMutation e r"
  shows "Wal_Put pb r (s, st) =
    (let st' = st\<lparr>records := omap_put (document_key r) r (records st)\<rparr>
     in case AppendWalLocked pb CHR ''P'' r s st' of (status, s') \<Rightarrow> (status, s', st'))"
  using assms by (simp add: Wal_Put_def Let_def split: option.split)

lemma Wal_Put_cases:
  assumes "Wal_Put pb r (s, st) = (status, s', st')"
  obtains (duplicate) e where "map_of (records st) (document_key r) = Some e"
      "IsDuplicateMutation e r" "status = Ok" "s' = s" "st' = st"
  | (stale) e where "map_of (records st) (document_key r) = Some e"
      "\<not> accepts (Some e) r" "status = ValidateMutation e r" "s' = s" "st' = st"
  | (stored) "accepts (map_of (records st) (document_key r)) r"
      "settle (map_of (records st) (document_key r)) r = r"
      "st' = st\<lparr>records := omap_put (document_key r) r (records st)\<rparr>"
      "AppendWalLocked pb CHR ''P'' r s st' = (status, s')"
proof (cases "\<forall>e. map_of (records st) (document_key r) = Some e \<longrightarrow>
    ok (ValidateMutation e r) \<and> \<not> IsDuplicateMutation e r")
  case True
  from Wal_Put_stored [OF this, of pb s] assms
  have "st' = st\<lparr>records := omap_put (document_key r) r (records st)\<rparr>"
    "AppendWalLocked pb CHR ''P'' r s st' = (status, s')"
    by (auto simp: Let_def split: prod.splits)
  moreover from True have "accepts (map_of (records st) (document_key r)) r"
    "settle (map_of (records st) (document_key r)) r = r"
    by (auto simp: accepts_def settle_def split: option.splits)
  ultimately show ?thesis by (intro stored)
next
  case False
  then obtain e where e: "map_of (records st) (document_key r) = Some e"
    and ne: "\<not> ok (ValidateMutation e r) \<or> IsDuplicateMutation e r" by blast
  show ?thesis
  proof (cases "IsDuplicateMutation e r")
    case True
    from Wal_Put_duplicate [OF e this, of pb s] assms have "status = Ok" "s' = s" "st' = st" by simp_all
    with e True show ?thesis by (intro duplicate)
  next
    case False
    with ne have bad: "\<not> ok (ValidateMutation e r)" by blast
    from Wal_Put_stale [OF e this, of pb s] assms
    have "status = ValidateMutation e r" "s' = s" "st' = st" by simp_all
    moreover have "\<not> accepts (Some e) r" using bad by (simp add: accepts_def)
    ultimately show ?thesis using e by (intro stale)
  qed
qed

definition wal_lookup :: "fs \<times> wal_store \<Rightarrow> string \<Rightarrow> DocumentRecord option" where
  "wal_lookup = (\<lambda>(s, st). map_of (records st))"

interpretation wal_kv: retry_store "\<lambda>_. True" "\<lambda>_. True" document_key wal_lookup "Wal_Put pb" for pb
proof
  fix r :: DocumentRecord and x x' :: "fs \<times> wal_store" and status
  obtain s st where x: "x = (s, st)" by (cases x)
  obtain s' st' where x': "x' = (s', st')" by (cases x')
  have *: "(ok status \<longrightarrow> accepts (wal_lookup x (document_key r)) r \<and>
        wal_lookup x' = (wal_lookup x)(document_key r \<mapsto> settle (wal_lookup x (document_key r)) r)) \<and>
      (\<not> ok status \<longrightarrow> wal_lookup x' = wal_lookup x \<or> accepts (wal_lookup x (document_key r)) r \<and>
        wal_lookup x' = (wal_lookup x)(document_key r \<mapsto> settle (wal_lookup x (document_key r)) r))"
    if put: "Wal_Put pb r x = (status, x')"
  proof -
  from put have "Wal_Put pb r (s, st) = (status, s', st')" by (simp add: x x')
  then show ?thesis
  proof (cases rule: Wal_Put_cases)
    case (duplicate e)
    then show ?thesis
      by (simp add: x x' wal_lookup_def accepts_def settle_def ValidateMutation_ok fun_upd_idem)
  next
    case (stale e)
    then show ?thesis by (auto simp: x x' wal_lookup_def accepts_def)
  next
    case stored
    then show ?thesis by (auto simp: x x' wal_lookup_def)
  qed
  qed
  show "accepts (wal_lookup x (document_key r)) r \<and>
      wal_lookup x' = (wal_lookup x)(document_key r \<mapsto> settle (wal_lookup x (document_key r)) r)"
    if "Wal_Put pb r x = (status, x')" "ok status"
    using * that by blast
  show "wal_lookup x' = wal_lookup x \<or> accepts (wal_lookup x (document_key r)) r \<and>
      wal_lookup x' = (wal_lookup x)(document_key r \<mapsto> settle (wal_lookup x (document_key r)) r)"
    if "Wal_Put pb r x = (status, x')" "\<not> ok status"
    using * that by blast
next
  fix r e :: DocumentRecord and x :: "fs \<times> wal_store"
  assume "wal_lookup x (document_key r) = Some e" and "IsDuplicateMutation e r"
  then show "Wal_Put pb r x = (Ok, x)"
    by (cases x) (simp add: wal_lookup_def Wal_Put_def ValidateMutation_def)
qed

subsection \<open>Batches\<close>

text \<open>The batch is accepted exactly if its keys differ and each record is admitted.\<close>

definition batch_ok :: "DocumentRecord list \<Rightarrow> string set \<Rightarrow> (string \<rightharpoonup> DocumentRecord) \<Rightarrow> bool" where
  "batch_ok rs keys m \<longleftrightarrow>
     distinct (map document_key rs) \<and> document_key ` set rs \<inter> keys = {} \<and>
     (\<forall>r \<in> set rs. accepts (m (document_key r)) r)"

definition batch_result ::
  "DocumentRecord list \<Rightarrow> (string \<rightharpoonup> DocumentRecord) \<Rightarrow> (string \<rightharpoonup> DocumentRecord)" where
  "batch_result rs m =
     fold (\<lambda>r m'. m'(document_key r \<mapsto> settle (m (document_key r)) r)) rs m"

lemma batch_ok_Cons:
  "batch_ok (r # rs) keys m \<longleftrightarrow>
     document_key r \<notin> keys \<and> accepts (m (document_key r)) r \<and> batch_ok rs (insert (document_key r) keys) m"
  by (auto simp: batch_ok_def)

lemma batch_ok_upd: "k \<in> keys \<Longrightarrow> batch_ok rs keys (m(k := x)) = batch_ok rs keys m"
proof (cases "document_key ` set rs \<inter> keys = {}")
  case True
  assume "k \<in> keys"
  with True have "document_key r \<noteq> k" if "r \<in> set rs" for r using that by blast
  then show ?thesis by (simp add: batch_ok_def)
qed (simp add: batch_ok_def)

lemma batch_result_frame:
  "k \<notin> document_key ` set rs \<Longrightarrow> batch_result rs m k = m k"
proof -
  have "fold (\<lambda>r m'. m'(document_key r \<mapsto> f r)) rs n k = n k"
    if "k \<notin> document_key ` set rs" for f n
    using that by (induction rs arbitrary: n) auto
  then show "k \<notin> document_key ` set rs \<Longrightarrow> batch_result rs m k = m k"
    by (simp add: batch_result_def)
qed

lemma batch_result_upd:
  assumes "k \<notin> document_key ` set rs"
  shows "batch_result rs (m(k := x)) = fold (\<lambda>r m'. m'(document_key r \<mapsto> settle (m (document_key r)) r)) rs (m(k := x))"
  unfolding batch_result_def
proof (rule fold_cong [OF refl refl])
  fix r
  assume "r \<in> set rs"
  with assms have "document_key r \<noteq> k" by blast
  then show "(\<lambda>m'. m'(document_key r \<mapsto> settle ((m(k := x)) (document_key r)) r)) =
      (\<lambda>m'. m'(document_key r \<mapsto> settle (m (document_key r)) r))" by simp
qed

lemma batch_result_Cons:
  assumes "document_key r \<notin> document_key ` set rs"
  shows "batch_result (r # rs) m =
    batch_result rs (m(document_key r \<mapsto> settle (m (document_key r)) r))"
  using batch_result_upd [OF assms, of m] by (simp add: batch_result_def)

lemma batch_result_lookup:
  assumes "distinct (map document_key rs)" and "r \<in> set rs"
  shows "batch_result rs m (document_key r) = Some (settle (m (document_key r)) r)"
  using assms
proof (induction rs arbitrary: m)
  case (Cons x rs)
  show ?case
  proof (cases "x = r")
    case True
    with Cons.prems show ?thesis
      by (simp add: batch_result_Cons batch_result_frame)
  next
    case False
    with Cons.prems have r: "r \<in> set rs" by simp
    then have "document_key r \<in> document_key ` set rs" by (rule imageI)
    with Cons.prems have "document_key r \<noteq> document_key x" by auto
    note r this
    moreover from Cons.prems have "distinct (map document_key rs)" "document_key x \<notin> document_key ` set rs"
      by simp_all
    ultimately show ?thesis using Cons.IH by (simp add: batch_result_Cons)
  qed
qed simp

lemma batch_loop_refuse:
  assumes "document_key r \<in> keys \<or> \<not> accepts (map_of staged (document_key r)) r"
  shows "\<exists>m. batch_loop (r # rs) keys staged ta = Inl (InvalidArgument m)"
proof (cases "document_key r \<in> keys")
  case True
  then show ?thesis by (auto simp: Let_def simp del: append_Cons)
next
  case False
  with assms obtain e where "map_of staged (document_key r) = Some e"
    and "\<not> ok (ValidateMutation e r)"
    by (auto simp: accepts_def split: option.splits)
  with False show ?thesis
    using ValidateMutation_cases [of e r] by (auto simp: Let_def)
qed

lemma batch_loop_step:
  assumes "document_key r \<notin> keys" and "accepts (map_of staged (document_key r)) r"
  obtains staged' ta' where
    "batch_loop (r # rs) keys staged ta = batch_loop rs (insert (document_key r) keys) staged' ta'"
    "map_of staged' = (map_of staged)(document_key r \<mapsto> settle (map_of staged (document_key r)) r)"
proof (cases "map_of staged (document_key r)")
  case None
  with assms that show ?thesis by (simp add: Let_def)
next
  case (Some e)
  show ?thesis
  proof (cases "IsDuplicateMutation e r")
    case True
    with Some assms that [of staged ta] show ?thesis
      by (simp add: Let_def ValidateMutation_def settle_def fun_upd_idem)
  next
    case False
    with Some assms that [of "omap_put (document_key r) r staged" "ta @ [r]"] show ?thesis
      by (simp add: Let_def settle_def accepts_def)
  qed
qed

lemma batch_loop_accepts:
  "batch_ok rs keys (map_of staged) \<Longrightarrow>
     \<exists>staged' ta'. batch_loop rs keys staged ta = Inr (staged', ta') \<and>
       map_of staged' = batch_result rs (map_of staged)"
proof (induction rs arbitrary: keys staged ta)
  case (Cons r rs)
  from Cons.prems have "document_key r \<notin> keys" "accepts (map_of staged (document_key r)) r"
    and ok: "batch_ok rs (insert (document_key r) keys) (map_of staged)"
    by (simp_all add: batch_ok_Cons)
  from this(1,2) obtain st1 ta1 where
    eq: "batch_loop (r # rs) keys staged ta = batch_loop rs (insert (document_key r) keys) st1 ta1"
    and m: "map_of st1 = (map_of staged)(document_key r \<mapsto> settle (map_of staged (document_key r)) r)"
    by (rule batch_loop_step)
  have "document_key r \<notin> document_key ` set rs"
    using ok by (auto simp: batch_ok_def)
  moreover have "batch_ok rs (insert (document_key r) keys) (map_of st1)"
    using ok by (simp add: m batch_ok_upd)
  ultimately show ?case
    using Cons.IH [of "insert (document_key r) keys" st1 ta1]
    by (metis eq m batch_result_Cons)
qed (simp add: batch_result_def)

lemma batch_loop_refuses:
  "\<not> batch_ok rs keys (map_of staged) \<Longrightarrow>
     \<exists>m. batch_loop rs keys staged ta = Inl (InvalidArgument m)"
proof (induction rs arbitrary: keys staged ta)
  case (Cons r rs)
  show ?case
  proof (cases "document_key r \<in> keys \<or> \<not> accepts (map_of staged (document_key r)) r")
    case True
    then show ?thesis by (rule batch_loop_refuse)
  next
    case False
    then have "document_key r \<notin> keys" "accepts (map_of staged (document_key r)) r" by simp_all
    then obtain st1 ta1 where
      eq: "batch_loop (r # rs) keys staged ta = batch_loop rs (insert (document_key r) keys) st1 ta1"
      and m: "map_of st1 = (map_of staged)(document_key r \<mapsto> settle (map_of staged (document_key r)) r)"
      by (rule batch_loop_step)
    from False Cons.prems have "\<not> batch_ok rs (insert (document_key r) keys) (map_of st1)"
      by (simp add: batch_ok_Cons m batch_ok_upd)
    with Cons.IH show ?thesis by (simp only: eq)
  qed
qed (simp add: batch_ok_def)

end
