(* ===== verification/Wal_Properties.thy ===== *)
theory Wal_Properties
  imports Wal_Store
begin

text \<open>
  What the write-ahead store of \<open>Wal_Store\<close> guarantees to its callers: recovery after any
  sequence of calls, the treatment of damaged files, and the functional behaviour of each
  operation. The concrete runs use the documents and the file system below.
\<close>

subsection \<open>Calls\<close>

datatype wal_call =
    PutCall DocumentRecord
  | BatchCall "DocumentRecord list"
  | DeleteCall string string
  | FlushCall

fun wal_step :: "pb_api \<Rightarrow> wal_call \<Rightarrow> fs \<times> wal_store \<Rightarrow> Status \<times> fs \<times> wal_store" where
  "wal_step pb (PutCall r) x = Wal_Put pb r x"
| "wal_step pb (BatchCall rs) x = Wal_BatchPut pb rs x"
| "wal_step pb (DeleteCall c k) x = Wal_Delete pb c k x"
| "wal_step pb FlushCall x = Wal_FlushSnapshot pb x"

definition wal_run :: "pb_api \<Rightarrow> wal_call list \<Rightarrow> fs \<times> wal_store \<Rightarrow> fs \<times> wal_store" where
  "wal_run pb calls x = fold (\<lambda>call y. snd (wal_step pb call y)) calls x"

text \<open>The arguments of a call can be serialised.\<close>

fun call_ok :: "pb_api \<Rightarrow> wal_call \<Rightarrow> bool" where
  "call_ok pb (PutCall r) = storable pb r"
| "call_ok pb (BatchCall rs) = (\<forall>r \<in> set rs. storable pb r)"
| "call_ok pb (DeleteCall c k) = loggable pb (delete_entry c k)"
| "call_ok pb FlushCall = True"

lemma durable_step:
  assumes "durable pb s st" and "call_ok pb call"
  shows "\<exists>status s' st'. wal_step pb call (s, st) = (status, s', st') \<and> durable pb s' st' \<and>
    wal_path st' = wal_path st \<and> snapshot_path st' = snapshot_path st"
proof (cases call)
  case FlushCall
  with durable_FlushSnapshot [OF assms(1)] show ?thesis by auto
qed (use assms durable_Put [OF assms(1)] durable_BatchPut [OF assms(1)]
    durable_Delete [OF assms(1)] in fastforce)+

lemma durable_run:
  "durable pb s st \<Longrightarrow> \<forall>call \<in> set calls. call_ok pb call \<Longrightarrow>
   \<exists>s' st'. wal_run pb calls (s, st) = (s', st') \<and> durable pb s' st' \<and>
     wal_path st' = wal_path st \<and> snapshot_path st' = snapshot_path st"
proof (induction calls arbitrary: s st)
  case (Cons call calls)
  from Cons.prems(2) have "call_ok pb call" by simp
  from durable_step [OF Cons.prems(1) this] obtain status s1 st1 where
    step: "wal_step pb call (s, st) = (status, s1, st1)" and d: "durable pb s1 st1" and
    p: "wal_path st1 = wal_path st" "snapshot_path st1 = snapshot_path st" by blast
  from Cons.IH [OF d] Cons.prems(2) p step show ?case by (auto simp: wal_run_def)
qed (simp add: wal_run_def)

lemma durable_new:
  assumes "wal \<noteq> snapshot" and "usable s wal" and "usable s snapshot"
    and "fs_files s wal = None" and "fs_files s snapshot = None"
  shows "durable pb s (new_wal_store wal snapshot)"
proof -
  have "file_image (EncodeWalEntry pb) (fs_files s wal) []"
    "file_image (EncodeDocumentRecord pb) (fs_files s snapshot) []"
    using assms(4,5) by (simp_all add: file_image_def)
  then show ?thesis
    using assms(1-3) unfolding durable_def new_wal_store_def
    by (intro conjI exI [of _ "[]"]) simp_all
qed

lemma CreateWalStore_durable:
  assumes "pb_laws pb" and "durable pb s st"
  shows "CreateWalStore pb (wal_path st) (snapshot_path st) s = (Ret (Inr st), s)"
proof -
  have "new_wal_store (wal_path st) (snapshot_path st) = st\<lparr>records := []\<rparr>"
    by (cases st) (simp add: new_wal_store_def)
  with durable_Recover [OF assms, of "[]"] show ?thesis by (simp add: CreateWalStore_def)
qed

subsection \<open>Sample data\<close>

definition sample_document :: "string \<Rightarrow> string \<Rightarrow> nat \<Rightarrow> string \<Rightarrow> DocumentRecord" where
  "sample_document c k v m = empty_document\<lparr>doc_collection := c, doc_key := k, doc_title := ''t'',
     doc_version := word_of_nat v, doc_mutation_id := m\<rparr>"

subsection \<open>Recovery\<close>

text \<open>
  C1: whatever sequence of puts, batches, deletions and flushes a new store has served,
  accepted or refused, opening the store again on the resulting files yields exactly the
  same store, and opening changes no file.
\<close>

theorem recovery_restores_the_store:
  assumes "pb_laws pb" and "wal \<noteq> snapshot" and "usable s wal" and "usable s snapshot"
    and "fs_files s wal = None" and "fs_files s snapshot = None"
    and "\<forall>call \<in> set calls. call_ok pb call"
    and "wal_run pb calls (s, new_wal_store wal snapshot) = (s', st')"
  shows "CreateWalStore pb wal snapshot s' = (Ret (Inr st'), s')"
proof -
  have "durable pb s (new_wal_store wal snapshot)" using assms(2-6) by (rule durable_new)
  from durable_run [OF this assms(7)] assms(8) have "durable pb s' st'"
    and "wal_path st' = wal" and "snapshot_path st' = snapshot" by (auto simp: new_wal_store_def)
  with CreateWalStore_durable [OF assms(1)] show ?thesis by blast
qed

definition sample_calls :: "wal_call list" where
  "sample_calls = [PutCall (sample_document ''c'' ''a'' 1 ''m1''), FlushCall,
     BatchCall [sample_document ''c'' ''b'' 1 '''', sample_document ''d'' ''a'' 2 ''''],
     PutCall (sample_document ''d'' ''a'' 1 ''''), DeleteCall ''c'' ''a'']"

lemma sample_calls_ok: "\<forall>call \<in> set sample_calls. call_ok plain_pb call"
  by (simp add: sample_calls_def sample_document_def storable_def loggable_def document_ok_def
      wal_entry_ok_def empty_document_def ToProtoWal_def ToProto_def plain_pb_def doc_fields_def
      record_field_def flatten_pairs_def word_text_def put_entry_def delete_entry_def
      default_WalEntry_def)

theorem recovery_restores_the_store_witness:
  "case wal_run plain_pb sample_calls (empty_fs, new_wal_store ''w'' ''s'') of (s', st') \<Rightarrow>
     CreateWalStore plain_pb ''w'' ''s'' s' = (Ret (Inr st'), s')"
proof -
  obtain s' st' where run:
    "wal_run plain_pb sample_calls (empty_fs, new_wal_store ''w'' ''s'') = (s', st')"
    by (cases "wal_run plain_pb sample_calls (empty_fs, new_wal_store ''w'' ''s'')")
  with recovery_restores_the_store [OF plain_pb_laws _ _ _ _ _ sample_calls_ok run]
  show ?thesis by simp
qed

subsection \<open>Damaged files\<close>

text \<open>The state of a store that met a damaged file, and the effect of its destructor.\<close>

lemma Wal_destroy_usable:
  "usable s (snapshot_path st) \<Longrightarrow>
   Wal_destroy pb (s, st) = write_file (snapshot_path st) (snapshot_bytes pb (records st)) s"
  by (simp add: Wal_destroy_def Wal_FlushSnapshot_def Let_def usable_EnsureParentDirectory)
    (simp add: usable_def)

text \<open>
  A log whose last frame was cut short, as a crash during an append leaves it, is never
  replayed: opening the store fails with an internal error although every complete entry
  before the cut is intact.
\<close>

lemma torn_log_is_refused:
  assumes "pb_laws pb" and "\<forall>e \<in> set es. wal_entry_ok pb e" and "wal_entry_ok pb e"
    and "0 < n" and "n < length (EncodeFrame (EncodeWalEntry pb e))"
    and "fs_files s wal = Some (framed_file (EncodeWalEntry pb) es
           @ take n (EncodeFrame (EncodeWalEntry pb e)))"
    and "fs_readable s wal" and "fs_files s snapshot = None"
  shows "\<exists>m s'. CreateWalStore pb wal snapshot s = (Ret (Inl (Internal m)), s')"
proof -
  obtain m where "DecodeFrames (framed_file (EncodeWalEntry pb) es
      @ take n (EncodeFrame (EncodeWalEntry pb e))) = Inl (Internal m)"
    using wal_codec.torn_file [of es pb e n] assms(1-5) by blast
  then have "Wal_Recover pb s (new_wal_store wal snapshot) = (new_wal_store wal snapshot, Ret (Internal m))"
    using assms(6-8)
    by (simp add: Wal_Recover_def ReplaySnapshotLocked_def ReplayWalLocked_def new_wal_store_def
        ReadWholeFile_def HasPersistenceMagic_def)
  then show ?thesis by (simp add: CreateWalStore_def)
qed

text \<open>
  C2: a snapshot whose last frame was cut short is not only refused: the store that failed
  to open runs its destructor, which writes its empty map over the snapshot, so that every
  document that only the snapshot held is gone from disk.
\<close>

theorem failed_recovery_erases_the_snapshot:
  assumes "pb_laws pb" and "\<forall>r \<in> set docs. document_ok pb r" and "document_ok pb r"
    and "0 < n" and "n < length (EncodeFrame (EncodeDocumentRecord pb r))"
    and "fs_files s snapshot = Some (framed_file (EncodeDocumentRecord pb) docs
           @ take n (EncodeFrame (EncodeDocumentRecord pb r)))"
    and "usable s snapshot"
  shows "\<exists>m. CreateWalStore pb wal snapshot s =
    (Ret (Inl (Internal m)), write_file snapshot MagicHeader s)"
proof -
  obtain m where "DecodeFrames (framed_file (EncodeDocumentRecord pb) docs
      @ take n (EncodeFrame (EncodeDocumentRecord pb r))) = Inl (Internal m)"
    using doc_codec.torn_file [of docs pb r n] assms(1-5) by blast
  moreover have "fs_readable s snapshot" using assms(7) by (simp add: usable_def)
  ultimately have "Wal_Recover pb s (new_wal_store wal snapshot)
      = (new_wal_store wal snapshot, Ret (Internal m))"
    using assms(6)
    by (simp add: Wal_Recover_def ReplaySnapshotLocked_def new_wal_store_def
        ReadWholeFile_def HasPersistenceMagic_def)
  moreover have "Wal_destroy pb (s, new_wal_store wal snapshot) = write_file snapshot MagicHeader s"
    using Wal_destroy_usable [of s "new_wal_store wal snapshot" pb] assms(7)
    by (simp add: new_wal_store_def snapshot_bytes_def)
  ultimately show ?thesis by (simp add: CreateWalStore_def)
qed

lemma EncodeFrame_longer: "3 < length (EncodeFrame p)"
  by (simp add: EncodeFrame_def)

lemma sample_entry_ok: "wal_entry_ok plain_pb (put_entry (sample_document ''c'' ''a'' 1 ''m1''))"
  and sample_document_ok: "document_ok plain_pb (sample_document ''c'' ''a'' 1 ''m1'')"
  using sample_calls_ok by (simp_all add: sample_calls_def storable_def)

lemma torn_log_is_refused_witness:
  "let e = put_entry (sample_document ''c'' ''a'' 1 ''m1'') in
   \<exists>m s'. CreateWalStore plain_pb ''w'' ''s'' (write_file ''w''
     (framed_file (EncodeWalEntry plain_pb) [e] @ take 3 (EncodeFrame (EncodeWalEntry plain_pb e))) empty_fs)
     = (Ret (Inl (Internal m)), s')"
  unfolding Let_def
  by (rule torn_log_is_refused [OF plain_pb_laws _ sample_entry_ok _ EncodeFrame_longer])
    (simp_all add: sample_entry_ok del: One_nat_def)

theorem failed_recovery_erases_the_snapshot_witness:
  "let r = sample_document ''c'' ''a'' 1 ''m1'';
       s = write_file ''s'' (framed_file (EncodeDocumentRecord plain_pb) [r]
         @ take 3 (EncodeFrame (EncodeDocumentRecord plain_pb r))) empty_fs in
   \<exists>m. CreateWalStore plain_pb ''w'' ''s'' s = (Ret (Inl (Internal m)), write_file ''s'' MagicHeader s)"
  unfolding Let_def
  by (rule failed_recovery_erases_the_snapshot [OF plain_pb_laws _ sample_document_ok _ EncodeFrame_longer])
    (simp_all add: sample_document_ok del: One_nat_def)

subsection \<open>Puts\<close>

text \<open>
  Putting the same mutation again is acknowledged and changes neither the store nor any
  file, whatever the other stored documents are.
\<close>

lemma put_is_idempotent:
  assumes "Wal_Put pb r x = (status, x')" and "ok status" and "doc_mutation_id r \<noteq> []"
  shows "Wal_Put pb r x' = (Ok, x')"
  by (rule wal_kv.put_idempotent [OF TrueI TrueI assms])

lemma put_is_idempotent_witness:
  "case Wal_Put plain_pb (sample_document ''c'' ''a'' 1 ''m1'') (empty_fs, new_wal_store ''w'' ''s'') of
     (status, x') \<Rightarrow> Wal_Put plain_pb (sample_document ''c'' ''a'' 1 ''m1'') x' = (Ok, x')"
proof -
  let ?r = "sample_document ''c'' ''a'' 1 ''m1''" and ?x = "(empty_fs, new_wal_store ''w'' ''s'')"
  obtain status x' where p: "Wal_Put plain_pb ?r ?x = (status, x')" by (cases "Wal_Put plain_pb ?r ?x")
  have "durable plain_pb empty_fs (new_wal_store ''w'' ''s'')" by (rule durable_new) simp_all
  then have "ok status"
    using p by (auto simp: Wal_Put_def AppendWalLocked_def append_entries_def new_wal_store_def Let_def
        EnsureParentDirectory_def empty_fs_def split: option.splits if_splits)
  then show ?thesis
    using put_is_idempotent [OF p] p by (simp add: sample_document_def)
qed

text \<open>
  C3: over any sequence of puts that all carry versions, whether they are accepted, refused
  or fail on the log file, the version stored under a key never decreases.
\<close>

theorem versions_never_decrease:
  assumes "\<forall>r \<in> set rs. doc_version r \<noteq> 0"
    and "wal_lookup x k = Some e" and "doc_version e \<noteq> 0"
  shows "\<exists>e'. wal_lookup (fold (\<lambda>r y. snd (Wal_Put pb r y)) rs x) k = Some e' \<and>
    doc_version e \<le> doc_version e'"
  using wal_kv.versions_grow [OF TrueI _ assms(2,3), of rs pb] assms(1) by (simp add: wal_kv.puts_def)

theorem versions_never_decrease_witness:
  "let e = sample_document ''c'' ''a'' 5 [];
       x = (empty_fs, (new_wal_store ''w'' ''s'')\<lparr>records := [(document_key e, e)]\<rparr>);
       rs = [sample_document ''c'' ''a'' 3 [], sample_document ''c'' ''a'' 7 []] in
   \<exists>e'. wal_lookup (fold (\<lambda>r y. snd (Wal_Put plain_pb r y)) rs x) (document_key e) = Some e' \<and>
     doc_version e \<le> doc_version e'"
  unfolding Let_def
  by (rule versions_never_decrease) (simp_all add: sample_document_def wal_lookup_def empty_document_def)

lemma append_entries_unwritable:
  assumes "\<not> fs_writable s p"
  shows "\<exists>status. append_entries pb p es m s = (status, s) \<and> \<not> ok status"
  using assms by (simp add: append_entries_def Let_def)

text \<open>
  C4: a put whose log append fails has already changed the map: it reports an error, yet the
  document is served, and the retry of the same mutation is acknowledged as a duplicate
  without ever being logged.
\<close>

theorem failed_put_is_served_and_never_logged:
  assumes "\<not> fs_writable s (wal_path st)" and "doc_mutation_id r \<noteq> []"
    and "map_of (records st) (document_key r) = None"
  shows "\<exists>status st'. Wal_Put pb r (s, st) = (status, s, st') \<and> \<not> ok status \<and>
    Wal_Get (doc_collection r) (doc_key r) st' = Inr r \<and>
    Wal_Put pb r (s, st') = (Ok, s, st')"
proof -
  let ?st = "st\<lparr>records := omap_put (document_key r) r (records st)\<rparr>"
  obtain status where a: "AppendWalLocked pb CHR ''P'' r s ?st = (status, s)" "\<not> ok status"
    using append_entries_unwritable [OF assms(1), of pb "[put_entry r]" "records ?st"]
    by (auto simp: AppendWalLocked_def)
  have "Wal_Put pb r (s, st) = (status, s, ?st)"
    using a(1) assms(3) by (simp add: Wal_Put_stored)
  moreover have "Wal_Put pb r (s, ?st) = (Ok, s, ?st)"
    using assms(2) by (intro Wal_Put_duplicate) (simp_all add: IsDuplicateMutation_def)
  moreover have "Wal_Get (doc_collection r) (doc_key r) ?st = Inr r"
    by (simp add: Wal_Get_def document_key_def)
  ultimately show ?thesis using a(2) by blast
qed

theorem failed_put_is_served_and_never_logged_witness:
  "let r = sample_document ''c'' ''a'' 1 ''m1''; s = empty_fs\<lparr>fs_writable := (\<lambda>_. False)\<rparr> in
   \<exists>status st'. Wal_Put plain_pb r (s, new_wal_store ''w'' ''s'') = (status, s, st') \<and> \<not> ok status \<and>
     Wal_Get (doc_collection r) (doc_key r) st' = Inr r \<and> Wal_Put plain_pb r (s, st') = (Ok, s, st')"
  unfolding Let_def
  by (rule failed_put_is_served_and_never_logged)
    (simp_all add: sample_document_def new_wal_store_def)

subsection \<open>Batches\<close>



subsection \<open>Range scans\<close>

lemma range_loop_take:
  "range_loop c finish limit m acc =
     acc @ take (max 1 (limit - length acc))
       (map snd (takeWhile (\<lambda>(k, r). k \<le> finish \<and> doc_collection r = c) m))"
proof (induction c finish limit m acc rule: range_loop.induct)
  case (2 c finish limit k r m acc)
  show ?case
  proof (cases "k > finish \<or> doc_collection r \<noteq> c")
    case False
    then have t: "takeWhile (\<lambda>(k, r). k \<le> finish \<and> doc_collection r = c) ((k, r) # m) =
        (k, r) # takeWhile (\<lambda>(k, r). k \<le> finish \<and> doc_collection r = c) m" by auto
    show ?thesis
    proof (cases "limit \<le> Suc (length acc)")
      case True
      then have "max 1 (limit - length acc) = 1" by simp
      with True False t show ?thesis by (simp add: Let_def)
    next
      case more: False
      then have "max 1 (limit - length acc) = Suc (max 1 (limit - length (acc @ [r])))" by simp
      with more False t 2 [OF False refl] show ?thesis by (simp add: Let_def)
    qed
  qed auto
qed simp

lemma filter_key_interval:
  assumes "map_inv m" and "key_separator \<notin> set c"
    and "\<forall>r \<in> snd ` set m. key_separator \<notin> set (doc_collection r)"
  shows "filter (\<lambda>p. BuildCompositeKey c b \<le> fst p \<and> fst p \<le> BuildCompositeKey c e) m =
    filter (\<lambda>(_, r). doc_collection r = c \<and> b \<le> doc_key r \<and> doc_key r \<le> e) m"
proof (rule filter_cong [OF refl])
  fix p
  assume p: "p \<in> set m"
  obtain k r where kr: "p = (k, r)" by (cases p)
  with assms(1) p have k: "k = BuildCompositeKey (doc_collection r) (doc_key r)"
    by (auto simp: map_inv_def document_key_def)
  from assms(3) p kr have "key_separator \<notin> set (doc_collection r)" by force
  then have "doc_collection r = c"
    if "BuildCompositeKey c b \<le> k" "k \<le> BuildCompositeKey c e"
    using between_composite [OF that] assms(2) by (auto simp: k BuildCompositeKey_inject)
  then show "(BuildCompositeKey c b \<le> fst p \<and> fst p \<le> BuildCompositeKey c e) =
      (case p of (_, r) \<Rightarrow> doc_collection r = c \<and> b \<le> doc_key r \<and> doc_key r \<le> e)"
    using kr k by auto
qed

lemma takeWhile_collection:
  assumes "map_inv m" and "key_separator \<notin> set c"
    and "\<forall>r \<in> snd ` set m. key_separator \<notin> set (doc_collection r)"
  shows "takeWhile (\<lambda>(k, r). k \<le> BuildCompositeKey c e \<and> doc_collection r = c)
      (filter (\<lambda>p. BuildCompositeKey c b \<le> fst p) m) =
    takeWhile (\<lambda>p. fst p \<le> BuildCompositeKey c e) (filter (\<lambda>p. BuildCompositeKey c b \<le> fst p) m)"
proof (rule takeWhile_cong [OF refl])
  fix p
  assume p: "p \<in> set (filter (\<lambda>p. BuildCompositeKey c b \<le> fst p) m)"
  obtain k r where kr: "p = (k, r)" by (cases p)
  with assms(1) p have k: "k = BuildCompositeKey (doc_collection r) (doc_key r)"
    by (auto simp: map_inv_def document_key_def)
  from assms(3) p kr have "key_separator \<notin> set (doc_collection r)" by force
  then have "k \<le> BuildCompositeKey c e \<Longrightarrow> doc_collection r = c"
    using between_composite [of c b k e] assms(2) p kr by (auto simp: k BuildCompositeKey_inject)
  then show "(case p of (k, r) \<Rightarrow> k \<le> BuildCompositeKey c e \<and> doc_collection r = c) =
      (fst p \<le> BuildCompositeKey c e)" using kr by auto
qed

lemma Wal_Range_interval:
  assumes "map_inv (records st)" and "key_separator \<notin> set c"
    and "\<forall>r \<in> snd ` set (records st). key_separator \<notin> set (doc_collection r)"
  shows "Wal_Range c b e limit st = Inr (take (max 1 limit) (map snd
    (filter (\<lambda>(_, r). doc_collection r = c \<and> b \<le> doc_key r \<and>
       doc_key r \<le> (if e = [] then [CHR 0x7F] else e)) (records st))))"
proof -
  let ?e = "if e = [] then [CHR 0x7F] else e"
  have fin: "(if e = [] then BuildCompositeKey c [CHR 0x7F] else BuildCompositeKey c e) = BuildCompositeKey c ?e"
    by simp
  have "Wal_Range c b e limit st = Inr (take (max 1 limit) (map snd
      (takeWhile (\<lambda>(k, r). k \<le> BuildCompositeKey c ?e \<and> doc_collection r = c)
        (filter (\<lambda>p. BuildCompositeKey c b \<le> fst p) (records st)))))"
    unfolding Wal_Range_def Let_def fin
    by (simp add: range_loop_take omap_lower_bound_filter assms(1))
  also have "takeWhile (\<lambda>(k, r). k \<le> BuildCompositeKey c ?e \<and> doc_collection r = c)
        (filter (\<lambda>p. BuildCompositeKey c b \<le> fst p) (records st)) =
      filter (\<lambda>p. BuildCompositeKey c b \<le> fst p \<and> fst p \<le> BuildCompositeKey c ?e) (records st)"
    unfolding takeWhile_collection [OF assms]
    by (subst omap_takeWhile_filter) (simp_all add: assms(1) conj_commute)
  finally show ?thesis unfolding filter_key_interval [OF assms] .
qed



text \<open>
  The default upper bound hides documents: a scan without an end key never returns a
  document whose key begins with a byte above 0x7F, such as any non-ASCII UTF-8 text.
\<close>

lemma range_hides_non_ascii_keys:
  assumes "map_inv (records st)" and "Wal_Range c b [] limit st = Inr rs" and "r \<in> set rs"
  shows "doc_key r \<le> [CHR 0x7F]"
proof -
  have "r \<in> snd ` set (takeWhile (\<lambda>(k, r). k \<le> BuildCompositeKey c [CHR 0x7F] \<and> doc_collection r = c)
      (omap_lower_bound (BuildCompositeKey c b) (records st)))"
    using assms(2,3) by (auto simp: Wal_Range_def range_loop_take dest!: in_set_takeD)
  then obtain k where kr: "(k, r) \<in> set (omap_lower_bound (BuildCompositeKey c b) (records st))"
    and le: "k \<le> BuildCompositeKey c [CHR 0x7F]" "doc_collection r = c"
    by (auto dest!: set_takeWhileD)
  from kr have "(k, r) \<in> set (records st)"
    by (auto simp: omap_lower_bound_def dest!: set_dropWhileD)
  with assms(1) have "k = BuildCompositeKey (doc_collection r) (doc_key r)"
    by (auto simp: map_inv_def document_key_def)
  with le show ?thesis by simp
qed

lemma range_hides_non_ascii_keys_witness:
  "let a = sample_document ''c'' ''a'' 1 []; b = sample_document ''c'' [CHR 0xC3, CHR 0xA9] 1 [];
       st = (new_wal_store ''w'' ''s'')\<lparr>records := [(document_key a, a), (document_key b, b)]\<rparr>
   in Wal_Get ''c'' [CHR 0xC3, CHR 0xA9] st = Inr b \<and>
     (\<forall>rs. Wal_Range ''c'' [] [] 10 st = Inr rs \<longrightarrow> b \<notin> set rs)"
proof -
  let ?a = "sample_document ''c'' ''a'' 1 []" and ?b = "sample_document ''c'' [CHR 0xC3, CHR 0xA9] 1 []"
  let ?st = "(new_wal_store ''w'' ''s'')\<lparr>records := [(document_key ?a, ?a), (document_key ?b, ?b)]\<rparr>"
  have inv: "map_inv (records ?st)"
    by (simp add: map_inv_def omap_wf_def document_key_def sample_document_def)
  have "\<not> doc_key ?b \<le> [CHR 0x7F]" by (simp add: sample_document_def)
  then have "?b \<notin> set rs" if "Wal_Range ''c'' [] [] 10 ?st = Inr rs" for rs
    using range_hides_non_ascii_keys [OF inv that] by blast
  moreover have "Wal_Get ''c'' [CHR 0xC3, CHR 0xA9] ?st = Inr ?b"
    by (simp add: Wal_Get_def document_key_def sample_document_def)
  ultimately show ?thesis unfolding Let_def by blast
qed

subsection \<open>Files of the text format\<close>

text \<open>The log of the older format, as the operations it records.\<close>

datatype legacy_op = LegacyPut DocumentRecord | LegacyDelete string string

fun legacy_op_line :: "legacy_op \<Rightarrow> string" where
  "legacy_op_line (LegacyPut r) = ''P|'' @ legacy_line r"
| "legacy_op_line (LegacyDelete c k) = ''D|'' @ join_with CHR ''|'' [escape_text c, escape_text k]"

fun legacy_apply :: "legacy_op \<Rightarrow> (string, DocumentRecord) omap \<Rightarrow> (string, DocumentRecord) omap" where
  "legacy_apply (LegacyPut r) m = put_record r m"
| "legacy_apply (LegacyDelete c k) m = omap_erase (BuildCompositeKey c k) m"

definition legacy_document :: "DocumentRecord \<Rightarrow> bool" where
  "legacy_document r \<longleftrightarrow>
     omap_wf (doc_metadata r) \<and> (\<forall>(k, v) \<in> set (doc_metadata r). CHR ''='' \<notin> set k)"

fun legacy_op_ok :: "legacy_op \<Rightarrow> bool" where
  "legacy_op_ok (LegacyPut r) = legacy_document r"
| "legacy_op_ok (LegacyDelete c k) = True"

definition text_file :: "string list \<Rightarrow> string" where
  "text_file ls = concat (map (\<lambda>l. l @ [newline]) ls)"

lemma getlines_text_file: "\<forall>l \<in> set ls. newline \<notin> set l \<Longrightarrow> getlines newline (text_file ls) = ls"
  by (induction ls) (simp_all add: text_file_def getlines_append)

lemma text_file_no_magic:
  assumes "\<forall>l \<in> set ls. newline \<notin> set l \<and> CHR ''|'' \<in> set l"
  shows "\<not> HasPersistenceMagic (text_file ls)"
proof
  assume "HasPersistenceMagic (text_file ls)"
  then obtain t where t: "text_file ls = ''KVAI-PB1'' @ newline # t"
    by (auto simp: HasPersistenceMagic_def starts_with_iff MagicHeader_def)
  then obtain l ls' where ls: "ls = l # ls'"
    by (cases ls) (simp_all add: text_file_def)
  with t have "l @ newline # text_file ls' = ''KVAI-PB1'' @ newline # t"
    by (simp add: text_file_def)
  then have "l = ''KVAI-PB1''"
    using assms ls split_unique [of l newline _ "''KVAI-PB1''" t] by simp
  with assms ls show False by simp
qed

lemma join_with_newline:
  "\<forall>s \<in> set ss. newline \<notin> set s \<Longrightarrow> newline \<notin> set (join_with CHR ''|'' ss)"
  "\<forall>s \<in> set ss. newline \<notin> set s \<Longrightarrow> newline \<notin> set (join_with CHR '';'' ss)"
  by (induction "CHR ''|''" ss rule: join_with.induct; simp)
    (induction "CHR '';''" ss rule: join_with.induct; simp)

lemma number_no_newline: "newline \<notin> set (to_string n)" "newline \<notin> set (to_string_int i)"
proof -
  have *: "newline \<notin> set (to_string n)" for n
    using to_string_digits [of n] by (auto simp: isdigit_def byte_of_def)
  then show "newline \<notin> set (to_string n)" "newline \<notin> set (to_string_int i)"
    by (simp_all add: to_string_int_def)
qed

lemma legacy_line_newline: "newline \<notin> set (legacy_line r)"
proof -
  have "newline \<notin> set (legacy_metadata m)" for m
    unfolding legacy_metadata_def by (rule join_with_newline(2)) auto
  then show ?thesis
    unfolding legacy_line_def by (intro join_with_newline(1)) (simp add: number_no_newline)
qed

lemma legacy_op_line_shape: "newline \<notin> set (legacy_op_line x) \<and> CHR ''|'' \<in> set (legacy_op_line x)"
proof (cases x)
  case (LegacyDelete c k)
  have "newline \<notin> set (join_with CHR ''|'' [escape_text c, escape_text k])"
    by (rule join_with_newline(1)) simp
  with LegacyDelete show ?thesis by simp
qed (simp add: legacy_line_newline)

lemma legacy_line_bar: "CHR ''|'' \<in> set (legacy_line r)"
  by (simp add: legacy_line_def)

lemma snapshot_lines_legacy:
  "\<forall>r \<in> set rs. legacy_document r \<Longrightarrow>
   snapshot_lines (map legacy_line rs) m = (fold put_record rs m, Ret Ok)"
  by (induction rs arbitrary: m) (simp_all add: DeserializeRecord_legacy_line legacy_document_def)

lemma wal_lines_legacy:
  "\<forall>x \<in> set xs. legacy_op_ok x \<Longrightarrow>
   wal_lines (map legacy_op_line xs) m = (fold legacy_apply xs m, Ret Ok)"
proof (induction xs arbitrary: m)
  case (Cons x xs)
  show ?case
  proof (cases x)
    case (LegacyPut r)
    with Cons show ?thesis
      by (simp add: DeserializeRecord_legacy_line legacy_document_def)
  next
    case (LegacyDelete c k)
    have "SplitEscaped (join_with CHR ''|'' [escape_text c, escape_text k]) CHR ''|''
        = [escape_text c, escape_text k]"
      by (rule split_join) (simp_all add: closed_for_escape special_def)
    with LegacyDelete Cons show ?thesis by (simp add: Let_def)
  qed
qed simp

text \<open>
  C7: a snapshot and a log in the older text format, with every delimiter escaped, are read
  back as the snapshot's documents with the log's puts and deletions applied in order.
\<close>

theorem text_files_are_recovered:
  assumes "\<forall>r \<in> set docs. legacy_document r" and "\<forall>x \<in> set xs. legacy_op_ok x"
    and "fs_files s (snapshot_path st) = Some (text_file (map legacy_line docs))"
    and "fs_files s (wal_path st) = Some (text_file (map legacy_op_line xs))"
    and "fs_readable s (snapshot_path st)" and "fs_readable s (wal_path st)"
  shows "Wal_Recover pb s st =
    (st\<lparr>records := fold legacy_apply xs (fold put_record docs [])\<rparr>, Ret Ok)"
proof -
  have s: "\<not> HasPersistenceMagic (text_file (map legacy_line docs))"
    "getlines newline (text_file (map legacy_line docs)) = map legacy_line docs"
    by (simp_all add: text_file_no_magic getlines_text_file legacy_line_newline legacy_line_bar)
  have w: "\<not> HasPersistenceMagic (text_file (map legacy_op_line xs))"
    "getlines newline (text_file (map legacy_op_line xs)) = map legacy_op_line xs"
    by (simp_all add: text_file_no_magic getlines_text_file legacy_op_line_shape)
  show ?thesis
    using assms
    by (simp add: Wal_Recover_def ReplaySnapshotLocked_def ReplayWalLocked_def ReadWholeFile_def
        s w snapshot_lines_legacy wal_lines_legacy)
qed

theorem text_files_are_recovered_witness:
  "let r = sample_document ''c'' ''a|b'' 1 ''m1'';
       s = write_file ''w'' (text_file (map legacy_op_line [LegacyPut r, LegacyDelete ''c'' ''x'']))
         (write_file ''s'' (text_file (map legacy_line [])) empty_fs) in
   Wal_Recover plain_pb s (new_wal_store ''w'' ''s'') =
     ((new_wal_store ''w'' ''s'')\<lparr>records := [(document_key r, r)]\<rparr>, Ret Ok)"
proof -
  let ?r = "sample_document ''c'' ''a|b'' 1 ''m1''"
  have "document_key ?r \<noteq> BuildCompositeKey ''c'' ''x''"
    by (simp add: document_key_def sample_document_def)
  then show ?thesis
    unfolding Let_def
    by (subst text_files_are_recovered [where docs = "[]" and xs = "[LegacyPut ?r, LegacyDelete ''c'' ''x'']"])
      (simp_all add: new_wal_store_def legacy_document_def sample_document_def empty_document_def
        put_record_def omap_erase_def)
qed

lemma fold_put_record_frame:
  "\<forall>r \<in> set rs. document_key r \<noteq> k \<Longrightarrow> map_of (fold put_record rs m) k = map_of m k"
  by (induction rs arbitrary: m) (auto simp: put_record_def)

text \<open>
  The first deletion on a store whose log is still in the text format is acknowledged
  and then undone: the log is rewritten as the puts of the remaining documents, without the
  deletion, and a document that the snapshot holds is back after the next recovery.
\<close>

lemma deletion_is_lost_when_the_text_log_is_rewritten:
  assumes "pb_laws pb" and "map_inv (records st)" and "wal_path st \<noteq> snapshot_path st"
    and "usable s (wal_path st)" and "usable s (snapshot_path st)"
    and "fs_files s (wal_path st) = Some log" and "log \<noteq> []" and "\<not> HasPersistenceMagic log"
    and "fs_files s (snapshot_path st) = Some (framed_file (EncodeDocumentRecord pb) docs)"
    and "\<forall>d \<in> set docs. document_ok pb d" and "\<forall>d \<in> snd ` set (records st). storable pb d"
    and "map_of (fold put_record docs []) (BuildCompositeKey c k) = Some r"
    and "Wal_Delete pb c k (s, st) = (status, s', st')"
  shows "ok status \<and> map_of (records st') (BuildCompositeKey c k) = None \<and>
    (\<exists>st''. Wal_Recover pb s' st' = (st'', Ret Ok) \<and>
       map_of (records st'') (BuildCompositeKey c k) = Some r)"
proof -
  let ?k = "BuildCompositeKey c k" and ?m = "omap_erase (BuildCompositeKey c k) (records st)"
  let ?es = "map put_entry (map snd ?m)"
  have "ShouldRewriteLegacyWal s (wal_path st)"
    using assms(4,6-8) by (simp add: ShouldRewriteLegacyWal_def file_exists_def file_bytes_def
        ReadWholeFile_def usable_def)
  then have r: "status = Ok" "st' = st\<lparr>records := ?m\<rparr>"
    "s' = write_file (wal_path st) (framed_file (EncodeWalEntry pb) ?es) s"
    using assms(4,13) usable_EnsureParentDirectory [OF assms(4)]
    by (auto simp: Wal_Delete_def AppendDeleteLocked_def append_entries_def Let_def usable_def
        framed_file_def encode_entries_def comp_def)
  have ok: "\<forall>e \<in> set ?es. wal_entry_ok pb e"
    using assms(11) by (auto simp: storable_def omap_erase_def)
  have snap: "ReplaySnapshotLocked pb s' (st'\<lparr>records := []\<rparr>) =
      (st'\<lparr>records := fold put_record docs []\<rparr>, Ret Ok)"
    using assms(1,3,5,9,10) r
    by (subst ReplaySnapshotLocked_image) (auto simp: file_image_def usable_def)
  have "ReplayWalLocked pb s' (st'\<lparr>records := fold put_record docs []\<rparr>) =
      (st'\<lparr>records := fold apply_entry ?es (fold put_record docs [])\<rparr>, Ret Ok)"
    using assms(1,4) r ok by (subst ReplayWalLocked_image) (auto simp: file_image_def usable_def)
  with snap have "Wal_Recover pb s' st' =
      (st'\<lparr>records := fold put_record (map snd ?m) (fold put_record docs [])\<rparr>, Ret Ok)"
    by (simp add: Wal_Recover_def fold_put_entries del: map_map)
  moreover have "\<forall>d \<in> set (map snd ?m). document_key d \<noteq> ?k"
    using assms(2) by (auto simp: map_inv_def omap_erase_def)
  ultimately show ?thesis
    using assms(12) r by (auto simp: fold_put_record_frame)
qed

lemma deletion_is_lost_when_the_text_log_is_rewritten_witness:
  "let r = sample_document ''c'' ''a'' 1 ''m1'';
       s = write_file ''w'' (legacy_op_line (LegacyPut r))
         (write_file ''s'' (framed_file (EncodeDocumentRecord plain_pb) [r]) empty_fs);
       st = (new_wal_store ''w'' ''s'')\<lparr>records := [(document_key r, r)]\<rparr>
   in case Wal_Delete plain_pb ''c'' ''a'' (s, st) of (status, s', st') \<Rightarrow>
     ok status \<and> (\<exists>st''. Wal_Recover plain_pb s' st' = (st'', Ret Ok) \<and>
       map_of (records st'') (BuildCompositeKey ''c'' ''a'') = Some r)"
proof -
  define r where "r = sample_document ''c'' ''a'' 1 ''m1''"
  define s where "s = write_file ''w'' (legacy_op_line (LegacyPut r))
     (write_file ''s'' (framed_file (EncodeDocumentRecord plain_pb) [r]) empty_fs)"
  define st where "st = (new_wal_store ''w'' ''s'')\<lparr>records := [(document_key r, r)]\<rparr>"
  obtain status s' st' where d: "Wal_Delete plain_pb ''c'' ''a'' (s, st) = (status, s', st')"
    by (cases "Wal_Delete plain_pb ''c'' ''a'' (s, st)")
  have stor: "storable plain_pb r"
    using sample_calls_ok by (simp add: sample_calls_def r_def)
  have key: "document_key r = BuildCompositeKey ''c'' ''a''"
    by (simp add: r_def sample_document_def document_key_def)
  have st: "map_inv (records st)" "wal_path st = ''w''" "snapshot_path st = ''s''"
    by (simp_all add: st_def new_wal_store_def map_inv_def omap_wf_def)
  have magic: "\<not> HasPersistenceMagic (legacy_op_line (LegacyPut r))"
    by (auto simp: HasPersistenceMagic_def starts_with_iff MagicHeader_def)
  have "ok status \<and> map_of (records st') (BuildCompositeKey ''c'' ''a'') = None \<and>
    (\<exists>st''. Wal_Recover plain_pb s' st' = (st'', Ret Ok) \<and>
       map_of (records st'') (BuildCompositeKey ''c'' ''a'') = Some r)"
    by (rule deletion_is_lost_when_the_text_log_is_rewritten [OF plain_pb_laws st(1) _ _ _ _ _ magic _ _ _ _ d,
          where docs = "[r]"])
      (use stor key in \<open>simp_all add: s_def put_record_def storable_def st_def new_wal_store_def\<close>)
  with d show ?thesis
    unfolding Let_def r_def [symmetric] s_def [symmetric] st_def [symmetric] by simp
qed

end
