(* ===== verification/Server_Config.thy ===== *)
theory Server_Config
  imports Status_Model "HOL-Library.Word"
begin

text \<open>
  \<open>ServerConfig\<close> of \<open>src/infra/config.h\<close> with the values of its member initialisers.
  \<open>std::size_t\<close> fields, which the code only compares and counts with, are natural numbers.
\<close>

record ServerConfig =
  cfg_host :: string
  cfg_port :: "16 word"
  cfg_worker_threads :: nat
  cfg_graceful_shutdown_timeout_ms :: "32 word"
  cfg_max_top_k :: nat
  cfg_embedding_dimensions :: nat
  cfg_rate_limit_per_second :: nat
  cfg_kv_batch_max_records :: nat
  cfg_ai_timeout_ms :: "32 word"
  cfg_default_collection :: string
  cfg_ai_backend :: string
  cfg_storage_backend :: string
  cfg_search_backend :: string
  cfg_discovery_backend :: string
  cfg_node_id :: string
  cfg_advertise_host :: string
  cfg_node_weight :: "32 word"
  cfg_node_zone :: string
  cfg_replication_factor :: nat
  cfg_data_migration_enabled :: bool
  cfg_migration_delete_delay_ms :: "64 word"
  cfg_migration_batch_size :: nat
  cfg_migration_max_retries :: nat
  cfg_migration_task_wal_path :: string
  cfg_cluster_slot_count :: nat
  cfg_read_only_mode :: bool
  cfg_enable_demo_data :: bool
  cfg_rocksdb_max_background_jobs :: nat
  cfg_rocksdb_write_buffer_size_mb :: nat
  cfg_rocksdb_max_write_buffer_number :: nat
  cfg_rocksdb_target_file_size_mb :: nat
  cfg_rocksdb_bytes_per_sync :: "64 word"
  cfg_rocksdb_wal_bytes_per_sync :: "64 word"
  cfg_rocksdb_enable_pipelined_write :: bool
  cfg_require_api_key :: bool
  cfg_api_key :: string
  cfg_tls_mode :: string
  cfg_cluster_nodes :: string
  cfg_model_path :: string
  cfg_tokenizer_path :: string
  cfg_ai_max_tokens :: nat
  cfg_wal_path :: string
  cfg_snapshot_path :: string
  cfg_db_path :: string
  cfg_index_path :: string
  cfg_vector_index_outbox_path :: string
  cfg_search_faiss_nlist :: int
  cfg_search_faiss_nprobe :: int
  cfg_openapi_path :: string
  cfg_log_level :: string
  cfg_log_file_path :: string
  cfg_log_file_max_size_mb :: nat
  cfg_log_file_max_files :: nat
  cfg_etcd_endpoints :: string
  cfg_etcd_prefix :: string
  cfg_etcd_lease_ttl_s :: "32 word"

definition default_config :: ServerConfig where
  "default_config = \<lparr>
     cfg_host = ''127.0.0.1'', cfg_port = 8080, cfg_worker_threads = 4,
     cfg_graceful_shutdown_timeout_ms = 5000, cfg_max_top_k = 50, cfg_embedding_dimensions = 32,
     cfg_rate_limit_per_second = 200, cfg_kv_batch_max_records = 1000, cfg_ai_timeout_ms = 25,
     cfg_default_collection = ''documents'', cfg_ai_backend = ''auto'',
     cfg_storage_backend = ''auto'', cfg_search_backend = ''auto'',
     cfg_discovery_backend = ''static'', cfg_node_id = ''node-local'', cfg_advertise_host = [],
     cfg_node_weight = 100, cfg_node_zone = ''default'', cfg_replication_factor = 1,
     cfg_data_migration_enabled = False, cfg_migration_delete_delay_ms = 300000,
     cfg_migration_batch_size = 100, cfg_migration_max_retries = 5,
     cfg_migration_task_wal_path = ''./data/migration_tasks.wal'',
     cfg_cluster_slot_count = 4096, cfg_read_only_mode = False, cfg_enable_demo_data = True,
     cfg_rocksdb_max_background_jobs = 8, cfg_rocksdb_write_buffer_size_mb = 128,
     cfg_rocksdb_max_write_buffer_number = 6, cfg_rocksdb_target_file_size_mb = 128,
     cfg_rocksdb_bytes_per_sync = 1048576, cfg_rocksdb_wal_bytes_per_sync = 1048576,
     cfg_rocksdb_enable_pipelined_write = True, cfg_require_api_key = False, cfg_api_key = [],
     cfg_tls_mode = ''disabled'', cfg_cluster_nodes = ''node-local@127.0.0.1:8080'',
     cfg_model_path = ''./models/clip.onnx'', cfg_tokenizer_path = [], cfg_ai_max_tokens = 256,
     cfg_wal_path = ''./data/kvai.wal'', cfg_snapshot_path = ''./data/kvai.snapshot'',
     cfg_db_path = ''./data/rocksdb'', cfg_index_path = ''./data/kvai.index'',
     cfg_vector_index_outbox_path = ''./data/vector_index_outbox.wal'',
     cfg_search_faiss_nlist = 0, cfg_search_faiss_nprobe = 0,
     cfg_openapi_path = ''./docs/openapi.yaml'', cfg_log_level = ''info'', cfg_log_file_path = [],
     cfg_log_file_max_size_mb = 10, cfg_log_file_max_files = 3,
     cfg_etcd_endpoints = ''http://127.0.0.1:2379'', cfg_etcd_prefix = ''/rangeveckv/nodes/'',
     cfg_etcd_lease_ttl_s = 10\<rparr>"

end
