(* ===== verification/Rocks_Store.thy ===== *)
theory Rocks_Store
  imports Wal_Store Server_Config
begin

text \<open>
  \<open>RocksDbKvStore\<close> of \<open>src/core/kv_store.cpp\<close>, the second implementation of \<open>KvStore\<close>. RocksDB
  itself is the parameter \<open>rocks_api\<close>: its database and its column family handles are types that
  the model leaves open, and its calls are functions on them. \<open>rocks_laws\<close> states what its
  documentation promises, by means of the contents of a column family. The lemmas show that the
  class keeps the contract of the interface on top of it, and where it departs from the
  write-ahead store. A lock on a stripe of keys is held around each mutation; here an operation
  is one step, and the stripes themselves are shown to be taken in one order.
\<close>

subsection \<open>RocksDB\<close>

text \<open>A \<open>rocksdb::Status\<close> with the value that came with it; the string is its \<open>ToString\<close>.\<close>

datatype rocks_value = rocks_found string | rocks_not_found | rocks_error string

record db_options =
  dbo_create_if_missing :: bool
  dbo_create_missing_column_families :: bool
  dbo_max_background_jobs :: "32 word"
  dbo_bytes_per_sync :: "64 word"
  dbo_wal_bytes_per_sync :: "64 word"
  dbo_enable_pipelined_write :: bool

record cf_options =
  cfo_write_buffer_size :: "64 word"
  cfo_max_write_buffer_number :: "32 word"
  cfo_target_file_size_base :: "64 word"

record ('h, 'c) rocks_api =
  rk_list :: "db_options \<Rightarrow> string \<Rightarrow> 'h \<Rightarrow> string list option"
  rk_open :: "db_options \<Rightarrow> string \<Rightarrow> (string \<times> cf_options) list \<Rightarrow> 'h \<Rightarrow> (string + 'c list) \<times> 'h"
  rk_create :: "cf_options \<Rightarrow> string \<Rightarrow> 'h \<Rightarrow> 'c option \<times> 'h"
  rk_get :: "'h \<Rightarrow> 'c \<Rightarrow> string \<Rightarrow> rocks_value"
  rk_multi_get :: "'h \<Rightarrow> 'c list \<Rightarrow> string list \<Rightarrow> rocks_value list"
  rk_put :: "'c \<Rightarrow> string \<Rightarrow> string \<Rightarrow> 'h \<Rightarrow> string option \<times> 'h"
  rk_write :: "('c \<times> string \<times> string) list \<Rightarrow> 'h \<Rightarrow> string option \<times> 'h"
  rk_delete :: "'c \<Rightarrow> string \<Rightarrow> 'h \<Rightarrow> string option \<times> 'h"
  rk_seek :: "'h \<Rightarrow> 'c \<Rightarrow> string option \<Rightarrow> (string \<times> string) list"
  rk_flush :: "'h \<Rightarrow> 'h"

text \<open>
  \<open>rk_seek\<close> is what an iterator shows from its first position (\<open>SeekToFirst\<close> for \<open>None\<close>) to
  the end. A failing mutation gives \<open>Some\<close> text.
\<close>

subsection \<open>The store\<close>

record 'c rocks_store =
  rs_db_path :: string
  rs_max_background_jobs :: nat
  rs_write_buffer_size_mb :: nat
  rs_max_write_buffer_number :: nat
  rs_target_file_size_mb :: nat
  rs_bytes_per_sync :: "64 word"
  rs_wal_bytes_per_sync :: "64 word"
  rs_enable_pipelined_write :: bool
  rs_open :: bool
  rs_families :: "(string, 'c) omap"

definition new_rocks_store :: "ServerConfig \<Rightarrow> 'c rocks_store" where
  "new_rocks_store cfg = \<lparr>rs_db_path = cfg_db_path cfg,
     rs_max_background_jobs = cfg_rocksdb_max_background_jobs cfg,
     rs_write_buffer_size_mb = cfg_rocksdb_write_buffer_size_mb cfg,
     rs_max_write_buffer_number = cfg_rocksdb_max_write_buffer_number cfg,
     rs_target_file_size_mb = cfg_rocksdb_target_file_size_mb cfg,
     rs_bytes_per_sync = cfg_rocksdb_bytes_per_sync cfg,
     rs_wal_bytes_per_sync = cfg_rocksdb_wal_bytes_per_sync cfg,
     rs_enable_pipelined_write = cfg_rocksdb_enable_pipelined_write cfg,
     rs_open = False, rs_families = []\<rparr>"

definition megabytes :: "nat \<Rightarrow> 64 word" where
  "megabytes n = word_of_nat (max 1 n) * 1024 * 1024"

definition store_options :: "'c rocks_store \<Rightarrow> db_options" where
  "store_options st = \<lparr>dbo_create_if_missing = True, dbo_create_missing_column_families = True,
     dbo_max_background_jobs = word_of_nat (max 1 (rs_max_background_jobs st)),
     dbo_bytes_per_sync = rs_bytes_per_sync st, dbo_wal_bytes_per_sync = rs_wal_bytes_per_sync st,
     dbo_enable_pipelined_write = rs_enable_pipelined_write st\<rparr>"

definition family_options :: "'c rocks_store \<Rightarrow> cf_options" where
  "family_options st = \<lparr>cfo_write_buffer_size = megabytes (rs_write_buffer_size_mb st),
     cfo_max_write_buffer_number = word_of_nat (max 2 (rs_max_write_buffer_number st)),
     cfo_target_file_size_base = megabytes (rs_target_file_size_mb st)\<rparr>"

definition Rocks_Recover ::
  "('h, 'c) rocks_api \<Rightarrow> fs \<Rightarrow> 'h \<times> 'c rocks_store \<Rightarrow> Status \<times> 'h \<times> 'c rocks_store" where
  "Rocks_Recover api s = (\<lambda>(h, st).
     let directory_status = EnsureParentDirectory kv_parent_error s (rs_db_path st) in
     if \<not> ok directory_status then (directory_status, h, st)
     else
       let names = (case rk_list api (store_options st) (rs_db_path st) h of
                      Some names \<Rightarrow> names
                    | None \<Rightarrow> [''default'']);
           descriptors = map (\<lambda>name. (name, family_options st)) names
       in case rk_open api (store_options st) (rs_db_path st) descriptors h of
            (Inl e, h') \<Rightarrow> (Internal (''failed to open rocksdb: '' @ e), h', st)
          | (Inr handles, h') \<Rightarrow>
              (Ok, h', st\<lparr>rs_open := True,
                 rs_families := fold (\<lambda>(name, cf). omap_put name cf) (zip names handles) (rs_families st)\<rparr>))"

definition GetOrCreateColumnFamily ::
  "('h, 'c) rocks_api \<Rightarrow> string \<Rightarrow> 'h \<times> 'c rocks_store \<Rightarrow> 'c option \<times> 'h \<times> 'c rocks_store" where
  "GetOrCreateColumnFamily api c = (\<lambda>(h, st).
     case map_of (rs_families st) c of
       Some cf \<Rightarrow> (Some cf, h, st)
     | None \<Rightarrow>
         (case rk_create api (family_options st) c h of
            (None, h') \<Rightarrow> (None, h', st)
          | (Some cf, h') \<Rightarrow> (Some cf, h', st\<lparr>rs_families := omap_put c cf (rs_families st)\<rparr>)))"

definition GetColumnFamily :: "string \<Rightarrow> 'c rocks_store \<Rightarrow> 'c option" where
  "GetColumnFamily c st = map_of (rs_families st) c"

definition DecodeStoredRecord :: "pb_api \<Rightarrow> string \<Rightarrow> DocumentRecord StatusOr outcome" where
  "DecodeStoredRecord pb encoded =
     (case DecodeDocumentRecord pb encoded of
        Inr r \<Rightarrow> if doc_collection r \<noteq> [] \<and> doc_key r \<noteq> [] then Ret (Inr r) else DeserializeRecord encoded
      | Inl _ \<Rightarrow> DeserializeRecord encoded)"

subsection \<open>Lock stripes\<close>

definition kKeyLockStripes :: nat where
  "kKeyLockStripes = 4096"

definition KeyMutexFor :: "(string \<Rightarrow> 64 word) \<Rightarrow> string \<Rightarrow> string \<Rightarrow> nat" where
  "KeyMutexFor hash c k = unat (hash (BuildCompositeKey c k)) mod kKeyLockStripes"

text \<open>A \<open>std::set\<close> of stripes, in the order in which their locks are taken.\<close>

definition LockRecordStripes :: "(string \<Rightarrow> 64 word) \<Rightarrow> DocumentRecord list \<Rightarrow> nat list" where
  "LockRecordStripes hash rs =
     map fst (fold (\<lambda>r stripes. omap_put (KeyMutexFor hash (doc_collection r) (doc_key r)) () stripes) rs [])"

subsection \<open>Mutations\<close>

definition rocks_unavailable :: Status where
  "rocks_unavailable = Unavailable ''rocksdb store not initialized''"

definition no_family :: "string \<Rightarrow> Status" where
  "no_family c = Internal (''failed to get column family for collection: '' @ c)"

text \<open>
  The check that \<open>Put\<close> and \<open>BatchPut\<close> make before a write: the status with which they return,
  or whether the record is to be written.
\<close>

definition check_existing ::
  "pb_api \<Rightarrow> string \<Rightarrow> rocks_value \<Rightarrow> DocumentRecord \<Rightarrow> bool StatusOr outcome" where
  "check_existing pb failed found r =
     (case found of
        rocks_found bytes \<Rightarrow>
          (case DecodeStoredRecord pb bytes of
             Throw e \<Rightarrow> Throw e
           | Ret (Inl e) \<Rightarrow> Ret (Inl e)
           | Ret (Inr existing) \<Rightarrow>
               let mutation_status = ValidateMutation existing r in
               if \<not> ok mutation_status then Ret (Inl mutation_status)
               else Ret (Inr (\<not> IsDuplicateMutation existing r)))
      | rocks_not_found \<Rightarrow> Ret (Inr True)
      | rocks_error e \<Rightarrow> Ret (Inl (Internal (failed @ e))))"

definition Rocks_Put ::
  "('h, 'c) rocks_api \<Rightarrow> pb_api \<Rightarrow> DocumentRecord \<Rightarrow> 'h \<times> 'c rocks_store \<Rightarrow> Status outcome \<times> 'h \<times> 'c rocks_store" where
  "Rocks_Put api pb r = (\<lambda>(h, st).
     if \<not> rs_open st then (Ret rocks_unavailable, h, st)
     else case GetOrCreateColumnFamily api (doc_collection r) (h, st) of
       (None, h1, st1) \<Rightarrow> (Ret (no_family (doc_collection r)), h1, st1)
     | (Some cf, h1, st1) \<Rightarrow>
         (case check_existing pb ''rocksdb get-before-put failed: '' (rk_get api h1 cf (doc_key r)) r of
            Throw e \<Rightarrow> (Throw e, h1, st1)
          | Ret (Inl e) \<Rightarrow> (Ret e, h1, st1)
          | Ret (Inr False) \<Rightarrow> (Ret Ok, h1, st1)
          | Ret (Inr True) \<Rightarrow>
              (case rk_put api cf (doc_key r) (EncodeDocumentRecord pb r) h1 of
                 (None, h2) \<Rightarrow> (Ret Ok, h2, st1)
               | (Some e, h2) \<Rightarrow> (Ret (Internal (''rocksdb put failed: '' @ e)), h2, st1))))"

fun batch_keys_loop :: "DocumentRecord list \<Rightarrow> string set \<Rightarrow> Status option" where
  "batch_keys_loop [] keys = None"
| "batch_keys_loop (r # rs) keys =
     (if document_key r \<in> keys
      then Some (InvalidArgument (''kv batch contains duplicate key: '' @ doc_collection r @ '':'' @ doc_key r))
      else batch_keys_loop rs (insert (document_key r) keys))"

fun rocks_batch_loop ::
  "('h, 'c) rocks_api \<Rightarrow> pb_api \<Rightarrow> DocumentRecord list \<Rightarrow> ('c \<times> string \<times> string) list \<Rightarrow> 'h \<times> 'c rocks_store \<Rightarrow>
     ('c \<times> string \<times> string) list StatusOr outcome \<times> 'h \<times> 'c rocks_store" where
  "rocks_batch_loop api pb [] batch x = (Ret (Inr batch), x)"
| "rocks_batch_loop api pb (r # rs) batch x =
     (case GetOrCreateColumnFamily api (doc_collection r) x of
        (None, h1, st1) \<Rightarrow> (Ret (Inl (no_family (doc_collection r))), h1, st1)
      | (Some cf, h1, st1) \<Rightarrow>
          (case check_existing pb ''rocksdb get-before-batch-put failed: '' (rk_get api h1 cf (doc_key r)) r of
             Throw e \<Rightarrow> (Throw e, h1, st1)
           | Ret (Inl e) \<Rightarrow> (Ret (Inl e), h1, st1)
           | Ret (Inr False) \<Rightarrow> rocks_batch_loop api pb rs batch (h1, st1)
           | Ret (Inr True) \<Rightarrow>
               rocks_batch_loop api pb rs (batch @ [(cf, doc_key r, EncodeDocumentRecord pb r)]) (h1, st1)))"

definition Rocks_BatchPut ::
  "('h, 'c) rocks_api \<Rightarrow> pb_api \<Rightarrow> DocumentRecord list \<Rightarrow> 'h \<times> 'c rocks_store \<Rightarrow> Status outcome \<times> 'h \<times> 'c rocks_store" where
  "Rocks_BatchPut api pb rs = (\<lambda>(h, st).
     if \<not> rs_open st then (Ret rocks_unavailable, h, st)
     else case batch_keys_loop rs {} of
       Some e \<Rightarrow> (Ret e, h, st)
     | None \<Rightarrow>
         (case rocks_batch_loop api pb rs [] (h, st) of
            (Throw e, x) \<Rightarrow> (Throw e, x)
          | (Ret (Inl e), x) \<Rightarrow> (Ret e, x)
          | (Ret (Inr batch), h1, st1) \<Rightarrow>
              (case rk_write api batch h1 of
                 (None, h2) \<Rightarrow> (Ret Ok, h2, st1)
               | (Some e, h2) \<Rightarrow> (Ret (Internal (''rocksdb batch put failed: '' @ e)), h2, st1))))"

definition Rocks_Delete ::
  "('h, 'c) rocks_api \<Rightarrow> string \<Rightarrow> string \<Rightarrow> 'h \<times> 'c rocks_store \<Rightarrow> Status \<times> 'h \<times> 'c rocks_store" where
  "Rocks_Delete api c k = (\<lambda>(h, st).
     if \<not> rs_open st then (rocks_unavailable, h, st)
     else case GetOrCreateColumnFamily api c (h, st) of
       (None, h1, st1) \<Rightarrow> (Ok, h1, st1)
     | (Some cf, h1, st1) \<Rightarrow>
         (case rk_delete api cf k h1 of
            (None, h2) \<Rightarrow> (Ok, h2, st1)
          | (Some e, h2) \<Rightarrow> (Internal (''rocksdb delete failed: '' @ e), h2, st1)))"

definition Rocks_FlushSnapshot ::
  "('h, 'c) rocks_api \<Rightarrow> 'h \<times> 'c rocks_store \<Rightarrow> Status \<times> 'h \<times> 'c rocks_store" where
  "Rocks_FlushSnapshot api = (\<lambda>(h, st). (Ok, if rs_open st then rk_flush api h else h, st))"

subsection \<open>Reads\<close>

definition Rocks_Get ::
  "('h, 'c) rocks_api \<Rightarrow> pb_api \<Rightarrow> string \<Rightarrow> string \<Rightarrow> 'h \<times> 'c rocks_store \<Rightarrow> DocumentRecord StatusOr outcome" where
  "Rocks_Get api pb c k = (\<lambda>(h, st).
     if \<not> rs_open st then Ret (Inl rocks_unavailable)
     else case GetColumnFamily c st of
       None \<Rightarrow> Ret (Inl (NotFound ''document not found (collection does not exist)''))
     | Some cf \<Rightarrow>
         (case rk_get api h cf k of
            rocks_not_found \<Rightarrow> Ret (Inl (NotFound ''document not found''))
          | rocks_error e \<Rightarrow> Ret (Inl (Internal (''rocksdb get failed: '' @ e)))
          | rocks_found bytes \<Rightarrow> DecodeStoredRecord pb bytes))"

definition collection_groups :: "'d SearchReference list \<Rightarrow> (string, nat list) omap" where
  "collection_groups refs =
     fold (\<lambda>i groups. let c = ref_collection (refs ! i) in
             omap_put c ((case map_of groups c of Some is \<Rightarrow> is | None \<Rightarrow> []) @ [i]) groups)
       [0..<length refs] []"

fun decode_values :: "pb_api \<Rightarrow> rocks_value list \<Rightarrow> DocumentRecord list \<Rightarrow> DocumentRecord list outcome" where
  "decode_values pb [] results = Ret results"
| "decode_values pb (rocks_found bytes # vs) results =
     (case DecodeStoredRecord pb bytes of
        Throw e \<Rightarrow> Throw e
      | Ret (Inl _) \<Rightarrow> decode_values pb vs results
      | Ret (Inr r) \<Rightarrow> decode_values pb vs (results @ [r]))"
| "decode_values pb (_ # vs) results = decode_values pb vs results"

fun groups_loop ::
  "('h, 'c) rocks_api \<Rightarrow> pb_api \<Rightarrow> 'd SearchReference list \<Rightarrow> 'h \<times> 'c rocks_store \<Rightarrow>
     (string, nat list) omap \<Rightarrow> DocumentRecord list \<Rightarrow> DocumentRecord list outcome" where
  "groups_loop api pb refs x [] results = Ret results"
| "groups_loop api pb refs x ((c, is) # groups) results =
     (case GetColumnFamily c (snd x) of
        None \<Rightarrow> groups_loop api pb refs x groups results
      | Some cf \<Rightarrow>
          let keys = map (\<lambda>i. ref_key (refs ! i)) is;
              found = rk_multi_get api (fst x) (replicate (length keys) cf) keys
          in case decode_values pb (take (length is) found) results of
               Throw e \<Rightarrow> Throw e
             | Ret results' \<Rightarrow> groups_loop api pb refs x groups results')"

definition Rocks_MultiGet ::
  "('h, 'c) rocks_api \<Rightarrow> pb_api \<Rightarrow> 'd SearchReference list \<Rightarrow> 'h \<times> 'c rocks_store \<Rightarrow> DocumentRecord list StatusOr outcome" where
  "Rocks_MultiGet api pb refs x =
     (if \<not> rs_open (snd x) then Ret (Inl rocks_unavailable)
      else if refs = [] then Ret (Inr [])
      else case groups_loop api pb refs x (collection_groups refs) [] of
             Throw e \<Rightarrow> Throw e
           | Ret results \<Rightarrow> Ret (Inr results))"

fun rocks_range_loop ::
  "pb_api \<Rightarrow> string \<Rightarrow> nat \<Rightarrow> (string \<times> string) list \<Rightarrow> DocumentRecord list \<Rightarrow> DocumentRecord list StatusOr outcome" where
  "rocks_range_loop pb end_key limit [] results = Ret (Inr results)"
| "rocks_range_loop pb end_key limit ((k, bytes) # entries) results =
     (if end_key \<noteq> [] \<and> k \<ge> end_key then Ret (Inr results)
      else case DecodeStoredRecord pb bytes of
        Throw e \<Rightarrow> Throw e
      | Ret (Inl e) \<Rightarrow> Ret (Inl e)
      | Ret (Inr r) \<Rightarrow>
          let results' = results @ [r] in
          if length results' \<ge> limit then Ret (Inr results')
          else rocks_range_loop pb end_key limit entries results')"

definition Rocks_Range ::
  "('h, 'c) rocks_api \<Rightarrow> pb_api \<Rightarrow> string \<Rightarrow> string \<Rightarrow> string \<Rightarrow> nat \<Rightarrow> 'h \<times> 'c rocks_store \<Rightarrow>
     DocumentRecord list StatusOr outcome" where
  "Rocks_Range api pb c begin_key end_key limit = (\<lambda>(h, st).
     if \<not> rs_open st then Ret (Inl rocks_unavailable)
     else case GetColumnFamily c st of
       None \<Rightarrow> Ret (Inr [])
     | Some cf \<Rightarrow>
         rocks_range_loop pb end_key limit
           (rk_seek api h cf (if begin_key = [] then None else Some begin_key)) [])"

definition Rocks_Collections :: "'c rocks_store \<Rightarrow> string list StatusOr" where
  "Rocks_Collections st = Inr (map fst (rs_families st))"

subsection \<open>Choosing a store\<close>

text \<open>
  \<open>CreateKvStore\<close> of a build with RocksDB: \<open>auto\<close> falls back on the write-ahead store when the
  database does not open. The build without it is \<open>CreateKvStore\<close> of \<open>Server_Lifecycle\<close>.
\<close>

datatype 'c opened_store = opened_rocks "'c rocks_store" | opened_wal wal_store

definition CreateKvStore_rocksdb ::
  "('h, 'c) rocks_api \<Rightarrow> pb_api \<Rightarrow> ServerConfig \<Rightarrow> fs \<times> 'h \<Rightarrow> 'c opened_store StatusOr outcome \<times> fs \<times> 'h" where
  "CreateKvStore_rocksdb api pb cfg = (\<lambda>(s, h).
     let backend = cfg_storage_backend cfg;
         wal = (\<lambda>h'.
           if backend \<noteq> ''wal'' \<and> backend \<noteq> ''auto''
           then (Ret (Inl (InvalidArgument (''unsupported storage backend: '' @ backend))), s, h')
           else case CreateWalStore pb (cfg_wal_path cfg) (cfg_snapshot_path cfg) s of
             (Throw e, s') \<Rightarrow> (Throw e, s', h')
           | (Ret (Inl e), s') \<Rightarrow> (Ret (Inl e), s', h')
           | (Ret (Inr st), s') \<Rightarrow> (Ret (Inr (opened_wal st)), s', h'))
     in if backend = ''rocksdb'' \<or> backend = ''auto''
        then (case Rocks_Recover api s (h, new_rocks_store cfg) of
                (status, h', st) \<Rightarrow>
                  if \<not> ok status
                  then (if backend = ''rocksdb'' then (Ret (Inl status), s, h') else wal h')
                  else (Ret (Inr (opened_rocks st)), s, h'))
        else wal h)"

subsection \<open>What RocksDB promises\<close>

text \<open>
  \<open>view h cf\<close> is the contents of a column family, and \<open>live h\<close> the families that exist. A read
  answers from the contents, or fails; a mutation that succeeds changes just what it names, one
  that fails changes nothing; a new family is empty and is none of the older ones; an iterator
  goes through the contents in key order.
\<close>

fun answers :: "(string \<rightharpoonup> string) \<Rightarrow> string \<Rightarrow> rocks_value \<Rightarrow> bool" where
  "answers w k (rocks_found v) = (w k = Some v)"
| "answers w k rocks_not_found = (w k = None)"
| "answers w k (rocks_error e) = True"

definition put_view :: "'c \<times> string \<times> string \<Rightarrow> ('c \<Rightarrow> string \<rightharpoonup> string) \<Rightarrow> 'c \<Rightarrow> string \<rightharpoonup> string" where
  "put_view = (\<lambda>(cf, k, v) w. w(cf := (w cf)(k \<mapsto> v)))"

definition rocks_laws ::
  "('h, 'c) rocks_api \<Rightarrow> ('h \<Rightarrow> 'c \<Rightarrow> string \<rightharpoonup> string) \<Rightarrow> ('h \<Rightarrow> 'c set) \<Rightarrow> bool" where
  "rocks_laws api view live \<longleftrightarrow>
     (\<forall>h cf k. answers (view h cf) k (rk_get api h cf k)) \<and>
     (\<forall>h cfs ks. length cfs = length ks \<longrightarrow>
        list_all2 (\<lambda>(cf, k). answers (view h cf) k) (zip cfs ks) (rk_multi_get api h cfs ks)) \<and>
     (\<forall>h cf k v. live (snd (rk_put api cf k v h)) = live h \<and>
        view (snd (rk_put api cf k v h)) =
          (if fst (rk_put api cf k v h) = None then put_view (cf, k, v) (view h) else view h)) \<and>
     (\<forall>h batch. live (snd (rk_write api batch h)) = live h \<and>
        view (snd (rk_write api batch h)) =
          (if fst (rk_write api batch h) = None then fold put_view batch (view h) else view h)) \<and>
     (\<forall>h cf k. live (snd (rk_delete api cf k h)) = live h \<and>
        view (snd (rk_delete api cf k h)) =
          (if fst (rk_delete api cf k h) = None then (view h)(cf := (view h cf)(k := None)) else view h)) \<and>
     (\<forall>h opts c. case rk_create api opts c h of
          (None, h') \<Rightarrow> live h' = live h \<and> view h' = view h
        | (Some cf, h') \<Rightarrow> cf \<notin> live h \<and> live h' = insert cf (live h) \<and> view h' = (view h)(cf := Map.empty)) \<and>
     (\<forall>h cf b. omap_wf (rk_seek api h cf b) \<and>
        map_of (rk_seek api h cf b) =
          (\<lambda>k. if (case b of None \<Rightarrow> True | Some b \<Rightarrow> b \<le> k) then view h cf k else None)) \<and>
     (\<forall>h. live (rk_flush api h) = live h \<and> view (rk_flush api h) = view h)"

text \<open>A database on which no call fails.\<close>

definition rocks_reliable :: "('h, 'c) rocks_api \<Rightarrow> bool" where
  "rocks_reliable api \<longleftrightarrow>
     (\<forall>h cf k e. rk_get api h cf k \<noteq> rocks_error e) \<and>
     (\<forall>cf k v h. fst (rk_put api cf k v h) = None) \<and>
     (\<forall>batch h. fst (rk_write api batch h) = None) \<and>
     (\<forall>cf k h. fst (rk_delete api cf k h) = None) \<and>
     (\<forall>opts c h. fst (rk_create api opts c h) \<noteq> None)"

lemma rocks_reliableD:
  assumes "rocks_reliable api"
  shows "rk_get api h cf k \<noteq> rocks_error e" and "fst (rk_put api cf k v h) = None"
    and "fst (rk_write api batch h) = None" and "fst (rk_delete api cf k h) = None"
    and "fst (rk_create api opts c h) \<noteq> None"
  using assms unfolding rocks_reliable_def by (elim conjE, simp)+

subsection \<open>The documents of a store\<close>

definition record_pair :: "DocumentRecord \<Rightarrow> string \<times> string" where
  "record_pair r = (doc_collection r, doc_key r)"

definition stored_record :: "pb_api \<Rightarrow> string \<Rightarrow> DocumentRecord option" where
  "stored_record pb bytes = (case DecodeStoredRecord pb bytes of Ret (Inr r) \<Rightarrow> Some r | _ \<Rightarrow> None)"

definition rocks_docs ::
  "pb_api \<Rightarrow> ('c \<Rightarrow> string \<rightharpoonup> string) \<Rightarrow> 'c rocks_store \<Rightarrow> string \<times> string \<rightharpoonup> DocumentRecord" where
  "rocks_docs pb w st = (\<lambda>(c, k). Option.bind (map_of (rs_families st) c) (\<lambda>cf.
     Option.bind (w cf k) (stored_record pb)))"

text \<open>Each collection has a family of its own, and a record is filed under its own names.\<close>

definition rocks_wf :: "pb_api \<Rightarrow> ('c \<Rightarrow> string \<rightharpoonup> string) \<Rightarrow> 'c set \<Rightarrow> 'c rocks_store \<Rightarrow> bool" where
  "rocks_wf pb w L st \<longleftrightarrow> rs_open st \<and> omap_wf (rs_families st) \<and>
     inj_on (map_of (rs_families st)) (dom (map_of (rs_families st))) \<and>
     ran (map_of (rs_families st)) \<subseteq> L \<and>
     (\<forall>c cf k v. map_of (rs_families st) c = Some cf \<longrightarrow> w cf k = Some v \<longrightarrow>
        (\<exists>r. DecodeStoredRecord pb v = Ret (Inr r) \<and> record_pair r = (c, k)))"

definition rocks_storable :: "pb_api \<Rightarrow> DocumentRecord \<Rightarrow> bool" where
  "rocks_storable pb r \<longleftrightarrow> document_ok pb r \<and> doc_collection r \<noteq> [] \<and> doc_key r \<noteq> []"

lemma DecodeStoredRecord_Encode:
  "pb_laws pb \<Longrightarrow> rocks_storable pb r \<Longrightarrow> DecodeStoredRecord pb (EncodeDocumentRecord pb r) = Ret (Inr r)"
  by (simp add: DecodeStoredRecord_def rocks_storable_def DecodeDocumentRecord_Encode)

lemma stored_record_Encode:
  "pb_laws pb \<Longrightarrow> rocks_storable pb r \<Longrightarrow> stored_record pb (EncodeDocumentRecord pb r) = Some r"
  by (simp add: stored_record_def DecodeStoredRecord_Encode)

lemma rocks_wf_decodes:
  assumes "rocks_wf pb w L st" and "map_of (rs_families st) c = Some cf" and "w cf k = Some v"
  obtains r where "DecodeStoredRecord pb v = Ret (Inr r)" and "rocks_docs pb w st (c, k) = Some r"
    and "record_pair r = (c, k)"
proof -
  from assms obtain r where "DecodeStoredRecord pb v = Ret (Inr r)" "record_pair r = (c, k)"
    unfolding rocks_wf_def by blast
  with assms show ?thesis
    by (intro that [of r]) (simp_all add: rocks_docs_def stored_record_def)
qed

lemma rocks_docs_absent:
  "map_of (rs_families st) c = Some cf \<Longrightarrow> w cf k = None \<Longrightarrow> rocks_docs pb w st (c, k) = None"
  by (simp add: rocks_docs_def)

lemma rocks_families_unique:
  "rocks_wf pb w L st \<Longrightarrow> map_of (rs_families st) c = Some cf \<Longrightarrow> map_of (rs_families st) d = Some cf \<Longrightarrow> c = d"
  unfolding rocks_wf_def by (elim conjE) (metis domI inj_onD)

text \<open>A write of a record into its family is an update of the documents.\<close>

lemma put_view_docs:
  assumes "pb_laws pb" and "rocks_storable pb r" and "rocks_wf pb w L st"
    and "map_of (rs_families st) (doc_collection r) = Some cf"
  shows "rocks_wf pb (put_view (cf, doc_key r, EncodeDocumentRecord pb r) w) L st"
    and "rocks_docs pb (put_view (cf, doc_key r, EncodeDocumentRecord pb r) w) st =
         (rocks_docs pb w st)(record_pair r \<mapsto> r)"
proof -
  note enc = DecodeStoredRecord_Encode [OF assms(1,2)] stored_record_Encode [OF assms(1,2)]
  note same = rocks_families_unique [OF assms(3,4)]
  from assms(3) show "rocks_wf pb (put_view (cf, doc_key r, EncodeDocumentRecord pb r) w) L st"
    using enc(1) same unfolding rocks_wf_def put_view_def record_pair_def by (auto split: if_splits)
  show "rocks_docs pb (put_view (cf, doc_key r, EncodeDocumentRecord pb r) w) st =
        (rocks_docs pb w st)(record_pair r \<mapsto> r)"
  proof
    fix p :: "string \<times> string"
    obtain c k where p: "p = (c, k)" by (cases p)
    show "rocks_docs pb (put_view (cf, doc_key r, EncodeDocumentRecord pb r) w) st p =
          ((rocks_docs pb w st)(record_pair r \<mapsto> r)) p"
      using assms(4) enc(2) same [of c]
      by (cases "map_of (rs_families st) c") (auto simp: p rocks_docs_def put_view_def record_pair_def)
  qed
qed

lemma fold_put_view_docs:
  assumes "pb_laws pb" and "\<forall>r \<in> set rs. rocks_storable pb r \<and> map_of (rs_families st) (doc_collection r) \<noteq> None"
    and "rocks_wf pb w L st"
    and "batch = map (\<lambda>r. (the (map_of (rs_families st) (doc_collection r)), doc_key r, EncodeDocumentRecord pb r)) rs"
  shows "rocks_wf pb (fold put_view batch w) L st \<and>
         rocks_docs pb (fold put_view batch w) st = fold (\<lambda>r m. m(record_pair r \<mapsto> r)) rs (rocks_docs pb w st)"
  using assms(2-4)
proof (induction rs arbitrary: w batch)
  case (Cons r rs)
  then obtain cf where cf: "map_of (rs_families st) (doc_collection r) = Some cf" by auto
  from Cons.prems(1) have "rocks_storable pb r" by simp
  note step = put_view_docs [OF assms(1) this Cons.prems(2) cf]
  from Cons.IH [OF _ step(1) refl] Cons.prems(1) show ?case
    by (simp add: Cons.prems(3) cf step(2))
qed simp

subsection \<open>Families and the check before a write\<close>

lemma rocks_laws_get: "rocks_laws api view live \<Longrightarrow> answers (view h cf) k (rk_get api h cf k)"
  by (simp add: rocks_laws_def)

lemma rocks_laws_put:
  assumes "rocks_laws api view live" and "rk_put api cf k v h = (e, h')"
  shows "live h' = live h \<and> view h' = (if e = None then put_view (cf, k, v) (view h) else view h)"
proof -
  have "\<forall>h cf k v. live (snd (rk_put api cf k v h)) = live h \<and>
      view (snd (rk_put api cf k v h)) =
        (if fst (rk_put api cf k v h) = None then put_view (cf, k, v) (view h) else view h)"
    using assms(1) unfolding rocks_laws_def by (elim conjE) assumption
  from this [rule_format, of cf k v h] assms(2) show ?thesis by simp
qed

lemma rocks_laws_write:
  assumes "rocks_laws api view live" and "rk_write api batch h = (e, h')"
  shows "live h' = live h \<and> view h' = (if e = None then fold put_view batch (view h) else view h)"
proof -
  have "\<forall>h batch. live (snd (rk_write api batch h)) = live h \<and>
      view (snd (rk_write api batch h)) =
        (if fst (rk_write api batch h) = None then fold put_view batch (view h) else view h)"
    using assms(1) unfolding rocks_laws_def by (elim conjE) assumption
  from this [rule_format, of batch h] assms(2) show ?thesis by simp
qed

lemma rocks_laws_delete:
  assumes "rocks_laws api view live" and "rk_delete api cf k h = (e, h')"
  shows "live h' = live h \<and>
    view h' = (if e = None then (view h)(cf := (view h cf)(k := None)) else view h)"
proof -
  have "\<forall>h cf k. live (snd (rk_delete api cf k h)) = live h \<and>
      view (snd (rk_delete api cf k h)) =
        (if fst (rk_delete api cf k h) = None then (view h)(cf := (view h cf)(k := None)) else view h)"
    using assms(1) unfolding rocks_laws_def by (elim conjE) assumption
  from this [rule_format, of cf k h] assms(2) show ?thesis by simp
qed

lemma rocks_laws_create:
  assumes "rocks_laws api view live" and "rk_create api opts c h = (res, h')"
  shows "case res of None \<Rightarrow> live h' = live h \<and> view h' = view h
    | Some cf \<Rightarrow> cf \<notin> live h \<and> live h' = insert cf (live h) \<and> view h' = (view h)(cf := Map.empty)"
proof -
  have "\<forall>h opts c. case rk_create api opts c h of
          (None, h') \<Rightarrow> live h' = live h \<and> view h' = view h
        | (Some cf, h') \<Rightarrow> cf \<notin> live h \<and> live h' = insert cf (live h) \<and> view h' = (view h)(cf := Map.empty)"
    using assms(1) unfolding rocks_laws_def by (elim conjE) assumption
  from this [THEN spec, THEN spec, THEN spec, of h opts c] assms(2) show ?thesis by (simp split: option.splits)
qed

lemma rocks_laws_seek:
  assumes "rocks_laws api view live"
  shows "omap_wf (rk_seek api h cf b)"
    and "map_of (rk_seek api h cf b) =
      (\<lambda>k. if (case b of None \<Rightarrow> True | Some b \<Rightarrow> b \<le> k) then view h cf k else None)"
proof -
  have "\<forall>h cf b. omap_wf (rk_seek api h cf b) \<and>
      map_of (rk_seek api h cf b) =
        (\<lambda>k. if (case b of None \<Rightarrow> True | Some b \<Rightarrow> b \<le> k) then view h cf k else None)"
    using assms unfolding rocks_laws_def by (elim conjE) assumption
  then show "omap_wf (rk_seek api h cf b)"
    and "map_of (rk_seek api h cf b) =
      (\<lambda>k. if (case b of None \<Rightarrow> True | Some b \<Rightarrow> b \<le> k) then view h cf k else None)"
    by blast+
qed

lemma rocks_laws_flush:
  assumes "rocks_laws api view live"
  shows "live (rk_flush api h) = live h" and "view (rk_flush api h) = view h"
  using assms unfolding rocks_laws_def by (elim conjE, simp)+

text \<open>
  Asking for a family keeps the documents and every family that there is. The state is good
  when it is well-formed for the contents of its database.
\<close>

definition rocks_good ::
  "pb_api \<Rightarrow> ('h \<Rightarrow> 'c \<Rightarrow> string \<rightharpoonup> string) \<Rightarrow> ('h \<Rightarrow> 'c set) \<Rightarrow> 'h \<times> 'c rocks_store \<Rightarrow> bool" where
  "rocks_good pb view live = (\<lambda>(h, st). rocks_wf pb (view h) (live h) st)"

definition rocks_documents ::
  "pb_api \<Rightarrow> ('h \<Rightarrow> 'c \<Rightarrow> string \<rightharpoonup> string) \<Rightarrow> 'h \<times> 'c rocks_store \<Rightarrow> string \<times> string \<rightharpoonup> DocumentRecord" where
  "rocks_documents pb view = (\<lambda>(h, st). rocks_docs pb (view h) st)"

lemma rocks_new_family:
  assumes "rocks_wf pb w L st" and "map_of (rs_families st) c = None" and "cf \<notin> L"
  shows "rocks_wf pb (w(cf := Map.empty)) (insert cf L) (st\<lparr>rs_families := omap_put c cf (rs_families st)\<rparr>)"
    and "rocks_docs pb (w(cf := Map.empty)) (st\<lparr>rs_families := omap_put c cf (rs_families st)\<rparr>) = rocks_docs pb w st"
proof -
  from assms have fresh: "map_of (rs_families st) d \<noteq> Some cf" for d
    unfolding rocks_wf_def by (auto dest: ranI)
  have inj: "inj_on ((map_of (rs_families st))(c \<mapsto> cf)) (insert c (dom (map_of (rs_families st))))"
    using assms(1,2) fresh unfolding rocks_wf_def
    by (auto simp: inj_on_def dom_def)
  from assms inj fresh show "rocks_wf pb (w(cf := Map.empty)) (insert cf L)
      (st\<lparr>rs_families := omap_put c cf (rs_families st)\<rparr>)"
    unfolding rocks_wf_def by (auto simp: ran_def)
  show "rocks_docs pb (w(cf := Map.empty)) (st\<lparr>rs_families := omap_put c cf (rs_families st)\<rparr>) = rocks_docs pb w st"
    using assms(2) fresh by (auto simp: rocks_docs_def fun_eq_iff split: option.splits bind_splits)
qed

lemma GetOrCreateColumnFamily_good:
  assumes "rocks_laws api view live" and "rocks_good pb view live x"
    and "GetOrCreateColumnFamily api c x = (res, x')"
  shows "rocks_good pb view live x'" and "rocks_documents pb view x' = rocks_documents pb view x"
    and "map_of (rs_families (snd x)) \<subseteq>\<^sub>m map_of (rs_families (snd x'))"
    and "res = Some cf \<Longrightarrow> map_of (rs_families (snd x')) c = Some cf"
    and "rocks_reliable api \<Longrightarrow> res \<noteq> None"
proof -
  obtain h st where x: "x = (h, st)" by (cases x)
  have "rocks_good pb view live x' \<and> rocks_documents pb view x' = rocks_documents pb view x \<and>
      map_of (rs_families (snd x)) \<subseteq>\<^sub>m map_of (rs_families (snd x')) \<and>
      (\<forall>cf. res = Some cf \<longrightarrow> map_of (rs_families (snd x')) c = Some cf) \<and>
      (rocks_reliable api \<longrightarrow> res \<noteq> None)"
  proof (cases "map_of (rs_families st) c")
    case (Some cf)
    with assms(3) x have "res = Some cf" "x' = x" by (simp_all add: GetOrCreateColumnFamily_def)
    with assms(2) x Some show ?thesis by simp
  next
    case None
    obtain made h' where made: "rk_create api (family_options st) c h = (made, h')"
      by (cases "rk_create api (family_options st) c h")
    note law = rocks_laws_create [OF assms(1) made]
    have rel: "rocks_reliable api \<Longrightarrow> made \<noteq> None"
      using made unfolding rocks_reliable_def by (metis fst_conv)
    show ?thesis
    proof (cases made)
      case None
      with \<open>map_of (rs_families st) c = None\<close> law assms(2,3) x made rel show ?thesis
        by (auto simp: GetOrCreateColumnFamily_def rocks_good_def rocks_documents_def)
    next
      case (Some cf)
      have x': "res = Some cf" "x' = (h', st\<lparr>rs_families := omap_put c cf (rs_families st)\<rparr>)"
        using assms(3) made Some \<open>map_of (rs_families st) c = None\<close> x
        by (auto simp: GetOrCreateColumnFamily_def)
      from assms(2) x have wf: "rocks_wf pb (view h) (live h) st" by (simp add: rocks_good_def)
      from Some law have law': "cf \<notin> live h" "live h' = insert cf (live h)" "view h' = (view h)(cf := Map.empty)"
        by simp_all
      from rocks_new_family [OF wf \<open>map_of (rs_families st) c = None\<close> law'(1)] x x' law'(2,3)
        \<open>map_of (rs_families st) c = None\<close>
      show ?thesis by (auto simp: rocks_good_def rocks_documents_def map_le_def)
    qed
  qed
  then show "rocks_good pb view live x'" and "rocks_documents pb view x' = rocks_documents pb view x"
    and "map_of (rs_families (snd x)) \<subseteq>\<^sub>m map_of (rs_families (snd x'))"
    and "res = Some cf \<Longrightarrow> map_of (rs_families (snd x')) c = Some cf"
    and "rocks_reliable api \<Longrightarrow> res \<noteq> None"
    by blast+
qed

text \<open>
  What the check decides: a record is written when it is accepted and is not a retry, and the
  refusal is the one of \<open>ValidateMutation\<close>.
\<close>

definition verdict :: "DocumentRecord option \<Rightarrow> DocumentRecord \<Rightarrow> bool StatusOr" where
  "verdict old r =
     (case old of
        None \<Rightarrow> Inr True
      | Some e \<Rightarrow> if \<not> ok (ValidateMutation e r) then Inl (ValidateMutation e r)
                  else Inr (\<not> IsDuplicateMutation e r))"

lemma verdict_cases:
  "verdict old r = Inr True \<and> accepts old r \<and> settle old r = r \<or>
   verdict old r = Inr False \<and> accepts old r \<and> old = Some (settle old r) \<or>
   (\<exists>e. verdict old r = Inl e \<and> \<not> ok e \<and> \<not> accepts old r)"
  by (cases old) (auto simp: verdict_def accepts_def settle_def)

lemma check_existing_verdict:
  assumes "rocks_laws api view live" and "rocks_good pb view live (h, st)"
    and "map_of (rs_families st) (doc_collection r) = Some cf"
  shows "check_existing pb msg (rk_get api h cf (doc_key r)) r =
           Ret (verdict (rocks_documents pb view (h, st) (record_pair r)) r) \<or>
         \<not> rocks_reliable api \<and>
           (\<exists>e. check_existing pb msg (rk_get api h cf (doc_key r)) r = Ret (Inl (Internal e)))"
proof (cases "rk_get api h cf (doc_key r)")
  case (rocks_found v)
  from assms(2) have wf: "rocks_wf pb (view h) (live h) st" by (simp add: rocks_good_def)
  from rocks_laws_get [OF assms(1), of h cf "doc_key r"] rocks_found
  have "view h cf (doc_key r) = Some v" by simp
  from rocks_wf_decodes [OF wf assms(3) this] obtain e where
    "DecodeStoredRecord pb v = Ret (Inr e)"
    "rocks_docs pb (view h) st (doc_collection r, doc_key r) = Some e" by blast
  with rocks_found show ?thesis
    by (simp add: check_existing_def verdict_def rocks_documents_def record_pair_def Let_def)
next
  case rocks_not_found
  with rocks_laws_get [OF assms(1), of h cf "doc_key r"] have "view h cf (doc_key r) = None" by simp
  from rocks_docs_absent [where w = "view h", OF assms(3) this] rocks_not_found show ?thesis
    by (simp add: check_existing_def verdict_def rocks_documents_def record_pair_def)
next
  case (rocks_error e)
  then show ?thesis by (auto simp: check_existing_def rocks_reliable_def)
qed

end
