(* ===== verification/Rocks_Properties.thy ===== *)
theory Rocks_Properties
  imports Rocks_Store Wal_Properties
begin

text \<open>
  What \<open>RocksDbKvStore\<close> promises: the effect of each operation on the documents of the store,
  the comparison with the write-ahead store, and concrete runs on a database in memory.
\<close>

subsection \<open>Mutations\<close>

lemma rocks_good_open: "rocks_good pb view live (h, st) \<Longrightarrow> rs_open st"
  by (simp add: rocks_good_def rocks_wf_def)

lemma Rocks_Put_documents:
  assumes "rocks_laws api view live" and "pb_laws pb" and "rocks_good pb view live x"
    and "rocks_storable pb r" and "Rocks_Put api pb r x = (res, x')"
  shows "rocks_good pb view live x' \<and>
    (\<exists>status. res = Ret status \<and>
       (if ok status
        then accepts (rocks_documents pb view x (record_pair r)) r \<and> rocks_documents pb view x' =
          (rocks_documents pb view x)(record_pair r \<mapsto> settle (rocks_documents pb view x (record_pair r)) r)
        else rocks_documents pb view x' = rocks_documents pb view x) \<and>
       (rocks_reliable api \<longrightarrow> (case verdict (rocks_documents pb view x (record_pair r)) r of
          Inl e \<Rightarrow> status = e | Inr _ \<Rightarrow> status = Ok)))"
proof -
  obtain h st where x: "x = (h, st)" by (cases x)
  with assms(3) have op: "rs_open st" by (simp add: rocks_good_open)
  obtain fam h1 st1 where fam: "GetOrCreateColumnFamily api (doc_collection r) x = (fam, h1, st1)"
    by (cases "GetOrCreateColumnFamily api (doc_collection r) x") auto
  note good = GetOrCreateColumnFamily_good [OF assms(1,3) fam]
  show ?thesis
  proof (cases fam)
    case None
    with good fam assms(5) op x show ?thesis by (auto simp: Rocks_Put_def no_family_def)
  next
    case (Some cf)
    with good(4) have cf: "map_of (rs_families st1) (doc_collection r) = Some cf" by simp
    let ?check = "check_existing pb ''rocksdb get-before-put failed: '' (rk_get api h1 cf (doc_key r)) r"
    let ?old = "rocks_documents pb view x (record_pair r)"
    have run: "Rocks_Put api pb r x = (case ?check of
            Throw e \<Rightarrow> (Throw e, h1, st1)
          | Ret (Inl e) \<Rightarrow> (Ret e, h1, st1)
          | Ret (Inr False) \<Rightarrow> (Ret Ok, h1, st1)
          | Ret (Inr True) \<Rightarrow>
              (case rk_put api cf (doc_key r) (EncodeDocumentRecord pb r) h1 of
                 (None, h2) \<Rightarrow> (Ret Ok, h2, st1)
               | (Some e, h2) \<Rightarrow> (Ret (Internal (''rocksdb put failed: '' @ e)), h2, st1)))"
      using fam Some op x by (simp add: Rocks_Put_def)
    from check_existing_verdict [OF assms(1) good(1) cf]
    consider (verdict) "?check = Ret (verdict ?old r)"
      | (failed) e where "\<not> rocks_reliable api" "?check = Ret (Inl (Internal e))"
      unfolding good(2) by blast
    then show ?thesis
    proof cases
      case failed
      with run good(1,2) assms(5) show ?thesis by simp
    next
      case verdict
      from verdict_cases [of ?old r] show ?thesis
      proof (elim disjE conjE exE)
        assume v: "verdict ?old r = Inr True" "accepts ?old r" "settle ?old r = r"
        obtain e h2 where put: "rk_put api cf (doc_key r) (EncodeDocumentRecord pb r) h1 = (e, h2)"
          by (cases "rk_put api cf (doc_key r) (EncodeDocumentRecord pb r) h1")
        have rel: "rocks_reliable api \<Longrightarrow> e = None"
          using put unfolding rocks_reliable_def by (metis fst_conv)
        from good(1) have wf: "rocks_wf pb (view h1) (live h1) st1" by (simp add: rocks_good_def)
        note law = rocks_laws_put [OF assms(1) put]
        note upd = put_view_docs [OF assms(2,4) wf cf]
        show ?thesis
        proof (cases e)
          case None
          with run verdict v put assms(5) have "res = Ret Ok" "x' = (h2, st1)" by simp_all
          with law None upd good(2) v show ?thesis
            by (simp add: rocks_good_def rocks_documents_def)
        next
          case (Some m)
          with run verdict v put assms(5) have "res = Ret (Internal (''rocksdb put failed: '' @ m))" "x' = (h2, st1)"
            by simp_all
          moreover from rel Some have "\<not> rocks_reliable api" by auto
          ultimately show ?thesis
            using law Some good(1,2) by (simp add: rocks_good_def rocks_documents_def)
        qed
      next
        assume v: "verdict ?old r = Inr False" "accepts ?old r" "?old = Some (settle ?old r)"
        with run verdict assms(5) have "res = Ret Ok" "x' = (h1, st1)" by simp_all
        moreover have "(rocks_documents pb view x)(record_pair r \<mapsto> settle ?old r) = rocks_documents pb view x"
          by (rule fun_upd_idem) (use v(3) in simp)
        ultimately show ?thesis using v(1,2) good(1,2) by simp
      next
        fix e
        assume v: "verdict ?old r = Inl e" "\<not> ok e" "\<not> accepts ?old r"
        with run verdict assms(5) have "res = Ret e" "x' = (h1, st1)" by simp_all
        with v good(1,2) show ?thesis by simp
      qed
    qed
  qed
qed

text \<open>
  The contract of the interface. The put returns a status and no exception on a well-formed
  store, so that what stands for an exception here is never taken. Retries are recognised
  when the database answers.
\<close>

definition rocks_put ::
  "('h, 'c) rocks_api \<Rightarrow> pb_api \<Rightarrow> DocumentRecord \<Rightarrow> 'h \<times> 'c rocks_store \<Rightarrow> Status \<times> 'h \<times> 'c rocks_store" where
  "rocks_put api pb r x = (case Rocks_Put api pb r x of (Ret status, x') \<Rightarrow> (status, x') | (Throw e, x') \<Rightarrow> (Internal [], x'))"

definition rocks_in_order ::
  "('h, 'c) rocks_api \<Rightarrow> pb_api \<Rightarrow> ('h \<Rightarrow> 'c \<Rightarrow> string \<rightharpoonup> string) \<Rightarrow> ('h \<Rightarrow> 'c set) \<Rightarrow> 'h \<times> 'c rocks_store \<Rightarrow> bool" where
  "rocks_in_order api pb view live x \<longleftrightarrow> rocks_laws api view live \<and> pb_laws pb \<and> rocks_good pb view live x"

lemma rocks_put_documents:
  assumes "rocks_in_order api pb view live x" and "rocks_storable pb r" and "rocks_put api pb r x = (status, x')"
  shows "rocks_in_order api pb view live x' \<and> Rocks_Put api pb r x = (Ret status, x') \<and>
    (if ok status
     then accepts (rocks_documents pb view x (record_pair r)) r \<and> rocks_documents pb view x' =
       (rocks_documents pb view x)(record_pair r \<mapsto> settle (rocks_documents pb view x (record_pair r)) r)
     else rocks_documents pb view x' = rocks_documents pb view x)"
proof -
  obtain res y where p: "Rocks_Put api pb r x = (res, y)" by (cases "Rocks_Put api pb r x")
  from assms(1) have "rocks_laws api view live" "pb_laws pb" "rocks_good pb view live x"
    by (simp_all add: rocks_in_order_def)
  note put = Rocks_Put_documents [OF this assms(2)]
  from put [OF p] obtain st where "res = Ret st" by blast
  with p assms(3) have q: "Rocks_Put api pb r x = (Ret status, x')" by (simp add: rocks_put_def)
  from put [OF q] assms(1) q show ?thesis by (simp add: rocks_in_order_def)
qed

interpretation rocks_kv: kv_store "rocks_in_order api pb view live" "rocks_storable pb" record_pair
  "rocks_documents pb view" "rocks_put api pb" for api pb view live
  by unfold_locales (use rocks_put_documents in \<open>fastforce simp: if_splits\<close>)+

lemma rocks_versions_never_decrease:
  assumes "rocks_laws api view live" and "pb_laws pb" and "rocks_good pb view live x"
    and "\<forall>r \<in> set rs. rocks_storable pb r \<and> doc_version r \<noteq> 0"
    and "rocks_documents pb view x k = Some e" and "doc_version e \<noteq> 0"
  shows "\<exists>e'. rocks_documents pb view (fold (\<lambda>r y. snd (Rocks_Put api pb r y)) rs x) k = Some e' \<and>
    doc_version e \<le> doc_version e'"
proof -
  have "snd (rocks_put api pb r y) = snd (Rocks_Put api pb r y)" for r y
    by (simp add: rocks_put_def split: prod.split outcome.split)
  with rocks_kv.versions_grow [of api pb view live x rs k e] assms show ?thesis
    by (simp add: rocks_kv.puts_def rocks_in_order_def)
qed

text \<open>On a database that answers, the store recognises every retry.\<close>

definition rocks_answering ::
  "('h, 'c) rocks_api \<Rightarrow> pb_api \<Rightarrow> ('h \<Rightarrow> 'c \<Rightarrow> string \<rightharpoonup> string) \<Rightarrow> ('h \<Rightarrow> 'c set) \<Rightarrow> 'h \<times> 'c rocks_store \<Rightarrow> bool" where
  "rocks_answering api pb view live x \<longleftrightarrow> rocks_reliable api \<and> rocks_in_order api pb view live x"

lemma rocks_put_retry:
  assumes "rocks_answering api pb view live x" and "rocks_documents pb view x (record_pair r) = Some e"
    and "IsDuplicateMutation e r"
  shows "rocks_put api pb r x = (Ok, x)"
proof -
  obtain h st where x: "x = (h, st)" by (cases x)
  from assms(1) have rel: "rocks_reliable api" and laws: "rocks_laws api view live" and good: "rocks_good pb view live (h, st)"
    by (simp_all add: rocks_answering_def rocks_in_order_def x)
  from assms(2) obtain cf where cf: "map_of (rs_families st) (doc_collection r) = Some cf"
    by (auto simp: x rocks_documents_def rocks_docs_def record_pair_def bind_eq_Some_conv)
  have "verdict (rocks_documents pb view (h, st) (record_pair r)) r = Inr False"
    using assms(2,3) by (simp add: x verdict_def ValidateMutation_ok)
  with check_existing_verdict [OF laws good cf] rel
  have "check_existing pb msg (rk_get api h cf (doc_key r)) r = Ret (Inr False)" for msg by simp
  then show ?thesis
    using cf rocks_good_open [OF good] by (simp add: x rocks_put_def Rocks_Put_def GetOrCreateColumnFamily_def)
qed

interpretation rocks_retry: retry_store "rocks_answering api pb view live" "rocks_storable pb" record_pair
  "rocks_documents pb view" "rocks_put api pb" for api pb view live
proof unfold_locales
  show "rocks_answering api pb view live x'"
    if "rocks_answering api pb view live x" "rocks_storable pb r" "rocks_put api pb r x = (status, x')" for x r status x'
    using that unfolding rocks_answering_def by (blast intro: rocks_kv.put_good)
qed (auto simp: rocks_answering_def intro: rocks_put_retry dest: rocks_kv.put_ok rocks_kv.put_failed)

lemma rocks_put_is_idempotent:
  assumes "rocks_reliable api" and "rocks_laws api view live" and "pb_laws pb" and "rocks_good pb view live x"
    and "rocks_storable pb r" and "doc_mutation_id r \<noteq> []" and "Rocks_Put api pb r x = (Ret status, x')" and "ok status"
  shows "Rocks_Put api pb r x' = (Ret Ok, x')"
proof -
  from assms(1-4) have "rocks_answering api pb view live x" by (simp add: rocks_answering_def rocks_in_order_def)
  moreover from assms(7) have "rocks_put api pb r x = (status, x')" by (simp add: rocks_put_def)
  ultimately have a: "rocks_answering api pb view live x'" and p: "rocks_put api pb r x' = (Ok, x')"
    using rocks_retry.put_good rocks_retry.put_idempotent assms(5,6,8) by blast+
  from a have "rocks_in_order api pb view live x'" by (simp add: rocks_answering_def)
  from rocks_put_documents [OF this assms(5) p] show ?thesis by simp
qed

subsection \<open>Batches\<close>

lemma batch_keys_loop_None:
  "batch_keys_loop rs keys = None \<Longrightarrow> distinct (map document_key rs) \<and> document_key ` set rs \<inter> keys = {}"
  by (induction rs keys rule: batch_keys_loop.induct) (auto split: if_splits)

lemma batch_keys_loop_Some: "batch_keys_loop rs keys = Some e \<Longrightarrow> \<not> ok e"
  by (induction rs keys rule: batch_keys_loop.induct) (auto split: if_splits)

lemma distinct_record_pairs: "distinct (map document_key rs) \<Longrightarrow> distinct (map record_pair rs)"
  by (induction rs) (auto simp: record_pair_def document_key_def image_iff)

definition family_entry :: "pb_api \<Rightarrow> 'c rocks_store \<Rightarrow> DocumentRecord \<Rightarrow> 'c \<times> string \<times> string" where
  "family_entry pb st r = (the (map_of (rs_families st) (doc_collection r)), doc_key r, EncodeDocumentRecord pb r)"

lemma rocks_batch_loop_result:
  assumes "rocks_laws api view live" and "rocks_good pb view live x"
    and "rocks_batch_loop api pb rs batch x = (res, x')"
  shows "rocks_good pb view live x' \<and> rocks_documents pb view x' = rocks_documents pb view x \<and>
    map_of (rs_families (snd x)) \<subseteq>\<^sub>m map_of (rs_families (snd x')) \<and>
    (case res of
       Throw e \<Rightarrow> False
     | Ret (Inl e) \<Rightarrow> \<not> ok e
     | Ret (Inr batch') \<Rightarrow>
         (\<forall>r \<in> set rs. accepts (rocks_documents pb view x (record_pair r)) r \<and>
            map_of (rs_families (snd x')) (doc_collection r) \<noteq> None) \<and>
         batch' = batch @ map (family_entry pb (snd x'))
           (filter (\<lambda>r. verdict (rocks_documents pb view x (record_pair r)) r = Inr True) rs))"
  using assms(2,3)
proof (induction rs arbitrary: batch x)
  case Nil
  then show ?case by auto
next
  case (Cons r rs)
  obtain fam h1 st1 where fam: "GetOrCreateColumnFamily api (doc_collection r) x = (fam, h1, st1)"
    by (cases "GetOrCreateColumnFamily api (doc_collection r) x") auto
  note good = GetOrCreateColumnFamily_good [OF assms(1) Cons.prems(1) fam]
  show ?case
  proof (cases fam)
    case None
    with Cons.prems(2) fam good(1-3) show ?thesis by (auto simp: no_family_def)
  next
    case (Some cf)
    with good(4) have cf: "map_of (rs_families st1) (doc_collection r) = Some cf" by simp
    let ?check = "check_existing pb ''rocksdb get-before-batch-put failed: '' (rk_get api h1 cf (doc_key r)) r"
    let ?old = "rocks_documents pb view x (record_pair r)"
    have run: "rocks_batch_loop api pb (r # rs) batch x = (case ?check of
             Throw e \<Rightarrow> (Throw e, h1, st1)
           | Ret (Inl e) \<Rightarrow> (Ret (Inl e), h1, st1)
           | Ret (Inr False) \<Rightarrow> rocks_batch_loop api pb rs batch (h1, st1)
           | Ret (Inr True) \<Rightarrow>
               rocks_batch_loop api pb rs (batch @ [(cf, doc_key r, EncodeDocumentRecord pb r)]) (h1, st1))"
      using fam Some by simp
    have rest: ?thesis if a: "accepts ?old r" "verdict ?old r = Inr w"
      and step: "rocks_batch_loop api pb rs
        (batch @ (if w then [(cf, doc_key r, EncodeDocumentRecord pb r)] else [])) (h1, st1) = (res, x')" for w
    proof -
      note ih = Cons.IH [OF good(1) step]
      from ih good(3) have le: "map_of (rs_families (snd x)) \<subseteq>\<^sub>m map_of (rs_families (snd x'))"
        by (auto intro: map_le_trans)
      from ih cf have "map_of (rs_families (snd x')) (doc_collection r) = Some cf"
        by (auto simp: map_le_def dom_def)
      with ih le a good(2) show ?thesis
        by (auto simp: family_entry_def split: outcome.splits sum.splits)
    qed
    from check_existing_verdict [OF assms(1) good(1) cf]
    consider (verdict) "?check = Ret (verdict ?old r)"
      | (failed) e where "?check = Ret (Inl (Internal e))"
      unfolding good(2) by blast
    then show ?thesis
    proof cases
      case failed
      with run good(1-3) Cons.prems(2) show ?thesis by auto
    next
      case verdict
      from verdict_cases [of ?old r] show ?thesis
      proof (elim disjE conjE exE)
        assume "verdict ?old r = Inr True" "accepts ?old r"
        with run verdict Cons.prems(2) rest [of True] show ?thesis by simp
      next
        assume "verdict ?old r = Inr False" "accepts ?old r"
        with run verdict Cons.prems(2) rest [of False] show ?thesis by simp
      next
        fix e
        assume "verdict ?old r = Inl e" "\<not> ok e"
        with run verdict Cons.prems(2) good(1-3) show ?thesis by auto
      qed
    qed
  qed
qed

text \<open>What the mutations of a batch leave, one after the other.\<close>

definition settle_put ::
  "DocumentRecord \<Rightarrow> (string \<times> string \<rightharpoonup> DocumentRecord) \<Rightarrow> (string \<times> string \<rightharpoonup> DocumentRecord)" where
  "settle_put r m = m(record_pair r \<mapsto> settle (m (record_pair r)) r)"

lemma fold_settle_put:
  assumes "distinct (map record_pair rs)" and "\<forall>r \<in> set rs. accepts (m0 (record_pair r)) r"
    and "\<forall>r \<in> set rs. m (record_pair r) = m0 (record_pair r)"
  shows "fold (\<lambda>r m. m(record_pair r \<mapsto> r)) (filter (\<lambda>r. verdict (m0 (record_pair r)) r = Inr True) rs) m =
         fold settle_put rs m"
  using assms
proof (induction rs arbitrary: m)
  case (Cons r rs)
  have other: "\<forall>q \<in> set rs. record_pair q \<noteq> record_pair r" using Cons.prems(1) by (auto dest: sym)
  from Cons.prems(3) have old: "m (record_pair r) = m0 (record_pair r)" by simp
  from verdict_cases [of "m0 (record_pair r)" r] show ?case
  proof (elim disjE conjE exE)
    assume v: "verdict (m0 (record_pair r)) r = Inr True" "settle (m0 (record_pair r)) r = r"
    have "\<forall>q \<in> set rs. (m(record_pair r \<mapsto> r)) (record_pair q) = m0 (record_pair q)"
      using Cons.prems(3) other by simp
    moreover have "settle_put r m = m(record_pair r \<mapsto> r)"
      by (simp only: settle_put_def old v)
    ultimately show ?thesis
      using Cons.IH [of "m(record_pair r \<mapsto> r)"] Cons.prems(1,2) v by (simp add: comp_def del: fun_upd_apply)
  next
    assume v: "verdict (m0 (record_pair r)) r = Inr False"
      "m0 (record_pair r) = Some (settle (m0 (record_pair r)) r)"
    then have "settle_put r m = m" using old by (simp add: settle_put_def fun_upd_idem)
    with Cons.IH [of m] Cons.prems v show ?thesis by simp
  next
    assume "\<not> accepts (m0 (record_pair r)) r"
    with Cons.prems(2) show ?thesis by simp
  qed
qed simp

text \<open>
  C9: A batch on the RocksDB store is all or nothing. When \<open>BatchPut\<close> returns Ok, every record of it
  was admissible and the store holds what putting them one by one leaves; when it returns
  anything else, because of a repeated key, a stale version or a failure of the database at any
  point, no document of the store has changed. It never throws on a well-formed store, and
  leaves it well-formed.
\<close>

theorem rocks_batch_is_all_or_nothing:
  assumes "rocks_laws api view live" and "pb_laws pb" and "rocks_good pb view live x"
    and "\<forall>r \<in> set rs. rocks_storable pb r" and "Rocks_BatchPut api pb rs x = (res, x')"
  shows "rocks_good pb view live x' \<and>
    (\<exists>status. res = Ret status \<and>
       (if ok status
        then (\<forall>r \<in> set rs. accepts (rocks_documents pb view x (record_pair r)) r) \<and>
             rocks_documents pb view x' = fold settle_put rs (rocks_documents pb view x)
        else rocks_documents pb view x' = rocks_documents pb view x))"
proof -
  obtain h st where x: "x = (h, st)" by (cases x)
  with assms(3) have op: "rs_open st" by (simp add: rocks_good_open)
  show ?thesis
  proof (cases "batch_keys_loop rs {}")
    case (Some e)
    with assms(3,5) op x batch_keys_loop_Some [OF Some] show ?thesis by (auto simp: Rocks_BatchPut_def)
  next
    case None
    from None batch_keys_loop_None have dist: "distinct (map record_pair rs)"
      by (blast intro: distinct_record_pairs)
    obtain out h1 st1 where loop: "rocks_batch_loop api pb rs [] x = (out, h1, st1)"
      by (cases "rocks_batch_loop api pb rs [] x") auto
    note result = rocks_batch_loop_result [OF assms(1,3) loop]
    have run: "Rocks_BatchPut api pb rs x = (case out of
            Throw e \<Rightarrow> (Throw e, h1, st1)
          | Ret (Inl e) \<Rightarrow> (Ret e, h1, st1)
          | Ret (Inr batch) \<Rightarrow>
              (case rk_write api batch h1 of
                 (None, h2) \<Rightarrow> (Ret Ok, h2, st1)
               | (Some e, h2) \<Rightarrow> (Ret (Internal (''rocksdb batch put failed: '' @ e)), h2, st1)))"
      using None loop op x by (simp add: Rocks_BatchPut_def split: outcome.split sum.split)
    show ?thesis
    proof (cases "\<exists>batch. out = Ret (Inr batch)")
      case False
      with result run assms(5) show ?thesis by (auto split: outcome.splits sum.splits)
    next
      case True
      then obtain batch where batch: "out = Ret (Inr batch)" by blast
      let ?qs = "filter (\<lambda>r. verdict (rocks_documents pb view x (record_pair r)) r = Inr True) rs"
      from result batch have acc: "\<forall>r \<in> set rs. accepts (rocks_documents pb view x (record_pair r)) r"
        and fams: "\<forall>r \<in> set rs. map_of (rs_families st1) (doc_collection r) \<noteq> None"
        and entries: "batch = map (family_entry pb st1) ?qs"
        and docs: "rocks_documents pb view (h1, st1) = rocks_documents pb view x"
        and good: "rocks_good pb view live (h1, st1)" by auto
      obtain e h2 where wr: "rk_write api batch h1 = (e, h2)" by (cases "rk_write api batch h1")
      note law = rocks_laws_write [OF assms(1) wr]
      show ?thesis
      proof (cases e)
        case (Some m)
        with run batch wr assms(5) have "res = Ret (Internal (''rocksdb batch put failed: '' @ m))" "x' = (h2, st1)"
          by simp_all
        with law Some good docs show ?thesis by (simp add: rocks_good_def rocks_documents_def)
      next
        case None
        with run batch wr assms(5) have ok: "res = Ret Ok" "x' = (h2, st1)" by simp_all
        have qs: "\<forall>r \<in> set ?qs. rocks_storable pb r \<and> map_of (rs_families st1) (doc_collection r) \<noteq> None"
          using assms(4) fams by auto
        have wf: "rocks_wf pb (view h1) (live h1) st1" using good by (simp add: rocks_good_def)
        from entries have "batch = map (\<lambda>r. (the (map_of (rs_families st1) (doc_collection r)), doc_key r,
            EncodeDocumentRecord pb r)) ?qs"
          by (simp add: family_entry_def)
        note put = fold_put_view_docs [OF assms(2) qs wf this]
        have "fold (\<lambda>r m. m(record_pair r \<mapsto> r)) ?qs (rocks_documents pb view x) =
            fold settle_put rs (rocks_documents pb view x)"
          by (rule fold_settle_put [OF dist acc]) simp
        with put law None ok docs acc show ?thesis by (simp add: rocks_good_def rocks_documents_def)
      qed
    qed
  qed
qed

subsection \<open>Reads and deletes\<close>

lemma Rocks_Get_documents:
  assumes "rocks_laws api view live" and "rocks_good pb view live x"
  shows "Rocks_Get api pb c k x = Ret (Inr r) \<Longrightarrow> rocks_documents pb view x (c, k) = Some r"
    and "rocks_reliable api \<Longrightarrow> rocks_documents pb view x (c, k) = Some r \<Longrightarrow>
      Rocks_Get api pb c k x = Ret (Inr r)"
proof -
  obtain h st where x: "x = (h, st)" by (cases x)
  from assms(2) x have wf: "rocks_wf pb (view h) (live h) st" by (simp add: rocks_good_def)
  from assms(2) x have op: "rs_open st" by (simp add: rocks_good_open)
  have "(Rocks_Get api pb c k x = Ret (Inr r) \<longrightarrow> rocks_documents pb view x (c, k) = Some r) \<and>
    (rocks_reliable api \<longrightarrow> rocks_documents pb view x (c, k) = Some r \<longrightarrow> Rocks_Get api pb c k x = Ret (Inr r))"
  proof (cases "map_of (rs_families st) c")
    case None
    with x op show ?thesis
      by (simp add: Rocks_Get_def GetColumnFamily_def rocks_documents_def rocks_docs_def)
  next
    case (Some cf)
    note found = rocks_laws_get [OF assms(1), of h cf k]
    show ?thesis
    proof (cases "rk_get api h cf k")
      case (rocks_found v)
      with found have "view h cf k = Some v" by simp
      from rocks_wf_decodes [OF wf Some this] obtain e where
        "DecodeStoredRecord pb v = Ret (Inr e)" "rocks_docs pb (view h) st (c, k) = Some e" by blast
      with rocks_found Some x op show ?thesis
        by (simp add: Rocks_Get_def GetColumnFamily_def rocks_documents_def)
    next
      case rocks_not_found
      with found have "view h cf k = None" by simp
      from rocks_docs_absent [where w = "view h", OF Some this] rocks_not_found Some x op show ?thesis
        by (simp add: Rocks_Get_def GetColumnFamily_def rocks_documents_def)
    next
      case (rocks_error e)
      with rocks_reliableD(1) [of api h cf k e] Some x op show ?thesis
        by (auto simp: Rocks_Get_def GetColumnFamily_def)
    qed
  qed
  then show "Rocks_Get api pb c k x = Ret (Inr r) \<Longrightarrow> rocks_documents pb view x (c, k) = Some r"
    and "rocks_reliable api \<Longrightarrow> rocks_documents pb view x (c, k) = Some r \<Longrightarrow>
      Rocks_Get api pb c k x = Ret (Inr r)" by blast+
qed

lemma rocks_erase_view:
  assumes "rocks_wf pb w L st" and "map_of (rs_families st) c = Some cf"
  shows "rocks_wf pb (w(cf := (w cf)(k := None))) L st"
    and "rocks_docs pb (w(cf := (w cf)(k := None))) st = (rocks_docs pb w st)((c, k) := None)"
proof -
  show "rocks_wf pb (w(cf := (w cf)(k := None))) L st"
    using assms(1) unfolding rocks_wf_def by (auto split: if_splits)
  show "rocks_docs pb (w(cf := (w cf)(k := None))) st = (rocks_docs pb w st)((c, k) := None)"
  proof
    fix p :: "string \<times> string"
    obtain d l where p: "p = (d, l)" by (cases p)
    show "rocks_docs pb (w(cf := (w cf)(k := None))) st p = ((rocks_docs pb w st)((c, k) := None)) p"
      using assms(2) rocks_families_unique [OF assms(1,2), of d]
      by (cases "map_of (rs_families st) d") (auto simp: p rocks_docs_def)
  qed
qed

lemma Rocks_Delete_documents:
  assumes "rocks_laws api view live" and "rocks_reliable api" and "rocks_good pb view live x"
    and "Rocks_Delete api c k x = (status, x')"
  shows "rocks_good pb view live x' \<and> status = Ok \<and>
    rocks_documents pb view x' = (rocks_documents pb view x)((c, k) := None)"
proof -
  obtain h st where x: "x = (h, st)" by (cases x)
  with assms(3) have op: "rs_open st" by (simp add: rocks_good_open)
  obtain fam h1 st1 where fam: "GetOrCreateColumnFamily api c x = (fam, h1, st1)"
    by (cases "GetOrCreateColumnFamily api c x") auto
  note good = GetOrCreateColumnFamily_good [OF assms(1,3) fam]
  from good(5) assms(2) obtain cf where Some: "fam = Some cf" by auto
  with good(4) have cf: "map_of (rs_families st1) c = Some cf" by simp
  obtain e h2 where del: "rk_delete api cf k h1 = (e, h2)" by (cases "rk_delete api cf k h1")
  from rocks_reliableD(4) [OF assms(2), of cf k h1] del have e: "e = None" by simp
  from good(1) have wf: "rocks_wf pb (view h1) (live h1) st1" by (simp add: rocks_good_def)
  note law = rocks_laws_delete [OF assms(1) del]
  have "status = Ok" "x' = (h2, st1)"
    using assms(4) fam Some del e op x by (simp_all add: Rocks_Delete_def)
  with rocks_erase_view [OF wf cf, of k] law e good(2) show ?thesis
    by (simp add: rocks_good_def rocks_documents_def)
qed

subsection \<open>The two stores\<close>

text \<open>The calls of \<open>Wal_Properties\<close> on this store, and the statuses that a sequence of calls gives.\<close>

fun rocks_step ::
  "('h, 'c) rocks_api \<Rightarrow> pb_api \<Rightarrow> wal_call \<Rightarrow> 'h \<times> 'c rocks_store \<Rightarrow> Status outcome \<times> 'h \<times> 'c rocks_store" where
  "rocks_step api pb (PutCall r) x = Rocks_Put api pb r x"
| "rocks_step api pb (BatchCall rs) x = Rocks_BatchPut api pb rs x"
| "rocks_step api pb (DeleteCall c k) x = (case Rocks_Delete api c k x of (status, x') \<Rightarrow> (Ret status, x'))"
| "rocks_step api pb FlushCall x = (case Rocks_FlushSnapshot api x of (status, x') \<Rightarrow> (Ret status, x'))"

fun call_trace :: "('call \<Rightarrow> 's \<Rightarrow> 'r \<times> 's) \<Rightarrow> 'call list \<Rightarrow> 's \<Rightarrow> 'r list \<times> 's" where
  "call_trace step [] x = ([], x)"
| "call_trace step (call # calls) x =
     (let (r, x') = step call x; (rs, x'') = call_trace step calls x' in (r # rs, x''))"

text \<open>
  The stores hold the same documents, up to collections whose name contains the separator, for
  which the composite keys of the write-ahead store are ambiguous.
\<close>

definition same_documents :: "(string \<times> string \<rightharpoonup> DocumentRecord) \<Rightarrow> (string \<rightharpoonup> DocumentRecord) \<Rightarrow> bool" where
  "same_documents docs m \<longleftrightarrow>
     (\<forall>c k. key_separator \<notin> set c \<longrightarrow> docs (c, k) = m (BuildCompositeKey c k))"

lemma same_documents_upd:
  "same_documents docs m \<Longrightarrow> key_separator \<notin> set c \<Longrightarrow>
     same_documents (docs((c, k) := v)) (m(BuildCompositeKey c k := v))"
  by (auto simp: same_documents_def BuildCompositeKey_inject)

fun single_call :: "pb_api \<Rightarrow> wal_call \<Rightarrow> bool" where
  "single_call pb (PutCall r) =
     (storable pb r \<and> rocks_storable pb r \<and> key_separator \<notin> set (doc_collection r))"
| "single_call pb (BatchCall rs) = False"
| "single_call pb (DeleteCall c k) = (loggable pb (delete_entry c k) \<and> key_separator \<notin> set c)"
| "single_call pb FlushCall = True"

lemma single_call_ok: "single_call pb call \<Longrightarrow> call_ok pb call"
  by (cases call) auto

lemma durable_Put_verdict:
  assumes "durable pb s st" and "storable pb r" and "Wal_Put pb r (s, st) = (status, s', st')"
  shows "(case verdict (map_of (records st) (document_key r)) r of
       Inl e \<Rightarrow> status = e \<and> map_of (records st') = map_of (records st)
     | Inr _ \<Rightarrow> status = Ok \<and> map_of (records st') = (map_of (records st))(document_key r \<mapsto>
         settle (map_of (records st) (document_key r)) r))"
  using assms(3)
proof (cases rule: Wal_Put_cases)
  case (duplicate e)
  then show ?thesis
    by (simp add: verdict_def settle_def ValidateMutation_ok fun_upd_idem)
next
  case (stale e)
  then show ?thesis by (simp add: verdict_def accepts_def)
next
  case stored
  have "(put_entry r)\<lparr>wal_operation := kPut\<rparr> = put_entry r" by (simp add: put_entry_def)
  moreover have "\<exists>s'. append_entries pb (wal_path st) [put_entry r] (records st') s = (Ok, s')"
    using durable_append [OF assms(1), of "[put_entry r]" "records st'"] loggable_put_entry [OF assms(2)]
    by auto
  ultimately have "status = Ok" using stored(3,4) by (auto simp: AppendWalLocked_def)
  moreover from verdict_cases [of "map_of (records st) (document_key r)" r] stored(1)
  obtain w where "verdict (map_of (records st) (document_key r)) r = Inr w" by auto
  ultimately show ?thesis using stored by simp
qed

lemma both_step:
  assumes "rocks_laws api view live" and "rocks_reliable api" and "pb_laws pb"
    and "rocks_good pb view live x" and "durable pb s st"
    and "same_documents (rocks_documents pb view x) (map_of (records st))"
    and "single_call pb call"
    and "rocks_step api pb call x = (res, x')" and "wal_step pb call (s, st) = (status, s', st')"
  shows "rocks_good pb view live x' \<and> res = Ret status \<and>
    same_documents (rocks_documents pb view x') (map_of (records st'))"
proof (cases call)
  case (PutCall r)
  with assms(7) have r: "storable pb r" "rocks_storable pb r" "key_separator \<notin> set (doc_collection r)" by simp_all
  let ?old = "map_of (records st) (document_key r)"
  have old: "rocks_documents pb view x (record_pair r) = ?old"
    using assms(6) r(3) by (simp add: same_documents_def record_pair_def document_key_def)
  from assms(8) PutCall have "Rocks_Put api pb r x = (res, x')" by simp
  note rocks = Rocks_Put_documents [OF assms(1,3,4) r(2) this, unfolded old]
  from assms(9) PutCall have "Wal_Put pb r (s, st) = (status, s', st')" by simp
  note wal = durable_Put_verdict [OF assms(5) r(1) this]
  note upd = same_documents_upd [OF assms(6) r(3), of "doc_key r", folded record_pair_def document_key_def]
  have same: "(rocks_documents pb view x)(record_pair r := ?old) = rocks_documents pb view x"
    by (rule fun_upd_idem) (rule old)
  from verdict_cases [of ?old r] show ?thesis
  proof (elim disjE conjE exE)
    assume "verdict ?old r = Inr True" "settle ?old r = r"
    with rocks wal upd [of "Some r"] assms(2) show ?thesis by auto
  next
    assume "verdict ?old r = Inr False" "?old = Some (settle ?old r)"
    with rocks wal same assms(2,6) show ?thesis by auto
  next
    fix e
    assume "verdict ?old r = Inl e" "\<not> ok e"
    with rocks wal assms(2,6) show ?thesis by auto
  qed
next
  case (DeleteCall c k)
  with assms(7) have c: "loggable pb (delete_entry c k)" "key_separator \<notin> set c" by simp_all
  from assms(8) DeleteCall obtain status' where "Rocks_Delete api c k x = (status', x')" "res = Ret status'"
    by (auto split: prod.splits)
  note rocks = Rocks_Delete_documents [OF assms(1,2,4) this(1)] this(2)
  from durable_append [OF assms(5), of "[delete_entry c k]" "omap_erase (BuildCompositeKey c k) (records st)"]
    c(1) assms(9) DeleteCall
  have "status = Ok \<and> map_of (records st') = (map_of (records st))(BuildCompositeKey c k := None)"
    by (auto simp: Wal_Delete_def AppendDeleteLocked_def Let_def split: prod.splits)
  with rocks same_documents_upd [OF assms(6) c(2), of k None] show ?thesis by simp
next
  case FlushCall
  obtain h1 st1 where x: "x = (h1, st1)" by (cases x)
  from assms(5) have "usable s (snapshot_path st)" by (simp add: durable_def)
  then have "status = Ok" "st' = st"
    using assms(9) FlushCall usable_EnsureParentDirectory [of s "snapshot_path st"]
    by (auto simp: Wal_FlushSnapshot_def usable_def Let_def)
  with assms(4,6,8) FlushCall x rocks_laws_flush [OF assms(1)] show ?thesis
    by (auto simp: Rocks_FlushSnapshot_def rocks_good_def rocks_documents_def)
qed (use assms(7) in simp)


subsection \<open>Range scans\<close>

lemma omap_takeWhile_down:
  assumes "omap_wf m" and "\<And>a b. a < b \<Longrightarrow> P b \<Longrightarrow> P a"
  shows "takeWhile (\<lambda>p. P (fst p)) m = filter (\<lambda>p. P (fst p)) m"
  using assms(1)
proof (induction m)
  case (Cons p m)
  then have gt: "\<forall>q \<in> set m. fst p < fst q" and wf: "omap_wf m"
    by (auto simp: omap_wf_def)
  show ?case
  proof (cases "P (fst p)")
    case False
    with gt assms(2) have "\<forall>q \<in> set m. \<not> P (fst q)" by blast
    with False show ?thesis by (simp add: filter_empty_conv)
  qed (use Cons.IH wf in simp)
qed simp

lemma rocks_range_loop_take:
  assumes "\<forall>(k, v) \<in> set es. DecodeStoredRecord pb v = Ret (Inr (f (k, v)))"
  shows "rocks_range_loop pb e limit es results = Ret (Inr (results @
    take (max 1 (limit - length results)) (map f (takeWhile (\<lambda>p. e = [] \<or> fst p < e) es))))"
  using assms
proof (induction es arbitrary: results)
  case (Cons p es)
  obtain k v where p: "p = (k, v)" by (cases p)
  with Cons.prems have d: "DecodeStoredRecord pb v = Ret (Inr (f (k, v)))" by simp
  note ih = Cons.IH [of "results @ [f (k, v)]"]
  show ?case
  proof (cases "e \<noteq> [] \<and> e \<le> k")
    case False
    then have "e = [] \<or> k < e" by auto
    show ?thesis
    proof (cases "limit \<le> Suc (length results)")
      case True
      then have "max 1 (limit - length results) = 1" by simp
      with True d \<open>e = [] \<or> k < e\<close> show ?thesis by (auto simp: p not_le)
    next
      case False
      then have "max 1 (limit - length results) = Suc (max 1 (limit - Suc (length results)))" by simp
      with False d ih Cons.prems \<open>e = [] \<or> k < e\<close> show ?thesis by (auto simp: p not_le)
    qed
  qed (auto simp: p not_less)
qed simp

text \<open>
  A range scan of the RocksDB store returns the documents of the collection whose keys are at
  least the first bound and, unless the second is empty, below the second, in key order and
  each once; a limit cuts the list short, where zero counts as one. No document of the
  collection is hidden when the second bound is empty, and the scan never fails on a
  well-formed store.
\<close>

lemma rocks_range_is_half_open:
  assumes "rocks_laws api view live" and "rocks_good pb view live x"
  shows "\<exists>rs. Rocks_Range api pb c b e limit x = Ret (Inr (take (max 1 limit) rs)) \<and>
    sorted_wrt (<) (map doc_key rs) \<and>
    set rs = {r. rocks_documents pb view x (c, doc_key r) = Some r \<and> b \<le> doc_key r \<and>
                 (e = [] \<or> doc_key r < e)}"
proof -
  obtain h st where x: "x = (h, st)" by (cases x)
  from assms(2) x have wf: "rocks_wf pb (view h) (live h) st" and op: "rs_open st"
    by (simp_all add: rocks_good_def rocks_wf_def)
  show ?thesis
  proof (cases "map_of (rs_families st) c")
    case None
    with x op show ?thesis
      by (intro exI [of _ "[]"])
        (simp add: Rocks_Range_def GetColumnFamily_def rocks_documents_def rocks_docs_def)
  next
    case (Some cf)
    define es where "es = rk_seek api h cf (if b = [] then None else Some b)"
    define f where "f = (\<lambda>(k :: string, v). the (stored_record pb v))"
    have es: "omap_wf es" "map_of es = (\<lambda>k. if b \<le> k then view h cf k else None)"
      using rocks_laws_seek [OF assms(1), of h cf "if b = [] then None else Some b"]
      by (auto simp: es_def split: if_splits)
    have mem: "(k, v) \<in> set es \<longleftrightarrow> b \<le> k \<and> view h cf k = Some v" for k v
      using omap_in_set [OF es(1)] es(2) by simp
    have dec: "DecodeStoredRecord pb v = Ret (Inr (f (k, v))) \<and>
        rocks_documents pb view x (c, k) = Some (f (k, v)) \<and> doc_key (f (k, v)) = k"
      if "view h cf k = Some v" for k v
      by (rule rocks_wf_decodes [OF wf Some that])
        (simp add: f_def stored_record_def rocks_documents_def x record_pair_def)
    define rs where "rs = map f (filter (\<lambda>p. e = [] \<or> fst p < e) es)"
    have keys: "map doc_key rs = map fst (filter (\<lambda>p. e = [] \<or> fst p < e) es)"
      unfolding rs_def map_map using mem dec by (auto intro!: map_cong)
    have "takeWhile (\<lambda>p. e = [] \<or> fst p < e) es = filter (\<lambda>p. e = [] \<or> fst p < e) es"
      by (rule omap_takeWhile_down [OF es(1)]) (auto dest: order.strict_trans)
    moreover have "\<forall>(k, v) \<in> set es. DecodeStoredRecord pb v = Ret (Inr (f (k, v)))"
      using mem dec by auto
    ultimately have "Rocks_Range api pb c b e limit x = Ret (Inr (take (max 1 limit) rs))"
      using rocks_range_loop_take [of es pb f e limit "[]"] Some op
      by (simp add: x Rocks_Range_def GetColumnFamily_def es_def rs_def)
    moreover have "sorted_wrt (<) (map doc_key rs)"
      unfolding keys by (rule sorted_wrt_filter_fst) (use es(1) in \<open>simp add: omap_wf_def\<close>)
    moreover have "set rs = {r. rocks_documents pb view x (c, doc_key r) = Some r \<and> b \<le> doc_key r \<and>
        (e = [] \<or> doc_key r < e)}" (is "_ = ?R")
    proof (intro set_eqI iffI)
      fix r
      assume "r \<in> set rs"
      then obtain k v where "(k, v) \<in> set es" "e = [] \<or> k < e" "r = f (k, v)" by (auto simp: rs_def)
      with mem dec show "r \<in> ?R" by auto
    next
      fix r
      assume r: "r \<in> ?R"
      then obtain v where v: "view h cf (doc_key r) = Some v"
        using Some by (auto simp: rocks_documents_def rocks_docs_def x bind_eq_Some_conv)
      with r dec have "r = f (doc_key r, v)" by auto
      moreover from v r mem have "(doc_key r, v) \<in> set es" by auto
      ultimately show "r \<in> set rs" using r unfolding rs_def set_map
        by (intro image_eqI [of _ _ "(doc_key r, v)"]) auto
    qed
    ultimately show ?thesis by blast
  qed
qed

subsection \<open>A database in memory\<close>

text \<open>The next handle, and an association list for each handle.\<close>

type_synonym memory_db = "nat \<times> (nat \<Rightarrow> (string \<times> string) list)"

definition sorted_entries :: "(string \<times> string) list \<Rightarrow> (string \<times> string) list" where
  "sorted_entries es = foldr (\<lambda>(k, v). omap_put k v) es []"

definition memory_rocks :: "(memory_db, nat) rocks_api" where
  "memory_rocks = \<lparr>rk_list = (\<lambda>opts path h. None),
     rk_open = (\<lambda>opts path descriptors h. (Inr [0..<length descriptors], (length descriptors, \<lambda>_. []))),
     rk_create = (\<lambda>opts name (n, fam). (Some n, (Suc n, fam(n := [])))),
     rk_get = (\<lambda>(n, fam) cf k. case map_of (fam cf) k of Some v \<Rightarrow> rocks_found v | None \<Rightarrow> rocks_not_found),
     rk_multi_get = (\<lambda>(n, fam) cfs ks. map (\<lambda>(cf, k). case map_of (fam cf) k of
        Some v \<Rightarrow> rocks_found v | None \<Rightarrow> rocks_not_found) (zip cfs ks)),
     rk_put = (\<lambda>cf k v (n, fam). (None, (n, fam(cf := (k, v) # fam cf)))),
     rk_write = (\<lambda>batch (n, fam). (None, (n, fold (\<lambda>(cf, k, v) fam. fam(cf := (k, v) # fam cf)) batch fam))),
     rk_delete = (\<lambda>cf k (n, fam). (None, (n, fam(cf := omap_erase k (fam cf))))),
     rk_seek = (\<lambda>(n, fam) cf b. filter (\<lambda>p. case b of None \<Rightarrow> True | Some b \<Rightarrow> b \<le> fst p) (sorted_entries (fam cf))),
     rk_flush = (\<lambda>h. h)\<rparr>"

definition memory_view :: "memory_db \<Rightarrow> nat \<Rightarrow> string \<rightharpoonup> string" where
  "memory_view = (\<lambda>(n, fam) cf. map_of (fam cf))"

definition memory_live :: "memory_db \<Rightarrow> nat set" where
  "memory_live = (\<lambda>(n, fam). {..<n})"

lemma sorted_entries_wf: "omap_wf (sorted_entries es)"
  by (induction es) (auto simp: sorted_entries_def)

lemma sorted_entries_map: "map_of (sorted_entries es) = map_of es"
  by (induction es) (auto simp: sorted_entries_def)

lemma memory_write_view:
  "(\<lambda>cf. map_of (fold (\<lambda>(cf, k, v) fam. fam(cf := (k, v) # fam cf)) batch fam cf)) =
     fold put_view batch (\<lambda>cf. map_of (fam cf))"
proof (induction batch arbitrary: fam)
  case (Cons p batch)
  obtain cf k v where p: "p = (cf, k, v)" by (cases p) auto
  have "(\<lambda>d. map_of ((fam(cf := (k, v) # fam cf)) d)) = put_view (cf, k, v) (\<lambda>cf. map_of (fam cf))"
    by (auto simp: put_view_def)
  with Cons.IH [of "fam(cf := (k, v) # fam cf)"] show ?case by (simp add: p)
qed simp

lemma memory_rocks_laws: "rocks_laws memory_rocks memory_view memory_live"
  unfolding rocks_laws_def
proof (intro conjI)
  show "\<forall>h cf k. answers (memory_view h cf) k (rk_get memory_rocks h cf k)"
    by (auto simp: memory_rocks_def memory_view_def split: option.split)
  show "\<forall>h cfs ks. length cfs = length ks \<longrightarrow>
        list_all2 (\<lambda>(cf, k). answers (memory_view h cf) k) (zip cfs ks) (rk_multi_get memory_rocks h cfs ks)"
    by (auto simp: memory_rocks_def memory_view_def list_all2_map2 list_all2_same split: option.split)
  show "\<forall>h batch. memory_live (snd (rk_write memory_rocks batch h)) = memory_live h \<and>
        memory_view (snd (rk_write memory_rocks batch h)) =
          (if fst (rk_write memory_rocks batch h) = None then fold put_view batch (memory_view h) else memory_view h)"
    by (auto simp: memory_rocks_def memory_view_def memory_live_def memory_write_view)
  show "\<forall>h cf b. omap_wf (rk_seek memory_rocks h cf b) \<and>
        map_of (rk_seek memory_rocks h cf b) =
          (\<lambda>k. if (case b of None \<Rightarrow> True | Some b \<Rightarrow> b \<le> k) then memory_view h cf k else None)"
  proof (intro allI conjI)
    fix h :: memory_db and cf and b :: "string option"
    obtain n fam where h: "h = (n, fam)" by (cases h)
    have "rk_seek memory_rocks h cf b =
        filter (\<lambda>p. case b of None \<Rightarrow> True | Some b \<Rightarrow> b \<le> fst p) (sorted_entries (fam cf))"
      by (simp add: memory_rocks_def h)
    with map_of_filter_key [OF sorted_entries_wf, of "\<lambda>k. case b of None \<Rightarrow> True | Some b \<Rightarrow> b \<le> k" "fam cf"]
    show "omap_wf (rk_seek memory_rocks h cf b)"
      and "map_of (rk_seek memory_rocks h cf b) =
        (\<lambda>k. if (case b of None \<Rightarrow> True | Some b \<Rightarrow> b \<le> k) then memory_view h cf k else None)"
      by (simp_all add: sorted_entries_wf sorted_entries_map memory_view_def h fun_eq_iff)
  qed
qed (auto simp: memory_rocks_def memory_view_def memory_live_def put_view_def fun_eq_iff)

lemma memory_rocks_reliable: "rocks_reliable memory_rocks"
  by (auto simp: rocks_reliable_def memory_rocks_def split: option.split)

text \<open>A store that \<open>Recover\<close> has opened on an empty database.\<close>

definition memory_store :: "memory_db \<times> nat rocks_store" where
  "memory_store = snd (Rocks_Recover memory_rocks empty_fs ((0, \<lambda>_. []), new_rocks_store default_config))"

lemma memory_store_eq:
  "memory_store = ((1, \<lambda>_. []), (new_rocks_store default_config)\<lparr>rs_open := True, rs_families := [(''default'', 0)]\<rparr>)"
  using usable_EnsureParentDirectory [OF usable_empty_fs]
  by (simp add: memory_store_def Rocks_Recover_def memory_rocks_def new_rocks_store_def)

lemma memory_store_good: "rocks_good pb memory_view memory_live memory_store"
  by (auto simp: memory_store_eq rocks_good_def rocks_wf_def memory_view_def memory_live_def omap_wf_def)

lemma memory_store_empty: "rocks_documents pb memory_view memory_store = Map.empty"
  by (auto simp: memory_store_eq rocks_documents_def rocks_docs_def memory_view_def fun_eq_iff
      split: bind_splits)

definition sample_batch :: "DocumentRecord list" where
  "sample_batch = [sample_document ''c'' ''a'' 1 [], sample_document ''c'' ''b'' 1 []]"

lemma sample_batch_ok: "\<forall>r \<in> set sample_batch. storable plain_pb r \<and> rocks_storable plain_pb r"
  by (simp add: sample_batch_def rocks_storable_def sample_document_def storable_def document_ok_def
      wal_entry_ok_def empty_document_def ToProtoWal_def ToProto_def plain_pb_def doc_fields_def
      record_field_def flatten_pairs_def word_text_def put_entry_def default_WalEntry_def)

theorem rocks_batch_is_all_or_nothing_witness:
  "case Rocks_BatchPut memory_rocks plain_pb sample_batch memory_store of (res, x') \<Rightarrow>
     rocks_good plain_pb memory_view memory_live x' \<and>
     (res = Ret Ok \<longrightarrow> rocks_documents plain_pb memory_view x' = fold settle_put sample_batch Map.empty)"
proof -
  obtain res x' where b: "Rocks_BatchPut memory_rocks plain_pb sample_batch memory_store = (res, x')"
    by (cases "Rocks_BatchPut memory_rocks plain_pb sample_batch memory_store")
  have "\<forall>r \<in> set sample_batch. rocks_storable plain_pb r" using sample_batch_ok by blast
  from rocks_batch_is_all_or_nothing [OF memory_rocks_laws plain_pb_laws memory_store_good this b] b
  show ?thesis by (auto simp: memory_store_empty)
qed


lemma rocks_range_is_half_open_witness:
  "\<exists>rs. Rocks_Range memory_rocks plain_pb ''c'' ''a'' ''b'' 0 memory_store = Ret (Inr (take 1 rs)) \<and>
     set rs = {r. rocks_documents plain_pb memory_view memory_store (''c'', doc_key r) = Some r \<and>
       ''a'' \<le> doc_key r \<and> doc_key r < ''b''}"
  using rocks_range_is_half_open [OF memory_rocks_laws memory_store_good, of plain_pb "''c''" "''a''" "''b''" 0]
  by auto

subsection \<open>Where the stores differ\<close>

text \<open>
  The second bound of a range: two stores that were given the same two documents return
  different lists for the same range.
\<close>

lemma the_end_of_a_range_differs:
  "case (Rocks_BatchPut memory_rocks plain_pb sample_batch memory_store,
         Wal_BatchPut plain_pb sample_batch (empty_fs, new_wal_store ''w'' ''s'')) of
     ((_, x), (_, _, st)) \<Rightarrow>
       Rocks_Range memory_rocks plain_pb ''c'' ''a'' ''b'' 10 x = Ret (Inr [sample_document ''c'' ''a'' 1 []]) \<and>
       Wal_Range ''c'' ''a'' ''b'' 10 st = Inr sample_batch"
  by code_simp

text \<open>
  Deleting from a collection that does not exist creates it, against the comment in the code
  that there is nothing to delete.
\<close>

lemma delete_creates_the_collection:
  assumes "rs_open st" and "rk_create api (family_options st) c h = (Some cf, h1)"
    and "Rocks_Delete api c k (h, st) = (status, h', st')"
  shows "map_of (rs_families st') c \<noteq> None"
  using assms
  by (auto simp: Rocks_Delete_def GetOrCreateColumnFamily_def split: option.splits prod.splits)

lemma delete_creates_the_collection_run:
  "Rocks_Collections (snd memory_store) = Inr [''default''] \<and>
   Rocks_Collections (snd (snd (Rocks_Delete memory_rocks ''c'' ''a'' memory_store))) = Inr [''c'', ''default'']"
  by (simp add: memory_store_eq Rocks_Collections_def Rocks_Delete_def GetOrCreateColumnFamily_def
      memory_rocks_def)

subsection \<open>Lock stripes\<close>

text \<open>
  The locks of a batch are taken in strictly increasing order of their stripes, each once, and
  cover the key of every record: two batches can not wait for each other.
\<close>

lemma LockRecordStripes_ordered:
  "sorted_wrt (<) (LockRecordStripes hash rs) \<and>
   set (LockRecordStripes hash rs) = (\<lambda>r. KeyMutexFor hash (doc_collection r) (doc_key r)) ` set rs"
proof -
  have "omap_wf (fold (\<lambda>r. omap_put (f r) ()) rs m) \<and>
      fst ` set (fold (\<lambda>r. omap_put (f r) ()) rs m) = f ` set rs \<union> fst ` set m"
    if "omap_wf m" for f :: "DocumentRecord \<Rightarrow> nat" and m
    using that by (induction rs arbitrary: m) auto
  from this [of "[]" "\<lambda>r. KeyMutexFor hash (doc_collection r) (doc_key r)"]
  show ?thesis by (simp add: LockRecordStripes_def omap_wf_def)
qed

lemma KeyMutexFor_bound: "KeyMutexFor hash c k < 4096"
  by (simp add: KeyMutexFor_def kKeyLockStripes_def)

end
