(* ===== verification/Routing.thy ===== *)
theory Routing
  imports Legacy_Text "HOL-Library.While_Combinator"
begin

text \<open>
  \<open>src/infra/cluster_routing.h\<close>, \<open>cluster_routing.cpp\<close>: the parser of the static node
  list and the consistent-hash ring. \<open>std::hash<std::string>\<close> is the parameter \<open>hash\<close>. The
  search loop of \<open>Route\<close> ends only when it has met enough different nodes on the ring, so
  it is a \<open>while_option\<close>: a call that does not return is \<open>None\<close>. Each operation holds the
  lock of the router throughout.
\<close>

record ClusterNode =
  node_id :: string
  node_host :: string
  node_port :: "16 word"
  node_healthy :: bool
  node_weight :: "32 word"
  node_zone :: string

definition new_node :: "string \<Rightarrow> string \<Rightarrow> 16 word \<Rightarrow> ClusterNode" where
  "new_node i h p = \<lparr>node_id = i, node_host = h, node_port = p, node_healthy = True,
     node_weight = 100, node_zone = []\<rparr>"

definition empty_node :: ClusterNode where
  "empty_node = new_node [] [] 0"

record RouteDecision =
  route_primary :: ClusterNode
  route_replicas :: "ClusterNode list"
  route_local_owner :: bool
  route_has_primary :: bool
  route_slot_id :: "32 word"

definition empty_decision :: RouteDecision where
  "empty_decision = \<lparr>route_primary = empty_node, route_replicas = [], route_local_owner = False,
     route_has_primary = False, route_slot_id = 0\<rparr>"

subsection \<open>The static node list\<close>

definition parse_node :: "string \<Rightarrow> ClusterNode StatusOr outcome" where
  "parse_node token =
     (let invalid = Ret (Inl (InvalidArgument (''invalid cluster node entry: '' @ token))) in
      case (find_char CHR ''@'' token, rfind_char CHR '':'' token) of
        (Some at_pos, Some colon_pos) \<Rightarrow>
          if colon_pos \<le> at_pos + 1 then invalid
          else outcome_bind (cxx_stoul (drop (colon_pos + 1) token)) (\<lambda>port.
            let node = new_node (take at_pos token)
                  (take (colon_pos - at_pos - 1) (drop (at_pos + 1) token)) (word_of_nat port)
            in if node_id node = [] \<or> node_host node = [] \<or> node_port node = 0
               then invalid else Ret (Inr node))
      | _ \<Rightarrow> invalid)"

fun parse_nodes :: "string list \<Rightarrow> ClusterNode list \<Rightarrow> ClusterNode list StatusOr outcome" where
  "parse_nodes [] nodes = Ret (Inr nodes)"
| "parse_nodes (t # ts) nodes =
     (let token = Trim t in
      if token = [] then parse_nodes ts nodes
      else outcome_bind (parse_node token) (\<lambda>r.
        case r of Inl e \<Rightarrow> Ret (Inl e) | Inr node \<Rightarrow> parse_nodes ts (nodes @ [node])))"

definition ParseStaticClusterNodes :: "string \<Rightarrow> ClusterNode list StatusOr outcome" where
  "ParseStaticClusterNodes encoded =
     outcome_bind (parse_nodes (getlines CHR '','' encoded) []) (\<lambda>r.
       case r of
         Inl e \<Rightarrow> Ret (Inl e)
       | Inr nodes \<Rightarrow> if nodes = [] then Ret (Inl (InvalidArgument ''cluster.nodes cannot be empty''))
                      else Ret (Inr nodes))"

subsection \<open>The router\<close>

record router =
  local_node_id :: string
  virtual_nodes :: nat
  slot_count :: nat
  router_nodes :: "ClusterNode list"
  router_ring :: "(64 word, nat) omap"

definition new_router :: "string \<Rightarrow> nat \<Rightarrow> nat \<Rightarrow> router" where
  "new_router i v n = \<lparr>local_node_id = i, virtual_nodes = max 1 v, slot_count = max 1 n,
     router_nodes = [], router_ring = []\<rparr>"

definition ring_label :: "string \<Rightarrow> nat \<Rightarrow> string" where
  "ring_label i replica = i @ ''#'' @ to_string replica"

definition ring_add ::
  "(string \<Rightarrow> 64 word) \<Rightarrow> nat \<Rightarrow> nat \<times> ClusterNode \<Rightarrow> (64 word, nat) omap \<Rightarrow> (64 word, nat) omap" where
  "ring_add hash v = (\<lambda>(i, node) ring.
     fold (\<lambda>replica. omap_emplace (hash (ring_label (node_id node) replica)) i) [0..<v] ring)"

definition build_ring :: "(string \<Rightarrow> 64 word) \<Rightarrow> nat \<Rightarrow> ClusterNode list \<Rightarrow> (64 word, nat) omap" where
  "build_ring hash v nodes = fold (ring_add hash v) (enumerate 0 nodes) []"

definition Rebuild :: "(string \<Rightarrow> 64 word) \<Rightarrow> ClusterNode list \<Rightarrow> router \<Rightarrow> router" where
  "Rebuild hash nodes r =
     r\<lparr>router_nodes := nodes, router_ring := build_ring hash (virtual_nodes r) nodes\<rparr>"

definition SlotFor :: "(string \<Rightarrow> 64 word) \<Rightarrow> router \<Rightarrow> string \<Rightarrow> string \<Rightarrow> 32 word" where
  "SlotFor hash r c k = word_of_nat (unat (hash (c @ '':'' @ k)) mod slot_count r)"

text \<open>The position of \<open>lower_bound\<close> on the ring, moved to the beginning behind the end.\<close>

definition ring_start :: "(64 word, nat) omap \<Rightarrow> 64 word \<Rightarrow> nat" where
  "ring_start ring h =
     (let i = length ring - length (omap_lower_bound h ring) in if i = length ring then 0 else i)"

definition select_step :: "(64 word, nat) omap \<Rightarrow> nat list \<times> nat \<Rightarrow> nat list \<times> nat" where
  "select_step ring = (\<lambda>(selected, i).
     let node_index = snd (ring ! i);
         selected' = (if node_index \<in> set selected then selected else selected @ [node_index])
     in (selected', if Suc i = length ring then 0 else Suc i))"

definition select_loop :: "(64 word, nat) omap \<Rightarrow> nat \<Rightarrow> nat \<Rightarrow> (nat list \<times> nat) option" where
  "select_loop ring desired i =
     while_option (\<lambda>(selected, _). length selected < desired) (select_step ring) ([], i)"

definition desired_replicas :: "router \<Rightarrow> nat \<Rightarrow> nat" where
  "desired_replicas r replication_factor = min (max 1 replication_factor) (length (router_nodes r))"

definition slot_label :: "32 word \<Rightarrow> string" where
  "slot_label slot = ''slot:'' @ to_string (unat slot)"

definition Route ::
  "(string \<Rightarrow> 64 word) \<Rightarrow> router \<Rightarrow> string \<Rightarrow> string \<Rightarrow> nat \<Rightarrow> RouteDecision option" where
  "Route hash r c k replication_factor =
     (if router_ring r = [] \<or> router_nodes r = [] then Some empty_decision
      else
        let slot = SlotFor hash r c k;
            i = ring_start (router_ring r) (hash (slot_label slot))
        in case select_loop (router_ring r) (desired_replicas r replication_factor) i of
             None \<Rightarrow> None
           | Some (selected, _) \<Rightarrow>
               let primary = router_nodes r ! hd selected
               in Some \<lparr>route_primary = primary,
                        route_replicas = map (\<lambda>n. router_nodes r ! n) selected,
                        route_local_owner = (node_id primary = local_node_id r),
                        route_has_primary = True, route_slot_id = slot\<rparr>)"

definition NodeCount :: "router \<Rightarrow> nat" where
  "NodeCount r = length (router_nodes r)"

definition SlotCount :: "router \<Rightarrow> nat" where
  "SlotCount r = slot_count r"

subsection \<open>First occurrences\<close>

text \<open>The different elements of a list in the order of their first occurrence.\<close>

definition add_new :: "'a \<Rightarrow> 'a list \<Rightarrow> 'a list" where
  "add_new x acc = (if x \<in> set acc then acc else acc @ [x])"

definition firsts :: "'a list \<Rightarrow> 'a list" where
  "firsts xs = fold add_new xs []"

lemma firsts_snoc: "firsts (xs @ [x]) = add_new x (firsts xs)"
  by (simp add: firsts_def)

lemma set_firsts [simp]: "set (firsts xs) = set xs"
  by (induction xs rule: rev_induct) (auto simp: firsts_snoc add_new_def, simp_all add: firsts_def)

lemma distinct_firsts [simp]: "distinct (firsts xs)"
proof (induction xs rule: rev_induct)
  case (snoc x xs)
  then show ?case by (simp add: firsts_snoc add_new_def)
qed (simp add: firsts_def)

lemma length_firsts: "length (firsts xs) = card (set xs)"
  by (metis distinct_card distinct_firsts set_firsts)

lemma firsts_prefix: "\<exists>zs. firsts (xs @ ys) = firsts xs @ zs"
proof (induction ys rule: rev_induct)
  case (snoc y ys)
  then obtain zs where "firsts (xs @ ys) = firsts xs @ zs" by blast
  then show ?case
    using firsts_snoc [of "xs @ ys" y] by (auto simp: add_new_def)
qed simp

lemma firsts_take_Suc:
  "k < length xs \<Longrightarrow> firsts (take (Suc k) xs) = add_new (xs ! k) (firsts (take k xs))"
  by (simp add: take_Suc_conv_app_nth firsts_snoc)

lemma length_add_new: "length (add_new x acc) \<le> Suc (length acc)" "length acc \<le> length (add_new x acc)"
  by (simp_all add: add_new_def)

subsection \<open>The search loop\<close>

text \<open>The walk of the loop: the ring read once around from the start position.\<close>

definition walk :: "(64 word, nat) omap \<Rightarrow> nat \<Rightarrow> nat list" where
  "walk ring i = map (\<lambda>j. snd (ring ! ((i + j) mod length ring))) [0..<length ring]"

lemma set_walk: "ring \<noteq> [] \<Longrightarrow> set (walk ring i) = snd ` set ring"
proof
  assume ne: "ring \<noteq> []"
  show "set (walk ring i) \<subseteq> snd ` set ring"
    using ne by (auto simp: walk_def intro!: imageI nth_mem)
  show "snd ` set ring \<subseteq> set (walk ring i)"
  proof
    fix x
    assume "x \<in> snd ` set ring"
    then obtain p where p: "p < length ring" "x = snd (ring ! p)" by (auto simp: in_set_conv_nth)
    define j where "j = (p + (length ring - i mod length ring)) mod length ring"
    have "(i + j) mod length ring = (i mod length ring + (p + (length ring - i mod length ring))) mod length ring"
      unfolding j_def by (metis mod_add_eq mod_mod_trivial)
    also have "i mod length ring + (p + (length ring - i mod length ring)) = p + length ring"
    proof -
      have "i mod length ring < length ring" using ne by simp
      then show ?thesis by simp
    qed
    also have "(p + length ring) mod length ring = p" using p by simp
    finally have "x = snd (ring ! ((i + j) mod length ring))" using p by simp
    moreover have "j < length ring" using ne by (simp add: j_def)
    ultimately show "x \<in> set (walk ring i)" by (auto simp: walk_def)
  qed
qed

lemma select_step_funpow:
  assumes "ring \<noteq> []" and "i < length ring" and "k \<le> length ring"
  shows "(select_step ring ^^ k) ([], i) = (firsts (take k (walk ring i)), (i + k) mod length ring)"
  using assms(3)
proof (induction k)
  case 0
  then show ?case using assms by (simp add: firsts_def)
next
  case (Suc k)
  have "(if Suc ((i + k) mod length ring) = length ring then 0 else Suc ((i + k) mod length ring))
      = (i + Suc k) mod length ring"
    by (simp add: mod_Suc)
  moreover have "walk ring i ! k = snd (ring ! ((i + k) mod length ring))" and "k < length (walk ring i)"
    using Suc.prems by (simp_all add: walk_def)
  ultimately show ?case
    using Suc by (simp add: select_step_def Let_def firsts_take_Suc add_new_def)
qed

lemma select_loop_Some:
  assumes "ring \<noteq> []" and "i < length ring" and "desired \<le> card (snd ` set ring)"
  obtains j where "select_loop ring desired i = Some (take desired (firsts (walk ring i)), j)"
proof -
  let ?w = "walk ring i" and ?b = "\<lambda>(selected, _). length selected < desired"
  let ?done = "\<lambda>k. \<not> ?b ((select_step ring ^^ k) ([], i))"
  have n: "length ?w = length ring" by (simp add: walk_def)
  have len: "\<not> length (firsts (take (length ring) ?w)) < desired"
    using assms by (simp add: n length_firsts set_walk)
  have "?done (length ring)"
    using len select_step_funpow [OF assms(1,2), of "length ring"] by simp
  define k where "k = (LEAST k. ?done k)"
  have k: "?done k"
    using LeastI [of ?done, OF \<open>?done (length ring)\<close>] unfolding k_def .
  have kn: "k \<le> length ring"
    using Least_le [of ?done, OF \<open>?done (length ring)\<close>] unfolding k_def .
  have before: "\<not> ?done m" if "m < k" for m
  proof
    assume "?done m"
    then have "k \<le> m" unfolding k_def by (rule Least_le)
    with that show False by simp
  qed
  have res: "select_loop ring desired i = Some ((select_step ring ^^ k) ([], i))"
    unfolding select_loop_def while_option_def k_def
    using exI [of ?done, OF \<open>?done (length ring)\<close>] by simp
  have sel: "(select_step ring ^^ k) ([], i) = (firsts (take k ?w), (i + k) mod length ring)"
    using select_step_funpow [OF assms(1,2) kn] .
  have "length (firsts (take k ?w)) = desired"
  proof (cases k)
    case 0
    with k sel show ?thesis by (simp add: firsts_def)
  next
    case (Suc m)
    with before [of m] kn have "length (firsts (take m ?w)) < desired"
      using select_step_funpow [OF assms(1,2), of m] by simp
    moreover have "firsts (take k ?w) = add_new (?w ! m) (firsts (take m ?w))"
      using Suc kn n by (simp add: firsts_take_Suc)
    ultimately show ?thesis
      using k sel length_add_new(1) [of "?w ! m" "firsts (take m ?w)"] by simp
  qed
  moreover obtain zs where "firsts ?w = firsts (take k ?w) @ zs"
    using firsts_prefix [of "take k ?w" "drop k ?w"] by auto
  ultimately have "firsts (take k ?w) = take desired (firsts ?w)" by simp
  with res sel that show thesis by simp
qed

lemma select_loop_None:
  assumes "ring \<noteq> []" and "i < length ring" and "card (snd ` set ring) < desired"
  shows "select_loop ring desired i = None"
proof (rule ccontr)
  assume "select_loop ring desired i \<noteq> None"
  then obtain selected j where
    r: "while_option (\<lambda>(selected, _). length selected < desired) (select_step ring) ([], i) = Some (selected, j)"
    by (auto simp: select_loop_def)
  let ?P = "\<lambda>(selected, j). j < length ring \<and> distinct selected \<and> set selected \<subseteq> snd ` set ring"
  have "?P (selected, j)"
    by (rule while_option_rule [OF _ r, where P = ?P])
      (use assms(1,2) in \<open>auto simp: select_step_def Let_def split: if_splits\<close>)
  then have "length selected \<le> card (snd ` set ring)"
    by (metis (mono_tags, lifting) List.finite_set card_mono distinct_card finite_imageI split_conv)
  moreover have "\<not> length selected < desired"
    using while_option_stop [OF r] by simp
  ultimately show False using assms(3) by simp
qed

subsection \<open>The ring\<close>

lemma omap_wf_ring_add: "omap_wf ring \<Longrightarrow> omap_wf (ring_add hash v p ring)"
proof -
  have "omap_wf (fold (\<lambda>replica. omap_emplace (f replica) i) rs ring)" if "omap_wf ring" for f i rs
    using that by (induction rs arbitrary: ring) auto
  then show "omap_wf ring \<Longrightarrow> omap_wf (ring_add hash v p ring)"
    by (cases p) (simp add: ring_add_def)
qed

lemma fold_ring_add_wf: "omap_wf ring \<Longrightarrow> omap_wf (fold (ring_add hash v) ps ring)"
  by (induction ps arbitrary: ring) (simp_all add: omap_wf_ring_add)

lemma omap_wf_build_ring [simp]: "omap_wf (build_ring hash v nodes)"
  by (simp add: build_ring_def fold_ring_add_wf)

lemma map_of_ring_add:
  "map_of (ring_add hash v (i, node) ring) k =
     (case map_of ring k of
        Some x \<Rightarrow> Some x
      | None \<Rightarrow> if k \<in> (\<lambda>r. hash (ring_label (node_id node) r)) ` {..<v} then Some i else None)"
proof -
  have "map_of (fold (\<lambda>r. omap_emplace (f r) i) rs ring) k =
      (case map_of ring k of Some x \<Rightarrow> Some x | None \<Rightarrow> if k \<in> f ` set rs then Some i else None)" for f rs
  proof (induction rs arbitrary: ring)
    case Nil
    then show ?case by (simp split: option.splits)
  next
    case (Cons r rs)
    show ?case
      by (simp add: Cons.IH map_of_omap_emplace split: option.split)
  qed
  from this [of "\<lambda>r. hash (ring_label (node_id node) r)" "[0..<v]"] show ?thesis
    by (simp add: ring_add_def atLeast0LessThan)
qed

lemma build_ring_snoc:
  "build_ring hash v (nodes @ [n]) = ring_add hash v (length nodes, n) (build_ring hash v nodes)"
  by (simp add: build_ring_def enumerate_append_eq)

text \<open>A ring position belongs to the first node that has a label with that hash.\<close>

lemma build_ring_lookup:
  "map_of (build_ring hash v nodes) k = Some i \<Longrightarrow>
     i < length nodes \<and> (\<exists>r < v. k = hash (ring_label (node_id (nodes ! i)) r)) \<and>
     (\<forall>j < i. \<forall>r < v. k \<noteq> hash (ring_label (node_id (nodes ! j)) r))"
  and build_ring_keys:
  "map_of (build_ring hash v nodes) k = None \<Longrightarrow>
     \<forall>j < length nodes. \<forall>r < v. k \<noteq> hash (ring_label (node_id (nodes ! j)) r)"
proof (induction nodes arbitrary: k i rule: rev_induct)
  case Nil
  {
    case 1
    then show ?case by (simp add: build_ring_def)
  next
    case 2
    then show ?case by simp
  }
next
  case (snoc n nodes)
  {
    case 1
    show ?case
    proof (cases "map_of (build_ring hash v nodes) k")
      case None
      with 1 have "i = length nodes" "\<exists>r < v. k = hash (ring_label (node_id n) r)"
        by (auto simp: build_ring_snoc map_of_ring_add split: if_splits)
      with snoc(2) [OF None] show ?thesis by (auto simp: nth_append)
    next
      case (Some j)
      with 1 have "i = j" by (simp add: build_ring_snoc map_of_ring_add)
      with snoc(1) [OF Some] show ?thesis by (auto simp: nth_append)
    qed
  next
    case 2
    then have "map_of (build_ring hash v nodes) k = None"
      and n: "\<forall>r < v. k \<noteq> hash (ring_label (node_id n) r)"
      by (auto simp: build_ring_snoc map_of_ring_add split: option.splits if_splits)
    from snoc(2) [OF this(1)] n show ?case by (auto simp: nth_append less_Suc_eq)
  }
qed

lemma ring_values: "i \<in> snd ` set (build_ring hash v nodes) \<longleftrightarrow>
    (\<exists>k. map_of (build_ring hash v nodes) k = Some i)"
  using omap_in_set [OF omap_wf_build_ring, of _ i hash v nodes] by force

lemma ring_values_bound: "snd ` set (build_ring hash v nodes) \<subseteq> {..<length nodes}"
proof
  fix i
  assume "i \<in> snd ` set (build_ring hash v nodes)"
  then show "i \<in> {..<length nodes}"
    unfolding ring_values using build_ring_lookup(1) by blast
qed

lemma ring_label_inject [simp]: "ring_label i r = ring_label j q \<longleftrightarrow> i = j \<and> r = q"
proof
  assume "ring_label i r = ring_label j q"
  then have e: "rev (to_string r) @ CHR ''#'' # rev i = rev (to_string q) @ CHR ''#'' # rev j"
    unfolding ring_label_def by (metis append_Cons append_Nil append_assoc rev.simps(2) rev_append)
  have "CHR ''#'' \<notin> set (rev (to_string n))" for n
    using to_string_digits [of n] by (auto simp: isdigit_def byte_of_def)
  with split_unique [OF e] show "i = j \<and> r = q" by simp
qed simp

text \<open>Without collisions of labels every node is on the ring.\<close>

lemma all_nodes_on_ring:
  assumes "distinct (map node_id nodes)" and "0 < v"
    and "inj_on hash ((\<lambda>(n, r). ring_label (node_id n) r) ` (set nodes \<times> {..<v}))"
  shows "snd ` set (build_ring hash v nodes) = {..<length nodes}"
proof
  show "snd ` set (build_ring hash v nodes) \<subseteq> {..<length nodes}" by (rule ring_values_bound)
  show "{..<length nodes} \<subseteq> snd ` set (build_ring hash v nodes)"
  proof
    fix i
    assume "i \<in> {..<length nodes}"
    then have i: "i < length nodes" by simp
    let ?k = "hash (ring_label (node_id (nodes ! i)) 0)"
    obtain j where j: "map_of (build_ring hash v nodes) ?k = Some j"
      using build_ring_keys [of hash v nodes ?k] i assms(2)
      by (cases "map_of (build_ring hash v nodes) ?k") auto
    then obtain r where jn: "j < length nodes" and r: "r < v" and eq: "?k = hash (ring_label (node_id (nodes ! j)) r)"
      using build_ring_lookup(1) by blast
    have "ring_label (node_id (nodes ! i)) 0 = ring_label (node_id (nodes ! j)) r"
      using assms(3) eq by (rule inj_onD) (use i jn r assms(2) in auto)
    then have "map node_id nodes ! i = map node_id nodes ! j" using i jn by simp
    then have "i = j" using assms(1) i jn by (metis length_map nth_eq_iff_index_eq)
    with j show "i \<in> snd ` set (build_ring hash v nodes)"
      unfolding ring_values by blast
  qed
qed

text \<open>A node whose identifier an earlier node has is never on the ring.\<close>

lemma duplicate_not_on_ring:
  assumes "i < j" and "j < length nodes" and "node_id (nodes ! i) = node_id (nodes ! j)"
  shows "j \<notin> snd ` set (build_ring hash v nodes)"
  using build_ring_lookup(1) [of hash v nodes _ j] assms unfolding ring_values by fastforce

lemma build_ring_not_Nil:
  assumes "nodes \<noteq> []" and "0 < v"
  shows "build_ring hash v nodes \<noteq> []"
  using build_ring_keys [of hash v nodes "hash (ring_label (node_id (hd nodes)) 0)"] assms
  by (cases nodes) (fastforce)+

lemma length_lower_bound: "length (omap_lower_bound h ring) \<le> length ring"
  by (simp add: omap_lower_bound_def length_dropWhile_le)

lemma ring_start_bound: "ring \<noteq> [] \<Longrightarrow> ring_start ring h < length ring"
  using length_lower_bound [of h ring] by (auto simp: ring_start_def Let_def)

text \<open>The ring entry at which the search starts.\<close>

definition successor :: "(64 word, nat) omap \<Rightarrow> 64 word \<Rightarrow> 64 word \<times> nat" where
  "successor ring h = hd (omap_lower_bound h ring @ ring)"

lemma ring_start_successor: "ring \<noteq> [] \<Longrightarrow> ring ! ring_start ring h = successor ring h"
proof -
  assume ne: "ring \<noteq> []"
  obtain pre where pre: "ring = pre @ omap_lower_bound h ring"
    unfolding omap_lower_bound_def by (metis takeWhile_dropWhile_id)
  then have len: "length ring - length (omap_lower_bound h ring) = length pre"
    by (metis add_diff_cancel_right' length_append)
  show ?thesis
  proof (cases "omap_lower_bound h ring")
    case Nil
    with ne show ?thesis by (simp add: ring_start_def successor_def hd_conv_nth)
  next
    case (Cons a as)
    with pre len have "length pre \<noteq> length ring" by (metis append_Nil2 append_eq_conv_conj drop_all list.simps(3) order_refl)
    with len have "ring_start ring h = length pre" by (simp add: ring_start_def)
    with pre Cons show ?thesis by (metis hd_append2 hd_conv_nth list.simps(3) nth_append_length successor_def list.sel(1))
  qed
qed

lemma successor_spec:
  assumes "omap_wf ring" and "ring \<noteq> []" and "successor ring h = (k, x)"
  shows "map_of ring k = Some x"
    and "if \<exists>j \<in> fst ` set ring. h \<le> j then h \<le> k \<and> (\<forall>j \<in> fst ` set ring. h \<le> j \<longrightarrow> k \<le> j)
         else \<forall>j \<in> fst ` set ring. k \<le> j"
proof -
  have least: "\<forall>p \<in> set m. fst (hd m) \<le> fst p" if "omap_wf m" for m :: "(64 word, nat) omap"
    using that by (cases m) (fastforce simp: omap_wf_Cons dest: less_imp_le)+
  let ?f = "filter (\<lambda>p. h \<le> fst p) ring"
  have lb: "omap_lower_bound h ring = ?f" using assms(1) by (rule omap_lower_bound_filter)
  have mem: "(k, x) \<in> set ring" and cond: "if \<exists>j \<in> fst ` set ring. h \<le> j
      then h \<le> k \<and> (\<forall>j \<in> fst ` set ring. h \<le> j \<longrightarrow> k \<le> j) else \<forall>j \<in> fst ` set ring. k \<le> j"
  proof -
    show "(k, x) \<in> set ring"
      using assms(2,3) hd_in_set [of "?f @ ring"] by (auto simp: successor_def lb)
    show "if \<exists>j \<in> fst ` set ring. h \<le> j
      then h \<le> k \<and> (\<forall>j \<in> fst ` set ring. h \<le> j \<longrightarrow> k \<le> j) else \<forall>j \<in> fst ` set ring. k \<le> j"
    proof (cases "?f = []")
      case True
      with assms least [OF assms(1)] show ?thesis
        by (force simp: successor_def lb filter_empty_conv)
    next
      case False
      then have "hd ?f \<in> set ?f" by (rule hd_in_set)
      moreover have "hd ?f = (k, x)" using False assms(3) by (simp add: successor_def lb)
      moreover have "\<forall>p \<in> set ?f. fst (hd ?f) \<le> fst p"
        using assms(1) by (intro least) (rule omap_wf_filter)
      ultimately show ?thesis by auto
    qed
  qed
  from mem show "map_of ring k = Some x" using omap_in_set [OF assms(1)] by blast
  from cond show "if \<exists>j \<in> fst ` set ring. h \<le> j then h \<le> k \<and> (\<forall>j \<in> fst ` set ring. h \<le> j \<longrightarrow> k \<le> j)
         else \<forall>j \<in> fst ` set ring. k \<le> j" .
qed

text \<open>When a ring grows, a start entry that was there before was the start entry before.\<close>

lemma successor_grow:
  assumes "omap_wf ring" "ring \<noteq> []" "omap_wf ring'"
    and "map_of ring \<subseteq>\<^sub>m map_of ring'"
    and "successor ring' h = (k, x)" and "k \<in> fst ` set ring"
  shows "successor ring h = (k, x)"
proof -
  have sub: "fst ` set ring \<subseteq> fst ` set ring'"
    using assms(4) by (metis dom_map_of_conv_image_fst map_le_implies_dom_le)
  then have ne: "ring' \<noteq> []" using assms(2) by auto
  obtain l y where l: "successor ring h = (l, y)" by (cases "successor ring h")
  note s = successor_spec [OF assms(1,2) l] and s' = successor_spec [OF assms(3) ne assms(5)]
  from s(1) have lin: "l \<in> fst ` set ring" by (auto dest!: map_of_SomeD intro: rev_image_eqI)
  have "l = k"
  proof (cases "\<exists>j \<in> fst ` set ring'. h \<le> j")
    case True
    with s'(2) have "h \<le> k" and "\<forall>j \<in> fst ` set ring'. h \<le> j \<longrightarrow> k \<le> j" by simp_all
    moreover from this(1) assms(6) have "\<exists>j \<in> fst ` set ring. h \<le> j" by blast
    with s(2) have "h \<le> l" "\<forall>j \<in> fst ` set ring. h \<le> j \<longrightarrow> l \<le> j" by simp_all
    ultimately show ?thesis using sub lin assms(6) by (meson order.antisym subsetD)
  next
    case False
    with s'(2) have "\<forall>j \<in> fst ` set ring'. k \<le> j" by simp
    moreover from False sub have "\<not> (\<exists>j \<in> fst ` set ring. h \<le> j)" by blast
    with s(2) have "\<forall>j \<in> fst ` set ring. l \<le> j" by simp
    ultimately show ?thesis using sub lin assms(6) by (meson order.antisym subsetD)
  qed
  moreover from s(1) assms(4) have "map_of ring' l = Some y" by (auto simp: map_le_def dom_def)
  ultimately show ?thesis using l s'(1) by simp
qed

subsection \<open>Routes\<close>

text \<open>What \<open>Rebuild\<close> establishes and every operation relies on.\<close>

definition router_inv :: "(string \<Rightarrow> 64 word) \<Rightarrow> router \<Rightarrow> bool" where
  "router_inv hash r \<longleftrightarrow>
     0 < virtual_nodes r \<and> 0 < slot_count r \<and>
     router_ring r = build_ring hash (virtual_nodes r) (router_nodes r)"

lemma router_inv_new: "router_inv hash (new_router i v n)"
  by (simp add: router_inv_def new_router_def build_ring_def less_max_iff_disj)

lemma router_inv_Rebuild: "router_inv hash r \<Longrightarrow> router_inv hash (Rebuild hash nodes r)"
  by (simp add: router_inv_def Rebuild_def)

lemma walk_hd: "i < length ring \<Longrightarrow> hd (walk ring i) = snd (ring ! i)"
  by (cases ring) (simp_all add: walk_def upt_rec del: upt_Suc)

lemma firsts_hd: "xs \<noteq> [] \<Longrightarrow> firsts xs \<noteq> [] \<and> hd (firsts xs) = hd xs"
proof (induction xs rule: rev_induct)
  case (snoc x xs)
  then show ?case
    by (cases "xs = []") (auto simp: firsts_snoc add_new_def, auto simp: firsts_def add_new_def)
qed simp

lemma Route_Some:
  assumes "router_inv hash r" and "router_nodes r \<noteq> []"
    and "desired_replicas r n \<le> card (snd ` set (router_ring r))"
  shows "\<exists>d. Route hash r c k n = Some d \<and> route_has_primary d \<and>
    route_slot_id d = SlotFor hash r c k \<and>
    route_replicas d = map ((!) (router_nodes r)) (take (desired_replicas r n)
      (firsts (walk (router_ring r) (ring_start (router_ring r)
        (hash (slot_label (SlotFor hash r c k))))))) \<and>
    route_primary d = router_nodes r ! snd (successor (router_ring r)
        (hash (slot_label (SlotFor hash r c k))))"
proof -
  let ?h = "hash (slot_label (SlotFor hash r c k))"
  let ?i = "ring_start (router_ring r) ?h" and ?w = "walk (router_ring r) (ring_start (router_ring r) ?h)"
  have ne: "router_ring r \<noteq> []"
    using assms(1,2) build_ring_not_Nil by (auto simp: router_inv_def)
  have i: "?i < length (router_ring r)" using ring_start_bound [OF ne] .
  obtain j where j: "select_loop (router_ring r) (desired_replicas r n) ?i =
      Some (take (desired_replicas r n) (firsts ?w), j)"
    using select_loop_Some [OF ne i assms(3)] .
  have "0 < desired_replicas r n" using assms(2) by (simp add: desired_replicas_def)
  moreover have "?w \<noteq> []" using ne by (simp add: walk_def)
  ultimately have hd: "hd (take (desired_replicas r n) (firsts ?w)) = snd (successor (router_ring r) ?h)"
    using firsts_hd [of ?w] walk_hd [OF i] ring_start_successor [OF ne] by simp
  show ?thesis
    using assms(2) ne j hd by (simp add: Route_def Let_def)
qed

lemma Route_None:
  assumes "router_inv hash r" and "router_nodes r \<noteq> []"
    and "card (snd ` set (router_ring r)) < desired_replicas r n"
  shows "Route hash r c k n = None"
proof -
  have ne: "router_ring r \<noteq> []"
    using assms(1,2) build_ring_not_Nil by (auto simp: router_inv_def)
  show ?thesis
    using assms(2) ne select_loop_None [OF ne ring_start_bound [OF ne] assms(3)]
    by (simp add: Route_def Let_def)
qed

text \<open>The labels of a node set do not collide under the hash.\<close>

definition labels_collide_not :: "(string \<Rightarrow> 64 word) \<Rightarrow> nat \<Rightarrow> ClusterNode list \<Rightarrow> bool" where
  "labels_collide_not hash v nodes \<longleftrightarrow>
     inj_on hash ((\<lambda>(n, r). ring_label (node_id n) r) ` (set nodes \<times> {..<v}))"

lemma card_ring_distinct:
  assumes "router_inv hash r" and "distinct (map node_id (router_nodes r))"
    and "labels_collide_not hash (virtual_nodes r) (router_nodes r)"
  shows "card (snd ` set (router_ring r)) = length (router_nodes r)"
  using all_nodes_on_ring [of "router_nodes r" "virtual_nodes r" hash] assms
  by (simp add: router_inv_def labels_collide_not_def)

text \<open>A hash for the concrete runs: the bytes read as a number in base 251.\<close>

definition sample_hash :: "string \<Rightarrow> 64 word" where
  "sample_hash s = word_of_nat (foldl (\<lambda>a c. a * 251 + byte_of c) 0 s)"

definition sample_nodes :: "ClusterNode list" where
  "sample_nodes = [new_node ''a'' ''h1'' 1, new_node ''b'' ''h2'' 2]"

text \<open>
  C20: a route always comes back when node identifiers are unique and their labels do not
  collide: it has a primary and as many different replicas as asked for and available, the
  primary first, and the slot is below the configured slot count.
\<close>

theorem route_terminates_with_distinct_replicas:
  assumes "router_inv hash r" and "router_nodes r \<noteq> []"
    and "distinct (map node_id (router_nodes r))"
    and "labels_collide_not hash (virtual_nodes r) (router_nodes r)"
  shows "\<exists>d. Route hash r c k n = Some d \<and> route_has_primary d \<and>
    length (route_replicas d) = min (max 1 n) (length (router_nodes r)) \<and>
    distinct (map node_id (route_replicas d)) \<and> set (route_replicas d) \<subseteq> set (router_nodes r) \<and>
    hd (route_replicas d) = route_primary d \<and> unat (route_slot_id d) < slot_count r"
proof -
  let ?nodes = "router_nodes r"
  have card: "card (snd ` set (router_ring r)) = length ?nodes"
    by (rule card_ring_distinct [OF assms(1,3,4)])
  then have "desired_replicas r n \<le> card (snd ` set (router_ring r))"
    by (simp add: desired_replicas_def)
  from Route_Some [OF assms(1,2) this] obtain d where d: "Route hash r c k n = Some d"
    "route_has_primary d" "route_slot_id d = SlotFor hash r c k" and
    reps: "route_replicas d = map ((!) ?nodes) (take (desired_replicas r n)
      (firsts (walk (router_ring r) (ring_start (router_ring r)
        (hash (slot_label (SlotFor hash r c k)))))))" and
    prim: "route_primary d = ?nodes ! snd (successor (router_ring r)
        (hash (slot_label (SlotFor hash r c k))))"
    by blast
  define h where "h = hash (slot_label (SlotFor hash r c k))"
  define w where "w = walk (router_ring r) (ring_start (router_ring r) h)"
  have ne: "router_ring r \<noteq> []"
    using assms(1,2) build_ring_not_Nil by (auto simp: router_inv_def)
  have w: "set w = snd ` set (router_ring r)" "w \<noteq> []"
    using ne by (simp_all add: w_def set_walk) (simp add: walk_def)
  have bound: "set w \<subseteq> {..<length ?nodes}"
    using ring_values_bound assms(1) w by (metis router_inv_def)
  have r': "route_replicas d = map ((!) ?nodes) (take (desired_replicas r n) (firsts w))"
    using reps by (simp add: w_def h_def)
  have "length (firsts w) = length ?nodes" using card w by (simp add: length_firsts)
  then have len: "length (route_replicas d) = min (max 1 n) (length ?nodes)"
    using r' by (simp add: desired_replicas_def)
  have "distinct (map ((!) (map node_id ?nodes)) (take (desired_replicas r n) (firsts w)))"
  proof (subst distinct_map, intro conjI inj_onI)
    show "distinct (take (desired_replicas r n) (firsts w))" by simp
    fix x y
    assume "x \<in> set (take (desired_replicas r n) (firsts w))"
      "y \<in> set (take (desired_replicas r n) (firsts w))"
    then have "x < length ?nodes" "y < length ?nodes" using bound in_set_takeD by fastforce+
    moreover assume "map node_id ?nodes ! x = map node_id ?nodes ! y"
    ultimately show "x = y" using assms(3) by (metis length_map nth_eq_iff_index_eq)
  qed
  moreover have in_bound: "set (take (desired_replicas r n) (firsts w)) \<subseteq> {..<length ?nodes}"
    using bound set_take_subset [of "desired_replicas r n" "firsts w"] by auto
  then have "map node_id (route_replicas d) =
      map ((!) (map node_id ?nodes)) (take (desired_replicas r n) (firsts w))"
    unfolding r' map_map by (intro map_cong refl) auto
  ultimately have dis: "distinct (map node_id (route_replicas d))" by simp
  have sub: "set (route_replicas d) \<subseteq> set ?nodes" using r' in_bound by auto
  have "0 < desired_replicas r n" using assms(2) by (simp add: desired_replicas_def)
  then have "hd (route_replicas d) = ?nodes ! hd (firsts w)"
    using r' firsts_hd [OF w(2)] by (simp add: hd_map)
  then have hd: "hd (route_replicas d) = route_primary d"
    using prim firsts_hd [OF w(2)] walk_hd [OF ring_start_bound [OF ne]] ring_start_successor [OF ne]
    by (simp add: w_def h_def)
  have "unat (SlotFor hash r c k) \<le> unat (hash (c @ '':'' @ k)) mod slot_count r"
    unfolding SlotFor_def by (simp add: unat_of_nat take_bit_nat_less_eq_self)
  moreover have "\<dots> < slot_count r" using assms(1) by (simp add: router_inv_def)
  ultimately have "unat (route_slot_id d) < slot_count r" using d(3) by simp
  with d len dis sub hd show ?thesis by blast
qed

text \<open>
  Two nodes with the same identifier make a request that asks for all nodes spin for
  ever: the second one has no entry on the ring, so the loop never finds enough nodes.
\<close>

lemma route_with_a_duplicate_id_never_returns:
  assumes "router_inv hash r" and "i < j" and "j < length (router_nodes r)"
    and "node_id (router_nodes r ! i) = node_id (router_nodes r ! j)"
    and "length (router_nodes r) \<le> n"
  shows "Route hash r c k n = None"
proof -
  let ?len = "length (router_nodes r)"
  have "router_ring r = build_ring hash (virtual_nodes r) (router_nodes r)"
    using assms(1) by (simp add: router_inv_def)
  then have "snd ` set (router_ring r) \<subseteq> {..<?len} - {j}"
    using ring_values_bound [of hash "virtual_nodes r" "router_nodes r"]
      duplicate_not_on_ring [OF assms(2-4), of hash "virtual_nodes r"]
    by (simp add: subset_Diff_insert)
  then have "card (snd ` set (router_ring r)) \<le> card ({..<?len} - {j})"
    by (intro card_mono) simp_all
  then have "card (snd ` set (router_ring r)) < desired_replicas r n"
    using assms(2,3,5) by (simp add: desired_replicas_def)
  moreover have "router_nodes r \<noteq> []" using assms(3) by auto
  ultimately show ?thesis using Route_None [OF assms(1)] by blast
qed

text \<open>
  C21: consistent hashing moves no key between old nodes: after a node is added, the primary
  of every key is the one it had before or the new node.
\<close>

theorem adding_a_node_moves_keys_only_to_it:
  assumes "router_inv hash r" and "router_nodes r \<noteq> []"
  shows "\<exists>d d'. Route hash r c k 1 = Some d \<and>
    Route hash (Rebuild hash (router_nodes r @ [node]) r) c k 1 = Some d' \<and>
    (route_primary d' = route_primary d \<or> route_primary d' = node)"
proof -
  let ?nodes = "router_nodes r" and ?r' = "Rebuild hash (router_nodes r @ [node]) r"
  define h where "h = hash (slot_label (SlotFor hash r c k))"
  have slot: "SlotFor hash ?r' c k = SlotFor hash r c k" by (simp add: SlotFor_def Rebuild_def)
  have inv': "router_inv hash ?r'" by (rule router_inv_Rebuild [OF assms(1)])
  have ring: "router_ring r = build_ring hash (virtual_nodes r) ?nodes" "0 < virtual_nodes r"
    using assms(1) by (simp_all add: router_inv_def)
  have ring': "router_ring ?r' = ring_add hash (virtual_nodes r) (length ?nodes, node) (router_ring r)"
    by (simp add: Rebuild_def build_ring_snoc ring(1))
  have ne: "router_ring r \<noteq> []" "router_ring ?r' \<noteq> []" "router_nodes ?r' = ?nodes @ [node]"
    using build_ring_not_Nil assms(2) ring by (simp_all add: Rebuild_def)
  have one: "desired_replicas x 1 \<le> card (snd ` set (router_ring x))"
    if "router_ring x \<noteq> []" for x
    using that by (simp add: desired_replicas_def Suc_le_eq card_gt_0_iff min.coboundedI1)
  obtain d where rd: "Route hash r c k 1 = Some d"
    and d: "route_primary d = ?nodes ! snd (successor (router_ring r) h)"
    using Route_Some [OF assms(1,2) one [OF ne(1)], of c k] by (auto simp: h_def)
  obtain d' where rd': "Route hash ?r' c k 1 = Some d'"
    and d': "route_primary d' = (?nodes @ [node]) ! snd (successor (router_ring ?r') h)"
    using Route_Some [OF inv' _ one [OF ne(2)], of c k] ne(3) by (auto simp: h_def slot)
  obtain p x where px: "successor (router_ring ?r') h = (p, x)" by (cases "successor (router_ring ?r') h")
  have wf: "omap_wf (router_ring r)" "omap_wf (router_ring ?r')" by (simp_all add: ring Rebuild_def)
  have x: "map_of (router_ring ?r') p = Some x"
    using successor_spec(1) [OF wf(2) ne(2) px] .
  have "route_primary d' = route_primary d \<or> route_primary d' = node"
  proof (cases "p \<in> fst ` set (router_ring r)")
    case True
    have "map_of (router_ring r) \<subseteq>\<^sub>m map_of (router_ring ?r')"
      unfolding ring' by (auto simp: map_le_def map_of_ring_add)
    from successor_grow [OF wf(1) ne(1) wf(2) this px True]
    have s: "successor (router_ring r) h = (p, x)" .
    then have "map_of (router_ring r) p = Some x" using successor_spec(1) [OF wf(1) ne(1)] by blast
    then have "x < length ?nodes" using build_ring_lookup(1) ring(1) by metis
    then show ?thesis using d d' px s by (simp add: nth_append)
  next
    case False
    then have "map_of (router_ring r) p = None" by (simp add: map_of_eq_None_iff)
    with x have "x = length ?nodes"
      unfolding ring' by (auto simp: map_of_ring_add split: if_splits)
    then show ?thesis using d' px by simp
  qed
  with rd rd' show ?thesis by blast
qed

definition sample_router :: router where
  "sample_router = Rebuild sample_hash sample_nodes (new_router ''a'' 1 8)"

lemma sample_router_inv: "router_inv sample_hash sample_router"
  unfolding sample_router_def by (intro router_inv_Rebuild router_inv_new)

lemma sample_router_simps [simp]:
  "router_nodes sample_router = sample_nodes" "virtual_nodes sample_router = 1" "slot_count sample_router = 8"
  by (simp_all add: sample_router_def Rebuild_def new_router_def)

theorem route_terminates_with_distinct_replicas_witness:
  "\<exists>d. Route sample_hash sample_router ''c'' ''k'' 2 = Some d \<and> route_has_primary d \<and>
    length (route_replicas d) = 2 \<and> distinct (map node_id (route_replicas d))"
proof -
  have "sample_hash (ring_label ''a'' 0) \<noteq> sample_hash (ring_label ''b'' 0)"
    by (simp add: sample_hash_def ring_label_def to_string.simps byte_of_def char_of_def)
  then have "labels_collide_not sample_hash (virtual_nodes sample_router) (router_nodes sample_router)"
    by (simp add: labels_collide_not_def sample_nodes_def new_node_def lessThan_Suc)
  then show ?thesis
    using route_terminates_with_distinct_replicas [OF sample_router_inv, of "''c''" "''k''" 2]
    by (auto simp: sample_nodes_def new_node_def)
qed

lemma route_with_a_duplicate_id_never_returns_witness:
  "Route sample_hash (Rebuild sample_hash [new_node ''a'' ''h1'' 1, new_node ''a'' ''h2'' 2]
     (new_router ''a'' 64 4096)) ''c'' ''k'' 2 = None"
  by (rule route_with_a_duplicate_id_never_returns [of _ _ 0 1])
    (simp_all add: router_inv_Rebuild router_inv_new, simp_all add: Rebuild_def new_node_def)

theorem adding_a_node_moves_keys_only_to_it_witness:
  "\<exists>d d'. Route sample_hash sample_router ''c'' ''k'' 1 = Some d \<and>
    Route sample_hash (Rebuild sample_hash (router_nodes sample_router @ [new_node ''x'' ''h3'' 3])
      sample_router) ''c'' ''k'' 1 = Some d' \<and>
    (route_primary d' = route_primary d \<or> route_primary d' = new_node ''x'' ''h3'' 3)"
  by (rule adding_a_node_moves_keys_only_to_it [OF sample_router_inv]) (simp add: sample_nodes_def)

subsection \<open>Parsing the node list\<close>

definition node_text :: "string \<times> string \<times> nat \<Rightarrow> string" where
  "node_text = (\<lambda>(i, h, p). i @ CHR ''@'' # h @ CHR '':'' # to_string p)"

text \<open>Names that can be written in the list, and a port that does not wrap to zero.\<close>

definition node_text_ok :: "string \<times> string \<times> nat \<Rightarrow> bool" where
  "node_text_ok = (\<lambda>(i, h, p).
     i \<noteq> [] \<and> \<not> isspace (hd i) \<and> CHR ''@'' \<notin> set i \<and> CHR '','' \<notin> set i \<and>
     h \<noteq> [] \<and> CHR '','' \<notin> set h \<and> p < 2 ^ 64 \<and> p mod 2 ^ 16 \<noteq> 0)"

lemma to_string_free: "\<not> isdigit c \<Longrightarrow> c \<notin> set (to_string n)"
  using to_string_digits [of n] by blast

lemma parse_node_text:
  assumes "node_text_ok (i, h, p)"
  shows "parse_node (node_text (i, h, p)) = Ret (Inr (new_node i h (word_of_nat p)))"
proof -
  let ?t = "i @ CHR ''@'' # h @ CHR '':'' # to_string p"
  have at: "find_char CHR ''@'' ?t = Some (length i)"
    using assms by (simp add: node_text_ok_def find_char_append find_char_None [THEN iffD2])
  have "CHR '':'' \<notin> set (to_string p)"
    by (rule to_string_free) (simp add: isdigit_def byte_of_def)
  then have col: "rfind_char CHR '':'' ?t = Some (length i + 1 + length h)"
    using rfind_char_snoc [of "CHR '':''" "to_string p" "i @ CHR ''@'' # h"] by simp
  have "(word_of_nat p :: 16 word) \<noteq> 0"
    using assms by (simp add: node_text_ok_def word_of_nat_eq_0_iff dvd_eq_mod_eq_0)
  then show ?thesis
    using assms unfolding node_text_def prod.case parse_node_def at col Let_def
    by (simp add: node_text_ok_def new_node_def)
qed

lemma getlines_join:
  "\<forall>s \<in> set ss. d \<notin> set s \<and> s \<noteq> [] \<Longrightarrow> getlines d (join_with d ss) = ss"
  by (induction d ss rule: join_with.induct) (simp_all add: getlines_no_delim getlines_append)

lemma node_text_shape:
  assumes "node_text_ok e"
  shows "CHR '','' \<notin> set (node_text e)" and "Trim (node_text e) = node_text e" and "node_text e \<noteq> []"
proof -
  obtain i h p where e: "e = (i, h, p)" by (cases e)
  have "CHR '','' \<notin> set (to_string p)"
    by (rule to_string_free) (simp add: isdigit_def byte_of_def)
  with assms show "CHR '','' \<notin> set (node_text e)"
    by (simp add: e node_text_def node_text_ok_def)
  show "node_text e \<noteq> []" by (simp add: e node_text_def)
  have "isdigit (last (to_string p))" using to_string_digits [of p] by simp
  then have "\<not> isspace (last (node_text e))"
    using to_string_digits [of p] by (simp add: e node_text_def isdigit_not_space)
  moreover have "\<not> isspace (hd (node_text e))"
    using assms by (simp add: e node_text_def node_text_ok_def)
  ultimately show "Trim (node_text e) = node_text e" by (intro Trim_id) blast
qed

lemma parse_nodes_texts:
  "\<forall>e \<in> set es. node_text_ok e \<Longrightarrow>
   parse_nodes (map node_text es) nodes =
     Ret (Inr (nodes @ map (\<lambda>(i, h, p). new_node i h (word_of_nat p)) es))"
proof (induction es arbitrary: nodes)
  case (Cons e es)
  obtain i h p where e: "e = (i, h, p)" by (cases e)
  have "node_text_ok e" using Cons.prems by simp
  with Cons show ?case
    using parse_node_text [of i h p] node_text_shape [of e]
    by (simp add: e Let_def)
qed simp

text \<open>
  A list of nodes written as \<open>id@host:port\<close> entries separated by commas is read back in
  order; the port is kept modulo 65536, so an out-of-range port is accepted as another one.
\<close>

lemma node_list_is_read_back:
  assumes "es \<noteq> []" and "\<forall>e \<in> set es. node_text_ok e"
  shows "ParseStaticClusterNodes (join_with CHR '','' (map node_text es)) =
    Ret (Inr (map (\<lambda>(i, h, p). new_node i h (word_of_nat p)) es))"
proof -
  have "getlines CHR '','' (join_with CHR '','' (map node_text es)) = map node_text es"
    using assms(2) node_text_shape by (intro getlines_join) auto
  with assms show ?thesis
    using parse_nodes_texts [OF assms(2), of "[]"] by (simp add: ParseStaticClusterNodes_def)
qed

lemma node_list_is_read_back_witness:
  "ParseStaticClusterNodes (join_with CHR '','' (map node_text [(''a'', ''h1'', 8080), (''b'', ''h2'', 73616)])) =
    Ret (Inr [new_node ''a'' ''h1'' 8080, new_node ''b'' ''h2'' 8080])"
  by (subst node_list_is_read_back) (simp_all add: node_text_ok_def isspace_def byte_of_def new_node_def)

end
