(* ===== verification/Gateway_Guards.thy ===== *)
theory Gateway_Guards
  imports Documents
begin

text \<open>
  The checks a request passes before it is served: the API-key authenticator
  (\<open>src/gateway/auth.cpp\<close>) and the rate limiter (\<open>src/gateway/interceptors.cpp\<close>).
  Headers are an ordered map with lower-case names; times are nanoseconds of the steady
  clock, read by the caller and passed in.
\<close>

unbundle bit_operations_syntax

subsection \<open>API keys\<close>

definition bearer_prefix :: string where
  "bearer_prefix = ''Bearer ''"

definition ExtractPresentedKey :: "(string, string) omap \<Rightarrow> string" where
  "ExtractPresentedKey headers =
     (let fallback = (case map_of headers ''x-api-key'' of Some v \<Rightarrow> Trim v | None \<Rightarrow> [])
      in case map_of headers ''authorization'' of
           Some v \<Rightarrow> if starts_with bearer_prefix v then Trim (drop (length bearer_prefix) v) else fallback
         | None \<Rightarrow> fallback)"

definition byte_at :: "string \<Rightarrow> nat \<Rightarrow> 8 word" where
  "byte_at s i = (if i < length s then word_of_nat (byte_of (s ! i)) else 0)"

text \<open>The difference of the lengths is cut to one byte, as the cast in the code does.\<close>

definition ConstantTimeEquals :: "string \<Rightarrow> string \<Rightarrow> bool" where
  "ConstantTimeEquals lhs rhs \<longleftrightarrow>
     fold (\<lambda>i diff. diff OR (byte_at lhs i XOR byte_at rhs i)) [0..<max (length lhs) (length rhs)]
       (ucast ((word_of_nat (length lhs) :: 64 word) XOR word_of_nat (length rhs)) :: 8 word) = 0"

record authenticator =
  api_key :: string
  auth_required :: bool

definition Authenticate :: "authenticator \<Rightarrow> (string, string) omap \<Rightarrow> Status" where
  "Authenticate a headers =
     (if \<not> auth_required a then Ok
      else if api_key a = []
      then Unavailable ''api key authentication is enabled but no key is configured''
      else
        let presented_key = ExtractPresentedKey headers in
        if presented_key = [] then Unavailable ''missing api key''
        else if \<not> ConstantTimeEquals presented_key (api_key a) then Unavailable ''invalid api key''
        else Ok)"

definition auth_enabled :: "authenticator \<Rightarrow> bool" where
  "auth_enabled a = auth_required a"

lemma fold_or_zero:
  "fold (\<lambda>i diff. diff OR f i) is d = (0 :: 8 word) \<longleftrightarrow> d = 0 \<and> (\<forall>i \<in> set is. f i = 0)"
  by (induction "is" arbitrary: d) (auto simp: or_eq_0_iff)

lemma length_cast_zero:
  "(ucast ((word_of_nat m :: 64 word) XOR word_of_nat n) :: 8 word) = 0 \<longleftrightarrow> m mod 256 = n mod 256"
proof -
  have "(ucast ((word_of_nat m :: 64 word) XOR word_of_nat n) :: 8 word) = word_of_nat m XOR word_of_nat n"
    by (rule bit_word_eqI) (simp add: bit_simps)
  moreover have "(x :: 8 word) XOR y = 0 \<longleftrightarrow> x = y" for x y
    by (metis xor.assoc xor.right_neutral xor_self_eq)
  moreover have "(word_of_nat m :: 8 word) = word_of_nat n \<longleftrightarrow> m mod 256 = n mod 256"
    by (simp add: word_of_nat_eq_iff take_bit_eq_mod)
  ultimately show ?thesis by simp
qed

lemma ConstantTimeEquals_iff:
  "ConstantTimeEquals l r \<longleftrightarrow>
     length l mod 256 = length r mod 256 \<and> (\<forall>i. byte_at l i = byte_at r i)"
proof -
  have x: "(x :: 8 word) XOR y = 0 \<longleftrightarrow> x = y" for x y
    by (metis xor.assoc xor.right_neutral xor_self_eq)
  have "(\<forall>i < max (length l) (length r). byte_at l i = byte_at r i) \<longleftrightarrow> (\<forall>i. byte_at l i = byte_at r i)"
    by (auto simp: byte_at_def)
  then show ?thesis
    by (simp add: ConstantTimeEquals_def fold_or_zero length_cast_zero x Ball_def atLeast0LessThan)
qed

lemma byte_at_inject:
  "i < length l \<Longrightarrow> i < length r \<Longrightarrow> byte_at l i = byte_at r i \<longleftrightarrow> l ! i = r ! i"
proof -
  have "(word_of_nat (byte_of c) :: 8 word) = word_of_nat (byte_of d) \<longleftrightarrow> c = d" for c d
    using byte_of_less [of c] byte_of_less [of d]
    by (simp add: word_of_nat_eq_iff take_bit_nat_eq_self)
  then show "i < length l \<Longrightarrow> i < length r \<Longrightarrow> byte_at l i = byte_at r i \<longleftrightarrow> l ! i = r ! i"
    by (simp add: byte_at_def)
qed

lemma byte_at_NUL: "i < length s \<Longrightarrow> byte_at s i = 0 \<longleftrightarrow> s ! i = CHR 0x00"
proof -
  have z: "byte_of (CHR 0x00) = 0" by (simp add: byte_of_def)
  have "(word_of_nat (byte_of c) :: 8 word) = 0 \<longleftrightarrow> byte_of c = 0" for c
  proof -
    have "256 dvd byte_of c \<longleftrightarrow> byte_of c = 0"
      using byte_of_less [of c] nat_dvd_not_less by fastforce
    then show ?thesis by (simp add: word_of_nat_eq_0_iff)
  qed
  moreover have "byte_of c = 0 \<longleftrightarrow> c = CHR 0x00" for c
    by (metis z byte_of_inject)
  ultimately show "i < length s \<Longrightarrow> byte_at s i = 0 \<longleftrightarrow> s ! i = CHR 0x00"
    unfolding byte_at_def by simp
qed

lemma ConstantTimeEquals_no_NUL:
  assumes "CHR 0x00 \<notin> set l" and "CHR 0x00 \<notin> set r"
  shows "ConstantTimeEquals l r \<longleftrightarrow> l = r"
proof
  assume e: "ConstantTimeEquals l r"
  have le: "length a \<le> length b"
    if "\<forall>i. byte_at a i = byte_at b i" "CHR 0x00 \<notin> set a" for a b
  proof (rule ccontr)
    assume "\<not> length a \<le> length b"
    then have less: "length b < length a" by simp
    have zero: "byte_at a (length b) = 0"
      using that(1) by (metis byte_at_def less_irrefl)
    from byte_at_NUL [OF less] zero less that(2) show False by (metis nth_mem)
  qed
  from e have b: "\<forall>i. byte_at l i = byte_at r i" by (simp add: ConstantTimeEquals_iff)
  with le [of l r] le [of r l] assms have "length l = length r" by fastforce
  then show "l = r" using b byte_at_inject by (metis nth_equalityI)
qed (simp add: ConstantTimeEquals_iff)

text \<open>
  C30: with authentication required and keys free of NUL bytes, a request is admitted exactly
  if the key it presents is the configured one, which must not be empty.
\<close>

theorem authentication_is_exact:
  assumes "auth_required a" and "CHR 0x00 \<notin> set (api_key a)"
    and "CHR 0x00 \<notin> set (ExtractPresentedKey headers)"
  shows "ok (Authenticate a headers) \<longleftrightarrow> api_key a \<noteq> [] \<and> ExtractPresentedKey headers = api_key a"
  using assms by (auto simp: Authenticate_def Let_def ConstantTimeEquals_no_NUL)

theorem authentication_is_exact_witness:
  "ok (Authenticate \<lparr>api_key = ''k'', auth_required = True\<rparr> [(''x-api-key'', '' k '')])"
proof -
  have "ExtractPresentedKey [(''x-api-key'', '' k '')] = ''k''"
    by (simp add: ExtractPresentedKey_def Trim_def trim_back_def isspace_def byte_of_def)
  then show ?thesis
    by (subst authentication_is_exact) simp_all
qed

text \<open>
  The comparison is not exact in general: a key followed by 256 NUL bytes passes for the
  key, since the length difference is compared modulo 256 and missing bytes count as zero.
\<close>

lemma nul_padded_key_is_accepted:
  assumes "auth_required a" and "api_key a \<noteq> []"
    and "ExtractPresentedKey headers = api_key a @ replicate 256 (CHR 0x00)"
  shows "ok (Authenticate a headers) \<and> ExtractPresentedKey headers \<noteq> api_key a"
proof -
  have "byte_at (k @ replicate n (CHR 0x00)) i = byte_at k i" for k n i
    by (simp add: byte_at_def nth_append byte_of_def)
  then have "ConstantTimeEquals (api_key a @ replicate 256 (CHR 0x00)) (api_key a)"
    by (simp add: ConstantTimeEquals_iff)
  with assms show ?thesis by (simp add: Authenticate_def Let_def)
qed

lemma nul_padded_key_is_accepted_witness:
  "ok (Authenticate \<lparr>api_key = ''k'', auth_required = True\<rparr>
     [(''x-api-key'', ''k'' @ replicate 256 (CHR 0x00))])"
proof -
  have "Trim (''k'' @ replicate 256 (CHR 0x00)) = ''k'' @ replicate 256 (CHR 0x00)"
    by (rule Trim_id) (simp add: isspace_def byte_of_def)
  then have "ExtractPresentedKey [(''x-api-key'', ''k'' @ replicate 256 (CHR 0x00))] =
      ''k'' @ replicate 256 (CHR 0x00)"
    by (simp add: ExtractPresentedKey_def)
  then show ?thesis
    using nul_padded_key_is_accepted [of "\<lparr>api_key = ''k'', auth_required = True\<rparr>"]
    by (simp)
qed

subsection \<open>Rate limiting\<close>

definition one_second :: int where
  "one_second = 1000000000"

record rate_limiter =
  max_requests_per_second :: nat
  request_count :: nat
  window_start :: int

definition new_rate_limiter :: "nat \<Rightarrow> int \<Rightarrow> rate_limiter" where
  "new_rate_limiter n now = \<lparr>max_requests_per_second = n, request_count = 0, window_start = now\<rparr>"

definition Allow :: "int \<Rightarrow> rate_limiter \<Rightarrow> bool \<times> rate_limiter" where
  "Allow now l =
     (let l' = (if now - window_start l \<ge> one_second
                then l\<lparr>window_start := now, request_count := 0\<rparr> else l)
      in if request_count l' \<ge> max_requests_per_second l' then (False, l')
         else (True, l'\<lparr>request_count := request_count l' + 1\<rparr>))"

fun allow_run :: "int list \<Rightarrow> rate_limiter \<Rightarrow> nat" where
  "allow_run [] l = 0"
| "allow_run (t # ts) l =
     (case Allow t l of (a, l') \<Rightarrow> (if a then 1 else 0) + allow_run ts l')"

text \<open>Inside one window the remaining budget bounds what is admitted.\<close>

lemma allow_same_window:
  "\<forall>t \<in> set ts. t - window_start l < one_second \<Longrightarrow>
   allow_run ts l \<le> max_requests_per_second l - request_count l"
proof (induction ts arbitrary: l)
  case (Cons t ts)
  then have "\<not> one_second \<le> t - window_start l" by simp
  then show ?case
    using Cons.IH [of l] Cons.IH [of "l\<lparr>request_count := request_count l + 1\<rparr>"] Cons.prems
    by (auto simp: Allow_def Let_def)
qed simp

text \<open>
  C31: whatever happened before, within any period of one second the limiter admits at most
  twice the configured number of requests.
\<close>

theorem at_most_twice_the_limit_per_second:
  assumes "sorted ts" and "\<forall>t \<in> set ts. t0 \<le> t \<and> t < t0 + one_second"
  shows "allow_run ts l \<le> 2 * max_requests_per_second l"
proof -
  have "allow_run ts l \<le> (max_requests_per_second l - request_count l) + max_requests_per_second l"
    using assms
  proof (induction ts arbitrary: l)
    case (Cons t ts)
    show ?case
    proof (cases "one_second \<le> t - window_start l")
      case True
      let ?l = "l\<lparr>window_start := t, request_count := 0\<rparr>"
      have "\<forall>u \<in> set (t # ts). u - window_start ?l < one_second"
        using Cons.prems by auto
      then have "allow_run (t # ts) ?l \<le> max_requests_per_second l"
        using allow_same_window [of "t # ts" ?l] by simp
      moreover have "Allow t l = Allow t ?l"
        using True by (simp add: Allow_def one_second_def)
      then have "allow_run (t # ts) l = allow_run (t # ts) ?l" by simp
      ultimately show ?thesis by simp
    next
      case False
      then show ?thesis
        using Cons.IH [of l] Cons.IH [of "l\<lparr>request_count := request_count l + 1\<rparr>"] Cons.prems
        by (auto simp: Allow_def Let_def)
    qed
  qed simp
  then show ?thesis by simp
qed

theorem at_most_twice_the_limit_per_second_witness:
  "allow_run [900000000, 950000000, 1000000000, 1100000000, 1200000000]
     (new_rate_limiter 2 0) = 4 \<and>
   allow_run [900000000, 950000000, 1000000000, 1100000000, 1200000000]
     (new_rate_limiter 2 0) \<le> 2 * max_requests_per_second (new_rate_limiter 2 0)"
proof
  show "allow_run [900000000, 950000000, 1000000000, 1100000000, 1200000000] (new_rate_limiter 2 0) = 4"
    by (simp add: Allow_def Let_def one_second_def new_rate_limiter_def)
  show "allow_run [900000000, 950000000, 1000000000, 1100000000, 1200000000] (new_rate_limiter 2 0)
      \<le> 2 * max_requests_per_second (new_rate_limiter 2 0)"
    by (rule at_most_twice_the_limit_per_second [of _ 900000000]) (simp_all add: one_second_def)
qed

end
