(* ===== verification/Thread_Pool.thy ===== *)
theory Thread_Pool
  imports Status_Model
begin

text \<open>
  \<open>FallbackThreadPoolBackend\<close> of \<open>src/infra/thread_pool.cpp\<close>, the bounded queue with worker
  threads. A task is a value of any type; running it is not modelled, only that it starts and
  ends. Each critical section is one step of the relation \<open>pool_step\<close>: a submission, a worker
  that takes the front task or leaves, the completion of a task, and the setting of the stop
  flag. A worker that waits for its predicate makes no step. The lists \<open>accepted\<close> and
  \<open>started\<close> are history variables: the tasks in the order of their acceptance and of
  their start.
\<close>

datatype 't worker = Waiting | Running 't | Exited

record 't pool =
  queue_capacity :: nat
  tasks :: "'t list"
  workers :: "'t worker list"
  stopping :: bool
  submitted_tasks :: nat
  completed_tasks :: nat
  accepted :: "'t list"
  started :: "'t list"

definition EffectiveWorkerCount :: "nat \<Rightarrow> nat" where
  "EffectiveWorkerCount worker_count = max 1 worker_count"

definition EffectiveQueueCapacity :: "nat \<Rightarrow> nat \<Rightarrow> nat" where
  "EffectiveQueueCapacity worker_count capacity =
     (if capacity = 0 then max 64 (EffectiveWorkerCount worker_count * 1024) else capacity)"

definition new_pool :: "nat \<Rightarrow> nat \<Rightarrow> 't pool" where
  "new_pool worker_count capacity =
     \<lparr>queue_capacity = EffectiveQueueCapacity worker_count capacity, tasks = [],
      workers = replicate (EffectiveWorkerCount worker_count) Waiting, stopping = False,
      submitted_tasks = 0, completed_tasks = 0, accepted = [], started = []\<rparr>"

text \<open>\<open>SubmitTask\<close>: the error message of a refusal, or nothing.\<close>

definition SubmitTask :: "'t \<Rightarrow> 't pool \<Rightarrow> string option \<times> 't pool" where
  "SubmitTask t p =
     (if stopping p then (Some ''thread pool is stopped'', p)
      else if length (tasks p) \<ge> queue_capacity p then (Some ''thread pool queue is full'', p)
      else (None, p\<lparr>tasks := tasks p @ [t], submitted_tasks := submitted_tasks p + 1,
                    accepted := accepted p @ [t]\<rparr>))"

text \<open>The critical section of \<open>WorkerLoop\<close>, for a worker whose wait predicate holds.\<close>

definition wake_up :: "'t pool \<Rightarrow> bool" where
  "wake_up p \<longleftrightarrow> stopping p \<or> tasks p \<noteq> []"

definition worker_take :: "nat \<Rightarrow> 't pool \<Rightarrow> 't pool" where
  "worker_take i p =
     (case tasks p of
        [] \<Rightarrow> p\<lparr>workers := (workers p)[i := Exited]\<rparr>
      | t # ts \<Rightarrow> p\<lparr>tasks := ts, workers := (workers p)[i := Running t], started := started p @ [t]\<rparr>)"

definition worker_done :: "nat \<Rightarrow> 't pool \<Rightarrow> 't pool" where
  "worker_done i p =
     p\<lparr>workers := (workers p)[i := Waiting], completed_tasks := completed_tasks p + 1\<rparr>"

text \<open>The first part of \<open>Shutdown\<close>; the second part waits until every worker has left.\<close>

definition request_stop :: "'t pool \<Rightarrow> 't pool" where
  "request_stop p = p\<lparr>stopping := True\<rparr>"

definition joined :: "'t pool \<Rightarrow> bool" where
  "joined p \<longleftrightarrow> stopping p \<and> (\<forall>w \<in> set (workers p). w = Exited)"

definition PendingTasks :: "'t pool \<Rightarrow> nat" where
  "PendingTasks p = length (tasks p)"

definition WorkerCount :: "'t pool \<Rightarrow> nat" where
  "WorkerCount p = length (workers p)"

inductive worker_step :: "'t pool \<Rightarrow> 't pool \<Rightarrow> bool" where
  take: "i < length (workers p) \<Longrightarrow> workers p ! i = Waiting \<Longrightarrow> wake_up p \<Longrightarrow>
    worker_step p (worker_take i p)"
| finish: "i < length (workers p) \<Longrightarrow> workers p ! i = Running t \<Longrightarrow> worker_step p (worker_done i p)"

inductive pool_step :: "'t pool \<Rightarrow> 't pool \<Rightarrow> bool" where
  submit: "pool_step p (snd (SubmitTask t p))"
| stop: "pool_step p (request_stop p)"
| work: "worker_step p p' \<Longrightarrow> pool_step p p'"

inductive_cases worker_stepE: "worker_step p p'"
inductive_cases pool_stepE: "pool_step p p'"

subsection \<open>Invariant\<close>

definition running :: "'t pool \<Rightarrow> nat" where
  "running p = length (filter (\<lambda>w. \<exists>t. w = Running t) (workers p))"

text \<open>Counting what one update of a worker changes.\<close>

lemma filter_update_count:
  "i < length ws \<Longrightarrow>
   length (filter P (ws[i := w])) + (if P (ws ! i) then 1 else 0) =
   length (filter P ws) + (if P w then 1 else 0)"
proof (induction ws arbitrary: i)
  case (Cons x ws)
  then show ?case by (cases i) auto
qed simp

definition pool_inv :: "'t pool \<Rightarrow> bool" where
  "pool_inv p \<longleftrightarrow>
     accepted p = started p @ tasks p \<and>
     submitted_tasks p = length (accepted p) \<and>
     length (started p) = completed_tasks p + running p \<and>
     length (tasks p) \<le> queue_capacity p \<and> workers p \<noteq> [] \<and>
     (\<not> stopping p \<longrightarrow> Exited \<notin> set (workers p)) \<and>
     (Exited \<in> set (workers p) \<longrightarrow> tasks p = [])"

lemma pool_inv_new: "pool_inv (new_pool w c)"
  by (simp add: pool_inv_def new_pool_def running_def EffectiveWorkerCount_def)

lemma pool_inv_submit: "pool_inv p \<Longrightarrow> pool_inv (snd (SubmitTask t p))"
  by (auto simp: pool_inv_def SubmitTask_def running_def)

lemma pool_inv_stop: "pool_inv p \<Longrightarrow> pool_inv (request_stop p)"
  by (simp add: pool_inv_def request_stop_def running_def)

lemma running_update:
  assumes "i < length ws"
  shows "length (filter (\<lambda>w. \<exists>t. w = Running t) (ws[i := w])) + (if \<exists>t. ws ! i = Running t then 1 else 0) =
    length (filter (\<lambda>w. \<exists>t. w = Running t) ws) + (if \<exists>t. w = Running t then 1 else 0)"
  using filter_update_count [OF assms, of "\<lambda>w. \<exists>t. w = Running t" w] .

lemma pool_inv_take:
  assumes "pool_inv p" "i < length (workers p)" "workers p ! i = Waiting" "wake_up p"
  shows "pool_inv (worker_take i p)"
proof (cases "tasks p")
  case Nil
  with assms(4) have "stopping p" by (simp add: wake_up_def)
  with Nil assms running_update [OF assms(2), of Exited] show ?thesis
    by (simp add: pool_inv_def worker_take_def running_def)
next
  case (Cons t ts)
  with assms have "Exited \<notin> set (workers p)" by (auto simp: pool_inv_def)
  then have "Exited \<notin> set ((workers p)[i := Running t])"
    using set_update_subset_insert [of "workers p" i "Running t"] by auto
  with Cons assms running_update [OF assms(2), of "Running t"] show ?thesis
    by (simp add: pool_inv_def worker_take_def running_def)
qed

lemma pool_inv_finish:
  assumes "pool_inv p" "i < length (workers p)" "workers p ! i = Running t"
  shows "pool_inv (worker_done i p)"
proof -
  have "Exited \<in> set ((workers p)[i := Waiting]) \<Longrightarrow> Exited \<in> set (workers p)"
    using set_update_subset_insert [of "workers p" i Waiting] by auto
  with assms running_update [OF assms(2), of Waiting] show ?thesis
    by (auto simp: pool_inv_def worker_done_def running_def)
qed

lemma pool_inv_worker_step: "worker_step p p' \<Longrightarrow> pool_inv p \<Longrightarrow> pool_inv p'"
  by (elim worker_stepE) (simp_all add: pool_inv_take pool_inv_finish)

lemma pool_inv_step: "pool_step p p' \<Longrightarrow> pool_inv p \<Longrightarrow> pool_inv p'"
  by (elim pool_stepE) (simp_all add: pool_inv_submit pool_inv_stop pool_inv_worker_step)

lemma pool_inv_steps: "pool_step\<^sup>*\<^sup>* p p' \<Longrightarrow> pool_inv p \<Longrightarrow> pool_inv p'"
  by (induction rule: rtranclp_induct) (simp_all add: pool_inv_step)

subsection \<open>Shutdown\<close>

text \<open>What is left to do: a waiting worker still has to leave, a running one to wait first.\<close>

fun worker_weight :: "'t worker \<Rightarrow> nat" where
  "worker_weight Waiting = 1"
| "worker_weight (Running t) = 2"
| "worker_weight Exited = 0"

definition pool_weight :: "'t pool \<Rightarrow> nat" where
  "pool_weight p = 2 * length (tasks p) + sum_list (map worker_weight (workers p))"

lemma weight_update:
  assumes "i < length ws"
  shows "sum_list (map worker_weight (ws[i := w])) + worker_weight (ws ! i) =
    sum_list (map worker_weight ws) + worker_weight w"
  using assms
proof (induction ws arbitrary: i)
  case (Cons x ws)
  then show ?case by (cases i) auto
qed simp

lemma worker_step_weight: "worker_step p p' \<Longrightarrow> pool_weight p' < pool_weight p"
proof (erule worker_stepE)
  fix i
  assume p': "p' = worker_take i p" and i: "i < length (workers p)" "workers p ! i = Waiting"
  show "pool_weight p' < pool_weight p"
  proof (cases "tasks p")
    case Nil
    with p' i weight_update [OF i(1), of Exited] show ?thesis
      by (simp add: pool_weight_def worker_take_def)
  next
    case (Cons t ts)
    with p' i weight_update [OF i(1), of "Running t"] show ?thesis
      by (simp add: pool_weight_def worker_take_def)
  qed
next
  fix i t
  assume "p' = worker_done i p" and i: "i < length (workers p)" "workers p ! i = Running t"
  with weight_update [OF i(1), of Waiting] show "pool_weight p' < pool_weight p"
    by (simp add: pool_weight_def worker_done_def)
qed

lemma worker_step_stopping: "worker_step p p' \<Longrightarrow> stopping p' = stopping p"
  by (erule worker_stepE) (auto simp: worker_take_def worker_done_def split: list.splits)

lemma stopping_progress:
  assumes "stopping p" and "\<not> joined p"
  shows "\<exists>p'. worker_step p p'"
proof -
  from assms obtain i where i: "i < length (workers p)" "workers p ! i \<noteq> Exited"
    by (auto simp: joined_def in_set_conv_nth)
  show ?thesis
  proof (cases "workers p ! i")
    case Waiting
    with i assms(1) have "worker_step p (worker_take i p)"
      by (intro worker_step.take) (simp_all add: wake_up_def)
    then show ?thesis ..
  next
    case (Running t)
    with i have "worker_step p (worker_done i p)" by (intro worker_step.finish)
    then show ?thesis ..
  qed (use i in simp)
qed

lemma stopping_joins: "stopping p \<Longrightarrow> \<exists>p'. worker_step\<^sup>*\<^sup>* p p' \<and> joined p'"
proof (induction "pool_weight p" arbitrary: p rule: less_induct)
  case less
  show ?case
  proof (cases "joined p")
    case False
    with stopping_progress less.prems obtain q where q: "worker_step p q" by blast
    with less.hyps [of q] worker_step_weight worker_step_stopping less.prems
    obtain p' where "worker_step\<^sup>*\<^sup>* q p'" "joined p'" by metis
    with q show ?thesis by (meson converse_rtranclp_into_rtranclp)
  qed blast
qed

text \<open>
  C22: tasks start in the order of their acceptance, the queue never exceeds its capacity, and
  every accepted task is queued, running or completed: none is lost or started twice.
\<close>

theorem pool_is_fifo_and_loses_nothing:
  assumes "pool_step\<^sup>*\<^sup>* (new_pool w c) p"
  shows "accepted p = started p @ tasks p \<and> length (tasks p) \<le> queue_capacity p \<and>
    submitted_tasks p = completed_tasks p + running p + PendingTasks p"
  using pool_inv_steps [OF assms pool_inv_new] by (simp add: pool_inv_def PendingTasks_def)

theorem pool_is_fifo_and_loses_nothing_witness:
  "let p = worker_take 0 (snd (SubmitTask (7::nat) (new_pool 1 2))) in
   accepted p = started p @ tasks p \<and> started p = [7]"
proof -
  let ?q = "snd (SubmitTask (7::nat) (new_pool 1 2))"
  have "pool_step (new_pool 1 2) ?q" by (rule submit)
  moreover have "worker_step ?q (worker_take 0 ?q)"
    by (rule worker_step.take)
      (simp_all add: SubmitTask_def new_pool_def EffectiveWorkerCount_def EffectiveQueueCapacity_def wake_up_def)
  then have "pool_step ?q (worker_take 0 ?q)" by (rule work)
  ultimately have "pool_step\<^sup>*\<^sup>* (new_pool 1 2) (worker_take 0 ?q)" by simp
  from pool_is_fifo_and_loses_nothing [OF this] show ?thesis
    by (simp add: Let_def SubmitTask_def new_pool_def EffectiveWorkerCount_def
        EffectiveQueueCapacity_def worker_take_def)
qed

text \<open>A pool whose workers have all left has nothing more to do.\<close>

lemma joined_drained:
  assumes "pool_inv p" and "joined p"
  shows "tasks p = [] \<and> completed_tasks p = submitted_tasks p \<and> started p = accepted p"
proof -
  have "Exited \<in> set (workers p)"
    using assms by (cases "workers p") (auto simp: joined_def pool_inv_def)
  moreover have "running p = 0" using assms(2) by (auto simp: running_def joined_def filter_empty_conv)
  ultimately show ?thesis using assms(1) by (auto simp: pool_inv_def)
qed

text \<open>
  C23: shutdown drains: once the stop flag is set the workers can always go on until all have
  left, every step of theirs brings that closer, and when all have left every accepted task
  has been completed.
\<close>

theorem shutdown_completes_every_accepted_task:
  assumes "pool_step\<^sup>*\<^sup>* (new_pool w c) p" and "stopping p"
  shows "(\<exists>p'. worker_step\<^sup>*\<^sup>* p p' \<and> joined p') \<and>
    (\<forall>p'. worker_step p p' \<longrightarrow> pool_weight p' < pool_weight p) \<and>
    (joined p \<longrightarrow> tasks p = [] \<and> completed_tasks p = submitted_tasks p \<and> started p = accepted p)"
proof (intro conjI)
  show "\<exists>p'. worker_step\<^sup>*\<^sup>* p p' \<and> joined p'" by (rule stopping_joins [OF assms(2)])
  show "\<forall>p'. worker_step p p' \<longrightarrow> pool_weight p' < pool_weight p" using worker_step_weight by blast
  have "pool_inv p" using assms(1) pool_inv_new by (rule pool_inv_steps)
  then show "joined p \<longrightarrow> tasks p = [] \<and> completed_tasks p = submitted_tasks p \<and> started p = accepted p"
    using joined_drained by blast
qed

theorem shutdown_completes_every_accepted_task_witness:
  "\<exists>p'. worker_step\<^sup>*\<^sup>* (request_stop (snd (SubmitTask (7::nat) (new_pool 1 2)))) p' \<and> joined p'"
proof -
  let ?q = "snd (SubmitTask (7::nat) (new_pool 1 2))"
  have "pool_step\<^sup>*\<^sup>* (new_pool 1 2) (request_stop ?q)"
    by (meson pool_step.stop pool_step.submit r_into_rtranclp rtranclp.rtrancl_into_rtrancl)
  moreover have "stopping (request_stop ?q)" by (simp add: request_stop_def)
  ultimately show ?thesis using shutdown_completes_every_accepted_task by blast
qed

end
