(* ===== verification/Tbb_Pool.thy ===== *)
theory Tbb_Pool
  imports Thread_Pool "HOL-Library.Multiset"
begin

text \<open>
  \<open>TbbThreadPoolBackend\<close> of \<open>src/infra/thread_pool.cpp\<close>, the pool over a TBB task arena. The
  arena is third-party code: it runs the tasks it was given in some order, and so it is a
  multiset from which any task may be the next to end. A submission takes two steps with other
  threads between them, the reservation under the mutex and the call of \<open>enqueue\<close>, which may
  throw; \<open>reserved\<close> holds the tasks in between. \<open>accepted\<close> and \<open>finished\<close> are history
  variables.
\<close>

record 't tbb_pool =
  tb_worker_count :: nat
  tb_queue_capacity :: nat
  tb_pending :: nat
  tb_submitted :: nat
  tb_completed :: nat
  tb_stopping :: bool
  tb_arena_active :: bool
  tb_reserved :: "'t multiset"
  tb_arena :: "'t multiset"
  tb_accepted :: "'t multiset"
  tb_finished :: "'t multiset"

definition new_tbb_pool :: "nat \<Rightarrow> nat \<Rightarrow> 't tbb_pool" where
  "new_tbb_pool worker_count capacity =
     \<lparr>tb_worker_count = EffectiveWorkerCount worker_count, tb_queue_capacity = EffectiveQueueCapacity worker_count capacity,
      tb_pending = 0, tb_submitted = 0, tb_completed = 0, tb_stopping = False, tb_arena_active = True,
      tb_reserved = {#}, tb_arena = {#}, tb_accepted = {#}, tb_finished = {#}\<rparr>"

text \<open>The first critical section of \<open>SubmitTask\<close>: the error message, or the reservation.\<close>

definition tbb_reserve :: "'t \<Rightarrow> 't tbb_pool \<Rightarrow> string option \<times> 't tbb_pool" where
  "tbb_reserve t p =
     (if tb_stopping p then (Some ''thread pool is stopped'', p)
      else if tb_pending p \<ge> tb_queue_capacity p then (Some ''thread pool queue is full'', p)
      else (None, p\<lparr>tb_pending := tb_pending p + 1, tb_submitted := tb_submitted p + 1,
              tb_reserved := add_mset t (tb_reserved p)\<rparr>))"

definition tbb_enqueue :: "'t \<Rightarrow> 't tbb_pool \<Rightarrow> 't tbb_pool" where
  "tbb_enqueue t p = p\<lparr>tb_reserved := tb_reserved p - {#t#}, tb_arena := add_mset t (tb_arena p),
     tb_accepted := add_mset t (tb_accepted p)\<rparr>"

definition tbb_enqueue_throws :: "'t \<Rightarrow> 't tbb_pool \<Rightarrow> 't tbb_pool" where
  "tbb_enqueue_throws t p = p\<lparr>tb_reserved := tb_reserved p - {#t#}, tb_pending := tb_pending p - 1,
     tb_submitted := tb_submitted p - 1\<rparr>"

definition tbb_task_ends :: "'t \<Rightarrow> 't tbb_pool \<Rightarrow> 't tbb_pool" where
  "tbb_task_ends t p = p\<lparr>tb_arena := tb_arena p - {#t#}, tb_completed := tb_completed p + 1,
     tb_pending := tb_pending p - 1, tb_finished := add_mset t (tb_finished p)\<rparr>"

text \<open>\<open>Shutdown\<close>: it sets the flag, waits for the counter, and ends the arena.\<close>

definition tbb_request_stop :: "'t tbb_pool \<Rightarrow> 't tbb_pool" where
  "tbb_request_stop p = p\<lparr>tb_stopping := True\<rparr>"

definition tbb_may_terminate :: "'t tbb_pool \<Rightarrow> bool" where
  "tbb_may_terminate p \<longleftrightarrow> tb_stopping p \<and> tb_pending p = 0"

definition tbb_terminate :: "'t tbb_pool \<Rightarrow> 't tbb_pool" where
  "tbb_terminate p = (if tb_arena_active p then p\<lparr>tb_arena_active := False\<rparr> else p)"

inductive tbb_step :: "'t tbb_pool \<Rightarrow> 't tbb_pool \<Rightarrow> bool" where
  reserve: "tbb_step p (snd (tbb_reserve t p))"
| enqueue: "t \<in># tb_reserved p \<Longrightarrow> tbb_step p (tbb_enqueue t p)"
| throws: "t \<in># tb_reserved p \<Longrightarrow> tbb_step p (tbb_enqueue_throws t p)"
| ends: "t \<in># tb_arena p \<Longrightarrow> tbb_step p (tbb_task_ends t p)"
| stop: "tbb_step p (tbb_request_stop p)"
| terminate: "tbb_may_terminate p \<Longrightarrow> tbb_step p (tbb_terminate p)"

inductive_cases tbb_stepE: "tbb_step p p'"

subsection \<open>Invariant\<close>

text \<open>The counters count the tasks, and an arena that has ended has none left.\<close>

definition tbb_inv :: "'t tbb_pool \<Rightarrow> bool" where
  "tbb_inv p \<longleftrightarrow>
     tb_pending p = size (tb_reserved p) + size (tb_arena p) \<and>
     tb_submitted p = tb_completed p + tb_pending p \<and>
     tb_completed p = size (tb_finished p) \<and>
     tb_accepted p = tb_finished p + tb_arena p \<and>
     tb_pending p \<le> tb_queue_capacity p \<and>
     (\<not> tb_arena_active p \<longrightarrow> tb_stopping p \<and> tb_pending p = 0)"

lemma tbb_inv_new: "tbb_inv (new_tbb_pool w c)"
  by (simp add: tbb_inv_def new_tbb_pool_def)

lemma tbb_inv_reserve: "tbb_inv p \<Longrightarrow> tbb_inv (snd (tbb_reserve t p))"
  by (auto simp: tbb_inv_def tbb_reserve_def)

lemma size_remove: "t \<in># M \<Longrightarrow> size (M - {#t#}) = size M - 1 \<and> 0 < size M"
  by (auto simp: size_Diff_singleton nonempty_has_size [symmetric])

lemma tbb_inv_enqueue: "tbb_inv p \<Longrightarrow> t \<in># tb_reserved p \<Longrightarrow> tbb_inv (tbb_enqueue t p)"
  using size_remove [of t "tb_reserved p"] by (auto simp: tbb_inv_def tbb_enqueue_def)

lemma tbb_inv_throws: "tbb_inv p \<Longrightarrow> t \<in># tb_reserved p \<Longrightarrow> tbb_inv (tbb_enqueue_throws t p)"
  using size_remove [of t "tb_reserved p"] by (auto simp: tbb_inv_def tbb_enqueue_throws_def)

lemma tbb_inv_ends: "tbb_inv p \<Longrightarrow> t \<in># tb_arena p \<Longrightarrow> tbb_inv (tbb_task_ends t p)"
  using size_remove [of t "tb_arena p"] by (auto simp: tbb_inv_def tbb_task_ends_def)

lemma tbb_inv_step: "tbb_step p p' \<Longrightarrow> tbb_inv p \<Longrightarrow> tbb_inv p'"
proof (induction rule: tbb_step.induct)
  case (terminate p)
  then show ?case by (auto simp: tbb_inv_def tbb_may_terminate_def tbb_terminate_def)
qed (auto simp: tbb_inv_reserve tbb_inv_enqueue tbb_inv_throws tbb_inv_ends, auto simp: tbb_inv_def tbb_request_stop_def)

lemma tbb_inv_run: "tbb_step\<^sup>*\<^sup>* p p' \<Longrightarrow> tbb_inv p \<Longrightarrow> tbb_inv p'"
  by (induction rule: rtranclp_induct) (auto dest: tbb_inv_step)

lemma tbb_step_capacity: "tbb_step p p' \<Longrightarrow> tb_queue_capacity p' = tb_queue_capacity p"
  by (erule tbb_stepE)
    (auto simp: tbb_reserve_def tbb_enqueue_def tbb_enqueue_throws_def tbb_task_ends_def tbb_request_stop_def tbb_terminate_def)

lemma tbb_run_capacity: "tbb_step\<^sup>*\<^sup>* p p' \<Longrightarrow> tb_queue_capacity p' = tb_queue_capacity p"
  by (induction rule: rtranclp_induct) (auto dest: tbb_step_capacity)

text \<open>
  C24: Under every interleaving of submissions, ends of tasks and shutdowns the TBB pool has at
  most as many tasks waiting or running as its capacity, every accepted task is in the arena
  or has ended, once, and the counters of submitted and completed tasks differ by those in
  between. When \<open>Shutdown\<close> ends the arena, every task that was accepted has ended, and none is
  accepted afterwards.
\<close>

theorem tbb_pool_loses_nothing:
  assumes "tbb_step\<^sup>*\<^sup>* (new_tbb_pool w c) p"
  shows "tb_accepted p = tb_finished p + tb_arena p \<and>
    size (tb_reserved p) + size (tb_arena p) \<le> EffectiveQueueCapacity w c \<and>
    tb_submitted p = tb_completed p + tb_pending p \<and> tb_completed p = size (tb_finished p) \<and>
    (\<not> tb_arena_active p \<longrightarrow> tb_accepted p = tb_finished p \<and> tb_reserved p = {#} \<and>
       (\<forall>t. fst (tbb_reserve t p) \<noteq> None))"
proof -
  from tbb_inv_run [OF assms tbb_inv_new] have inv: "tbb_inv p" .
  from tbb_run_capacity [OF assms] have "tb_queue_capacity p = EffectiveQueueCapacity w c"
    by (simp add: new_tbb_pool_def)
  with inv show ?thesis by (auto simp: tbb_inv_def tbb_reserve_def)
qed

theorem tbb_pool_loses_nothing_witness:
  "let p = tbb_terminate (tbb_request_stop (tbb_task_ends (7::nat) (tbb_enqueue 7
      (snd (tbb_reserve 7 (new_tbb_pool 2 3))))))
   in tb_accepted p = {#7#} \<and> tb_finished p = {#7#} \<and> \<not> tb_arena_active p"
proof -
  let ?p0 = "new_tbb_pool 2 3 :: nat tbb_pool"
  let ?p1 = "snd (tbb_reserve (7::nat) ?p0)"
  let ?p2 = "tbb_enqueue 7 ?p1" let ?p3 = "tbb_task_ends 7 ?p2"
  let ?p4 = "tbb_request_stop ?p3" let ?p5 = "tbb_terminate ?p4"
  have "tbb_step ?p0 ?p1" by (rule tbb_step.reserve)
  moreover have "tbb_step ?p1 ?p2"
    by (rule tbb_step.enqueue) (simp add: tbb_reserve_def new_tbb_pool_def EffectiveQueueCapacity_def)
  moreover have "tbb_step ?p2 ?p3" by (rule tbb_step.ends) (simp add: tbb_enqueue_def)
  moreover have "tbb_step ?p3 ?p4" by (rule tbb_step.stop)
  moreover have "tbb_step ?p4 ?p5"
    by (rule tbb_step.terminate)
      (simp add: tbb_may_terminate_def tbb_request_stop_def tbb_task_ends_def tbb_enqueue_def tbb_reserve_def
        new_tbb_pool_def EffectiveQueueCapacity_def)
  ultimately have run: "tbb_step\<^sup>*\<^sup>* ?p0 ?p5"
    by (meson rtranclp.rtrancl_into_rtrancl rtranclp.rtrancl_refl)
  have off: "\<not> tb_arena_active ?p5"
    by (simp add: tbb_terminate_def tbb_request_stop_def tbb_task_ends_def tbb_enqueue_def tbb_reserve_def
        new_tbb_pool_def EffectiveQueueCapacity_def)
  moreover have "tb_accepted ?p5 = {#7#}"
    by (simp add: tbb_terminate_def tbb_request_stop_def tbb_task_ends_def tbb_enqueue_def tbb_reserve_def
        new_tbb_pool_def EffectiveQueueCapacity_def)
  ultimately show ?thesis
    using tbb_pool_loses_nothing [OF run] unfolding Let_def by metis
qed

end
