(* ===== verification/Pool_Front.thy ===== *)
theory Pool_Front
  imports Tbb_Pool
begin

text \<open>
  \<open>ThreadPool\<close> of \<open>src/infra/thread_pool.h\<close>, what the program sees of its pools: \<open>Submit\<close> gives a
  future, which belongs to the task or already carries the refusal. The contract of
  \<open>ThreadPoolBackend\<close> is the locale \<open>pool_backend\<close>; both backends are interpretations of it.
\<close>

subsection \<open>The contract of a backend\<close>

datatype 't future = Of_task 't | Broken string

definition Submit :: "('t \<Rightarrow> 'p \<Rightarrow> string option \<times> 'p) \<Rightarrow> 't \<Rightarrow> 'p \<Rightarrow> 't future \<times> 'p" where
  "Submit submit_task t p =
     (case submit_task t p of
        (Some error_message, p') \<Rightarrow> (Broken error_message, p')
      | (None, p') \<Rightarrow> (Of_task t, p'))"

fun submit_each :: "('t \<Rightarrow> 'p \<Rightarrow> string option \<times> 'p) \<Rightarrow> 't list \<Rightarrow> 'p \<Rightarrow> 't future list \<times> 'p" where
  "submit_each submit_task [] p = ([], p)"
| "submit_each submit_task (t # ts) p =
     (let (f, p1) = Submit submit_task t p; (fs, p2) = submit_each submit_task ts p1 in (f # fs, p2))"

fun kept :: "'t future list \<Rightarrow> 't list" where
  "kept [] = []"
| "kept (Of_task t # fs) = t # kept fs"
| "kept (Broken e # fs) = kept fs"

lemma kept_empty: "kept fs = [] \<longleftrightarrow> (\<forall>f \<in> set fs. \<exists>e. f = Broken e)"
  by (induction fs rule: kept.induct) auto

locale pool_backend =
  fixes good :: "'p \<Rightarrow> bool"
    and given :: "'p \<Rightarrow> 't multiset"
    and closed :: "'p \<Rightarrow> bool"
    and submit_task :: "'t \<Rightarrow> 'p \<Rightarrow> string option \<times> 'p"
  assumes submit_good: "good p \<Longrightarrow> good (snd (submit_task t p))"
    and submit_closed: "closed (snd (submit_task t p)) = closed p"
    and submit_accepts: "good p \<Longrightarrow> submit_task t p = (None, p') \<Longrightarrow> \<not> closed p \<and> given p' = add_mset t (given p)"
    and submit_refuses: "good p \<Longrightarrow> submit_task t p = (Some e, p') \<Longrightarrow> given p' = given p"
begin

text \<open>The pool takes over exactly the tasks whose futures are not broken.\<close>

lemma submit_step:
  assumes "good p" and "Submit submit_task t p = (f, p')"
  shows "good p'" and "closed p' = closed p" and "given p' = given p + mset (kept [f])"
    and "closed p \<Longrightarrow> kept [f] = []"
proof -
  obtain r q where s: "submit_task t p = (r, q)" by (cases "submit_task t p")
  with assms(2) have q: "p' = q" "f = (case r of None \<Rightarrow> Of_task t | Some e \<Rightarrow> Broken e)"
    by (auto simp: Submit_def split: option.splits)
  show "good p'" "closed p' = closed p" using submit_good [OF assms(1), of t] submit_closed [of t p] s q by simp_all
  show "given p' = given p + mset (kept [f])"
    using submit_accepts [OF assms(1), of t] submit_refuses [OF assms(1), of t] s q by (cases r) auto
  show "kept [f] = []" if "closed p"
    using submit_accepts [OF assms(1), of t] that s q by (cases r) auto
qed

lemma kept_tasks_are_given:
  assumes "good p" and "submit_each submit_task ts p = (fs, p')"
  shows "good p' \<and> closed p' = closed p \<and> given p' = given p + mset (kept fs) \<and> length fs = length ts"
  using assms
proof (induction ts arbitrary: p fs)
  case (Cons t ts)
  obtain f p1 where s: "Submit submit_task t p = (f, p1)" by (cases "Submit submit_task t p")
  obtain fs' p2 where r: "submit_each submit_task ts p1 = (fs', p2)" by (cases "submit_each submit_task ts p1")
  from Cons.prems(2) s r have out: "fs = f # fs'" "p' = p2" by auto
  show ?case
    using submit_step [OF Cons.prems(1) s] Cons.IH [of p1 fs'] r out by (cases f) (auto simp: add.commute)
qed simp

lemma closed_breaks_every_future:
  assumes "good p" and "closed p" and "submit_each submit_task ts p = (fs, p')"
  shows "kept fs = []"
  using assms
proof (induction ts arbitrary: p fs)
  case (Cons t ts)
  obtain f p1 where s: "Submit submit_task t p = (f, p1)" by (cases "Submit submit_task t p")
  obtain fs' p2 where r: "submit_each submit_task ts p1 = (fs', p2)" by (cases "submit_each submit_task ts p1")
  from Cons.prems(3) s r have out: "fs = f # fs'" "p' = p2" by auto
  show ?case
    using submit_step [OF Cons.prems(1) s] Cons.IH [of p1 fs'] Cons.prems(2) r out by (cases f) auto
qed simp

end

subsection \<open>The backends\<close>

text \<open>The worker threads of the fallback.\<close>

interpretation worker_pool: pool_backend pool_inv "\<lambda>p. mset (accepted p)" stopping SubmitTask
proof
  show "pool_inv p \<Longrightarrow> pool_inv (snd (SubmitTask t p))" for p :: "'a pool" and t
    by (rule pool_inv_submit)
qed (auto simp: SubmitTask_def split: if_splits)

text \<open>
  \<open>SubmitTask\<close> over the task arena, when no other thread comes between its two parts; what
  \<open>enqueue\<close> throws is an argument. The counters of the pool.
\<close>

definition tbb_submit :: "string option \<Rightarrow> 't \<Rightarrow> 't tbb_pool \<Rightarrow> string option \<times> 't tbb_pool" where
  "tbb_submit thrown t p =
     (case tbb_reserve t p of
        (Some error_message, p1) \<Rightarrow> (Some error_message, p1)
      | (None, p1) \<Rightarrow>
          (case thrown of
             None \<Rightarrow> (None, tbb_enqueue t p1)
           | Some e \<Rightarrow> (Some e, tbb_enqueue_throws t p1)))"

lemma tbb_reserved_task: "tbb_reserve t p = (None, p1) \<Longrightarrow> t \<in># tb_reserved p1"
  by (auto simp: tbb_reserve_def split: if_splits)

lemma tbb_submit_steps: "tbb_step\<^sup>*\<^sup>* p (snd (tbb_submit thrown t p))"
proof (cases "tbb_reserve t p")
  case (Pair r p1)
  have first: "tbb_step p p1" using tbb_step.reserve [of p t] Pair by simp
  show ?thesis
  proof (cases r)
    case None
    with Pair have "t \<in># tb_reserved p1" by (simp add: tbb_reserved_task)
    then have "tbb_step p1 (snd (tbb_submit thrown t p))"
      using Pair None by (cases thrown) (auto simp: tbb_submit_def intro: tbb_step.enqueue tbb_step.throws)
    with first show ?thesis by (meson converse_rtranclp_into_rtranclp r_into_rtranclp)
  next
    case Some
    with first Pair show ?thesis by (auto simp: tbb_submit_def)
  qed
qed

interpretation arena_pool: pool_backend tbb_inv tb_accepted tb_stopping "tbb_submit thrown" for thrown
proof
  show "tbb_inv p \<Longrightarrow> tbb_inv (snd (tbb_submit thrown t p))" for p :: "'a tbb_pool" and t
    by (rule tbb_inv_run [OF tbb_submit_steps])
qed (auto simp: tbb_submit_def tbb_reserve_def tbb_enqueue_def tbb_enqueue_throws_def split: if_splits option.splits)

definition Tbb_PendingTasks :: "'t tbb_pool \<Rightarrow> nat" where
  "Tbb_PendingTasks p = tb_pending p"

definition Tbb_SubmittedTasks :: "'t tbb_pool \<Rightarrow> nat" where
  "Tbb_SubmittedTasks p = tb_submitted p"

definition Tbb_CompletedTasks :: "'t tbb_pool \<Rightarrow> nat" where
  "Tbb_CompletedTasks p = tb_completed p"

definition Tbb_WorkerCount :: "'t tbb_pool \<Rightarrow> nat" where
  "Tbb_WorkerCount p = tb_worker_count p"

subsection \<open>Futures and the end of a pool\<close>

lemma worker_step_accepted: "worker_step p p' \<Longrightarrow> accepted p' = accepted p \<and> (\<exists>ts. started p' = started p @ ts)"
  by (erule worker_stepE) (auto simp: worker_take_def worker_done_def split: list.splits)

lemma worker_run_accepted: "worker_step\<^sup>*\<^sup>* p p' \<Longrightarrow> accepted p' = accepted p"
  by (induction rule: rtranclp_induct) (auto dest: worker_step_accepted)

text \<open>
  No future is forgotten: when tasks are submitted and the pool is then shut down, it can always
  come to its end, and once it has, every task whose future was not broken has been started and
  has ended.
\<close>

lemma every_future_is_answered:
  assumes "pool_inv p" and "submit_each SubmitTask ts p = (fs, q)" and "worker_step\<^sup>*\<^sup>* (request_stop q) r"
  shows "\<exists>p'. worker_step\<^sup>*\<^sup>* r p' \<and> joined p'"
    and "joined r \<Longrightarrow> mset (started r) = mset (accepted p) + mset (kept fs) \<and> completed_tasks r = length (started r)"
proof -
  have q: "pool_inv q" "mset (accepted q) = mset (accepted p) + mset (kept fs)"
    using worker_pool.kept_tasks_are_given [OF assms(1,2)] by simp_all
  have run: "pool_step\<^sup>*\<^sup>* q r"
  proof -
    have "pool_step\<^sup>*\<^sup>* (request_stop q) r"
      using assms(3) by (induction rule: rtranclp_induct) (auto intro: rtranclp.rtrancl_into_rtrancl pool_step.work)
    then show ?thesis by (meson converse_rtranclp_into_rtranclp pool_step.stop)
  qed
  have inv: "pool_inv r" by (rule pool_inv_steps [OF run q(1)])
  have stopped: "stopping r"
    using assms(3) by (induction rule: rtranclp_induct) (auto simp: request_stop_def dest: worker_step_stopping)
  then show "\<exists>p'. worker_step\<^sup>*\<^sup>* r p' \<and> joined p'" by (rule stopping_joins)
  have acc: "accepted r = accepted q" using worker_run_accepted [OF assms(3)] by (simp add: request_stop_def)
  show "mset (started r) = mset (accepted p) + mset (kept fs) \<and> completed_tasks r = length (started r)" if "joined r"
  proof -
    have "submitted_tasks r = length (accepted r)" using inv by (simp add: pool_inv_def)
    with joined_drained [OF inv that] acc q(2) show ?thesis by auto
  qed
qed

end
