(* ===== verification/Vector_Index.thy ===== *)
theory Vector_Index
  imports Wire_Format Files Legacy_Text "HOL-Library.Multiset"
begin

text \<open>
  \<open>src/search/vector_index.h\<close> and \<open>PersistentVectorIndex\<close> of \<open>vector_index.cpp\<close>: the
  brute-force index, an ordered map from composite keys to documents with their vectors,
  searched by the inner product. Floating-point numbers are bit patterns; their arithmetic,
  \<open>std::stof\<close> and \<open>std::sort\<close> (whose order of equal elements is not specified) are the
  fields of the parameter \<open>fp_api\<close>. The locale \<open>vector_index\<close> is the contract on which the
  outbox and the migration rely.
\<close>

type_synonym float64 = "64 word"

type_synonym search_hit = "float64 SearchReference"

record fp_api =
  f2d :: "float32 \<Rightarrow> float64"
  d_add :: "float64 \<Rightarrow> float64 \<Rightarrow> float64"
  d_mul :: "float64 \<Rightarrow> float64 \<Rightarrow> float64"
  d_gt :: "float64 \<Rightarrow> float64 \<Rightarrow> bool"
  std_stof :: "string \<Rightarrow> float32 outcome"
  std_sort :: "(search_hit \<Rightarrow> search_hit \<Rightarrow> bool) \<Rightarrow> search_hit list \<Rightarrow> search_hit list"

text \<open>The bit patterns of 0.0 and -1.0.\<close>

definition d_zero :: float64 where
  "d_zero = 0"

definition d_minus_one :: float64 where
  "d_minus_one = 0xBFF0000000000000"

text \<open>
  What \<open>std::sort\<close> promises when its comparison is a strict weak order on the elements,
  which it is for scores that are not NaN.
\<close>

definition weak_order_on :: "('a \<Rightarrow> 'a \<Rightarrow> bool) \<Rightarrow> 'a set \<Rightarrow> bool" where
  "weak_order_on gt S \<longleftrightarrow>
     (\<forall>x \<in> S. \<forall>y \<in> S. gt x y \<longrightarrow> \<not> gt y x) \<and>
     (\<forall>x \<in> S. \<forall>y \<in> S. \<forall>z \<in> S. gt x z \<longrightarrow> gt x y \<or> gt y z)"

definition sort_law :: "fp_api \<Rightarrow> bool" where
  "sort_law fp \<longleftrightarrow>
     (\<forall>gt xs. weak_order_on gt (set xs) \<longrightarrow>
        mset (std_sort fp gt xs) = mset xs \<and> sorted_wrt (\<lambda>x y. \<not> gt y x) (std_sort fp gt xs))"

subsection \<open>State and operations\<close>

record SearchFilter =
  filter_field :: string
  filter_value :: string

record vector_store =
  index_path :: string
  entries :: "(string, VectorEntry) omap"

definition new_vector_store :: "string \<Rightarrow> vector_store" where
  "new_vector_store path = \<lparr>index_path = path, entries = []\<rparr>"

definition index_parent_error :: string where
  "index_parent_error = ''failed to create index directory: ''"

definition index_not_found :: "string \<Rightarrow> string" where
  "index_not_found path = ''file not found: '' @ path"

definition index_metadata_part :: "string \<Rightarrow> (string, string) omap \<Rightarrow> (string, string) omap" where
  "index_metadata_part part m = (if part = [] then m else metadata_part part m)"

definition IndexDeserializeMetadata :: "string \<Rightarrow> (string, string) omap" where
  "IndexDeserializeMetadata encoded = fold index_metadata_part (SplitEscaped encoded CHR '';'') []"

fun parse_floats :: "fp_api \<Rightarrow> string list \<Rightarrow> float32 list \<Rightarrow> float32 list outcome" where
  "parse_floats fp [] values = Ret values"
| "parse_floats fp (token # ts) values =
     (if token = [] then parse_floats fp ts values
      else outcome_bind (std_stof fp token) (\<lambda>v. parse_floats fp ts (values @ [v])))"

definition DeserializeVector :: "fp_api \<Rightarrow> string \<Rightarrow> float32 list outcome" where
  "DeserializeVector fp encoded = parse_floats fp (getlines CHR '','' encoded) []"

definition put_vector :: "VectorEntry \<Rightarrow> (string, VectorEntry) omap \<Rightarrow> (string, VectorEntry) omap" where
  "put_vector e m = omap_put (document_key (ve_record e)) e m"

fun index_lines ::
  "fp_api \<Rightarrow> string list \<Rightarrow> (string, VectorEntry) omap \<Rightarrow> (string, VectorEntry) omap \<times> Status outcome" where
  "index_lines fp [] m = (m, Ret Ok)"
| "index_lines fp (line # ls) m =
     (let parts = SplitEscaped line CHR ''|'' in
      if length parts \<noteq> 6 then index_lines fp ls m
      else
        let r = empty_document\<lparr>
              doc_collection := Unescape (parts ! 0), doc_key := Unescape (parts ! 1),
              doc_title := Unescape (parts ! 2), doc_body := Unescape (parts ! 3),
              doc_metadata := IndexDeserializeMetadata (parts ! 4)\<rparr>
        in case DeserializeVector fp (parts ! 5) of
             Throw e \<Rightarrow> (m, Throw e)
           | Ret v \<Rightarrow> index_lines fp ls (put_vector \<lparr>ve_record = r, ve_vector = v\<rparr> m))"

definition Index_Recover ::
  "pb_api \<Rightarrow> fp_api \<Rightarrow> fs \<Rightarrow> vector_store \<Rightarrow> vector_store \<times> Status outcome" where
  "Index_Recover pb fp s ix =
     (let ix0 = ix\<lparr>entries := []\<rparr> in
      case ReadWholeFile (index_not_found (index_path ix)) s (index_path ix) of
        Inl _ \<Rightarrow> (ix0, Ret Ok)
      | Inr bytes \<Rightarrow>
          if HasPersistenceMagic bytes
          then (case DecodeFrames bytes of
                  Inl e \<Rightarrow> (ix0, Ret e)
                | Inr frames \<Rightarrow>
                    let (m, status) = frame_loop (DecodeVectorEntry pb) put_vector frames []
                    in (ix0\<lparr>entries := m\<rparr>, Ret status))
          else let (m, status) = index_lines fp (getlines newline bytes) []
               in (ix0\<lparr>entries := m\<rparr>, status))"

definition Index_Upsert :: "DocumentRecord \<Rightarrow> float32 list \<Rightarrow> vector_store \<Rightarrow> Status \<times> vector_store" where
  "Index_Upsert r v ix =
     (if v = [] then (InvalidArgument ''index vector cannot be empty'', ix)
      else (Ok, ix\<lparr>entries := put_vector \<lparr>ve_record = r, ve_vector = v\<rparr> (entries ix)\<rparr>))"

definition Index_Remove :: "string \<Rightarrow> string \<Rightarrow> vector_store \<Rightarrow> Status \<times> vector_store" where
  "Index_Remove c k ix = (Ok, ix\<lparr>entries := omap_erase (BuildCompositeKey c k) (entries ix)\<rparr>)"

fun MatchesFilters :: "DocumentRecord \<Rightarrow> SearchFilter list \<Rightarrow> bool" where
  "MatchesFilters r [] = True"
| "MatchesFilters r (f # fs) =
     (case map_of (doc_metadata r) (filter_field f) of
        None \<Rightarrow> False
      | Some v \<Rightarrow> if v \<noteq> filter_value f then False else MatchesFilters r fs)"

definition dot_product :: "fp_api \<Rightarrow> float32 list \<Rightarrow> float32 list \<Rightarrow> float64" where
  "dot_product fp u v =
     fold (\<lambda>(x, y) dot. d_add fp dot (d_mul fp (f2d fp x) (f2d fp y))) (zip u v) d_zero"

definition CosineSimilarity :: "fp_api \<Rightarrow> float32 list \<Rightarrow> float32 list \<Rightarrow> float64" where
  "CosineSimilarity fp lhs rhs =
     (if length lhs \<noteq> length rhs then d_minus_one else dot_product fp lhs rhs)"

definition search_hit_of :: "fp_api \<Rightarrow> float32 list \<Rightarrow> VectorEntry \<Rightarrow> search_hit" where
  "search_hit_of fp q e =
     \<lparr>ref_collection = doc_collection (ve_record e), ref_key = doc_key (ve_record e),
      ref_score = CosineSimilarity fp q (ve_vector e), ref_metadata = doc_metadata (ve_record e)\<rparr>"

definition better :: "fp_api \<Rightarrow> search_hit \<Rightarrow> search_hit \<Rightarrow> bool" where
  "better fp lhs rhs = d_gt fp (ref_score lhs) (ref_score rhs)"

definition matching_entries :: "string \<Rightarrow> SearchFilter list \<Rightarrow> (string, VectorEntry) omap \<Rightarrow> VectorEntry list" where
  "matching_entries c filters m =
     filter (\<lambda>e. doc_collection (ve_record e) = c \<and> MatchesFilters (ve_record e) filters) (map snd m)"

definition Index_Search ::
  "fp_api \<Rightarrow> string \<Rightarrow> float32 list \<Rightarrow> SearchFilter list \<Rightarrow> nat \<Rightarrow> vector_store \<Rightarrow> search_hit list StatusOr" where
  "Index_Search fp c query filters top_k ix =
     (if query = [] then Inl (InvalidArgument ''query vector cannot be empty'')
      else
        let matches = map (search_hit_of fp query) (matching_entries c filters (entries ix));
            sorted = std_sort fp (better fp) matches
        in Inr (if length sorted > top_k then take top_k sorted else sorted))"

definition index_bytes :: "pb_api \<Rightarrow> (string, VectorEntry) omap \<Rightarrow> string" where
  "index_bytes pb m = MagicHeader @ concat (map (\<lambda>(_, e). EncodeFrame (EncodeVectorEntry pb e)) m)"

definition Index_FlushSnapshot :: "pb_api \<Rightarrow> fs \<times> vector_store \<Rightarrow> Status \<times> fs \<times> vector_store" where
  "Index_FlushSnapshot pb = (\<lambda>(s, ix).
     let status = EnsureParentDirectory index_parent_error s (index_path ix) in
     if \<not> ok status then (status, s, ix)
     else if \<not> fs_writable s (index_path ix) then (Internal ''failed to open index snapshot file'', s, ix)
     else (Ok, write_file (index_path ix) (index_bytes pb (entries ix)) s, ix))"

definition Index_destroy :: "pb_api \<Rightarrow> fs \<times> vector_store \<Rightarrow> fs" where
  "Index_destroy pb x = fst (snd (Index_FlushSnapshot pb x))"

text \<open>\<open>CreateVectorIndex\<close> in a build without FAISS.\<close>

definition CreateVectorIndex ::
  "pb_api \<Rightarrow> fp_api \<Rightarrow> string \<Rightarrow> string \<Rightarrow> fs \<Rightarrow> vector_store StatusOr outcome \<times> fs" where
  "CreateVectorIndex pb fp search_backend path s =
     (if search_backend = ''faiss''
      then (Ret (Inl (NotSupported ''faiss backend requested but library is not available in this build'')), s)
      else if search_backend \<noteq> ''brute_force'' \<and> search_backend \<noteq> ''auto''
      then (Ret (Inl (InvalidArgument (''unsupported search backend: '' @ search_backend))), s)
      else case Index_Recover pb fp s (new_vector_store path) of
             (ix, Throw e) \<Rightarrow> (Throw e, Index_destroy pb (s, ix))
           | (ix, Ret status) \<Rightarrow>
               if \<not> ok status then (Ret (Inl status), Index_destroy pb (s, ix))
               else (Ret (Inr ix), s))"

subsection \<open>The index as an interface\<close>

locale vector_index =
  fixes vectors :: "'x \<Rightarrow> string \<Rightarrow> VectorEntry option"
    and upsert :: "DocumentRecord \<Rightarrow> float32 list \<Rightarrow> 'x \<Rightarrow> Status \<times> 'x"
    and remove :: "string \<Rightarrow> string \<Rightarrow> 'x \<Rightarrow> Status \<times> 'x"
  assumes upsert_ok: "v \<noteq> [] \<Longrightarrow> ok (fst (upsert r v x)) \<and>
      vectors (snd (upsert r v x)) =
        (vectors x)(document_key r \<mapsto> \<lparr>ve_record = r, ve_vector = v\<rparr>)"
    and upsert_empty: "\<not> ok (fst (upsert r [] x)) \<and> vectors (snd (upsert r [] x)) = vectors x"
    and remove_ok: "ok (fst (remove c k x)) \<and>
      vectors (snd (remove c k x)) = (vectors x)(BuildCompositeKey c k := None)"
begin

lemma remove_idempotent: "vectors (snd (remove c k (snd (remove c k x)))) = vectors (snd (remove c k x))"
  by (simp add: remove_ok)

lemma upsert_idempotent:
  "vectors (snd (upsert r v (snd (upsert r v x)))) = vectors (snd (upsert r v x))"
  by (cases "v = []") (simp_all add: upsert_ok upsert_empty)

end

text \<open>
  What both indexes promise, which of the vectors says nothing: the documents that an index
  holds are those of a map under the same calls. The brute-force index promises it too.
\<close>

datatype index_call = Index_Put DocumentRecord "float32 list" | Index_Drop string string

fun index_effect :: "index_call \<Rightarrow> (string \<rightharpoonup> DocumentRecord) \<Rightarrow> (string \<rightharpoonup> DocumentRecord)" where
  "index_effect (Index_Put r v) m = (if v = [] then m else m(document_key r \<mapsto> r))"
| "index_effect (Index_Drop c k) m = m(BuildCompositeKey c k := None)"

locale document_index =
  fixes good :: "'x \<Rightarrow> bool"
    and documents :: "'x \<Rightarrow> string \<Rightarrow> DocumentRecord option"
    and upsert :: "DocumentRecord \<Rightarrow> float32 list \<Rightarrow> 'x \<Rightarrow> Status \<times> 'x"
    and remove :: "string \<Rightarrow> string \<Rightarrow> 'x \<Rightarrow> Status \<times> 'x"
  assumes upsert_good: "good x \<Longrightarrow> good (snd (upsert r v x))"
    and remove_good: "good x \<Longrightarrow> good (snd (remove c k x))"
    and upsert_documents: "good x \<Longrightarrow> documents (snd (upsert r v x)) = index_effect (Index_Put r v) (documents x)"
    and upsert_status: "good x \<Longrightarrow> ok (fst (upsert r v x)) \<longleftrightarrow> v \<noteq> []"
    and remove_documents: "good x \<Longrightarrow> ok (fst (remove c k x)) \<and>
      documents (snd (remove c k x)) = index_effect (Index_Drop c k) (documents x)"
begin

fun index_step :: "index_call \<Rightarrow> 'x \<Rightarrow> 'x" where
  "index_step (Index_Put r v) x = snd (upsert r v x)"
| "index_step (Index_Drop c k) x = snd (remove c k x)"

lemma index_step_good: "good x \<Longrightarrow> good (index_step call x)"
  by (cases call) (simp_all add: upsert_good remove_good)

lemma index_step_documents: "good x \<Longrightarrow> documents (index_step call x) = index_effect call (documents x)"
  by (cases call) (simp_all add: upsert_documents remove_documents del: index_effect.simps)

lemma index_run:
  "good x \<Longrightarrow> good (fold index_step calls x) \<and>
    documents (fold index_step calls x) = fold index_effect calls (documents x)"
  by (induction calls arbitrary: x) (simp_all add: index_step_good index_step_documents)

end

sublocale vector_index \<subseteq> held: document_index "\<lambda>_. True" "\<lambda>x k. map_option ve_record (vectors x k)" upsert remove
proof unfold_locales
  fix r v x
  show "(\<lambda>k. map_option ve_record (vectors (snd (upsert r v x)) k)) =
      index_effect (Index_Put r v) (\<lambda>k. map_option ve_record (vectors x k))"
    by (cases "v = []") (auto simp: upsert_ok upsert_empty)
  show "ok (fst (upsert r v x)) \<longleftrightarrow> v \<noteq> []"
    by (cases "v = []") (simp_all add: upsert_ok upsert_empty)
qed (auto simp: remove_ok)

interpretation brute_index: vector_index "\<lambda>ix. map_of (entries ix)" Index_Upsert Index_Remove
  by unfold_locales (simp_all add: Index_Upsert_def Index_Remove_def put_vector_def)

subsection \<open>A concrete instance of the parameter\<close>

fun insert_by :: "('a \<Rightarrow> 'a \<Rightarrow> bool) \<Rightarrow> 'a \<Rightarrow> 'a list \<Rightarrow> 'a list" where
  "insert_by gt x [] = [x]"
| "insert_by gt x (y # ys) = (if gt x y then x # y # ys else y # insert_by gt x ys)"

fun sort_by :: "('a \<Rightarrow> 'a \<Rightarrow> bool) \<Rightarrow> 'a list \<Rightarrow> 'a list" where
  "sort_by gt [] = []"
| "sort_by gt (x # xs) = insert_by gt x (sort_by gt xs)"

lemma mset_insert_by [simp]: "mset (insert_by gt x ys) = add_mset x (mset ys)"
  by (induction ys) auto

lemma mset_sort_by [simp]: "mset (sort_by gt xs) = mset xs"
  by (induction xs) auto

lemma set_insert_by: "set (insert_by gt x ys) = insert x (set ys)"
  by (induction ys) auto

lemma set_sort_by: "set (sort_by gt xs) = set xs"
  by (metis mset_sort_by set_mset_mset)

lemma sorted_insert_by:
  assumes "weak_order_on gt (insert x (set ys))" and "sorted_wrt (\<lambda>x y. \<not> gt y x) ys"
  shows "sorted_wrt (\<lambda>x y. \<not> gt y x) (insert_by gt x ys)"
  using assms
proof (induction ys)
  case (Cons y ys)
  have w: "weak_order_on gt (insert x (set ys))"
    using Cons.prems(1) by (simp add: weak_order_on_def)
  show ?case
  proof (cases "gt x y")
    case True
    have "\<not> gt z x" if "z \<in> set ys" for z
    proof
      assume "gt z x"
      with Cons.prems(1) that have "gt z y \<or> gt y x" by (simp add: weak_order_on_def)
      moreover have "\<not> gt z y" using Cons.prems(2) that by simp
      moreover have "\<not> gt y x" using Cons.prems(1) True by (simp add: weak_order_on_def)
      ultimately show False by blast
    qed
    with True Cons.prems show ?thesis by (auto simp: weak_order_on_def)
  next
    case False
    with Cons w show ?thesis by (auto simp: set_insert_by)
  qed
qed simp

lemma sorted_sort_by: "weak_order_on gt (set xs) \<Longrightarrow> sorted_wrt (\<lambda>x y. \<not> gt y x) (sort_by gt xs)"
proof (induction xs)
  case (Cons x xs)
  then have "weak_order_on gt (set xs)" by (simp add: weak_order_on_def)
  with Cons show ?case by (simp add: sorted_insert_by set_sort_by)
qed simp

definition plain_fp :: fp_api where
  "plain_fp = \<lparr>f2d = ucast, d_add = (+), d_mul = (*), d_gt = (\<lambda>x y. y < x),
     std_stof = (\<lambda>s. outcome_bind (cxx_stoul s) (\<lambda>n. Ret (word_of_nat n))), std_sort = sort_by\<rparr>"

lemma plain_fp_sort_law: "sort_law plain_fp"
  by (simp add: sort_law_def plain_fp_def sorted_sort_by)

lemma plain_fp_weak_order: "weak_order_on (better plain_fp) S"
  by (auto simp: weak_order_on_def better_def plain_fp_def)

subsection \<open>Searching\<close>

text \<open>A document passes the filters if it has the metadata value that each of them names.\<close>

definition passes :: "SearchFilter list \<Rightarrow> DocumentRecord \<Rightarrow> bool" where
  "passes filters r \<longleftrightarrow> (\<forall>f \<in> set filters. map_of (doc_metadata r) (filter_field f) = Some (filter_value f))"

lemma MatchesFilters_passes: "MatchesFilters r filters \<longleftrightarrow> passes filters r"
  by (induction filters) (auto simp: passes_def split: option.split)

text \<open>
  C25: a search returns the best matches: only documents of the collection that pass every
  filter, at most \<open>top_k\<close> and otherwise all of them, best score first, and no document
  that was left out beats one that was returned.
\<close>

theorem search_returns_the_best_matches:
  fixes fp c filters query ix top_k
  defines "matches \<equiv> map (search_hit_of fp query)
    (filter (\<lambda>e. doc_collection (ve_record e) = c \<and> passes filters (ve_record e)) (map snd (entries ix)))"
  assumes "sort_law fp" and "weak_order_on (better fp) (set matches)" and "query \<noteq> []"
  shows "\<exists>hits. Index_Search fp c query filters top_k ix = Inr hits \<and>
    length hits = min top_k (length matches) \<and>
    sorted_wrt (\<lambda>x y. \<not> better fp y x) hits \<and>
    (\<exists>others. mset matches = mset hits + mset others \<and>
       (\<forall>h \<in> set hits. \<forall>x \<in> set others. \<not> better fp x h))"
proof -
  let ?s = "std_sort fp (better fp) matches"
  have m: "mset ?s = mset matches" and so: "sorted_wrt (\<lambda>x y. \<not> better fp y x) ?s"
    using assms(2,3) by (simp_all add: sort_law_def)
  have len: "length ?s = length matches" using m by (metis size_mset)
  have split: "sorted_wrt (\<lambda>x y. \<not> better fp y x) (take top_k ?s @ drop top_k ?s)" using so by simp
  have "Index_Search fp c query filters top_k ix = Inr (take top_k ?s)"
    using assms(4) by (simp add: Index_Search_def Let_def matches_def matching_entries_def MatchesFilters_passes)
  moreover have "length (take top_k ?s) = min top_k (length matches)" by (simp add: len)
  moreover have "mset matches = mset (take top_k ?s) + mset (drop top_k ?s)"
    by (metis append_take_drop_id m mset_append)
  moreover have "\<forall>h \<in> set (take top_k ?s). \<forall>x \<in> set (drop top_k ?s). \<not> better fp x h"
    using split unfolding sorted_wrt_append by blast
  moreover have "sorted_wrt (\<lambda>x y. \<not> better fp y x) (take top_k ?s)"
    using split unfolding sorted_wrt_append by blast
  ultimately show ?thesis by blast
qed

definition sample_entry :: "string \<Rightarrow> float32 \<Rightarrow> VectorEntry" where
  "sample_entry k x = \<lparr>ve_record = empty_document\<lparr>doc_collection := ''c'', doc_key := k\<rparr>, ve_vector = [x]\<rparr>"

definition sample_index :: vector_store where
  "sample_index = (new_vector_store ''i'')\<lparr>entries :=
     [(document_key (ve_record (sample_entry ''a'' 1)), sample_entry ''a'' 1),
      (document_key (ve_record (sample_entry ''b'' 2)), sample_entry ''b'' 2)]\<rparr>"

theorem search_returns_the_best_matches_witness:
  "\<exists>hits. Index_Search plain_fp ''c'' [3] [] 1 sample_index = Inr hits \<and> length hits = 1"
  using search_returns_the_best_matches [OF plain_fp_sort_law plain_fp_weak_order,
    where query = "[3]" and top_k = 1 and c = "''c''" and filters = "[]" and ix = sample_index]
  by (auto simp: passes_def sample_index_def sample_entry_def)

subsection \<open>Snapshots\<close>

definition vectors_inv :: "(string, VectorEntry) omap \<Rightarrow> bool" where
  "vectors_inv m \<longleftrightarrow> omap_wf m \<and> (\<forall>(k, e) \<in> set m. k = document_key (ve_record e))"

lemma vectors_inv_put: "vectors_inv m \<Longrightarrow> vectors_inv (put_vector e m)"
  using set_omap_put_subset [of "document_key (ve_record e)" e m]
  by (auto simp: vectors_inv_def put_vector_def)

lemma vectors_inv_Remove: "vectors_inv (entries ix) \<Longrightarrow> vectors_inv (entries (snd (Index_Remove c k ix)))"
  by (auto simp: vectors_inv_def Index_Remove_def omap_erase_def)

lemma fold_put_vector_self:
  assumes "vectors_inv m"
  shows "fold put_vector (map snd m) [] = m"
proof -
  have "fold put_vector (map snd xs) n = fold (\<lambda>(k, v). omap_put k v) xs n"
    if "\<forall>(k, e) \<in> set xs. k = document_key (ve_record e)" for xs n
    using that by (induction xs arbitrary: n) (auto simp: put_vector_def)
  with assms show ?thesis
    using fold_put_self [of m] by (simp add: vectors_inv_def)
qed

lemma index_bytes_framed: "index_bytes pb m = framed_file (EncodeVectorEntry pb) (map snd m)"
  by (induction m) (auto simp: index_bytes_def framed_file_def)

text \<open>
  Flushing an index and opening it again on the resulting files gives the same index.
\<close>

lemma index_flush_and_open:
  assumes "pb_laws pb" and "usable s (index_path ix)" and "vectors_inv (entries ix)"
    and "\<forall>e \<in> snd ` set (entries ix). vector_entry_ok pb e"
    and "search_backend = ''brute_force'' \<or> search_backend = ''auto''"
  shows "\<exists>s'. Index_FlushSnapshot pb (s, ix) = (Ok, s', ix) \<and>
    CreateVectorIndex pb fp search_backend (index_path ix) s' = (Ret (Inr ix), s')"
proof -
  let ?s = "write_file (index_path ix) (framed_file (EncodeVectorEntry pb) (map snd (entries ix))) s"
  have flush: "Index_FlushSnapshot pb (s, ix) = (Ok, ?s, ix)"
    using assms(2) usable_EnsureParentDirectory [OF assms(2)]
    by (simp add: Index_FlushSnapshot_def Let_def index_bytes_framed usable_def)
  have good: "\<forall>e \<in> set (map snd (entries ix)). pb_laws pb \<and> vector_entry_ok pb e"
    using assms(1,4) by auto
  have "frame_loop (DecodeVectorEntry pb) put_vector (map (EncodeVectorEntry pb) (map snd (entries ix))) []
      = (entries ix, Ok)"
    using vector_codec.frame_loop_enc [OF good, of put_vector "[]"] fold_put_vector_self [OF assms(3)] by simp
  then have "Index_Recover pb fp ?s (new_vector_store (index_path ix)) = (ix, Ret Ok)"
    using assms(2) vector_codec.frames_of_file [OF good]
    by (simp add: Index_Recover_def ReadWholeFile_def usable_def new_vector_store_def)
  with flush assms(5) show ?thesis by (auto simp: CreateVectorIndex_def)
qed

lemma sample_vectors_ok: "vector_entry_ok plain_pb (sample_entry ''a'' 1)" "vector_entry_ok plain_pb (sample_entry ''b'' 2)"
  by (simp_all add: vector_entry_ok_def sample_entry_def plain_pb_def ToProtoVector_def ToProto_def
      record_field_def doc_fields_def flatten_pairs_def word_text_def empty_document_def)

lemma index_flush_and_open_sample:
  "\<exists>s'. Index_FlushSnapshot plain_pb (empty_fs, sample_index) = (Ok, s', sample_index) \<and>
    CreateVectorIndex plain_pb plain_fp ''auto'' (index_path sample_index) s' = (Ret (Inr sample_index), s')"
  by (rule index_flush_and_open [OF plain_pb_laws])
    (use sample_vectors_ok in \<open>auto simp: usable_def empty_fs_def sample_index_def vectors_inv_def omap_wf_def
      sample_entry_def document_key_def\<close>)

end
