(* ===== verification/Faiss_Index.thy ===== *)
theory Faiss_Index
  imports Vector_Index
begin

text \<open>
  \<open>FaissVectorIndex\<close> of \<open>src/search/vector_index.cpp\<close>: documents under integer ids, a map
  from composite keys to ids, and vectors held by a FAISS index, of which only some may be
  trained yet. FAISS is third-party code: an index is a value of a type parameter and the
  functions the code calls are the fields of \<open>faiss_api\<close>; \<open>faiss_laws\<close> states what its
  documentation says of them. Ids are \<open>idx_t\<close>, 64-bit signed, here
  integers; reading or writing an index file that cannot be opened is an error of FAISS.
\<close>

record 'i faiss_api =
  fx_flat :: "nat \<Rightarrow> 'i"
  fx_add :: "int \<Rightarrow> float32 list \<Rightarrow> 'i \<Rightarrow> 'i"
  fx_remove :: "int \<Rightarrow> 'i \<Rightarrow> 'i"
  fx_search :: "'i \<Rightarrow> nat \<Rightarrow> float32 list \<Rightarrow> nat \<Rightarrow> (int \<times> float32) list"
  fx_is_flat :: "'i \<Rightarrow> bool"
  fx_nlist :: "'i \<Rightarrow> nat option"
  fx_train :: "nat \<Rightarrow> nat \<Rightarrow> float32 list list \<Rightarrow> string + 'i"
  fx_write :: "bool \<Rightarrow> 'i \<Rightarrow> string + string"
  fx_read :: "string option \<Rightarrow> string + 'i option"
  fx_ids :: "'i \<Rightarrow> int set"

text \<open>
  A result id is an id that was added and not removed since; an index that was written is
  read back as it was. \<open>fx_ids\<close> is the set of these ids, used in the laws only.
\<close>

definition faiss_laws :: "'i faiss_api \<Rightarrow> bool" where
  "faiss_laws fx \<longleftrightarrow>
     (\<forall>d. fx_ids fx (fx_flat fx d) = {}) \<and>
     (\<forall>i v x. fx_ids fx (fx_add fx i v x) = insert i (fx_ids fx x)) \<and>
     (\<forall>i x. fx_ids fx (fx_remove fx i x) = fx_ids fx x - {i}) \<and>
     (\<forall>x n q k. \<forall>r \<in> set (fx_search fx x n q k). fst r = -1 \<or> fst r \<in> fx_ids fx x) \<and>
     (\<forall>w x b. fx_write fx w x = Inr b \<longrightarrow> fx_read fx (Some b) = Inr (Some x))"

subsection \<open>State\<close>

record pending_vector =
  pv_id :: int
  pv_vector :: "float32 list"
  pv_record :: DocumentRecord
  pv_key :: string

record 'i faiss_store =
  fs_path :: string
  nlist :: nat
  nprobe :: nat
  index :: "'i option"
  fentries :: "(int, DocumentRecord) omap"
  key_to_id :: "(string, int) omap"
  next_id :: int
  dimensions :: nat
  needs_training :: bool
  training_threshold :: nat
  untrained :: "pending_vector list"

definition new_faiss_store :: "string \<Rightarrow> nat \<Rightarrow> nat \<Rightarrow> 'i faiss_store" where
  "new_faiss_store path n p = \<lparr>fs_path = path, nlist = n, nprobe = p, index = None, fentries = [],
     key_to_id = [], next_id = 1, dimensions = 0, needs_training = False, training_threshold = 100,
     untrained = []\<rparr>"

definition metadata_path :: "'i faiss_store \<Rightarrow> string" where
  "metadata_path x = fs_path x @ ''.meta''"

subsection \<open>Updates\<close>

definition EnsureIndex :: "'i faiss_api \<Rightarrow> nat \<Rightarrow> 'i faiss_store \<Rightarrow> 'i faiss_store" where
  "EnsureIndex fx d x =
     (case index x of
        Some _ \<Rightarrow> x
      | None \<Rightarrow> x\<lparr>index := Some (fx_flat fx d), dimensions := d, needs_training := (nlist x > 0),
                  training_threshold := max 100 (nlist x * 30)\<rparr>)"

definition add_pending :: "'i faiss_api \<Rightarrow> pending_vector list \<Rightarrow> 'i \<Rightarrow> 'i" where
  "add_pending fx ps ix = fold (\<lambda>p. fx_add fx (pv_id p) (pv_vector p)) ps ix"

text \<open>\<open>sqrt\<close> of the number of vectors, for an \<open>nlist\<close> that is not configured.\<close>

fun isqrt_from :: "nat \<Rightarrow> nat \<Rightarrow> nat" where
  "isqrt_from 0 n = 0"
| "isqrt_from (Suc m) n = (if Suc m * Suc m \<le> n then Suc m else isqrt_from m n)"

definition isqrt :: "nat \<Rightarrow> nat" where
  "isqrt n = isqrt_from n n"

definition TrainIVF :: "'i faiss_api \<Rightarrow> 'i faiss_store \<Rightarrow> 'i faiss_store" where
  "TrainIVF fx x =
     (case index x of
        None \<Rightarrow> x
      | Some ix \<Rightarrow>
          if \<not> needs_training x \<or> untrained x = [] then x
          else
            let effective_nlist = (if nlist x > 0 then nlist x else isqrt (length (untrained x))) in
            if length (untrained x) < effective_nlist * 2 then x
            else if \<not> fx_is_flat fx ix then x
            else
              let index' = (case fx_train fx effective_nlist (dimensions x) (map pv_vector (untrained x)) of
                              Inr ivf \<Rightarrow> add_pending fx (untrained x) ivf
                            | Inl _ \<Rightarrow> add_pending fx (untrained x) ix)
              in x\<lparr>index := Some index', needs_training := False, untrained := []\<rparr>)"

definition Faiss_Upsert ::
  "'i faiss_api \<Rightarrow> DocumentRecord \<Rightarrow> float32 list \<Rightarrow> 'i faiss_store \<Rightarrow> Status \<times> 'i faiss_store" where
  "Faiss_Upsert fx r v x =
     (if v = [] then (InvalidArgument ''index vector cannot be empty'', x)
      else
        let x1 = EnsureIndex fx (length v) x;
            composite_key = document_key r;
            fresh = next_id x1;
            x2 = x1\<lparr>next_id := fresh + 1\<rparr>;
            (i, x3) = (case map_of (key_to_id x2) composite_key of
                         None \<Rightarrow> (fresh, x2)
                       | Some old \<Rightarrow> (old, x2\<lparr>index := map_option (fx_remove fx old) (index x2)\<rparr>));
            x4 = (if needs_training x3
                  then
                    let y = x3\<lparr>untrained := untrained x3 @
                          [\<lparr>pv_id = i, pv_vector = v, pv_record = r, pv_key = composite_key\<rparr>]\<rparr>
                    in if length (untrained y) \<ge> training_threshold y then TrainIVF fx y else y
                  else x3\<lparr>index := map_option (fx_add fx i v) (index x3)\<rparr>)
        in (Ok, x4\<lparr>fentries := omap_put i r (fentries x4), key_to_id := omap_put composite_key i (key_to_id x4)\<rparr>))"

definition Faiss_Remove ::
  "'i faiss_api \<Rightarrow> string \<Rightarrow> string \<Rightarrow> 'i faiss_store \<Rightarrow> Status \<times> 'i faiss_store" where
  "Faiss_Remove fx c k x =
     (let composite_key = BuildCompositeKey c k in
      case (map_of (key_to_id x) composite_key, index x) of
        (Some i, Some ix) \<Rightarrow>
          (Ok, x\<lparr>index := Some (fx_remove fx i ix), fentries := omap_erase i (fentries x),
                 key_to_id := omap_erase composite_key (key_to_id x)\<rparr>)
      | _ \<Rightarrow> (Ok, x))"

subsection \<open>Search\<close>

definition faiss_hit :: "DocumentRecord \<Rightarrow> float64 \<Rightarrow> search_hit" where
  "faiss_hit r score = \<lparr>ref_collection = doc_collection r, ref_key = doc_key r, ref_score = score,
     ref_metadata = doc_metadata r\<rparr>"

text \<open>The loop over what the index returned; it stops when \<open>top_k\<close> results are pushed.\<close>

fun collect_hits ::
  "fp_api \<Rightarrow> string \<Rightarrow> SearchFilter list \<Rightarrow> nat \<Rightarrow> (int, DocumentRecord) omap \<Rightarrow>
     (int \<times> float32) list \<Rightarrow> search_hit list \<Rightarrow> search_hit list" where
  "collect_hits fp c filters top_k m [] results = results"
| "collect_hits fp c filters top_k m ((i, d) # rs) results =
     (case (if i < 0 then None else map_of m i) of
        None \<Rightarrow> collect_hits fp c filters top_k m rs results
      | Some r \<Rightarrow>
          if doc_collection r \<noteq> c \<or> \<not> MatchesFilters r filters
          then collect_hits fp c filters top_k m rs results
          else
            let results' = results @ [faiss_hit r (f2d fp d)] in
            if length results' \<ge> top_k then results'
            else collect_hits fp c filters top_k m rs results')"

definition pending_hits ::
  "fp_api \<Rightarrow> string \<Rightarrow> float32 list \<Rightarrow> SearchFilter list \<Rightarrow> pending_vector list \<Rightarrow> search_hit list" where
  "pending_hits fp c query filters ps =
     map (\<lambda>p. faiss_hit (pv_record p) (dot_product fp query (pv_vector p)))
       (filter (\<lambda>p. doc_collection (pv_record p) = c \<and> MatchesFilters (pv_record p) filters) ps)"

definition effective_nprobe :: "'i faiss_api \<Rightarrow> 'i faiss_store \<Rightarrow> 'i \<Rightarrow> nat" where
  "effective_nprobe fx x ix =
     (case fx_nlist fx ix of
        None \<Rightarrow> 0
      | Some n \<Rightarrow> if nprobe x > 0 then nprobe x else max 1 (isqrt n))"

definition Faiss_Search ::
  "'i faiss_api \<Rightarrow> fp_api \<Rightarrow> string \<Rightarrow> float32 list \<Rightarrow> SearchFilter list \<Rightarrow> nat \<Rightarrow> 'i faiss_store \<Rightarrow>
     search_hit list StatusOr" where
  "Faiss_Search fx fp c query filters top_k x =
     (if query = [] then Inl (InvalidArgument ''query vector cannot be empty'')
      else case index x of
        None \<Rightarrow> Inr []
      | Some ix \<Rightarrow>
          let search_k = max (top_k * 4) top_k;
              found = fx_search fx ix (effective_nprobe fx x ix) query search_k;
              results = collect_hits fp c filters top_k (fentries x) found []
                @ pending_hits fp c query filters (untrained x);
              sorted = std_sort fp (better fp) results
          in Inr (if length sorted > top_k then take top_k sorted else sorted))"

subsection \<open>Snapshots\<close>

definition Faiss_FlushSnapshot ::
  "pb_api \<Rightarrow> 'i faiss_api \<Rightarrow> fs \<times> 'i faiss_store \<Rightarrow> Status \<times> fs \<times> 'i faiss_store" where
  "Faiss_FlushSnapshot pb fx = (\<lambda>(s, x).
     let status = EnsureParentDirectory index_parent_error s (fs_path x);
         metadata = MagicHeader @ concat (map (\<lambda>(_, r).
           EncodeFrame (EncodeVectorEntry pb \<lparr>ve_record = r, ve_vector = []\<rparr>)) (fentries x));
         write_metadata = (\<lambda>s1.
           if \<not> fs_writable s1 (metadata_path x)
           then (Internal ''failed to open faiss metadata snapshot'', s1, x)
           else (Ok, write_file (metadata_path x) metadata s1, x))
     in if \<not> ok status then (status, s, x)
        else case index x of
          None \<Rightarrow> write_metadata s
        | Some ix \<Rightarrow>
            (case fx_write fx (fs_writable s (fs_path x)) ix of
               Inl what \<Rightarrow> (Internal (''faiss flush failed: '' @ what), s, x)
             | Inr bytes \<Rightarrow> write_metadata (write_file (fs_path x) bytes s)))"

definition recover_entry :: "VectorEntry \<Rightarrow> 'i faiss_store \<Rightarrow> 'i faiss_store" where
  "recover_entry e x =
     (let i = next_id x in
      x\<lparr>next_id := i + 1, fentries := omap_put i (ve_record e) (fentries x),
        key_to_id := omap_put (document_key (ve_record e)) i (key_to_id x)\<rparr>)"

fun faiss_lines :: "string list \<Rightarrow> 'i faiss_store \<Rightarrow> 'i faiss_store \<times> Status outcome" where
  "faiss_lines [] x = (x, Ret Ok)"
| "faiss_lines (line # ls) x =
     (let parts = SplitEscaped line CHR ''|'' in
      if length parts \<noteq> 6 then faiss_lines ls x
      else case cxx_stoll (parts ! 0) of
        Throw e \<Rightarrow> (x, Throw e)
      | Ret i \<Rightarrow>
          let r = empty_document\<lparr>
                doc_collection := Unescape (parts ! 1), doc_key := Unescape (parts ! 2),
                doc_title := Unescape (parts ! 3), doc_body := Unescape (parts ! 4),
                doc_metadata := IndexDeserializeMetadata (parts ! 5)\<rparr>
          in faiss_lines ls (x\<lparr>fentries := omap_put i r (fentries x),
               key_to_id := omap_put (document_key r) i (key_to_id x), next_id := max (next_id x) (i + 1)\<rparr>))"

definition recover_metadata ::
  "pb_api \<Rightarrow> fs \<Rightarrow> 'i faiss_store \<Rightarrow> 'i faiss_store \<times> Status outcome" where
  "recover_metadata pb s x =
     (case ReadWholeFile (index_not_found (metadata_path x)) s (metadata_path x) of
        Inl _ \<Rightarrow> (x, Ret Ok)
      | Inr bytes \<Rightarrow>
          if HasPersistenceMagic bytes
          then (case DecodeFrames bytes of
                  Inl e \<Rightarrow> (x, Ret e)
                | Inr frames \<Rightarrow>
                    let (x', status) = frame_loop (DecodeVectorEntry pb) recover_entry frames x
                    in (x', Ret status))
          else faiss_lines (getlines newline bytes) x)"

definition Faiss_Recover ::
  "pb_api \<Rightarrow> 'i faiss_api \<Rightarrow> fs \<Rightarrow> 'i faiss_store \<Rightarrow> 'i faiss_store \<times> Status outcome" where
  "Faiss_Recover pb fx s x =
     (let x0 = x\<lparr>fentries := [], key_to_id := [], next_id := 1, untrained := []\<rparr> in
      if file_exists s (fs_path x)
      then (case fx_read fx (if fs_readable s (fs_path x) then Some (file_bytes s (fs_path x)) else None) of
              Inl what \<Rightarrow> (x0, Ret (Internal (''faiss recover failed: '' @ what)))
            | Inr None \<Rightarrow> (x0\<lparr>index := None\<rparr>, Ret (Internal ''failed to recover faiss index''))
            | Inr (Some ix) \<Rightarrow> recover_metadata pb s (x0\<lparr>index := Some ix\<rparr>))
      else recover_metadata pb s x0)"

subsection \<open>A concrete instance of the parameter\<close>

definition int_text :: "string \<Rightarrow> int" where
  "int_text s = (case parse_number s of None \<Rightarrow> 0 | Some (neg, n) \<Rightarrow> if neg then - int n else int n)"

lemma int_text_to_string [simp]: "int_text (to_string_int i) = i"
  by (simp add: int_text_def parse_number_to_string_int)

definition vec_field :: "int \<times> float32 list \<Rightarrow> string" where
  "vec_field = (\<lambda>(i, v). put_texts (to_string_int i # map word_text v))"

definition field_vec :: "string \<Rightarrow> int \<times> float32 list" where
  "field_vec s = (case read_texts s of Some (i # v) \<Rightarrow> (int_text i, map text_word v) | _ \<Rightarrow> (0, []))"

lemma field_vec_field [simp]: "field_vec (vec_field x) = x"
  by (cases x) (simp add: field_vec_def vec_field_def comp_def del: put_texts.simps)

definition plain_faiss :: "(int \<times> float32 list) list faiss_api" where
  "plain_faiss = \<lparr>fx_flat = (\<lambda>d. []), fx_add = (\<lambda>i v x. (i, v) # x),
     fx_remove = (\<lambda>i x. filter (\<lambda>p. fst p \<noteq> i) x),
     fx_search = (\<lambda>x n q k. take k (map (\<lambda>p. (fst p, 0)) x)), fx_is_flat = (\<lambda>x. True),
     fx_nlist = (\<lambda>x. None), fx_train = (\<lambda>n d vs. Inr []),
     fx_write = (\<lambda>w x. if w then Inr (put_texts (map vec_field x)) else Inl ''not writable''),
     fx_read = (\<lambda>b. case b of None \<Rightarrow> Inl ''not readable''
                            | Some s \<Rightarrow> Inr (map_option (map field_vec) (read_texts s))),
     fx_ids = (\<lambda>x. fst ` set x)\<rparr>"

lemma plain_faiss_laws: "faiss_laws plain_faiss"
  by (auto simp: faiss_laws_def plain_faiss_def comp_def dest!: in_set_takeD split: if_splits)

subsection \<open>Restarts\<close>

lemma faiss_laws_simps:
  assumes "faiss_laws fx"
  shows "fx_ids fx (fx_flat fx d) = {}" "fx_ids fx (fx_add fx i v x) = insert i (fx_ids fx x)"
    "fx_ids fx (fx_remove fx i x) = fx_ids fx x - {i}"
    "r \<in> set (fx_search fx x n q k) \<Longrightarrow> fst r = -1 \<or> fst r \<in> fx_ids fx x"
    "fx_write fx w x = Inr b \<Longrightarrow> fx_read fx (Some b) = Inr (Some x)"
  using assms unfolding faiss_laws_def by blast+

text \<open>Results whose ids the entries do not know are dropped.\<close>

lemma collect_hits_unknown:
  "\<forall>r \<in> set found. fst r < 0 \<or> map_of m (fst r) = None \<Longrightarrow> collect_hits fp c filters k m found acc = acc"
  by (induction found arbitrary: acc) auto

lemma std_sort_Nil: "sort_law fp \<Longrightarrow> std_sort fp gt [] = []"
  by (auto simp: sort_law_def weak_order_on_def dest!: spec [of _ gt] spec [of _ "[]"])

lemma std_sort_single: "sort_law fp \<Longrightarrow> \<not> gt h h \<Longrightarrow> std_sort fp gt [h] = [h]"
  by (auto simp: sort_law_def weak_order_on_def dest!: spec [of _ gt] spec [of _ "[h]"])

lemma Faiss_Search_unknown:
  assumes "faiss_laws fx" and "sort_law fp" and "query \<noteq> []" and "untrained x = []"
    and "\<forall>ix. index x = Some ix \<longrightarrow> fx_ids fx ix \<inter> dom (map_of (fentries x)) = {}"
  shows "Faiss_Search fx fp c query filters top_k x = Inr []"
proof (cases "index x")
  case (Some ix)
  have "collect_hits fp c filters top_k (fentries x)
      (fx_search fx ix (effective_nprobe fx x ix) query (max (top_k * 4) top_k)) [] = []"
  proof (rule collect_hits_unknown, intro ballI)
    fix r
    assume "r \<in> set (fx_search fx ix (effective_nprobe fx x ix) query (max (top_k * 4) top_k))"
    from faiss_laws_simps(4) [OF assms(1) this] show "fst r < 0 \<or> map_of (fentries x) (fst r) = None"
      using assms(5) Some by auto
  qed
  with Some assms(3,4) std_sort_Nil [OF assms(2)] show ?thesis
    by (simp add: Faiss_Search_def Let_def pending_hits_def)
qed (use assms(3) in \<open>simp add: Faiss_Search_def\<close>)

definition bare_entry :: "DocumentRecord \<Rightarrow> VectorEntry" where
  "bare_entry r = \<lparr>ve_record = r, ve_vector = []\<rparr>"

lemma metadata_framed:
  "MagicHeader @ concat (map (\<lambda>(_, r). EncodeFrame (EncodeVectorEntry pb \<lparr>ve_record = r, ve_vector = []\<rparr>)) m)
    = framed_file (EncodeVectorEntry pb) (map (bare_entry \<circ> snd) m)"
  by (induction m) (auto simp: framed_file_def bare_entry_def)

text \<open>Recovering what a flush wrote: the vectors under their old ids, the documents under new ones.\<close>

lemma Faiss_Flush_Recover:
  assumes "pb_laws pb" and "faiss_laws fx" and "usable s (metadata_path x)" and "usable s (fs_path x)"
    and "index x = Some ix" and "fx_write fx True ix = Inr b"
    and "\<forall>r \<in> snd ` set (fentries x). vector_entry_ok pb (bare_entry r)"
  shows "\<exists>s'. Faiss_FlushSnapshot pb fx (s, x) = (Ok, s', x) \<and>
    Faiss_Recover pb fx s' (new_faiss_store (fs_path x) n p) =
      (fold recover_entry (map (bare_entry \<circ> snd) (fentries x))
        ((new_faiss_store (fs_path x) n p)\<lparr>index := Some ix\<rparr>), Ret Ok)"
proof -
  let ?es = "map (bare_entry \<circ> snd) (fentries x)" and ?y = "new_faiss_store (fs_path x) n p"
  let ?s = "write_file (metadata_path x) (framed_file (EncodeVectorEntry pb) ?es) (write_file (fs_path x) b s)"
  have flush: "Faiss_FlushSnapshot pb fx (s, x) = (Ok, ?s, x)"
    using assms(3-6) usable_EnsureParentDirectory [OF assms(4)]
    unfolding Faiss_FlushSnapshot_def metadata_framed by (simp add: Let_def usable_def)
  have good: "\<forall>e \<in> set ?es. pb_laws pb \<and> vector_entry_ok pb e" using assms(1,7) by auto
  have paths: "metadata_path x \<noteq> fs_path x" "metadata_path (?y\<lparr>index := Some ix\<rparr>) = metadata_path x"
    by (simp_all add: metadata_path_def new_faiss_store_def)
  have "recover_metadata pb ?s (?y\<lparr>index := Some ix\<rparr>) =
      (fold recover_entry ?es (?y\<lparr>index := Some ix\<rparr>), Ret Ok)"
    using assms(3) vector_codec.frames_of_file [OF good] vector_codec.frame_loop_enc [OF good, of recover_entry "?y\<lparr>index := Some ix\<rparr>"]
    unfolding recover_metadata_def ReadWholeFile_def paths
    by (simp add: usable_def del: map_map)
  moreover have "fx_read fx (Some b) = Inr (Some ix)" using assms(2,6) by (simp add: faiss_laws_simps)
  ultimately have "Faiss_Recover pb fx ?s ?y = (fold recover_entry ?es (?y\<lparr>index := Some ix\<rparr>), Ret Ok)"
    using assms(4) paths(1)
    by (simp add: Faiss_Recover_def file_exists_def file_bytes_def usable_def new_faiss_store_def)
  with flush show ?thesis by blast
qed

text \<open>The store after two documents were stored and the first was removed.\<close>

definition two_then_one :: "'i faiss_api \<Rightarrow> DocumentRecord \<Rightarrow> DocumentRecord \<Rightarrow> float32 list \<Rightarrow> string \<Rightarrow> 'i faiss_store" where
  "two_then_one fx a b v path =
     snd (Faiss_Remove fx (doc_collection a) (doc_key a)
       (snd (Faiss_Upsert fx b v (snd (Faiss_Upsert fx a v (new_faiss_store path 0 0))))))"

text \<open>
  A restart after a removal makes documents unfindable: the vectors come back under the
  ids they had, but the documents are numbered afresh, so that after storing two documents
  and removing the first the remaining one, though still filed, is never found again.
\<close>

lemma restart_after_removal_hides_documents:
  assumes "pb_laws pb" and "faiss_laws fx" and "sort_law fp"
    and "usable s path" and "usable s (path @ ''.meta'')" and "document_key a \<noteq> document_key b"
    and "v \<noteq> []" and "query \<noteq> []" and "vector_entry_ok pb (bare_entry b)"
    and "\<forall>ix. \<exists>bytes. fx_write fx True ix = Inr bytes"
  shows "\<exists>s' y. Faiss_FlushSnapshot pb fx (s, two_then_one fx a b v path) = (Ok, s', two_then_one fx a b v path) \<and>
    Faiss_Recover pb fx s' (new_faiss_store path 0 0) = (y, Ret Ok) \<and>
    map_of (key_to_id y) (document_key b) \<noteq> None \<and>
    Faiss_Search fx fp c query filters top_k y = Inr []"
proof -
  let ?new = "new_faiss_store path 0 0" and ?x = "two_then_one fx a b v path"
  let ?ix = "fx_remove fx 1 (fx_add fx 2 v (fx_add fx 1 v (fx_flat fx (length v))))"
  have ids: "fx_ids fx ?ix = {2}" using assms(2) by (auto simp: faiss_laws_simps)
  have key: "BuildCompositeKey (doc_collection a) (doc_key a) = document_key a"
    by (simp add: document_key_def)
  have x: "index ?x = Some ?ix" "fentries ?x = [(2, b)]" "fs_path ?x = path"
    using assms(6,7)
    by (simp_all add: two_then_one_def Faiss_Remove_def Faiss_Upsert_def EnsureIndex_def
        new_faiss_store_def Let_def omap_erase_def key)
  obtain bytes where w: "fx_write fx True ?ix = Inr bytes" using assms(10) by blast
  have meta: "metadata_path ?x = path @ ''.meta''" by (simp add: metadata_path_def x)
  let ?y = "recover_entry (bare_entry b) (?new\<lparr>index := Some ?ix\<rparr>)"
  obtain s' where f: "Faiss_FlushSnapshot pb fx (s, ?x) = (Ok, s', ?x)"
    and r: "Faiss_Recover pb fx s' ?new = (?y, Ret Ok)"
    using Faiss_Flush_Recover [OF assms(1,2), of s ?x ?ix bytes 0 0] assms(4,5,9) w x meta by auto
  have "Faiss_Search fx fp c query filters top_k ?y = Inr []"
    by (rule Faiss_Search_unknown [OF assms(2,3,8)])
      (simp_all add: recover_entry_def new_faiss_store_def Let_def ids)
  moreover have "map_of (key_to_id ?y) (document_key b) \<noteq> None"
    by (simp add: recover_entry_def bare_entry_def Let_def)
  ultimately show ?thesis using f r by blast
qed

lemma restart_after_removal_hides_documents_witness:
  "let a = ve_record (sample_entry ''a'' 1); b = ve_record (sample_entry ''b'' 2) in
   \<exists>s' y. Faiss_FlushSnapshot plain_pb plain_faiss (empty_fs, two_then_one plain_faiss a b [1] ''i'') =
       (Ok, s', two_then_one plain_faiss a b [1] ''i'') \<and>
     Faiss_Recover plain_pb plain_faiss s' (new_faiss_store ''i'' 0 0) = (y, Ret Ok) \<and>
     map_of (key_to_id y) (document_key b) \<noteq> None \<and>
     Faiss_Search plain_faiss plain_fp ''c'' [1] [] 10 y = Inr []"
  unfolding Let_def
  by (rule restart_after_removal_hides_documents [OF plain_pb_laws plain_faiss_laws plain_fp_sort_law])
    (simp_all add: sample_entry_def document_key_def bare_entry_def vector_entry_ok_def plain_pb_def
      ToProtoVector_def ToProto_def record_field_def doc_fields_def flatten_pairs_def word_text_def
      empty_document_def plain_faiss_def)

text \<open>
  A removal does not reach a vector that still waits for training: the removed document
  keeps being found.
\<close>

lemma removed_pending_document_is_still_found:
  assumes "sort_law fp" and "\<forall>d. \<not> d_gt fp d d" and "0 < n" and "v \<noteq> []" and "query \<noteq> []" and "0 < top_k"
  shows "\<exists>h. Faiss_Search fx fp (doc_collection r) query [] top_k
      (snd (Faiss_Remove fx (doc_collection r) (doc_key r) (snd (Faiss_Upsert fx r v (new_faiss_store path n p)))))
    = Inr [h] \<and> ref_key h = doc_key r"
proof -
  let ?x = "snd (Faiss_Remove fx (doc_collection r) (doc_key r)
    (snd (Faiss_Upsert fx r v (new_faiss_store path n p))))"
  let ?h = "faiss_hit r (dot_product fp query v)"
  have key: "BuildCompositeKey (doc_collection r) (doc_key r) = document_key r"
    by (simp add: document_key_def)
  have thr: "\<not> max 100 (n * 30) \<le> Suc 0" by simp
  have x: "index ?x = Some (fx_remove fx 1 (fx_flat fx (length v)))" "fentries ?x = []"
    "untrained ?x = [\<lparr>pv_id = 1, pv_vector = v, pv_record = r, pv_key = document_key r\<rparr>]"
    using assms(3,4) thr
    by (simp_all add: Faiss_Remove_def Faiss_Upsert_def EnsureIndex_def new_faiss_store_def Let_def
        omap_erase_def key)
  have "collect_hits fp c fs k [] found [] = []" for c fs k found
    by (rule collect_hits_unknown) simp
  moreover have "std_sort fp (better fp) [?h] = [?h]"
    using assms(1,2) by (intro std_sort_single) (simp_all add: better_def)
  ultimately have "Faiss_Search fx fp (doc_collection r) query [] top_k ?x = Inr [?h]"
    using assms(5,6) x by (simp add: Faiss_Search_def Let_def pending_hits_def)
  then show ?thesis by (simp add: faiss_hit_def)
qed

lemma removed_pending_document_is_still_found_witness:
  "let r = ve_record (sample_entry ''a'' 1) in
   \<exists>h. Faiss_Search plain_faiss plain_fp ''c'' [1] [] 5
      (snd (Faiss_Remove plain_faiss ''c'' ''a'' (snd (Faiss_Upsert plain_faiss r [1] (new_faiss_store ''i'' 4 0)))))
    = Inr [h] \<and> ref_key h = ''a''"
  using removed_pending_document_is_still_found [OF plain_fp_sort_law, of 4 "[1]" "[1]" 5 plain_faiss
      "ve_record (sample_entry ''a'' 1)"]
  by (simp add: sample_entry_def plain_fp_def)

end
