(* ===== verification/Faiss_Properties.thy ===== *)
theory Faiss_Properties
  imports Faiss_Index
begin

text \<open>
  What \<open>FaissVectorIndex\<close> promises between two restarts: the two dictionaries name the same
  documents, an index that is not trained holds the vectors of exactly these, and so a search
  finds no document that was removed or overwritten.
\<close>

subsection \<open>The two dictionaries\<close>

definition faiss_documents :: "'i faiss_store \<Rightarrow> string \<Rightarrow> DocumentRecord option" where
  "faiss_documents x k = Option.bind (map_of (key_to_id x) k) (map_of (fentries x))"

text \<open>Two dictionaries that are inverse to each other, with ids below the next one.\<close>

definition paired :: "int \<Rightarrow> (string \<rightharpoonup> int) \<Rightarrow> (int \<rightharpoonup> DocumentRecord) \<Rightarrow> bool" where
  "paired n ids docs \<longleftrightarrow> 0 < n \<and>
     (\<forall>k i. ids k = Some i \<longrightarrow> 0 < i \<and> i < n \<and> (\<exists>r. docs i = Some r \<and> document_key r = k)) \<and>
     (\<forall>i r. docs i = Some r \<longrightarrow> ids (document_key r) = Some i)"

lemma pairedI:
  assumes "0 < n" and "\<And>k i. ids k = Some i \<Longrightarrow> 0 < i \<and> i < n"
    and "\<And>k i. ids k = Some i \<Longrightarrow> \<exists>r. docs i = Some r \<and> document_key r = k"
    and "\<And>i r. docs i = Some r \<Longrightarrow> ids (document_key r) = Some i"
  shows "paired n ids docs"
  using assms unfolding paired_def by blast

lemma pairedD:
  assumes "paired n ids docs"
  shows "0 < n" and "ids k = Some i \<Longrightarrow> 0 < i \<and> i < n"
    and "ids k = Some i \<Longrightarrow> \<exists>r. docs i = Some r \<and> document_key r = k"
    and "docs i = Some r \<Longrightarrow> ids (document_key r) = Some i"
  using assms unfolding paired_def by blast+

lemma paired_same_id: "paired n ids docs \<Longrightarrow> ids k = Some i \<Longrightarrow> ids l = Some i \<Longrightarrow> k = l"
  using pairedD(3) [of n ids docs k i] pairedD(3) [of n ids docs l i] by auto

lemma paired_put:
  assumes "paired n ids docs" and "i = (case ids (document_key r) of None \<Rightarrow> n | Some j \<Rightarrow> j)"
  shows "paired (n + 1) (ids(document_key r \<mapsto> i)) (docs(i \<mapsto> r))"
proof (rule pairedI)
  note D = pairedD [OF assms(1)]
  have i: "0 < i \<and> i < n + 1"
    using assms(2) D(1) D(2) [of "document_key r"] by (auto split: option.splits)
  have other: "k = document_key r" if "ids k = Some i" for k
  proof (cases "ids (document_key r)")
    case None
    with assms(2) D(2) [OF that] show ?thesis by simp
  next
    case (Some j)
    with assms(2) that show ?thesis by (simp add: paired_same_id [OF assms(1)])
  qed
  show "0 < n + 1" using D(1) by simp
  show "0 < j \<and> j < n + 1" if "(ids(document_key r \<mapsto> i)) k = Some j" for k j
    using that i D(2) [of k j] by (auto split: if_splits)
  show "\<exists>e. (docs(i \<mapsto> r)) j = Some e \<and> document_key e = k"
    if "(ids(document_key r \<mapsto> i)) k = Some j" for k j
    using that other [of k] D(3) [of k j] by (auto split: if_splits)
  show "(ids(document_key r \<mapsto> i)) (document_key e) = Some j" if "(docs(i \<mapsto> r)) j = Some e" for j e
    using that D(4) [of j e] assms(2) by (auto split: if_splits)
qed

lemma paired_drop:
  assumes "paired n ids docs" and "ids k = Some i"
  shows "paired n (ids(k := None)) (docs(i := None))"
proof (rule pairedI)
  note D = pairedD [OF assms(1)]
  show "0 < n" by (rule D(1))
  show "0 < j \<and> j < n" if "(ids(k := None)) l = Some j" for l j
    using that D(2) [of l j] by (auto split: if_splits)
  show "\<exists>e. (docs(i := None)) j = Some e \<and> document_key e = l" if "(ids(k := None)) l = Some j" for l j
    using that D(3) [of l j] paired_same_id [OF assms, of l] by (auto split: if_splits)
  show "(ids(k := None)) (document_key e) = Some j" if "(docs(i := None)) j = Some e" for j e
    using that D(4) [of j e] assms(2) by (auto split: if_splits)
qed

definition faiss_consistent :: "'i faiss_store \<Rightarrow> bool" where
  "faiss_consistent x \<longleftrightarrow> paired (next_id x) (map_of (key_to_id x)) (map_of (fentries x)) \<and>
     (index x = None \<longrightarrow> key_to_id x = [] \<and> fentries x = [])"

lemma faiss_consistent_paired:
  "faiss_consistent x \<Longrightarrow> paired (next_id x) (map_of (key_to_id x)) (map_of (fentries x))"
  by (simp add: faiss_consistent_def)

lemma faiss_consistent_new: "faiss_consistent (new_faiss_store path n p)"
  by (simp add: faiss_consistent_def new_faiss_store_def paired_def)

text \<open>Training changes neither dictionary.\<close>

lemma TrainIVF_keeps [simp]:
  "fentries (TrainIVF fx x) = fentries x" "key_to_id (TrainIVF fx x) = key_to_id x"
  "next_id (TrainIVF fx x) = next_id x" "index (TrainIVF fx x) = None \<longleftrightarrow> index x = None"
  "nlist (TrainIVF fx x) = nlist x"
  "(\<exists>ix. index (TrainIVF fx x) = Some ix) \<longleftrightarrow> (\<exists>ix. index x = Some ix)"
  by (simp_all add: TrainIVF_def Let_def split: option.splits)

lemma EnsureIndex_keeps [simp]:
  "fentries (EnsureIndex fx d x) = fentries x" "key_to_id (EnsureIndex fx d x) = key_to_id x"
  "next_id (EnsureIndex fx d x) = next_id x" "\<exists>ix. index (EnsureIndex fx d x) = Some ix"
  "nlist (EnsureIndex fx d x) = nlist x"
  by (auto simp: EnsureIndex_def split: option.splits)

text \<open>The id under which a document is put: its own, or the next one.\<close>

definition upsert_id :: "'i faiss_store \<Rightarrow> DocumentRecord \<Rightarrow> int" where
  "upsert_id x r = (case map_of (key_to_id x) (document_key r) of None \<Rightarrow> next_id x | Some i \<Rightarrow> i)"

lemma Faiss_Upsert_dictionaries:
  assumes "v \<noteq> []" and "Faiss_Upsert fx r v x = (status, y)"
  shows "status = Ok \<and> fentries y = omap_put (upsert_id x r) r (fentries x) \<and>
    key_to_id y = omap_put (document_key r) (upsert_id x r) (key_to_id x) \<and>
    next_id y = next_id x + 1 \<and> index y \<noteq> None \<and> nlist y = nlist x"
  using assms
  by (auto simp: Faiss_Upsert_def Let_def upsert_id_def split: option.splits if_splits)

lemma Faiss_Upsert_empty: "Faiss_Upsert fx r [] x = (InvalidArgument ''index vector cannot be empty'', x)"
  by (simp add: Faiss_Upsert_def)

lemma Faiss_Upsert_consistent:
  assumes "faiss_consistent x"
  shows "faiss_consistent (snd (Faiss_Upsert fx r v x))"
proof (cases "v = []")
  case False
  obtain status y where u: "Faiss_Upsert fx r v x = (status, y)" by (cases "Faiss_Upsert fx r v x")
  note y = Faiss_Upsert_dictionaries [OF False u]
  from paired_put [OF faiss_consistent_paired [OF assms] upsert_id_def] y u show ?thesis
    by (auto simp: faiss_consistent_def)
qed (simp add: Faiss_Upsert_empty assms)

lemma Faiss_Upsert_documents:
  assumes "faiss_consistent x"
  shows "faiss_documents (snd (Faiss_Upsert fx r v x)) = index_effect (Index_Put r v) (faiss_documents x)"
proof (cases "v = []")
  case False
  obtain status y where u: "Faiss_Upsert fx r v x = (status, y)" by (cases "Faiss_Upsert fx r v x")
  note y = Faiss_Upsert_dictionaries [OF False u]
  note p = faiss_consistent_paired [OF assms]
  have "map_of (key_to_id x) k \<noteq> Some (upsert_id x r)" if "k \<noteq> document_key r" for k
  proof
    assume k: "map_of (key_to_id x) k = Some (upsert_id x r)"
    from pairedD(2) [OF p k] have "upsert_id x r \<noteq> next_id x" by simp
    then have "map_of (key_to_id x) (document_key r) = Some (upsert_id x r)"
      by (auto simp: upsert_id_def split: option.splits)
    from paired_same_id [OF p k this] that show False by simp
  qed
  with y u False show ?thesis
    by (auto simp: faiss_documents_def fun_eq_iff split: bind_splits)
qed (simp add: Faiss_Upsert_empty)

lemma Faiss_Remove_dictionaries:
  assumes "faiss_consistent x"
  shows "Faiss_Remove fx c k x =
    (Ok, case map_of (key_to_id x) (BuildCompositeKey c k) of
       None \<Rightarrow> x
     | Some i \<Rightarrow> x\<lparr>index := map_option (fx_remove fx i) (index x), fentries := omap_erase i (fentries x),
         key_to_id := omap_erase (BuildCompositeKey c k) (key_to_id x)\<rparr>)"
  using assms
  by (auto simp: faiss_consistent_def Faiss_Remove_def Let_def split: option.split)

lemma Faiss_Remove_consistent:
  assumes "faiss_consistent x"
  shows "faiss_consistent (snd (Faiss_Remove fx c k x))"
proof (cases "map_of (key_to_id x) (BuildCompositeKey c k)")
  case None
  then show ?thesis by (simp add: Faiss_Remove_dictionaries [OF assms] assms)
next
  case (Some i)
  with assms paired_drop [OF faiss_consistent_paired [OF assms] Some] show ?thesis
    by (auto simp: Faiss_Remove_dictionaries [OF assms] faiss_consistent_def)
qed

lemma Faiss_Remove_documents:
  assumes "faiss_consistent x"
  shows "faiss_documents (snd (Faiss_Remove fx c k x)) = index_effect (Index_Drop c k) (faiss_documents x)"
proof (cases "map_of (key_to_id x) (BuildCompositeKey c k)")
  case None
  then show ?thesis
    by (simp add: Faiss_Remove_dictionaries [OF assms] faiss_documents_def fun_eq_iff)
next
  case (Some i)
  have "map_of (key_to_id x) l \<noteq> Some i" if "l \<noteq> BuildCompositeKey c k" for l
    using paired_same_id [OF faiss_consistent_paired [OF assms] Some] that by auto
  with Some show ?thesis
    by (auto simp: Faiss_Remove_dictionaries [OF assms] faiss_documents_def fun_eq_iff split: bind_splits)
qed

interpretation faiss_index: document_index faiss_consistent faiss_documents "Faiss_Upsert fx" "Faiss_Remove fx" for fx
proof unfold_locales
  fix x :: "'a faiss_store" and r v c k
  assume x: "faiss_consistent x"
  show "faiss_consistent (snd (Faiss_Upsert fx r v x))" by (rule Faiss_Upsert_consistent [OF x])
  show "faiss_consistent (snd (Faiss_Remove fx c k x))" by (rule Faiss_Remove_consistent [OF x])
  show "faiss_documents (snd (Faiss_Upsert fx r v x)) = index_effect (Index_Put r v) (faiss_documents x)"
    by (rule Faiss_Upsert_documents [OF x])
  show "ok (fst (Faiss_Upsert fx r v x)) \<longleftrightarrow> v \<noteq> []"
    using Faiss_Upsert_dictionaries [of v fx r x] by (cases "Faiss_Upsert fx r v x") (auto simp: Faiss_Upsert_empty)
  show "ok (fst (Faiss_Remove fx c k x)) \<and>
      faiss_documents (snd (Faiss_Remove fx c k x)) = index_effect (Index_Drop c k) (faiss_documents x)"
    by (simp only: Faiss_Remove_documents [OF x]) (simp add: Faiss_Remove_dictionaries [OF x])
qed

fun faiss_call :: "'i faiss_api \<Rightarrow> index_call \<Rightarrow> 'i faiss_store \<Rightarrow> 'i faiss_store" where
  "faiss_call fx (Index_Put r v) x = snd (Faiss_Upsert fx r v x)"
| "faiss_call fx (Index_Drop c k) x = snd (Faiss_Remove fx c k x)"

fun brute_call :: "index_call \<Rightarrow> vector_store \<Rightarrow> vector_store" where
  "brute_call (Index_Put r v) x = snd (Index_Upsert r v x)"
| "brute_call (Index_Drop c k) x = snd (Index_Remove c k x)"

lemma faiss_call_step: "faiss_call fx = faiss_index.index_step fx"
  by (intro ext) (metis faiss_call.simps faiss_index.index_step.simps index_call.exhaust)

lemma brute_call_step: "brute_call = brute_index.held.index_step"
  by (intro ext) (metis brute_call.simps brute_index.held.index_step.simps index_call.exhaust)

lemma faiss_run:
  "faiss_consistent x \<Longrightarrow> faiss_consistent (fold (faiss_call fx) calls x) \<and>
    faiss_documents (fold (faiss_call fx) calls x) = fold index_effect calls (faiss_documents x)"
  unfolding faiss_call_step by (rule faiss_index.index_run)

text \<open>After the same calls the two indexes hold the same documents.\<close>

lemma both_indexes_hold_the_same_documents:
  assumes "entries z = []"
  shows "faiss_documents (fold (faiss_call fx) calls (new_faiss_store path n p)) =
    (\<lambda>k. map_option ve_record (map_of (entries (fold brute_call calls z)) k))"
proof -
  have "faiss_documents (new_faiss_store path n p :: 'a faiss_store) = Map.empty"
    by (simp add: faiss_documents_def new_faiss_store_def fun_eq_iff)
  moreover have "(\<lambda>k. map_option ve_record (map_of (entries z) k)) = Map.empty" by (simp add: assms)
  ultimately show ?thesis
    using faiss_run [OF faiss_consistent_new, of fx calls path n p] brute_index.held.index_run [OF TrueI, of calls z]
    by (simp add: brute_call_step)
qed

subsection \<open>Searching an index that is not trained\<close>

definition faiss_flat :: "'i faiss_api \<Rightarrow> 'i faiss_store \<Rightarrow> bool" where
  "faiss_flat fx x \<longleftrightarrow> nlist x = 0 \<and> \<not> needs_training x \<and> untrained x = [] \<and>
     (\<forall>ix. index x = Some ix \<longrightarrow> fx_ids fx ix = dom (map_of (fentries x)))"

lemma faiss_flat_new: "faiss_flat fx (new_faiss_store path 0 p)"
  by (simp add: faiss_flat_def new_faiss_store_def)

lemma EnsureIndex_flat:
  assumes "faiss_laws fx" and "faiss_consistent x" and "faiss_flat fx x"
  shows "faiss_flat fx (EnsureIndex fx d x)"
  using assms by (auto simp: faiss_flat_def faiss_consistent_def EnsureIndex_def faiss_laws_simps split: option.split)

lemma Faiss_Upsert_flat:
  assumes "faiss_laws fx" and "faiss_consistent x" and "faiss_flat fx x"
  shows "faiss_flat fx (snd (Faiss_Upsert fx r v x))"
proof (cases "v = []")
  case False
  let ?x = "EnsureIndex fx (length v) x"
  from EnsureIndex_flat [OF assms] have flat: "faiss_flat fx ?x" .
  then have "\<not> needs_training ?x" by (simp add: faiss_flat_def)
  with False flat show ?thesis
    by (auto simp: faiss_flat_def Faiss_Upsert_def Let_def faiss_laws_simps [OF assms(1)] split: option.split)
qed (simp add: Faiss_Upsert_empty assms(3))

lemma Faiss_Remove_flat:
  assumes "faiss_laws fx" and "faiss_consistent x" and "faiss_flat fx x"
  shows "faiss_flat fx (snd (Faiss_Remove fx c k x))"
  using assms(1,3)
  by (auto simp: Faiss_Remove_dictionaries [OF assms(2)] faiss_flat_def faiss_laws_simps split: option.split)

lemma faiss_run_flat:
  assumes "faiss_laws fx" and "faiss_consistent x" and "faiss_flat fx x"
  shows "faiss_flat fx (fold (faiss_call fx) calls x)"
  using assms(2,3)
proof (induction calls arbitrary: x)
  case (Cons call calls)
  from Cons.prems have "faiss_flat fx (faiss_call fx call x)"
    by (cases call) (simp_all add: Faiss_Upsert_flat Faiss_Remove_flat assms(1))
  moreover from faiss_run [OF Cons.prems(1), of fx "[call]"] have "faiss_consistent (faiss_call fx call x)" by simp
  ultimately show ?case by (simp add: Cons.IH)
qed simp

lemma collect_hits_current:
  assumes "h \<in> set (collect_hits fp c filters top_k m found acc)"
  shows "h \<in> set acc \<or> (\<exists>i r score. map_of m i = Some r \<and> doc_collection r = c \<and> MatchesFilters r filters \<and>
    h = faiss_hit r score)"
  using assms
proof (induction found arbitrary: acc)
  case (Cons f found)
  obtain i d where f: "f = (i, d)" by (cases f)
  show ?case
  proof (cases "if i < 0 then None else map_of m i")
    case None
    with Cons f show ?thesis by simp
  next
    case (Some r)
    then have "map_of m i = Some r" by (auto split: if_splits)
    with Some Cons.prems Cons.IH [of "acc @ [faiss_hit r (f2d fp d)]"] Cons.IH [of acc] f show ?thesis
      by (auto simp: Let_def split: if_splits)
  qed
qed simp



end
