(* ===== verification/Embedding_Service.thy ===== *)
theory Embedding_Service
  imports Vector_Index
begin

text \<open>
  \<open>src/ai/embedding_service.h\<close>, \<open>embedding_service.cpp\<close>: the interface that turns text and
  images into vectors, its deterministic implementation, and the tokenizer of the ONNX
  implementation (vocabulary, UTF-8 tokens, greedy word pieces). The ONNX
  implementation itself is in \<open>Onnx_Embedding\<close>. Single-precision arithmetic is the
  parameter \<open>f32_api\<close>, \<open>std::hash\<close> the parameter \<open>hash\<close>.
\<close>

record Embedding =
  emb_values :: "float32 list"
  emb_backend :: string
  emb_degraded :: bool

text \<open>The interface \<open>EmbeddingService\<close>: its two functions.\<close>

record embedder =
  embed_text :: "string \<Rightarrow> Embedding StatusOr"
  embed_image :: "string \<Rightarrow> Embedding StatusOr"

record f32_api =
  f_add :: "float32 \<Rightarrow> float32 \<Rightarrow> float32"
  f_mul :: "float32 \<Rightarrow> float32 \<Rightarrow> float32"
  f_div :: "float32 \<Rightarrow> float32 \<Rightarrow> float32"
  f_sqrt :: "float32 \<Rightarrow> float32"
  f_of_nat :: "nat \<Rightarrow> float32"
  d_sqrt :: "float64 \<Rightarrow> float64"
  d_is_zero :: "float64 \<Rightarrow> bool"
  f_div_norm :: "float32 \<Rightarrow> float64 \<Rightarrow> float32"

text \<open>The bit patterns of 1.0F, -1.0F and 0.25F.\<close>

definition f_one :: float32 where "f_one = 0x3F800000"

definition f_minus_one :: float32 where "f_minus_one = 0xBF800000"

definition f_quarter :: float32 where "f_quarter = 0x3E800000"

subsection \<open>The deterministic service\<close>

definition flush_token :: "string \<Rightarrow> string list \<Rightarrow> string list" where
  "flush_token current tokens = (if current = [] then tokens else tokens @ [current])"

fun tokenize_loop :: "string \<Rightarrow> string \<Rightarrow> string list \<Rightarrow> string list" where
  "tokenize_loop [] current tokens = flush_token current tokens"
| "tokenize_loop (c # s) current tokens =
     (if isalnum c then tokenize_loop s (current @ [tolower c]) tokens
      else
        let tokens' = flush_token current tokens in
        tokenize_loop s [] (if byte_of c > 0x7F then tokens' @ [[c]] else tokens'))"

definition TokenizeText :: "string \<Rightarrow> string list" where
  "TokenizeText payload =
     (let tokens = tokenize_loop payload [] [] in
      if tokens = [] \<and> payload \<noteq> [] then [payload] else tokens)"

definition add_at :: "f32_api \<Rightarrow> nat \<Rightarrow> float32 \<Rightarrow> float32 list \<Rightarrow> float32 list" where
  "add_at ar i x values = values[i := f_add ar (values ! i) x]"

definition payload_step ::
  "(string \<Rightarrow> 64 word) \<Rightarrow> f32_api \<Rightarrow> nat \<Rightarrow> nat \<times> string \<Rightarrow> float32 list \<Rightarrow> float32 list" where
  "payload_step hash ar dimensions = (\<lambda>(token_index, token) values.
     let primary_hash = hash token;
         secondary_hash = hash (token @ ''#'' @ to_string token_index);
         dimension = unat primary_hash mod dimensions;
         sign = (if even (unat secondary_hash) then f_one else f_minus_one);
         weight = f_div ar f_one (f_sqrt ar (f_of_nat ar (1 + token_index)))
     in add_at ar ((dimension + 7) mod dimensions) (f_mul ar sign f_quarter)
          (add_at ar dimension (f_mul ar sign weight) values))"

definition TokenizedPayloadVector ::
  "(string \<Rightarrow> 64 word) \<Rightarrow> f32_api \<Rightarrow> string \<Rightarrow> nat \<Rightarrow> float32 list" where
  "TokenizedPayloadVector hash ar payload dimensions =
     fold (payload_step hash ar dimensions) (enumerate 0 (TokenizeText payload)) (replicate dimensions 0)"

definition Normalize :: "fp_api \<Rightarrow> f32_api \<Rightarrow> float32 list \<Rightarrow> float32 list StatusOr" where
  "Normalize fp ar values =
     (let norm = d_sqrt ar (fold (\<lambda>v n. d_add fp n (d_mul fp (f2d fp v) (f2d fp v))) values d_zero) in
      if d_is_zero ar norm then Inl (Internal ''failed to normalize embedding'')
      else Inr (map (\<lambda>v. f_div_norm ar v norm) values))"

definition EmbedPayload ::
  "(string \<Rightarrow> 64 word) \<Rightarrow> fp_api \<Rightarrow> f32_api \<Rightarrow> nat \<Rightarrow> string \<Rightarrow> string \<Rightarrow> Embedding StatusOr" where
  "EmbedPayload hash fp ar dimensions payload backend =
     (if dimensions = 0 then Inl (InvalidArgument ''embedding dimensions must be positive'')
      else case Normalize fp ar (TokenizedPayloadVector hash ar payload dimensions) of
             Inl e \<Rightarrow> Inl e
           | Inr values \<Rightarrow> Inr \<lparr>emb_values = values, emb_backend = backend, emb_degraded = False\<rparr>)"

definition deterministic_service ::
  "(string \<Rightarrow> 64 word) \<Rightarrow> fp_api \<Rightarrow> f32_api \<Rightarrow> nat \<Rightarrow> embedder" where
  "deterministic_service hash fp ar dimensions = \<lparr>
     embed_text = (\<lambda>text. if text = [] then Inl (InvalidArgument ''text query cannot be empty'')
       else EmbedPayload hash fp ar dimensions text ''deterministic-text''),
     embed_image = (\<lambda>ref. if ref = [] then Inl (InvalidArgument ''image reference cannot be empty'')
       else EmbedPayload hash fp ar dimensions ref ''deterministic-image'')\<rparr>"

text \<open>\<open>CreateEmbeddingService\<close> in a build without ONNX Runtime.\<close>

definition CreateEmbeddingService ::
  "(string \<Rightarrow> 64 word) \<Rightarrow> fp_api \<Rightarrow> f32_api \<Rightarrow> string \<Rightarrow> nat \<Rightarrow> embedder StatusOr" where
  "CreateEmbeddingService hash fp ar ai_backend dimensions =
     (if ai_backend = ''onnxruntime''
      then Inl (NotSupported ''onnxruntime backend requested but library is not available in this build'')
      else if ai_backend \<noteq> ''deterministic'' \<and> ai_backend \<noteq> ''auto''
      then Inl (InvalidArgument (''unsupported ai backend: '' @ ai_backend))
      else Inr (deterministic_service hash fp ar dimensions))"

subsection \<open>The word-piece tokenizer\<close>

type_synonym vocabulary = "(string \<times> nat) list"

definition strip_cr :: "string \<Rightarrow> string" where
  "strip_cr s = (if s \<noteq> [] \<and> last s = CHR 0x0D then butlast s else s)"

text \<open>The first line with a token gives its id; a repeated token keeps the first one.\<close>

definition LoadVocabulary :: "fs \<Rightarrow> string \<Rightarrow> vocabulary outcome" where
  "LoadVocabulary s path =
     (case ReadWholeFile [] s path of
        Inl _ \<Rightarrow> Throw (runtime_error (''failed to open tokenizer vocabulary: '' @ path))
      | Inr bytes \<Rightarrow>
          let tokens = map strip_cr (getlines newline bytes) in
          if tokens = [] then Throw (runtime_error (''tokenizer vocabulary is empty: '' @ path))
          else Ret (zip tokens [0..<length tokens]))"

definition RequireTokenId :: "vocabulary \<Rightarrow> string \<Rightarrow> nat outcome" where
  "RequireTokenId vocabulary token =
     (case map_of vocabulary token of
        None \<Rightarrow> Throw (runtime_error (''tokenizer vocabulary is missing required token: '' @ token))
      | Some i \<Rightarrow> Ret i)"

definition utf8_length :: "nat \<Rightarrow> nat" where
  "utf8_length raw =
     (if raw div 32 = 6 then 2 else if raw div 16 = 14 then 3 else if raw div 8 = 30 then 4 else 1)"

lemma utf8_length_pos: "0 < utf8_length raw"
  by (simp add: utf8_length_def)

text \<open>The argument is what lies behind \<open>index\<close>.\<close>

function utf8_loop :: "string \<Rightarrow> string \<Rightarrow> string list \<Rightarrow> string list" where
  "utf8_loop [] ascii tokens = flush_token ascii tokens"
| "utf8_loop (c # s) ascii tokens =
     (if byte_of c < 0x80
      then
        (if isalnum c then utf8_loop s (ascii @ [tolower c]) tokens
         else
           let tokens' = flush_token ascii tokens in
           utf8_loop s [] (if isspace c then tokens' else tokens' @ [[c]]))
      else
        let tokens' = flush_token ascii tokens;
            n = utf8_length (byte_of c)
        in if n > length (c # s) then tokens' @ [[c]]
           else utf8_loop (drop n (c # s)) [] (tokens' @ [take n (c # s)]))"
  by pat_completeness auto
termination
  by (relation "measure (\<lambda>(s, _, _). length s)") (auto simp: utf8_length_pos)

definition Utf8Tokens :: "string \<Rightarrow> string list" where
  "Utf8Tokens text = utf8_loop text [] []"

definition BasicWordPieceTokens :: "string \<Rightarrow> string list" where
  "BasicWordPieceTokens text = Utf8Tokens text"

text \<open>The longest piece of \<open>token\<close> from \<open>start\<close> that the vocabulary knows.\<close>

definition piece_name :: "nat \<Rightarrow> string \<Rightarrow> string" where
  "piece_name start s = (if start \<noteq> 0 then ''##'' @ s else s)"

fun find_piece :: "vocabulary \<Rightarrow> string \<Rightarrow> nat \<Rightarrow> nat \<Rightarrow> (nat \<times> nat) option" where
  "find_piece vocabulary token start 0 = None"
| "find_piece vocabulary token start (Suc n) =
     (case map_of vocabulary (piece_name start (take (Suc n) (drop start token))) of
        Some i \<Rightarrow> Some (i, start + Suc n)
      | None \<Rightarrow> find_piece vocabulary token start n)"

lemma find_piece_bounds:
  "find_piece vocabulary token start n = Some (i, e) \<Longrightarrow> start < e \<and> e \<le> start + n"
  by (induction n) (auto split: option.splits)

function pieces_from :: "vocabulary \<Rightarrow> string \<Rightarrow> nat \<Rightarrow> nat list option" where
  "pieces_from vocabulary token start =
     (if start \<ge> length token then Some []
      else case find_piece vocabulary token start (length token - start) of
             None \<Rightarrow> None
           | Some (i, e) \<Rightarrow> map_option ((#) i) (pieces_from vocabulary token e))"
  by pat_completeness auto
termination
  by (relation "measure (\<lambda>(_, token, start). length token - start)")
    (auto dest!: find_piece_bounds)

declare pieces_from.simps [simp del]

fun word_piece_loop :: "vocabulary \<Rightarrow> nat \<Rightarrow> nat \<Rightarrow> string list \<Rightarrow> nat list \<Rightarrow> nat list" where
  "word_piece_loop vocabulary unk n [] ids = ids"
| "word_piece_loop vocabulary unk n (token # ts) ids =
     (if length token > 100 then word_piece_loop vocabulary unk n ts (ids @ [unk])
      else
        let ids' = ids @ (case pieces_from vocabulary token 0 of None \<Rightarrow> [unk] | Some ps \<Rightarrow> ps) in
        if length ids' \<ge> n then take n ids' else word_piece_loop vocabulary unk n ts ids')"

definition WordPieceTokenIds :: "string \<Rightarrow> vocabulary \<Rightarrow> nat \<Rightarrow> nat \<Rightarrow> nat list" where
  "WordPieceTokenIds text vocabulary unk max_piece_count =
     word_piece_loop vocabulary unk max_piece_count (BasicWordPieceTokens text) []"

definition BuildInputIds :: "vocabulary \<Rightarrow> nat \<Rightarrow> nat \<Rightarrow> nat \<Rightarrow> nat \<Rightarrow> string \<Rightarrow> nat list" where
  "BuildInputIds vocabulary cls sep unk max_tokens text =
     [cls] @ WordPieceTokenIds text vocabulary unk (max_tokens - 2) @ [sep]"

definition file_scheme :: string where
  "file_scheme = ''file://''"

definition NormalizeImagePath :: "string \<Rightarrow> string" where
  "NormalizeImagePath ref = (if starts_with file_scheme ref then drop (length file_scheme) ref else ref)"

subsection \<open>Properties\<close>

lemma length_payload_steps:
  "length (fold (payload_step hash ar d) ps vs) = length vs"
  by (induction ps arbitrary: vs) (simp_all add: payload_step_def add_at_def Let_def split: prod.split)

lemma length_TokenizedPayloadVector [simp]:
  "length (TokenizedPayloadVector hash ar payload d) = d"
  by (simp add: TokenizedPayloadVector_def length_payload_steps)

text \<open>
  The deterministic service returns a vector of exactly the configured dimension, or an
  error status; a text or an image reference is refused if it is empty.
\<close>

lemma embedding_has_the_configured_dimension:
  assumes "embed_text (deterministic_service hash fp ar d) text = Inr e \<or>
    embed_image (deterministic_service hash fp ar d) text = Inr e"
  shows "length (emb_values e) = d \<and> 0 < d \<and> text \<noteq> [] \<and> \<not> emb_degraded e"
  using assms
  by (auto simp: deterministic_service_def EmbedPayload_def Normalize_def Let_def
      split: if_splits sum.splits)

definition plain_f32 :: f32_api where
  "plain_f32 = \<lparr>f_add = (+), f_mul = (*), f_div = (\<lambda>x y. x), f_sqrt = (\<lambda>x. x),
     f_of_nat = word_of_nat, d_sqrt = (\<lambda>x. x), d_is_zero = (\<lambda>x. False), f_div_norm = (\<lambda>x n. x)\<rparr>"

lemma sample_embedding:
  "\<exists>e. embed_text (deterministic_service (\<lambda>_. 0) plain_fp plain_f32 1) ''a'' = Inr e"
  by (simp add: deterministic_service_def EmbedPayload_def Normalize_def TokenizedPayloadVector_def
      TokenizeText_def flush_token_def isalnum_def isdigit_def isupper_def islower_def byte_of_def
      payload_step_def add_at_def Let_def plain_f32_def plain_fp_def f_one_def f_quarter_def d_zero_def
      tolower_def)

lemma embedding_has_the_configured_dimension_witness:
  "\<exists>e. embed_text (deterministic_service (\<lambda>_. 0) plain_fp plain_f32 1) ''a'' = Inr e \<and>
    length (emb_values e) = 1"
  using sample_embedding embedding_has_the_configured_dimension by blast

text \<open>A word is segmented into pieces that the vocabulary knows, in order and without gaps.\<close>

lemma find_piece_known:
  "find_piece vocabulary token start n = Some (i, e) \<Longrightarrow>
   map_of vocabulary (piece_name start (take (e - start) (drop start token))) = Some i"
  by (induction n) (auto split: option.splits)

lemma pieces_from_segments:
  "pieces_from vocabulary token start = Some ids \<Longrightarrow>
   \<exists>segs. drop start token = concat segs \<and> length segs = length ids \<and> [] \<notin> set segs \<and>
     (\<forall>j < length ids. map_of vocabulary
        (piece_name (start + length (concat (take j segs))) (segs ! j)) = Some (ids ! j))"
proof (induction vocabulary token start arbitrary: ids rule: pieces_from.induct)
  case (1 vocabulary token start)
  show ?case
  proof (cases "start \<ge> length token")
    case True
    with 1 show ?thesis by (subst (asm) (2) pieces_from.simps) simp
  next
    case False
    with "1.prems" obtain i e ids' where
      f: "find_piece vocabulary token start (length token - start) = Some (i, e)" and
      rest: "pieces_from vocabulary token e = Some ids'" and ids: "ids = i # ids'"
      by (subst (asm) pieces_from.simps) (auto split: option.splits)
    from find_piece_bounds [OF f] False have b: "start < e" "e \<le> length token" by auto
    from "1.IH" [OF False f refl rest] obtain segs where
      segs: "drop e token = concat segs" "length segs = length ids'" "[] \<notin> set segs"
      "\<forall>j < length ids'. map_of vocabulary (piece_name (e + length (concat (take j segs))) (segs ! j)) = Some (ids' ! j)"
      by blast
    let ?s = "take (e - start) (drop start token)"
    have l: "length ?s = e - start" using b by simp
    have "drop start token = ?s @ drop e token"
      using b by (metis append_take_drop_id drop_drop le_add_diff_inverse2 less_imp_le_nat)
    moreover have "?s \<noteq> []" using b l by auto
    moreover have "map_of vocabulary (piece_name (start + length (concat (take j (?s # segs)))) ((?s # segs) ! j)) = Some (ids ! j)"
      if "j < length ids" for j
    proof (cases j)
      case 0
      then show ?thesis using find_piece_known [OF f] ids by simp
    next
      case (Suc k)
      then have "start + length (concat (take j (?s # segs))) = e + length (concat (take k segs))"
        using b l by simp
      with Suc segs(4) that ids show ?thesis by simp
    qed
    ultimately show ?thesis
      using segs(1-3) ids by (intro exI [of _ "?s # segs"]) auto
  qed
qed

text \<open>
  A word that is tokenized into pieces is cut into consecutive non-empty segments, the
  first of which is in the vocabulary as it is and the others with the prefix \<open>##\<close>, and the
  ids are those of the segments.
\<close>

lemma word_pieces_cover_the_word:
  assumes "pieces_from vocabulary token 0 = Some ids"
  shows "\<exists>segs. token = concat segs \<and> length segs = length ids \<and> [] \<notin> set segs \<and>
    (\<forall>j < length ids. map_of vocabulary (if j = 0 then segs ! j else ''##'' @ segs ! j) = Some (ids ! j))"
proof -
  from pieces_from_segments [OF assms] obtain segs where
    segs: "token = concat segs" "length segs = length ids" "[] \<notin> set segs"
    and m: "\<forall>j < length ids. map_of vocabulary (piece_name (length (concat (take j segs))) (segs ! j)) = Some (ids ! j)"
    by auto
  have ne: "length (concat (take j segs)) = 0 \<longleftrightarrow> j = 0" if "j < length ids" for j
    using that segs(2,3) by (cases segs) (auto simp: take_Cons')
  have "map_of vocabulary (if j = 0 then segs ! j else ''##'' @ segs ! j) = Some (ids ! j)"
    if "j < length ids" for j
    using m [rule_format, OF that] ne [OF that] unfolding piece_name_def by (cases "j = 0") simp_all
  then have "\<forall>j < length ids. map_of vocabulary (if j = 0 then segs ! j else ''##'' @ segs ! j) = Some (ids ! j)"
    by blast
  with segs show ?thesis by blast
qed

lemma word_pieces_cover_the_word_witness:
  "\<exists>segs. ''ab'' = concat segs \<and> length segs = length [5::nat, 7] \<and> [] \<notin> set segs"
proof -
  have "pieces_from [(''a'', 5), (''##b'', 7)] ''ab'' 0 = Some [5, 7]"
    by (simp add: pieces_from.simps piece_name_def)
  from word_pieces_cover_the_word [OF this] show ?thesis by blast
qed

lemma long_words_loop:
  "\<forall>w \<in> set ws. length w > 100 \<Longrightarrow>
   word_piece_loop vocabulary unk n ws ids = ids @ replicate (length ws) unk"
  by (induction ws arbitrary: ids) (simp_all add: replicate_append_same)

text \<open>
  The limit on the number of ids is not kept: a text of words that are all longer than
  100 bytes yields one id for each, however small the limit is.
\<close>

lemma long_words_exceed_the_token_limit:
  assumes "\<forall>w \<in> set (BasicWordPieceTokens text). length w > 100"
  shows "WordPieceTokenIds text vocabulary unk n = replicate (length (BasicWordPieceTokens text)) unk"
  using long_words_loop [OF assms, of vocabulary unk n "[]"] by (simp add: WordPieceTokenIds_def)

lemma utf8_loop_letters:
  "utf8_loop (replicate n (CHR ''a'') @ s) ascii tokens = utf8_loop s (ascii @ replicate n (CHR ''a'')) tokens"
proof (induction n arbitrary: ascii)
  case (Suc n)
  have "isalnum CHR ''a''" "tolower CHR ''a'' = CHR ''a''" "byte_of CHR ''a'' < 0x80"
    by (simp_all add: isalnum_def islower_def isdigit_def isupper_def byte_of_def tolower_def)
  with Suc show ?case by (simp add: replicate_app_Cons_same)
qed simp

lemma long_words_exceed_the_token_limit_witness:
  "WordPieceTokenIds (replicate 101 (CHR ''a'') @ '' '' @ replicate 101 (CHR ''a'')) [] 3 1 = [3, 3]"
proof -
  let ?w = "replicate 101 (CHR ''a'')"
  have ne: "?w \<noteq> []" "length ?w > 100" by (auto dest: arg_cong [where f = length])
  have sp: "\<not> isalnum CHR '' ''" "isspace CHR '' ''" "byte_of CHR '' '' < 0x80"
    by (simp_all add: isalnum_def islower_def isdigit_def isupper_def byte_of_def isspace_def)
  have "BasicWordPieceTokens (?w @ '' '' @ ?w) = [?w, ?w]"
    using utf8_loop_letters [of 101 "'' '' @ ?w" "[]" "[]"] utf8_loop_letters [of 101 "[]" "[]" "[?w]"] sp ne
    by (simp add: BasicWordPieceTokens_def Utf8Tokens_def flush_token_def)
  then show ?thesis
    using long_words_exceed_the_token_limit [of "?w @ '' '' @ ?w" "[]" 3 1] ne by simp
qed

end
