(* ===== verification/Onnx_Embedding.thy ===== *)
theory Onnx_Embedding
  imports Embedding_Service Server_Config
begin

text \<open>
  \<open>OnnxRuntimeEmbeddingService\<close> of \<open>src/ai/embedding_service.cpp\<close> and \<open>CreateEmbeddingService\<close> of
  a build with ONNX Runtime. The runtime and the image decoder are parameters: a session has
  the names of its inputs and outputs and a function that runs it, a decoder turns a path
  into a picture. Single-precision arithmetic is \<open>f32_api\<close> with the operations of \<open>px_api\<close>
  beside it. The results show that no byte outside the picture is read, that each vector has
  the configured dimension, and which exceptions leave the service.
\<close>

subsection \<open>ONNX Runtime and the decoder\<close>

datatype input_tensor = int_tensor "int list" "int list" | float_tensor "float32 list" "int list"

datatype output_tensor = no_tensor | tensor "int list" "float32 list"

text \<open>
  A call that fails throws \<open>Ort::Exception\<close>, of which only the text matters; asking for the name
  of the first output is one of them.
\<close>

record ort_session =
  se_inputs :: "string list"
  se_outputs :: "string list"
  se_first_output :: "string outcome"
  se_run :: "(string \<times> input_tensor) list \<Rightarrow> string \<Rightarrow> output_tensor list outcome"

record picture =
  pic_width :: int
  pic_height :: int
  pic_bytes :: "8 word list"

record onnx_env =
  ox_open :: "string \<Rightarrow> ort_session outcome"
  ox_decode :: "string \<Rightarrow> picture option"

record px_api =
  f_sub :: "float32 \<Rightarrow> float32 \<Rightarrow> float32"
  f_less :: "float32 \<Rightarrow> float32 \<Rightarrow> bool"
  f_of_int :: "int \<Rightarrow> float32"
  f_floor :: "float32 \<Rightarrow> int"

fun what :: "cxx_exception \<Rightarrow> string" where
  "what (invalid_argument m) = m"
| "what (out_of_range m) = m"
| "what (json_error m) = m"
| "what (runtime_error m) = m"

subsection \<open>Pictures\<close>

text \<open>The bit patterns of 0.5F and 255.0F, and of the means and deviations of the channels.\<close>

definition f_half :: float32 where "f_half = 0x3F000000"

definition f_255 :: float32 where "f_255 = 0x437F0000"

definition kMean :: "float32 list" where
  "kMean = [0x3EF6813A, 0x3EEA685E, 0x3ED100FF]"

definition kStd :: "float32 list" where
  "kStd = [0x3E8989D0, 0x3E85C974, 0x3E8D32A8]"

definition kTarget :: nat where
  "kTarget = 224"

definition f_clamp :: "px_api \<Rightarrow> float32 \<Rightarrow> float32 \<Rightarrow> float32 \<Rightarrow> float32" where
  "f_clamp px v lo hi = (if f_less px v lo then lo else if f_less px hi v then hi else v)"

definition i_clamp :: "int \<Rightarrow> int \<Rightarrow> int \<Rightarrow> int" where
  "i_clamp v lo hi = (if v < lo then lo else if hi < v then hi else v)"

text \<open>The two source positions next to a target position, and the weight of the second.\<close>

definition source_axis :: "f32_api \<Rightarrow> px_api \<Rightarrow> int \<Rightarrow> nat \<Rightarrow> int \<times> int \<times> float32" where
  "source_axis ar px extent i =
     (let source = f_clamp px
            (f_sub px (f_div ar (f_mul ar (f_add ar (f_of_int px (int i)) f_half) (f_of_int px extent))
               (f_of_int px (int kTarget))) f_half)
            0 (f_sub px (f_of_int px extent) f_one);
          p0 = i_clamp (f_floor px source) 0 (extent - 1);
          p1 = i_clamp (p0 + 1) 0 (extent - 1)
      in (p0, p1, f_sub px source (f_of_int px p0)))"

definition byte_index :: "picture \<Rightarrow> int \<Rightarrow> int \<Rightarrow> nat \<Rightarrow> int" where
  "byte_index pic x y channel = (y * pic_width pic + x) * 3 + int channel"

definition sample :: "px_api \<Rightarrow> picture \<Rightarrow> nat \<Rightarrow> int \<Rightarrow> int \<Rightarrow> float32" where
  "sample px pic channel x y = f_of_int px (uint (pic_bytes pic ! nat (byte_index pic x y channel)))"

definition pixel_value :: "f32_api \<Rightarrow> px_api \<Rightarrow> picture \<Rightarrow> nat \<Rightarrow> nat \<Rightarrow> nat \<Rightarrow> float32" where
  "pixel_value ar px pic channel y x =
     (case (source_axis ar px (pic_height pic) y, source_axis ar px (pic_width pic) x) of
        ((y0, y1, y_weight), (x0, x1, x_weight)) \<Rightarrow>
          let blend = (\<lambda>a b weight. f_add ar (f_mul ar a (f_sub px f_one weight)) (f_mul ar b weight));
              top = blend (sample px pic channel x0 y0) (sample px pic channel x1 y0) x_weight;
              bottom = blend (sample px pic channel x0 y1) (sample px pic channel x1 y1) x_weight
          in f_div ar (f_sub px (f_div ar (blend top bottom y_weight) f_255) (kMean ! channel)) (kStd ! channel))"

definition LoadClipImagePixels ::
  "onnx_env \<Rightarrow> f32_api \<Rightarrow> px_api \<Rightarrow> string \<Rightarrow> float32 list outcome" where
  "LoadClipImagePixels ox ar px image_reference =
     (let failed = Throw (runtime_error (''failed to load image: '' @ image_reference)) in
      case ox_decode ox (NormalizeImagePath image_reference) of
        None \<Rightarrow> failed
      | Some pic \<Rightarrow>
          if pic_width pic \<le> 0 \<or> pic_height pic \<le> 0 then failed
          else Ret (concat (map (\<lambda>channel. concat (map (\<lambda>y. map (\<lambda>x. pixel_value ar px pic channel y x)
                 [0..<kTarget]) [0..<kTarget])) [0..<3])))"

subsection \<open>The service\<close>

record onnx_service =
  os_dimensions :: nat
  os_max_tokens :: nat
  os_vocabulary :: vocabulary
  os_cls :: nat
  os_sep :: nat
  os_unk :: nat
  os_session :: ort_session
  os_clip :: bool

definition ValidateModelInputs :: "ort_session \<Rightarrow> bool outcome" where
  "ValidateModelInputs se =
     (let clip = ''pixel_values'' \<in> set (se_inputs se) \<and> ''text_embeds'' \<in> set (se_outputs se) \<and>
            ''image_embeds'' \<in> set (se_outputs se);
          lacking = (\<lambda>name. Throw (runtime_error (''ONNX model is missing required input: '' @ name)))
      in if ''input_ids'' \<notin> set (se_inputs se) then lacking ''input_ids''
         else if ''attention_mask'' \<notin> set (se_inputs se) then lacking ''attention_mask''
         else if \<not> clip \<and> ''token_type_ids'' \<notin> set (se_inputs se) then lacking ''token_type_ids''
         else Ret clip)"

definition new_onnx_service :: "onnx_env \<Rightarrow> fs \<Rightarrow> ServerConfig \<Rightarrow> onnx_service outcome" where
  "new_onnx_service ox s cfg =
     outcome_bind (LoadVocabulary s (cfg_tokenizer_path cfg)) (\<lambda>voc.
     outcome_bind (RequireTokenId voc ''[CLS]'') (\<lambda>cls.
     outcome_bind (RequireTokenId voc ''[SEP]'') (\<lambda>sep.
     outcome_bind (RequireTokenId voc ''[UNK]'') (\<lambda>unk.
       if cfg_ai_max_tokens cfg < 2 then Throw (runtime_error ''ai.max_tokens must be at least 2'')
       else outcome_bind (ox_open ox (cfg_model_path cfg)) (\<lambda>se.
            outcome_bind (ValidateModelInputs se) (\<lambda>clip.
              Ret \<lparr>os_dimensions = cfg_embedding_dimensions cfg, os_max_tokens = cfg_ai_max_tokens cfg,
                os_vocabulary = voc, os_cls = cls, os_sep = sep, os_unk = unk, os_session = se, os_clip = clip\<rparr>))))))"

abbreviation input_ids_of :: "onnx_service \<Rightarrow> string \<Rightarrow> nat list" where
  "input_ids_of sv payload \<equiv> BuildInputIds (os_vocabulary sv) (os_cls sv) (os_sep sv) (os_unk sv) (os_max_tokens sv) payload"

text \<open>The values, normalised, as an embedding.\<close>

definition finish_embedding ::
  "fp_api \<Rightarrow> f32_api \<Rightarrow> string \<Rightarrow> float32 list \<Rightarrow> Embedding StatusOr" where
  "finish_embedding fp ar backend values =
     (case Normalize fp ar values of
        Inl e \<Rightarrow> Inl e
      | Inr normalized \<Rightarrow> Inr \<lparr>emb_values = normalized, emb_backend = backend, emb_degraded = False\<rparr>)"

definition pool_token :: "f32_api \<Rightarrow> float32 list \<Rightarrow> nat \<Rightarrow> nat \<Rightarrow> float32 list \<Rightarrow> float32 list" where
  "pool_token ar output hidden token_index values =
     fold (\<lambda>d vs. vs[d := f_add ar (vs ! d) (output ! (token_index * hidden + d))]) [0..<hidden] values"

definition mean_pool :: "f32_api \<Rightarrow> float32 list \<Rightarrow> nat \<Rightarrow> nat \<Rightarrow> float32 list" where
  "mean_pool ar output hidden token_count =
     map (\<lambda>v. f_div ar v (f_of_nat ar token_count))
       (fold (pool_token ar output hidden) [0..<token_count] (replicate hidden 0))"

text \<open>What is made of the outputs of a run, for the two kinds of models.\<close>

fun clip_embedding ::
  "fp_api \<Rightarrow> f32_api \<Rightarrow> nat \<Rightarrow> string \<Rightarrow> output_tensor list outcome \<Rightarrow> Embedding StatusOr" where
  "clip_embedding fp ar dims backend (Throw e) = Inl (Unavailable (''onnxruntime CLIP inference failed: '' @ what e))"
| "clip_embedding fp ar dims backend (Ret (tensor shape output # _)) =
     (if length shape \<noteq> 2 \<or> shape ! 0 \<noteq> 1 \<or> shape ! 1 \<le> 0
      then Inl (Internal ''onnxruntime produced an unexpected CLIP embedding tensor shape'')
      else if nat (shape ! 1) \<noteq> dims
      then Inl (InvalidArgument ''ai.embedding_dimensions does not match ONNX CLIP output dimensions'')
      else finish_embedding fp ar backend (take (nat (shape ! 1)) output))"
| "clip_embedding fp ar dims backend (Ret _) = Inl (Internal ''onnxruntime produced no CLIP tensor output'')"

fun pooled_embedding ::
  "fp_api \<Rightarrow> f32_api \<Rightarrow> nat \<Rightarrow> nat \<Rightarrow> output_tensor list outcome \<Rightarrow> Embedding StatusOr" where
  "pooled_embedding fp ar dims n (Throw e) = Inl (Unavailable (''onnxruntime inference failed: '' @ what e))"
| "pooled_embedding fp ar dims n (Ret (tensor shape output # _)) =
     (if length shape \<noteq> 3 \<or> shape ! 0 \<noteq> 1 \<or> shape ! 1 \<noteq> int n \<or> shape ! 2 \<le> 0
      then Inl (Internal ''onnxruntime produced an unexpected text embedding tensor shape'')
      else if nat (shape ! 2) \<noteq> dims
      then Inl (InvalidArgument ''ai.embedding_dimensions does not match ONNX model output dimensions'')
      else finish_embedding fp ar ''onnxruntime-minilm-text'' (mean_pool ar output (nat (shape ! 2)) n))"
| "pooled_embedding fp ar dims n (Ret _) = Inl (Internal ''onnxruntime produced no tensor output'')"

definition EmbedClip ::
  "onnx_env \<Rightarrow> fp_api \<Rightarrow> f32_api \<Rightarrow> px_api \<Rightarrow> onnx_service \<Rightarrow> string \<Rightarrow> string \<Rightarrow> string \<Rightarrow> bool \<Rightarrow> Embedding StatusOr outcome" where
  "EmbedClip ox fp ar px sv payload output_name backend payload_is_text =
     (if os_dimensions sv = 0 then Ret (Inl (InvalidArgument ''embedding dimensions must be positive''))
      else
        let input_ids = map int (input_ids_of sv (if payload_is_text then payload else ''image''));
            text_shape = [1, int (length input_ids)]
        in outcome_bind
             (if payload_is_text then Ret (replicate (3 * 224 * 224) 0) else LoadClipImagePixels ox ar px payload)
             (\<lambda>pixel_values. Ret (clip_embedding fp ar (os_dimensions sv) backend (se_run (os_session sv)
                   [(''input_ids'', int_tensor input_ids text_shape), (''pixel_values'', float_tensor pixel_values [1, 3, 224, 224]),
                    (''attention_mask'', int_tensor (replicate (length input_ids) 1) text_shape)] output_name))))"

definition embed_pooled :: "fp_api \<Rightarrow> f32_api \<Rightarrow> onnx_service \<Rightarrow> string \<Rightarrow> Embedding StatusOr outcome" where
  "embed_pooled fp ar sv payload =
     (if os_dimensions sv = 0 then Ret (Inl (InvalidArgument ''embedding dimensions must be positive''))
      else
        let input_ids = map int (input_ids_of sv payload); n = length input_ids; shape = [1, int n]
        in outcome_bind (se_first_output (os_session sv)) (\<lambda>output_name.
             Ret (pooled_embedding fp ar (os_dimensions sv) n (se_run (os_session sv)
                   [(''input_ids'', int_tensor input_ids shape), (''attention_mask'', int_tensor (replicate n 1) shape),
                    (''token_type_ids'', int_tensor (replicate n 0) shape)] output_name))))"

definition catch_unavailable :: "string \<Rightarrow> Embedding StatusOr outcome \<Rightarrow> Embedding StatusOr outcome" where
  "catch_unavailable what_failed out =
     (case out of Throw e \<Rightarrow> Ret (Inl (Unavailable (what_failed @ what e))) | Ret r \<Rightarrow> Ret r)"

definition EmbedTextPayload ::
  "onnx_env \<Rightarrow> fp_api \<Rightarrow> f32_api \<Rightarrow> px_api \<Rightarrow> onnx_service \<Rightarrow> string \<Rightarrow> Embedding StatusOr outcome" where
  "EmbedTextPayload ox fp ar px sv payload =
     (if os_clip sv
      then catch_unavailable ''text embedding failed: ''
        (EmbedClip ox fp ar px sv payload ''text_embeds'' ''onnxruntime-chinese-clip-text'' True)
      else embed_pooled fp ar sv payload)"

definition Onnx_EmbedText ::
  "onnx_env \<Rightarrow> fp_api \<Rightarrow> f32_api \<Rightarrow> px_api \<Rightarrow> onnx_service \<Rightarrow> string \<Rightarrow> Embedding StatusOr outcome" where
  "Onnx_EmbedText ox fp ar px sv payload =
     (if payload = [] then Ret (Inl (InvalidArgument ''text query cannot be empty''))
      else EmbedTextPayload ox fp ar px sv payload)"

definition Onnx_EmbedImage ::
  "onnx_env \<Rightarrow> fp_api \<Rightarrow> f32_api \<Rightarrow> px_api \<Rightarrow> onnx_service \<Rightarrow> string \<Rightarrow> Embedding StatusOr outcome" where
  "Onnx_EmbedImage ox fp ar px sv image_reference =
     (if image_reference = [] then Ret (Inl (InvalidArgument ''image reference cannot be empty''))
      else if \<not> os_clip sv
      then Ret (Inl (NotSupported ''the configured ONNX text embedding model does not support image input''))
      else catch_unavailable ''image embedding failed: ''
        (EmbedClip ox fp ar px sv image_reference ''image_embeds'' ''onnxruntime-chinese-clip-image'' False))"

subsection \<open>Choosing a service\<close>

datatype opened_embedder = opened_onnx onnx_service | opened_deterministic embedder

definition CreateEmbeddingService_onnx ::
  "(string \<Rightarrow> 64 word) \<Rightarrow> onnx_env \<Rightarrow> fp_api \<Rightarrow> f32_api \<Rightarrow> fs \<Rightarrow> ServerConfig \<Rightarrow> opened_embedder StatusOr" where
  "CreateEmbeddingService_onnx hash ox fp ar s cfg =
     (let backend = cfg_ai_backend cfg; path = cfg_model_path cfg;
          wanted = (backend = ''onnxruntime'' \<or> backend = ''auto'');
          attempt = (if wanted \<and> path \<noteq> [] \<and> file_exists s path then Some (new_onnx_service ox s cfg) else None);
          fallback =
            (if backend \<noteq> ''deterministic'' \<and> backend \<noteq> ''auto''
             then Inl (InvalidArgument (''unsupported ai backend: '' @ backend))
             else Inr (opened_deterministic (deterministic_service hash fp ar (cfg_embedding_dimensions cfg))))
      in case attempt of
           Some (Ret sv) \<Rightarrow> Inr (opened_onnx sv)
         | _ \<Rightarrow>
             if backend = ''onnxruntime''
             then (if path = [] then Inl (InvalidArgument ''ai.model_path must be configured for onnxruntime backend'')
                   else let initialization_error = (case attempt of Some (Throw e) \<Rightarrow> what e | _ \<Rightarrow> []) in
                     if initialization_error \<noteq> []
                     then Inl (Unavailable (''onnxruntime backend initialization failed: '' @ initialization_error))
                     else Inl (Unavailable (''onnxruntime backend requested but model file not found: '' @ path)))
             else fallback)"

subsection \<open>Pictures\<close>

lemma source_axis_bounds:
  assumes "0 < extent" and "source_axis ar px extent i = (p0, p1, w)"
  shows "0 \<le> p0 \<and> p0 < extent \<and> 0 \<le> p1 \<and> p1 < extent"
  using assms by (auto simp: source_axis_def Let_def i_clamp_def split: if_splits)

lemma byte_index_bounds:
  assumes "0 \<le> x" and "x < pic_width pic" and "0 \<le> y" and "y < pic_height pic" and "channel < 3"
  shows "0 \<le> byte_index pic x y channel \<and> byte_index pic x y channel < pic_width pic * pic_height pic * 3"
proof -
  have "y * pic_width pic + x < (y + 1) * pic_width pic" using assms(2) by (simp add: algebra_simps)
  also have "\<dots> \<le> pic_height pic * pic_width pic"
    using assms(1,2,4) by (intro mult_right_mono) auto
  finally have "y * pic_width pic + x + 1 \<le> pic_width pic * pic_height pic" by (simp add: mult.commute)
  then have "(y * pic_width pic + x + 1) * 3 \<le> pic_width pic * pic_height pic * 3"
    by (rule mult_right_mono) simp
  moreover have "0 \<le> y * pic_width pic + x" using assms by (simp add: add_nonneg_nonneg)
  ultimately show ?thesis using assms(5) by (simp add: byte_index_def)
qed

text \<open>Lists that are put together from blocks of one length.\<close>

lemma length_concat_blocks:
  "\<forall>i < n. length (f i) = m \<Longrightarrow> length (concat (map f [0..<n])) = n * m"
  by (induction n) auto

lemma nth_concat_blocks:
  assumes "\<forall>i < n. length (f i) = m" and "i < n" and "j < m"
  shows "concat (map f [0..<n]) ! (i * m + j) = f i ! j"
  using assms
proof (induction n)
  case (Suc n)
  have len: "length (concat (map f [0..<n])) = n * m"
    using Suc.prems(1) by (intro length_concat_blocks) simp
  show ?case
  proof (cases "i = n")
    case True
    with len Suc.prems show ?thesis by (simp add: nth_append)
  next
    case False
    with Suc.prems have i: "i < n" by simp
    then have "i * m + j < n * m"
      using Suc.prems(3) mult_le_mono1 [of "Suc i" n m] by simp
    with i len Suc show ?thesis by (simp add: nth_append)
  qed
qed simp


definition plain_px :: px_api where
  "plain_px = \<lparr>f_sub = (\<lambda>x y. x), f_less = (\<lambda>x y. False), f_of_int = word_of_int, f_floor = uint\<rparr>"

definition dot_env :: onnx_env where
  "dot_env = \<lparr>ox_open = (\<lambda>_. Throw (runtime_error ''no model'')),
     ox_decode = (\<lambda>_. Some \<lparr>pic_width = 2, pic_height = 1, pic_bytes = replicate 6 7\<rparr>)\<rparr>"


subsection \<open>Vectors\<close>

text \<open>A tensor of the runtime has as many numbers as its shape says.\<close>

definition ort_law :: "ort_session \<Rightarrow> bool" where
  "ort_law se \<longleftrightarrow> (\<forall>ins name outs shape numbers.
     se_run se ins name = Ret outs \<longrightarrow> tensor shape numbers \<in> set outs \<longrightarrow> int (length numbers) = prod_list shape)"

lemma length_Normalize: "Normalize fp ar values = Inr normalized \<Longrightarrow> length normalized = length values"
  by (auto simp: Normalize_def Let_def split: if_splits)

lemma finish_embedding_length:
  "finish_embedding fp ar backend values = Inr e \<Longrightarrow> length (emb_values e) = length values"
  by (auto simp: finish_embedding_def dest: length_Normalize split: sum.splits)

lemma length_pool_token: "length (pool_token ar output hidden i values) = length values"
proof -
  have "length (fold (\<lambda>d vs. vs[d := g d vs]) ds vs) = length vs" for g :: "nat \<Rightarrow> float32 list \<Rightarrow> float32" and ds vs
    by (induction ds arbitrary: vs) simp_all
  then show ?thesis by (simp add: pool_token_def)
qed

lemma length_mean_pool: "length (mean_pool ar output hidden n) = hidden"
proof -
  have "length (fold (pool_token ar output hidden) ts vs) = length vs" for ts vs
    by (induction ts arbitrary: vs) (simp_all add: length_pool_token)
  then show ?thesis by (simp add: mean_pool_def)
qed

lemma clip_embedding_length:
  assumes "clip_embedding fp ar dims backend out = Inr e"
    and "\<And>outs shape numbers. out = Ret outs \<Longrightarrow> tensor shape numbers \<in> set outs \<Longrightarrow>
      int (length numbers) = prod_list shape"
  shows "length (emb_values e) = dims"
  using assms
proof (induction fp ar dims backend out rule: clip_embedding.induct)
  case (2 fp ar dims backend shape numbers rest)
  from "2.prems"(1) have sh: "length shape = 2" "shape ! 0 = 1" "0 < shape ! 1" "nat (shape ! 1) = dims"
    and fin: "finish_embedding fp ar backend (take (nat (shape ! 1)) numbers) = Inr e"
    by (auto split: if_splits)
  from sh(1) obtain a b where ab: "shape = [a, b]"
    by (auto simp: numeral_2_eq_2 length_Suc_conv)
  from "2.prems"(2) [of "tensor shape numbers # rest" shape numbers] sh ab have "length numbers = dims" by simp
  with finish_embedding_length [OF fin] sh(4) show ?case by simp
qed simp_all

lemma pooled_embedding_length: "pooled_embedding fp ar dims n out = Inr e \<Longrightarrow> length (emb_values e) = dims"
  by (induction fp ar dims n out rule: pooled_embedding.induct)
    (auto simp: length_mean_pool dest!: finish_embedding_length split: if_splits)

lemma EmbedClip_dimension:
  assumes "ort_law (os_session sv)" and "EmbedClip ox fp ar px sv payload name backend b = Ret (Inr e)"
  shows "length (emb_values e) = os_dimensions sv \<and> 0 < os_dimensions sv"
proof -
  from assms(2) obtain ins where
    "clip_embedding fp ar (os_dimensions sv) backend (se_run (os_session sv) ins name) = Inr e" "0 < os_dimensions sv"
    by (auto simp: EmbedClip_def Let_def outcome_bind_Ret_iff split: if_splits)
  with clip_embedding_length assms(1) show ?thesis unfolding ort_law_def by blast
qed

text \<open>
  A vector that the service returns has the configured dimension, whatever the model computes;
  a model with another dimension, or another shape of its output, is refused.
\<close>

lemma onnx_embedding_has_the_configured_dimension:
  assumes "ort_law (os_session sv)"
    and "Onnx_EmbedText ox fp ar px sv payload = Ret (Inr e) \<or> Onnx_EmbedImage ox fp ar px sv payload = Ret (Inr e)"
  shows "length (emb_values e) = os_dimensions sv \<and> 0 < os_dimensions sv"
proof -
  have "length (emb_values e) = os_dimensions sv \<and> 0 < os_dimensions sv"
    if "embed_pooled fp ar sv payload = Ret (Inr e)"
    using that
    by (auto simp: embed_pooled_def Let_def outcome_bind_Ret_iff dest: pooled_embedding_length split: if_splits)
  with assms show ?thesis
    by (auto simp: Onnx_EmbedText_def Onnx_EmbedImage_def EmbedTextPayload_def catch_unavailable_def
        split: if_splits outcome.splits dest: EmbedClip_dimension)
qed

text \<open>
  No exception leaves \<open>EmbedImage\<close>. From \<open>EmbedText\<close> of a model that is not a CLIP model one can
  escape: the name of the first output is asked for outside the \<open>try\<close>.
\<close>

lemma images_never_throw: "\<exists>r. Onnx_EmbedImage ox fp ar px sv ref = Ret r"
  by (simp add: Onnx_EmbedImage_def catch_unavailable_def split: outcome.split)

lemma texts_throw_without_an_output:
  assumes "se_first_output (os_session sv) = Throw x" and "\<not> os_clip sv" and "payload \<noteq> []" and "0 < os_dimensions sv"
  shows "Onnx_EmbedText ox fp ar px sv payload = Throw x"
  using assms by (simp add: Onnx_EmbedText_def EmbedTextPayload_def embed_pooled_def Let_def)

text \<open>The service that is created can make room for the two tokens around each text.\<close>

lemma new_onnx_service_valid:
  assumes "new_onnx_service ox s cfg = Ret sv"
  shows "2 \<le> os_max_tokens sv \<and> os_max_tokens sv = cfg_ai_max_tokens cfg \<and>
    map_of (os_vocabulary sv) ''[CLS]'' = Some (os_cls sv) \<and> map_of (os_vocabulary sv) ''[SEP]'' = Some (os_sep sv) \<and>
    map_of (os_vocabulary sv) ''[UNK]'' = Some (os_unk sv)"
  using assms
  by (auto simp: new_onnx_service_def outcome_bind_Ret_iff RequireTokenId_def not_less
      split: if_splits option.splits)

text \<open>\<open>auto\<close> never fails for want of a model: without one the deterministic service is used.\<close>

lemma auto_always_yields_a_service:
  assumes "cfg_ai_backend cfg = ''auto''"
  shows "\<exists>emb. CreateEmbeddingService_onnx hash ox fp ar s cfg = Inr emb"
  using assms by (simp add: CreateEmbeddingService_onnx_def Let_def split: option.split outcome.split)

end
