(* ===== verification/Outbox.thy ===== *)
theory Outbox
  imports Embedding_Service Wal_Store
begin

text \<open>
  \<open>src/gateway/vector_index_outbox.h\<close>, \<open>vector_index_outbox.cpp\<close>: documents waiting to be
  embedded and put into the vector index, kept in a map and, after every change, in a framed
  file. \<open>DrainOnce\<close> works through the keys it saw at its start and releases the mutex while
  it embeds a document, so its critical sections are definitions of their own: composed
  they are the sequential \<open>DrainOnce\<close>, as steps of \<open>outbox_step\<close> they interleave with the
  other operations. The index is reached through the contract of the locale \<open>vector_index\<close>.
\<close>

subsection \<open>State\<close>

record outbox_status =
  ob_enabled :: bool
  ob_state :: string
  ob_pending :: nat
  ob_succeeded :: nat
  ob_failed :: nat
  ob_last_error :: string

record outbox =
  outbox_path :: string
  pending :: "(string, DocumentRecord) omap"
  ob_status :: outbox_status
  ob_running :: bool
  ob_stopping :: bool

definition new_outbox :: "string \<Rightarrow> outbox" where
  "new_outbox path = \<lparr>outbox_path = path, pending = [],
     ob_status = \<lparr>ob_enabled = True, ob_state = ''idle'', ob_pending = 0, ob_succeeded = 0,
       ob_failed = 0, ob_last_error = []\<rparr>,
     ob_running = False, ob_stopping = False\<rparr>"

subsection \<open>Operations\<close>

fun first_metadata :: "string list \<Rightarrow> (string, string) omap \<Rightarrow> string" where
  "first_metadata [] m = []"
| "first_metadata (k # ks) m =
     (case map_of m k of
        None \<Rightarrow> first_metadata ks m
      | Some v \<Rightarrow> if v \<noteq> [] then v else first_metadata ks m)"

definition ImageReferenceForRecord :: "DocumentRecord \<Rightarrow> string" where
  "ImageReferenceForRecord r =
     first_metadata [''image_path'', ''image_reference'', ''image_uri''] (doc_metadata r)"

definition record_embedding :: "embedder \<Rightarrow> DocumentRecord \<Rightarrow> Embedding StatusOr" where
  "record_embedding emb r =
     (let image_reference = ImageReferenceForRecord r in
      if image_reference = [] then embed_text emb (doc_title r @ '' '' @ doc_body r)
      else embed_image emb image_reference)"

definition IndexRecord ::
  "embedder \<Rightarrow> (DocumentRecord \<Rightarrow> float32 list \<Rightarrow> 'x \<Rightarrow> Status \<times> 'x) \<Rightarrow> DocumentRecord \<Rightarrow> 'x \<Rightarrow> Status \<times> 'x" where
  "IndexRecord emb upsert r x =
     (case record_embedding emb r of
        Inl e \<Rightarrow> (e, x)
      | Inr e \<Rightarrow> upsert r (emb_values e) x)"

definition outbox_parent_error :: string where
  "outbox_parent_error = ''failed to create vector outbox directory: ''"

definition RewriteLocked :: "pb_api \<Rightarrow> fs \<Rightarrow> outbox \<Rightarrow> Status \<times> fs" where
  "RewriteLocked pb s ob =
     (let status = EnsureParentDirectory outbox_parent_error s (outbox_path ob) in
      if \<not> ok status then (status, s)
      else if \<not> fs_writable s (outbox_path ob)
      then (Internal ''failed to open vector index outbox'', s)
      else (Ok, write_file (outbox_path ob)
              (MagicHeader @ concat (map (\<lambda>(_, r). EncodeFrame (EncodeDocumentRecord pb r)) (pending ob))) s))"

definition set_state :: "string \<Rightarrow> outbox \<Rightarrow> outbox" where
  "set_state v ob = ob\<lparr>ob_status := (ob_status ob)\<lparr>ob_state := v\<rparr>\<rparr>"

definition RecordError :: "Status \<Rightarrow> outbox \<Rightarrow> outbox" where
  "RecordError status ob =
     ob\<lparr>ob_status := (ob_status ob)\<lparr>ob_state := ''degraded'', ob_last_error := Status_ToString status\<rparr>\<rparr>"

definition count_pending :: "outbox \<Rightarrow> outbox" where
  "count_pending ob = ob\<lparr>ob_status := (ob_status ob)\<lparr>ob_pending := length (pending ob)\<rparr>\<rparr>"

definition Outbox_Recover :: "pb_api \<Rightarrow> fs \<Rightarrow> outbox \<Rightarrow> Status \<times> outbox" where
  "Outbox_Recover pb s ob =
     (let ob0 = ob\<lparr>pending := []\<rparr> in
      case ReadWholeFile ''vector outbox file not found'' s (outbox_path ob) of
        Inl _ \<Rightarrow> (Ok, ob0)
      | Inr bytes \<Rightarrow>
          if bytes = [] then (Ok, ob0)
          else case DecodeFrames bytes of
            Inl e \<Rightarrow> (e, ob0)
          | Inr frames \<Rightarrow>
              let (m, status) = frame_loop (DecodeDocumentRecord pb)
                    (\<lambda>r. omap_put (document_key r) r) frames []
              in if ok status then (Ok, count_pending (ob0\<lparr>pending := m\<rparr>))
                 else (status, ob0\<lparr>pending := m\<rparr>))"

definition Enqueue :: "pb_api \<Rightarrow> DocumentRecord \<Rightarrow> fs \<times> outbox \<Rightarrow> Status \<times> fs \<times> outbox" where
  "Enqueue pb r = (\<lambda>(s, ob).
     let ob1 = set_state ''pending'' (count_pending (ob\<lparr>pending := omap_put (document_key r) r (pending ob)\<rparr>));
         (status, s') = RewriteLocked pb s ob1
     in if \<not> ok status then (status, s', RecordError status ob1) else (Ok, s', ob1))"

definition Outbox_Remove :: "pb_api \<Rightarrow> string \<Rightarrow> string \<Rightarrow> fs \<times> outbox \<Rightarrow> Status \<times> fs \<times> outbox" where
  "Outbox_Remove pb c k = (\<lambda>(s, ob).
     let ob1 = count_pending (ob\<lparr>pending := omap_erase (BuildCompositeKey c k) (pending ob)\<rparr>);
         (status, s') = RewriteLocked pb s ob1
     in (status, s', ob1))"

definition Outbox_Status :: "outbox \<Rightarrow> outbox_status" where
  "Outbox_Status ob = (ob_status ob)\<lparr>ob_pending := length (pending ob)\<rparr>"

text \<open>The critical sections of \<open>DrainOnce\<close>: the keys to work through, and the end of one.\<close>

definition drain_begin :: "outbox \<Rightarrow> string list \<times> outbox" where
  "drain_begin ob =
     (map fst (pending ob), set_state (if pending ob = [] then ''idle'' else ''indexing'') ob)"

definition drain_finish ::
  "pb_api \<Rightarrow> string \<Rightarrow> Status \<Rightarrow> fs \<times> outbox \<Rightarrow> Status option \<times> fs \<times> outbox" where
  "drain_finish pb key status = (\<lambda>(s, ob).
     if ok status then
       let ob1 = ob\<lparr>pending := omap_erase key (pending ob)\<rparr>;
           ob2 = ob1\<lparr>ob_status := (ob_status ob1)\<lparr>ob_succeeded := ob_succeeded (ob_status ob1) + 1,
                   ob_pending := length (pending ob1),
                   ob_state := (if pending ob1 = [] then ''idle'' else ''pending'')\<rparr>\<rparr>;
           (rewrite, s') = RewriteLocked pb s ob2
       in if \<not> ok rewrite then (Some rewrite, s', RecordError rewrite ob2) else (None, s', ob2)
     else
       (None, s, ob\<lparr>ob_status := (ob_status ob)\<lparr>ob_failed := ob_failed (ob_status ob) + 1,
          ob_state := ''degraded'', ob_last_error := Status_ToString status\<rparr>\<rparr>))"

fun drain_keys ::
  "pb_api \<Rightarrow> embedder \<Rightarrow> (DocumentRecord \<Rightarrow> float32 list \<Rightarrow> 'x \<Rightarrow> Status \<times> 'x) \<Rightarrow> string list \<Rightarrow>
     fs \<times> outbox \<times> 'x \<Rightarrow> Status \<times> fs \<times> outbox \<times> 'x" where
  "drain_keys pb emb upsert [] st = (Ok, st)"
| "drain_keys pb emb upsert (key # keys) (s, ob, x) =
     (case map_of (pending ob) key of
        None \<Rightarrow> drain_keys pb emb upsert keys (s, ob, x)
      | Some r \<Rightarrow>
          let (status, x') = IndexRecord emb upsert r x in
          case drain_finish pb key status (s, ob) of
            (Some rewrite, s', ob') \<Rightarrow> (rewrite, s', ob', x')
          | (None, s', ob') \<Rightarrow> drain_keys pb emb upsert keys (s', ob', x'))"

definition DrainOnce ::
  "pb_api \<Rightarrow> embedder \<Rightarrow> (DocumentRecord \<Rightarrow> float32 list \<Rightarrow> 'x \<Rightarrow> Status \<times> 'x) \<Rightarrow>
     fs \<times> outbox \<times> 'x \<Rightarrow> Status \<times> fs \<times> outbox \<times> 'x" where
  "DrainOnce pb emb upsert = (\<lambda>(s, ob, x).
     let (keys, ob') = drain_begin ob in drain_keys pb emb upsert keys (s, ob', x))"

text \<open>\<open>Start\<close>, the first part of \<open>Stop\<close>, and its last part after the worker has been joined.\<close>

definition Outbox_Start :: "outbox \<Rightarrow> outbox" where
  "Outbox_Start ob = (if ob_running ob then ob else ob\<lparr>ob_running := True, ob_stopping := False\<rparr>)"

definition Outbox_Stop :: "outbox \<Rightarrow> outbox" where
  "Outbox_Stop ob = (if \<not> ob_running ob then ob else ob\<lparr>ob_stopping := True\<rparr>)"

definition outbox_joined :: "outbox \<Rightarrow> outbox" where
  "outbox_joined ob = set_state ''stopped'' (ob\<lparr>ob_running := False\<rparr>)"

subsection \<open>Interleaving\<close>

text \<open>
  Where the worker is: waiting, between two keys, embedding a record, or done with it. The
  parameter \<open>valid\<close> of the steps says which documents the callers enqueue.
\<close>

datatype drain_phase =
    Resting
  | Scanning "string list"
  | Embedding_of string DocumentRecord "string list"
  | Indexed string Status "string list"

record 'x outbox_system =
  sys_fs :: fs
  sys_outbox :: outbox
  sys_index :: 'x
  sys_phase :: drain_phase

inductive outbox_step ::
  "pb_api \<Rightarrow> embedder \<Rightarrow> (DocumentRecord \<Rightarrow> float32 list \<Rightarrow> 'x \<Rightarrow> Status \<times> 'x) \<Rightarrow>
     (DocumentRecord \<Rightarrow> bool) \<Rightarrow> 'x outbox_system \<Rightarrow> 'x outbox_system \<Rightarrow> bool" for pb emb upsert valid where
  enqueue: "valid r \<Longrightarrow> Enqueue pb r (sys_fs y, sys_outbox y) = (status, s', ob') \<Longrightarrow>
    outbox_step pb emb upsert valid y (y\<lparr>sys_fs := s', sys_outbox := ob'\<rparr>)"
| remove: "Outbox_Remove pb c k (sys_fs y, sys_outbox y) = (status, s', ob') \<Longrightarrow>
    outbox_step pb emb upsert valid y (y\<lparr>sys_fs := s', sys_outbox := ob'\<rparr>)"
| drain: "sys_phase y = Resting \<Longrightarrow> drain_begin (sys_outbox y) = (keys, ob') \<Longrightarrow>
    outbox_step pb emb upsert valid y (y\<lparr>sys_outbox := ob', sys_phase := Scanning keys\<rparr>)"
| rest: "sys_phase y = Scanning [] \<Longrightarrow> outbox_step pb emb upsert valid y (y\<lparr>sys_phase := Resting\<rparr>)"
| skip: "sys_phase y = Scanning (key # keys) \<Longrightarrow> map_of (pending (sys_outbox y)) key = None \<Longrightarrow>
    outbox_step pb emb upsert valid y (y\<lparr>sys_phase := Scanning keys\<rparr>)"
| pick: "sys_phase y = Scanning (key # keys) \<Longrightarrow> map_of (pending (sys_outbox y)) key = Some r \<Longrightarrow>
    outbox_step pb emb upsert valid y (y\<lparr>sys_phase := Embedding_of key r keys\<rparr>)"
| index: "sys_phase y = Embedding_of key r keys \<Longrightarrow> IndexRecord emb upsert r (sys_index y) = (status, x') \<Longrightarrow>
    outbox_step pb emb upsert valid y (y\<lparr>sys_index := x', sys_phase := Indexed key status keys\<rparr>)"
| finish: "sys_phase y = Indexed key status keys \<Longrightarrow>
    drain_finish pb key status (sys_fs y, sys_outbox y) = (rewrite, s', ob') \<Longrightarrow>
    outbox_step pb emb upsert valid y (y\<lparr>sys_fs := s', sys_outbox := ob',
      sys_phase := (case rewrite of None \<Rightarrow> Scanning keys | Some _ \<Rightarrow> Resting)\<rparr>)"

subsection \<open>Lemmas\<close>

lemma status_changes [simp]:
  "pending (set_state v ob) = pending ob" "outbox_path (set_state v ob) = outbox_path ob"
  "pending (count_pending ob) = pending ob" "outbox_path (count_pending ob) = outbox_path ob"
  "pending (RecordError e ob) = pending ob" "outbox_path (RecordError e ob) = outbox_path ob"
  by (simp_all add: set_state_def count_pending_def RecordError_def)

definition outbox_bytes :: "pb_api \<Rightarrow> (string, DocumentRecord) omap \<Rightarrow> string" where
  "outbox_bytes pb m = framed_file (EncodeDocumentRecord pb) (map snd m)"

lemma RewriteLocked_usable:
  assumes "usable s (outbox_path ob)"
  shows "RewriteLocked pb s ob = (Ok, write_file (outbox_path ob) (outbox_bytes pb (pending ob)) s)"
proof -
  have "MagicHeader @ concat (map (\<lambda>(_, r). EncodeFrame (EncodeDocumentRecord pb r)) (pending ob))
      = outbox_bytes pb (pending ob)"
    by (induction "pending ob") (auto simp: outbox_bytes_def framed_file_def comp_def case_prod_beta)
  then show ?thesis
    using assms by (simp add: RewriteLocked_def usable_EnsureParentDirectory usable_def [of s] Let_def)
qed

text \<open>The file holds what is pending.\<close>

definition outbox_filed :: "pb_api \<Rightarrow> fs \<Rightarrow> outbox \<Rightarrow> bool" where
  "outbox_filed pb s ob \<longleftrightarrow>
     usable s (outbox_path ob) \<and> map_inv (pending ob) \<and> documents_ok pb (pending ob) \<and>
     file_image (EncodeDocumentRecord pb) (fs_files s (outbox_path ob)) (map snd (pending ob))"

lemma outbox_filed_rewrite:
  assumes "usable s (outbox_path ob)" and "map_inv (pending ob)" and "documents_ok pb (pending ob)"
  shows "outbox_filed pb (write_file (outbox_path ob) (outbox_bytes pb (pending ob)) s) ob"
  using assms by (simp add: outbox_filed_def file_image_def outbox_bytes_def)

lemma outbox_filed_cong:
  "pending ob' = pending ob \<Longrightarrow> outbox_path ob' = outbox_path ob \<Longrightarrow>
   outbox_filed pb s ob' = outbox_filed pb s ob"
  by (simp add: outbox_filed_def)

lemma outbox_filed_Enqueue:
  assumes "outbox_filed pb s ob" and "document_ok pb r"
  shows "\<exists>s' ob'. Enqueue pb r (s, ob) = (Ok, s', ob') \<and> outbox_filed pb s' ob' \<and> outbox_path ob' = outbox_path ob"
proof -
  let ?ob = "set_state ''pending'' (count_pending (ob\<lparr>pending := omap_put (document_key r) r (pending ob)\<rparr>))"
  have u: "usable s (outbox_path ?ob)" using assms(1) by (simp add: outbox_filed_def)
  moreover have "documents_ok pb (pending ?ob)"
    using assms documents_ok_put_record [of pb "pending ob" r] by (simp add: outbox_filed_def put_record_def)
  moreover have "map_inv (pending ?ob)" using assms(1) by (simp add: outbox_filed_def)
  ultimately have "outbox_filed pb (write_file (outbox_path ?ob) (outbox_bytes pb (pending ?ob)) s) ?ob"
    using outbox_filed_rewrite by blast
  with u RewriteLocked_usable [OF u] show ?thesis by (auto simp: Enqueue_def Let_def)
qed

lemma documents_ok_erase: "documents_ok pb m \<Longrightarrow> documents_ok pb (omap_erase k m)"
  by (auto simp: documents_ok_def omap_erase_def)

lemma outbox_filed_Remove:
  assumes "outbox_filed pb s ob"
  shows "\<exists>s' ob'. Outbox_Remove pb c k (s, ob) = (Ok, s', ob') \<and> outbox_filed pb s' ob' \<and> outbox_path ob' = outbox_path ob"
proof -
  let ?ob = "count_pending (ob\<lparr>pending := omap_erase (BuildCompositeKey c k) (pending ob)\<rparr>)"
  have u: "usable s (outbox_path ?ob)" using assms(1) by (simp add: outbox_filed_def)
  have "outbox_filed pb (write_file (outbox_path ?ob) (outbox_bytes pb (pending ?ob)) s) ?ob"
    using assms by (intro outbox_filed_rewrite) (simp_all add: outbox_filed_def documents_ok_erase map_inv_erase)
  with u RewriteLocked_usable [OF u] show ?thesis by (auto simp: Outbox_Remove_def Let_def)
qed

text \<open>The end of one key, when the file can be written.\<close>

lemma drain_finish_filed:
  assumes "outbox_filed pb s ob"
  obtains s' ob' where "drain_finish pb key status (s, ob) = (None, s', ob')" "outbox_filed pb s' ob'"
    "outbox_path ob' = outbox_path ob"
    "pending ob' = (if ok status then omap_erase key (pending ob) else pending ob)"
proof (cases "ok status")
  case True
  let ?ob1 = "ob\<lparr>pending := omap_erase key (pending ob)\<rparr>"
  let ?ob = "?ob1\<lparr>ob_status := (ob_status ?ob1)\<lparr>ob_succeeded := ob_succeeded (ob_status ?ob1) + 1,
      ob_pending := length (pending ?ob1), ob_state := (if pending ?ob1 = [] then ''idle'' else ''pending'')\<rparr>\<rparr>"
  have u: "usable s (outbox_path ?ob)" using assms(1) by (simp add: outbox_filed_def)
  have f: "outbox_filed pb (write_file (outbox_path ?ob) (outbox_bytes pb (pending ?ob)) s) ?ob"
    using assms by (intro outbox_filed_rewrite) (simp_all add: outbox_filed_def documents_ok_erase map_inv_erase)
  show ?thesis
    using True f RewriteLocked_usable [OF u]
    by (intro that [of "write_file (outbox_path ?ob) (outbox_bytes pb (pending ?ob)) s" ?ob])
      (simp_all add: drain_finish_def Let_def)
next
  case False
  let ?ob = "ob\<lparr>ob_status := (ob_status ob)\<lparr>ob_failed := ob_failed (ob_status ob) + 1,
      ob_state := ''degraded'', ob_last_error := Status_ToString status\<rparr>\<rparr>"
  have "drain_finish pb key status (s, ob) = (None, s, ?ob)"
    using False by (simp add: drain_finish_def)
  moreover have "outbox_filed pb s ?ob"
    using assms by (simp add: outbox_filed_def)
  ultimately show ?thesis
    using False by (intro that [of s ?ob]) simp_all
qed

text \<open>The vector that a document gets, if it gets one.\<close>

definition indexable :: "embedder \<Rightarrow> DocumentRecord \<Rightarrow> float32 list option" where
  "indexable emb r =
     (case record_embedding emb r of
        Inl _ \<Rightarrow> None
      | Inr e \<Rightarrow> if emb_values e = [] then None else Some (emb_values e))"

definition embedder_ok :: "embedder \<Rightarrow> bool" where
  "embedder_ok emb \<longleftrightarrow>
     (\<forall>t e. embed_text emb t = Inl e \<longrightarrow> \<not> ok e) \<and> (\<forall>t e. embed_image emb t = Inl e \<longrightarrow> \<not> ok e)"

lemma embedder_okD: "embedder_ok emb \<Longrightarrow> record_embedding emb r = Inl e \<Longrightarrow> \<not> ok e"
  by (auto simp: embedder_ok_def record_embedding_def Let_def split: if_splits)

text \<open>What is found in the index after a document was drained.\<close>

definition drained :: "embedder \<Rightarrow> (string \<rightharpoonup> DocumentRecord) \<Rightarrow> (string \<rightharpoonup> VectorEntry) \<Rightarrow> string \<rightharpoonup> VectorEntry" where
  "drained emb p m k =
     (case Option.bind (p k) (\<lambda>r. map_option (Pair r) (indexable emb r)) of
        None \<Rightarrow> m k
      | Some (r, v) \<Rightarrow> Some \<lparr>ve_record = r, ve_vector = v\<rparr>)"

lemma drained_other [simp]:
  "k \<noteq> key \<Longrightarrow> drained emb (p(key := None)) (m(key := w)) k = drained emb p m k"
  by (auto simp: drained_def split: option.splits)

lemma drained_done [simp]: "drained emb (p(key := None)) m key = m key"
  by (simp add: drained_def)

context vector_index
begin

lemma IndexRecord_indexable:
  assumes "embedder_ok emb" and "IndexRecord emb upsert r x = (status, x')"
  shows "case indexable emb r of
      None \<Rightarrow> \<not> ok status \<and> vectors x' = vectors x
    | Some v \<Rightarrow> ok status \<and> vectors x' = (vectors x)(document_key r \<mapsto> \<lparr>ve_record = r, ve_vector = v\<rparr>)"
proof (cases "record_embedding emb r")
  case (Inl e)
  with assms embedder_okD [OF assms(1) Inl] show ?thesis
    by (simp add: IndexRecord_def indexable_def)
next
  case (Inr e)
  with assms(2) upsert_ok [of "emb_values e" r x] upsert_empty [of r x] show ?thesis
    by (auto simp: IndexRecord_def indexable_def)
qed

lemma drain_keys_spec:
  assumes "embedder_ok emb" and "outbox_filed pb s ob" and "distinct keys"
    and "drain_keys pb emb upsert keys (s, ob, x) = (status, s', ob', x')"
  shows "status = Ok \<and> outbox_filed pb s' ob' \<and> outbox_path ob' = outbox_path ob \<and>
    (\<forall>k. map_of (pending ob') k =
       (if k \<in> set keys \<and> Option.bind (map_of (pending ob) k) (indexable emb) \<noteq> None then None
        else map_of (pending ob) k)) \<and>
    (\<forall>k. vectors x' k = (if k \<in> set keys then drained emb (map_of (pending ob)) (vectors x) k else vectors x k))"
  using assms(2-4)
proof (induction keys arbitrary: s ob x)
  case Nil
  then show ?case by simp
next
  case (Cons key keys)
  from Cons.prems(2) have new: "key \<notin> set keys" and dis: "distinct keys" by simp_all
  show ?case
  proof (cases "map_of (pending ob) key")
    case None
    with Cons.prems(3) have "drain_keys pb emb upsert keys (s, ob, x) = (status, s', ob', x')" by simp
    from Cons.IH [OF Cons.prems(1) dis this] None show ?thesis by (auto simp: drained_def)
  next
    case (Some r)
    then have key: "document_key r = key"
      using Cons.prems(1) map_inv_lookup by (fastforce simp: outbox_filed_def)
    obtain st1 x1 where ix: "IndexRecord emb upsert r x = (st1, x1)" by (cases "IndexRecord emb upsert r x")
    obtain s1 ob1 where fin: "drain_finish pb key st1 (s, ob) = (None, s1, ob1)" "outbox_filed pb s1 ob1"
      "outbox_path ob1 = outbox_path ob"
      and p: "pending ob1 = (if ok st1 then omap_erase key (pending ob) else pending ob)"
      by (rule drain_finish_filed [OF Cons.prems(1), of key st1])
    from Cons.prems(3) Some ix fin have "drain_keys pb emb upsert keys (s1, ob1, x1) = (status, s', ob', x')"
      by simp
    note ih = Cons.IH [OF fin(2) dis this]
    note spec = IndexRecord_indexable [OF assms(1) ix]
    show ?thesis
    proof (cases "indexable emb r")
      case None
      with spec have "\<not> ok st1" "vectors x1 = vectors x" by simp_all
      with ih p Some None fin(3) new show ?thesis by (auto simp: drained_def)
    next
      case v: (Some v)
      with spec key have "ok st1" and x1: "vectors x1 = (vectors x)(key \<mapsto> \<lparr>ve_record = r, ve_vector = v\<rparr>)"
        by simp_all
      have p1: "map_of (pending ob1) = (map_of (pending ob))(key := None)"
        using p \<open>ok st1\<close> by simp
      have "drained emb (map_of (pending ob)) (vectors x) key = Some \<lparr>ve_record = r, ve_vector = v\<rparr>"
        using Some v by (simp add: drained_def)
      have ne: "k \<noteq> key" if "k \<in> set keys" for k using that new by blast
      from \<open>drained emb (map_of (pending ob)) (vectors x) key = _\<close> ih [unfolded p1 x1] Some v fin(3) new
      show ?thesis by (auto simp: ne)
    qed
  qed
qed

end

text \<open>Reading the file back.\<close>

lemma outbox_filed_Recover:
  assumes "pb_laws pb" and "outbox_filed pb s ob"
  shows "Outbox_Recover pb s (new_outbox (outbox_path ob)) =
    (Ok, (if fs_files s (outbox_path ob) \<in> {None, Some []} then id else count_pending)
      (new_outbox (outbox_path ob)\<lparr>pending := pending ob\<rparr>))"
proof -
  have good: "\<forall>r \<in> set (map snd (pending ob)). pb_laws pb \<and> document_ok pb r"
    using assms by (auto simp: outbox_filed_def documents_ok_def)
  have "fold (\<lambda>r. omap_put (document_key r) r) (map snd (pending ob)) [] = pending ob"
    using fold_put_record_self [of "pending ob"] assms(2)
    by (simp add: outbox_filed_def put_record_def [abs_def])
  moreover have "frame_loop (DecodeDocumentRecord pb) (\<lambda>r. omap_put (document_key r) r)
      (map (EncodeDocumentRecord pb) (map snd (pending ob))) []
      = (fold (\<lambda>r. omap_put (document_key r) r) (map snd (pending ob)) [], Ok)"
    using good by (rule doc_codec.frame_loop_enc)
  ultimately show ?thesis
    using assms(2) doc_codec.frames_of_file [OF good]
    by (auto simp: Outbox_Recover_def outbox_filed_def file_image_def usable_def ReadWholeFile_def
        new_outbox_def Let_def)
qed

lemma pending_recovered [simp]:
  "pending ((if b then id else count_pending) ob) = pending ob"
  by simp

text \<open>Every step keeps the file and the map together.\<close>

definition outbox_valid :: "pb_api \<Rightarrow> (DocumentRecord \<Rightarrow> bool) \<Rightarrow> bool" where
  "outbox_valid pb valid \<longleftrightarrow> (\<forall>r. valid r \<longrightarrow> document_ok pb r)"

lemma outbox_step_filed:
  assumes "outbox_step pb emb upsert valid y y'" and "outbox_valid pb valid"
    and "outbox_filed pb (sys_fs y) (sys_outbox y)"
  shows "outbox_filed pb (sys_fs y') (sys_outbox y') \<and> outbox_path (sys_outbox y') = outbox_path (sys_outbox y)"
  using assms
proof cases
  case (enqueue r status s' ob')
  then show ?thesis
    using outbox_filed_Enqueue [OF assms(3)] assms(2) by (fastforce simp: outbox_valid_def)
next
  case (remove c k status s' ob')
  then show ?thesis using outbox_filed_Remove [OF assms(3), of c k] by auto
next
  case (finish key status keys rewrite s' ob')
  obtain s1 ob1 where "drain_finish pb key status (sys_fs y, sys_outbox y) = (None, s1, ob1)"
    "outbox_filed pb s1 ob1" "outbox_path ob1 = outbox_path (sys_outbox y)"
    by (rule drain_finish_filed [OF assms(3), of key status])
  with finish show ?thesis by simp
qed (auto simp: drain_begin_def outbox_filed_def)

lemma outbox_steps_filed:
  assumes "(outbox_step pb emb upsert valid)\<^sup>*\<^sup>* y y'" and "outbox_valid pb valid"
    and "outbox_filed pb (sys_fs y) (sys_outbox y)"
  shows "outbox_filed pb (sys_fs y') (sys_outbox y') \<and> outbox_path (sys_outbox y') = outbox_path (sys_outbox y)"
  using assms(1)
proof induction
  case base
  show ?case using assms(3) by simp
next
  case (step y1 y2)
  with outbox_step_filed [OF step.hyps(2) assms(2)] show ?case by simp
qed

lemma outbox_filed_new [simp]: "outbox_filed pb empty_fs (new_outbox path)"
  by (simp add: outbox_filed_def new_outbox_def documents_ok_def file_image_def)

subsection \<open>Properties\<close>

definition waiting_document :: DocumentRecord where
  "waiting_document = ve_record (sample_entry ''a'' 1)"

definition sample_outbox :: outbox where
  "sample_outbox = (new_outbox ''o'')\<lparr>pending := [(document_key waiting_document, waiting_document)]\<rparr>"

definition sample_outbox_fs :: fs where
  "sample_outbox_fs = write_file ''o'' (outbox_bytes plain_pb (pending sample_outbox)) empty_fs"

definition constant_embedder :: embedder where
  "constant_embedder = \<lparr>embed_text = (\<lambda>t. Inr \<lparr>emb_values = [1], emb_backend = ''m'', emb_degraded = False\<rparr>),
     embed_image = (\<lambda>t. Inr \<lparr>emb_values = [1], emb_backend = ''m'', emb_degraded = False\<rparr>)\<rparr>"

lemma waiting_document_ok: "document_ok plain_pb waiting_document"
  by (simp add: waiting_document_def sample_entry_def document_ok_def plain_pb_def ToProto_def
      record_field_def doc_fields_def flatten_pairs_def word_text_def empty_document_def)

lemma sample_outbox_filed: "outbox_filed plain_pb sample_outbox_fs sample_outbox"
  unfolding sample_outbox_fs_def
  using outbox_filed_rewrite [of empty_fs sample_outbox plain_pb] waiting_document_ok
  by (simp add: sample_outbox_def new_outbox_def documents_ok_def map_inv_def omap_wf_def)

lemma constant_embedder_ok: "embedder_ok constant_embedder" "indexable constant_embedder r = Some [1]"
  by (auto simp: embedder_ok_def indexable_def record_embedding_def constant_embedder_def Let_def)

text \<open>
  C27: a run of \<open>DrainOnce\<close> that nothing interrupts succeeds; it leaves exactly those documents
  waiting for which no vector could be made, and the index holds, for every other one, the
  waiting document with its vector.
\<close>

theorem drain_indexes_every_waiting_document:
  assumes "embedder_ok emb" and "outbox_filed pb s ob"
    and "DrainOnce pb emb Index_Upsert (s, ob, x) = (status, s', ob', x')"
  shows "status = Ok \<and>
    (\<forall>k. map_of (pending ob') k =
       (if Option.bind (map_of (pending ob) k) (indexable emb) \<noteq> None then None else map_of (pending ob) k)) \<and>
    (\<forall>k. map_of (entries x') k = drained emb (map_of (pending ob)) (map_of (entries x)) k)"
proof -
  let ?ob = "snd (drain_begin ob)"
  have p: "pending ?ob = pending ob" "outbox_path ?ob = outbox_path ob" by (simp_all add: drain_begin_def)
  have k: "fst (drain_begin ob) = map fst (pending ob)" by (simp add: drain_begin_def)
  have f: "outbox_filed pb s ?ob" using assms(2) outbox_filed_cong [OF p] by simp
  have d: "distinct (map fst (pending ob))"
    using assms(2) by (intro omap_wf_distinct map_inv_wf) (simp add: outbox_filed_def)
  have run: "drain_keys pb emb Index_Upsert (map fst (pending ob)) (s, ?ob, x) = (status, s', ob', x')"
    using assms(3) k by (simp add: DrainOnce_def case_prod_beta)
  have out: "map_of (pending ob) k = None" if "k \<notin> set (map fst (pending ob))" for k
    using that by (simp add: map_of_eq_None_iff)
  show ?thesis
    using brute_index.drain_keys_spec [OF assms(1) f d run] out
    by (auto simp: p drained_def)
qed

theorem drain_indexes_every_waiting_document_witness:
  "\<exists>s' ob' x'. DrainOnce plain_pb constant_embedder Index_Upsert
       (sample_outbox_fs, sample_outbox, new_vector_store ''i'') = (Ok, s', ob', x') \<and>
     map_of (pending ob') (document_key waiting_document) = None \<and>
     map_of (entries x') (document_key waiting_document) = Some \<lparr>ve_record = waiting_document, ve_vector = [1]\<rparr>"
proof -
  obtain status s' ob' x' where run: "DrainOnce plain_pb constant_embedder Index_Upsert
      (sample_outbox_fs, sample_outbox, new_vector_store ''i'') = (status, s', ob', x')"
    by (metis prod_cases4)
  from drain_indexes_every_waiting_document [OF constant_embedder_ok(1) sample_outbox_filed run] run
  show ?thesis by (simp add: drained_def sample_outbox_def constant_embedder_ok)
qed


definition sample_system :: "vector_store outbox_system" where
  "sample_system = \<lparr>sys_fs = sample_outbox_fs, sys_outbox = sample_outbox,
     sys_index = new_vector_store ''i'', sys_phase = Resting\<rparr>"


text \<open>
  A newer version of a document that is enqueued while the worker embeds the older one is
  lost: its \<open>Enqueue\<close> is acknowledged, but the worker then removes the key, so the document
  is neither waiting nor in the outbox file, and the index keeps the older version.
\<close>

lemma document_enqueued_while_embedding_is_lost:
  assumes "sys_phase y = Embedding_of (document_key r) r keys" and "indexable emb r = Some v"
    and "embedder_ok emb" and "outbox_filed pb (sys_fs y) (sys_outbox y)"
    and "valid r'" and "document_ok pb r'" and "document_key r' = document_key r"
  shows "\<exists>s' ob' y'. Enqueue pb r' (sys_fs y, sys_outbox y) = (Ok, s', ob') \<and>
    outbox_step pb emb Index_Upsert valid y (y\<lparr>sys_fs := s', sys_outbox := ob'\<rparr>) \<and>
    (outbox_step pb emb Index_Upsert valid)\<^sup>*\<^sup>* (y\<lparr>sys_fs := s', sys_outbox := ob'\<rparr>) y' \<and>
    sys_phase y' = Scanning keys \<and> map_of (pending (sys_outbox y')) (document_key r') = None \<and>
    outbox_filed pb (sys_fs y') (sys_outbox y') \<and>
    map_of (entries (sys_index y')) (document_key r') = Some \<lparr>ve_record = r, ve_vector = v\<rparr>"
proof -
  let ?step = "outbox_step pb emb Index_Upsert valid"
  obtain s1 ob1 where enq: "Enqueue pb r' (sys_fs y, sys_outbox y) = (Ok, s1, ob1)" "outbox_filed pb s1 ob1"
    using outbox_filed_Enqueue [OF assms(4,6)] by blast
  let ?y1 = "y\<lparr>sys_fs := s1, sys_outbox := ob1\<rparr>"
  obtain status x' where ix: "IndexRecord emb Index_Upsert r (sys_index y) = (status, x')" by fastforce
  from brute_index.IndexRecord_indexable [OF assms(3) ix] assms(2)
  have st: "ok status" "map_of (entries x') = (map_of (entries (sys_index y)))(document_key r \<mapsto> \<lparr>ve_record = r, ve_vector = v\<rparr>)"
    by simp_all
  obtain s2 ob2 where fin: "drain_finish pb (document_key r) status (s1, ob1) = (None, s2, ob2)"
    "outbox_filed pb s2 ob2" "pending ob2 = omap_erase (document_key r) (pending ob1)"
    using drain_finish_filed [OF enq(2), of "document_key r" status] st(1) by metis
  let ?y2 = "?y1\<lparr>sys_index := x', sys_phase := Indexed (document_key r) status keys\<rparr>"
  let ?y3 = "?y2\<lparr>sys_fs := s2, sys_outbox := ob2, sys_phase := Scanning keys\<rparr>"
  have "?step y ?y1"
    by (rule outbox_step.enqueue [where valid = valid and r = r' and status = Ok]) (rule assms(5), rule enq(1))
  moreover have "?step ?y1 ?y2" using assms(1) ix by (intro outbox_step.index) simp_all
  moreover have "?step ?y2 ?y3"
    using outbox_step.finish [of ?y2 "document_key r" status keys pb None s2 ob2 emb Index_Upsert valid] fin(1) by simp
  moreover have "map_of (pending ob2) (document_key r') = None"
    using fin(2,3) enq(2) assms(7) by (simp add: outbox_filed_def)
  ultimately show ?thesis
    using enq(1) fin(2) st(2) assms(7)
    by (intro exI [of _ s1] exI [of _ ob1] exI [of _ ?y3]) (auto intro: rtranclp.rtrancl_into_rtrancl)
qed

lemma document_enqueued_while_embedding_is_lost_witness:
  "\<exists>s' ob' y'. Enqueue plain_pb (waiting_document\<lparr>doc_version := 2\<rparr>) (sample_outbox_fs, sample_outbox) = (Ok, s', ob') \<and>
     map_of (entries (sys_index (y' :: vector_store outbox_system))) (document_key waiting_document) =
       Some \<lparr>ve_record = waiting_document, ve_vector = [1]\<rparr>"
proof -
  let ?y = "sample_system\<lparr>sys_phase := Embedding_of (document_key waiting_document) waiting_document []\<rparr>"
  have f: "outbox_filed plain_pb (sys_fs ?y) (sys_outbox ?y)"
    by (simp add: sample_system_def sample_outbox_filed)
  have ok: "document_ok plain_pb (waiting_document\<lparr>doc_version := 2\<rparr>)"
    by (simp add: waiting_document_def sample_entry_def document_ok_def plain_pb_def ToProto_def
      record_field_def doc_fields_def flatten_pairs_def word_text_def empty_document_def)
  have k: "document_key (waiting_document\<lparr>doc_version := 2\<rparr>) = document_key waiting_document"
    by (simp add: document_key_def)
  have e: "sys_fs ?y = sample_outbox_fs" "sys_outbox ?y = sample_outbox"
    by (simp_all add: sample_system_def)
  show ?thesis
    using document_enqueued_while_embedding_is_lost [where y = ?y and keys = "[]" and valid = "\<lambda>_. True",
        OF _ constant_embedder_ok(2,1) f _ ok k]
    unfolding e k by (simp, blast)
qed

end
