(* ===== verification/Outbox_Worker.thy ===== *)
theory Outbox_Worker
  imports Outbox
begin

text \<open>
  The worker thread of the outbox, \<open>WorkerLoop\<close> of \<open>src/gateway/vector_index_outbox.cpp\<close>: it waits up
  to a second for a document, or for the end, and drains. When it comes to rest, and when it
  does not.
\<close>

text \<open>The condition of \<open>wait_for\<close> is not met, so the worker sleeps until its time is up.\<close>

definition outbox_waits :: "outbox \<Rightarrow> bool" where
  "outbox_waits ob \<longleftrightarrow> \<not> (ob_stopping ob \<or> pending ob \<noteq> [])"

text \<open>One round of the loop after the wait; \<open>None\<close> when the worker leaves.\<close>

definition outbox_round ::
  "pb_api \<Rightarrow> embedder \<Rightarrow> (DocumentRecord \<Rightarrow> float32 list \<Rightarrow> 'x \<Rightarrow> Status \<times> 'x) \<Rightarrow>
     fs \<times> outbox \<times> 'x \<Rightarrow> (fs \<times> outbox \<times> 'x) option" where
  "outbox_round pb emb upsert = (\<lambda>(s, ob, x).
     if ob_stopping ob then None else Some (snd (DrainOnce pb emb upsert (s, ob, x))))"

fun outbox_rounds ::
  "pb_api \<Rightarrow> embedder \<Rightarrow> (DocumentRecord \<Rightarrow> float32 list \<Rightarrow> 'x \<Rightarrow> Status \<times> 'x) \<Rightarrow> nat \<Rightarrow>
     fs \<times> outbox \<times> 'x \<Rightarrow> (fs \<times> outbox \<times> 'x) option" where
  "outbox_rounds pb emb upsert 0 st = Some st"
| "outbox_rounds pb emb upsert (Suc n) st = Option.bind (outbox_round pb emb upsert st) (outbox_rounds pb emb upsert n)"

lemma drain_finish_stopping:
  "drain_finish pb key status (s, ob) = (rewrite, s', ob') \<Longrightarrow> ob_stopping ob' = ob_stopping ob"
  by (auto simp: drain_finish_def Let_def RecordError_def split: if_splits prod.splits)

lemma drain_keys_stopping:
  "drain_keys pb emb upsert keys (s, ob, x) = (status, s', ob', x') \<Longrightarrow> ob_stopping ob' = ob_stopping ob"
proof (induction keys arbitrary: s ob x)
  case (Cons key keys)
  show ?case
  proof (cases "map_of (pending ob) key")
    case None
    with Cons show ?thesis by simp
  next
    case (Some r)
    obtain st x1 where ix: "IndexRecord emb upsert r x = (st, x1)" by (cases "IndexRecord emb upsert r x")
    obtain rw s1 ob1 where fin: "drain_finish pb key st (s, ob) = (rw, s1, ob1)"
      by (cases "drain_finish pb key st (s, ob)") auto
    from Cons.prems Some ix fin drain_finish_stopping [OF fin] Cons.IH [of s1 ob1 x1] show ?thesis
      by (cases rw) auto
  qed
qed simp

text \<open>What a round leaves waiting.\<close>

definition unindexable :: "embedder \<Rightarrow> (string \<rightharpoonup> DocumentRecord) \<Rightarrow> (string \<rightharpoonup> DocumentRecord)" where
  "unindexable emb p k = (if Option.bind (p k) (indexable emb) \<noteq> None then None else p k)"

lemma unindexable_again [simp]: "unindexable emb (unindexable emb p) = unindexable emb p"
  by (auto simp: unindexable_def fun_eq_iff)

lemma unindexable_empty: "unindexable emb p = Map.empty \<longleftrightarrow> (\<forall>k r. p k = Some r \<longrightarrow> indexable emb r \<noteq> None)"
proof
  assume e: "unindexable emb p = Map.empty"
  show "\<forall>k r. p k = Some r \<longrightarrow> indexable emb r \<noteq> None"
  proof (intro allI impI)
    fix k r
    assume k: "p k = Some r"
    have "unindexable emb p k = None" using e by simp
    with k show "indexable emb r \<noteq> None" by (simp add: unindexable_def split: if_splits)
  qed
next
  assume all: "\<forall>k r. p k = Some r \<longrightarrow> indexable emb r \<noteq> None"
  show "unindexable emb p = Map.empty"
  proof
    fix k
    show "unindexable emb p k = None" using all by (cases "p k") (auto simp: unindexable_def)
  qed
qed

lemma outbox_round_spec:
  assumes "embedder_ok emb" and "outbox_filed pb s ob" and "\<not> ob_stopping ob"
  shows "\<exists>s' ob' x'. outbox_round pb emb Index_Upsert (s, ob, x) = Some (s', ob', x') \<and> outbox_filed pb s' ob' \<and>
    \<not> ob_stopping ob' \<and> map_of (pending ob') = unindexable emb (map_of (pending ob))"
proof -
  let ?ob = "snd (drain_begin ob)"
  have p: "pending ?ob = pending ob" "outbox_path ?ob = outbox_path ob" "ob_stopping ?ob = ob_stopping ob"
    by (simp_all add: drain_begin_def set_state_def)
  have k: "fst (drain_begin ob) = map fst (pending ob)" by (simp add: drain_begin_def)
  have f: "outbox_filed pb s ?ob" using assms(2) outbox_filed_cong [OF p(1,2)] by simp
  have d: "distinct (map fst (pending ob))"
    using assms(2) by (intro omap_wf_distinct map_inv_wf) (simp add: outbox_filed_def)
  obtain status s' ob' x' where run: "drain_keys pb emb Index_Upsert (map fst (pending ob)) (s, ?ob, x) = (status, s', ob', x')"
    by (metis prod_cases4)
  have out: "map_of (pending ob) k = None" if "k \<notin> set (map fst (pending ob))" for k
    using that by (simp add: map_of_eq_None_iff)
  from brute_index.drain_keys_spec [OF assms(1) f d run] out have "outbox_filed pb s' ob'"
    and "map_of (pending ob') = unindexable emb (map_of (pending ob))"
    by (auto simp: p unindexable_def fun_eq_iff)
  moreover have "outbox_round pb emb Index_Upsert (s, ob, x) = Some (s', ob', x')"
    using assms(3) run k by (simp add: outbox_round_def DrainOnce_def case_prod_beta)
  ultimately show ?thesis using drain_keys_stopping [OF run] assms(3) p(3) by auto
qed

lemma outbox_rounds_spec:
  assumes "embedder_ok emb" and "outbox_filed pb s ob" and "\<not> ob_stopping ob"
  shows "\<exists>s' ob' x'. outbox_rounds pb emb Index_Upsert (Suc n) (s, ob, x) = Some (s', ob', x') \<and>
    \<not> ob_stopping ob' \<and> map_of (pending ob') = unindexable emb (map_of (pending ob))"
  using assms(2,3)
proof (induction n arbitrary: s ob x)
  case 0
  obtain s1 ob1 x1 where "outbox_round pb emb Index_Upsert (s, ob, x) = Some (s1, ob1, x1)"
    "\<not> ob_stopping ob1" "map_of (pending ob1) = unindexable emb (map_of (pending ob))"
    using outbox_round_spec [OF assms(1) 0] by blast
  then show ?case by simp
next
  case (Suc n)
  obtain s1 ob1 x1 where r: "outbox_round pb emb Index_Upsert (s, ob, x) = Some (s1, ob1, x1)"
    "outbox_filed pb s1 ob1" "\<not> ob_stopping ob1" "map_of (pending ob1) = unindexable emb (map_of (pending ob))"
    using outbox_round_spec [OF assms(1) Suc.prems] by blast
  from Suc.IH [OF r(2,3), of x1] r(1,4) show ?case by (simp del: outbox_rounds.simps(2) add: outbox_rounds.simps(2) [of _ _ _ "Suc n"])
qed

text \<open>
  C29: When the worker of the outbox comes to rest, as long as no caller enqueues or removes
  anything. After its first round, and after every further
  one, it waits exactly if each document that was waiting can be embedded; then nothing is left
  to do. A document that cannot be embedded stays, and the worker tries it again round after
  round without ever pausing.
\<close>

theorem worker_rests_when_everything_is_indexed:
  assumes "embedder_ok emb" and "outbox_filed pb s ob" and "\<not> ob_stopping ob"
  shows "\<exists>s' ob' x'. outbox_rounds pb emb Index_Upsert (Suc n) (s, ob, x) = Some (s', ob', x') \<and>
    (outbox_waits ob' \<longleftrightarrow> (\<forall>k r. map_of (pending ob) k = Some r \<longrightarrow> indexable emb r \<noteq> None)) \<and>
    (outbox_waits ob' \<longrightarrow> pending ob' = [])"
proof -
  obtain s' ob' x' where run: "outbox_rounds pb emb Index_Upsert (Suc n) (s, ob, x) = Some (s', ob', x')"
    "\<not> ob_stopping ob'" "map_of (pending ob') = unindexable emb (map_of (pending ob))"
    using outbox_rounds_spec [OF assms] by blast
  have "outbox_waits ob' \<longleftrightarrow> map_of (pending ob') = Map.empty"
    using run(2) by (simp add: outbox_waits_def)
  also have "\<dots> \<longleftrightarrow> (\<forall>k r. map_of (pending ob) k = Some r \<longrightarrow> indexable emb r \<noteq> None)"
    unfolding run(3) by (rule unindexable_empty)
  finally show ?thesis using run(1) by (auto simp: outbox_waits_def)
qed

text \<open>An embedder that refuses every text, so that the waiting document never leaves.\<close>

definition refusing_embedder :: embedder where
  "refusing_embedder = \<lparr>embed_text = (\<lambda>_. Inl (Unavailable ''no model'')), embed_image = (\<lambda>_. Inl (Unavailable ''no model''))\<rparr>"

theorem worker_rests_when_everything_is_indexed_witness:
  "(\<exists>s' ob' x'. outbox_rounds plain_pb constant_embedder Index_Upsert 1 (sample_outbox_fs, sample_outbox, new_vector_store ''i'') =
      Some (s', ob', x') \<and> outbox_waits ob') \<and>
   (\<exists>s' ob' x'. outbox_rounds plain_pb refusing_embedder Index_Upsert 1000 (sample_outbox_fs, sample_outbox, new_vector_store ''i'') =
      Some (s', ob', x') \<and> \<not> outbox_waits ob')"
proof
  have running: "\<not> ob_stopping sample_outbox" by (simp add: sample_outbox_def new_outbox_def)
  note rests = worker_rests_when_everything_is_indexed [OF _ sample_outbox_filed running]
  from rests [OF constant_embedder_ok(1), of 0 "new_vector_store ''i''"]
  show "\<exists>s' ob' x'. outbox_rounds plain_pb constant_embedder Index_Upsert 1 (sample_outbox_fs, sample_outbox, new_vector_store ''i'') =
      Some (s', ob', x') \<and> outbox_waits ob'"
    by (simp only: One_nat_def) (use constant_embedder_ok in fastforce)
  have ok: "embedder_ok refusing_embedder" by (simp add: embedder_ok_def refusing_embedder_def)
  have none: "indexable refusing_embedder waiting_document = None"
    by (simp add: indexable_def record_embedding_def refusing_embedder_def Let_def)
  have "map_of (pending sample_outbox) (document_key waiting_document) = Some waiting_document"
    by (simp add: sample_outbox_def)
  with none have "\<not> (\<forall>k r. map_of (pending sample_outbox) k = Some r \<longrightarrow> indexable refusing_embedder r \<noteq> None)"
    by blast
  moreover have "Suc 999 = 1000" by simp
  ultimately show "\<exists>s' ob' x'. outbox_rounds plain_pb refusing_embedder Index_Upsert 1000 (sample_outbox_fs, sample_outbox, new_vector_store ''i'') =
      Some (s', ob', x') \<and> \<not> outbox_waits ob'"
    using rests [OF ok, of 999 "new_vector_store ''i''"] by metis
qed

end
