(* ===== verification/Json.thy ===== *)
theory Json
  imports Wire_Format
begin

text \<open>
  What the program uses of \<open>nlohmann::json\<close>: its values, the accessors \<open>contains\<close>,
  \<open>is_string\<close>, \<open>value\<close> with a default and \<open>get<T>\<close> with their exceptions. An integer, signed
  or unsigned, is one constructor: of a parsed document \<open>is_number_unsigned\<close> holds of the
  integers that are not negative. The members of an object are sorted by their names, as
  those of the \<open>std::map\<close> behind it. Parsing, printing and the truncation of floating-point
  numbers are the parameter \<open>json_api\<close>; \<open>json_laws\<close> says that a printed document is read
  back, and \<open>plain_json\<close> is an instance of it.
\<close>

type_synonym json_float = "64 word"

datatype json =
    JNull
  | JBool bool
  | JInt int
  | JFloat json_float
  | JString string
  | JArray "json list"
  | JObject "(string \<times> json) list"

record json_api =
  js_parse :: "string \<Rightarrow> json option"
  js_dump :: "nat option \<Rightarrow> json \<Rightarrow> string outcome"
  js_trunc :: "json_float \<Rightarrow> int"

subsection \<open>Accessors\<close>

fun is_object :: "json \<Rightarrow> bool" where
  "is_object (JObject _) = True"
| "is_object _ = False"

fun is_array :: "json \<Rightarrow> bool" where
  "is_array (JArray _) = True"
| "is_array _ = False"

text \<open>The members of an object; of another value, none.\<close>

fun json_items :: "json \<Rightarrow> (string \<times> json) list" where
  "json_items (JObject ms) = ms"
| "json_items _ = []"

fun json_elements :: "json \<Rightarrow> json list" where
  "json_elements (JArray xs) = xs"
| "json_elements _ = []"

definition json_member :: "json \<Rightarrow> string \<Rightarrow> json option" where
  "json_member j k = map_of (json_items j) k"

text \<open>\<open>j.contains(k) && j[k].is_string()\<close>, with the string.\<close>

definition string_member :: "json \<Rightarrow> string \<Rightarrow> string option" where
  "string_member j k = (case json_member j k of Some (JString s) \<Rightarrow> Some s | _ \<Rightarrow> None)"

text \<open>\<open>value\<close> of a string, of a bool and of an integer that is cast to \<open>T\<close>.\<close>

definition type_error :: "string \<Rightarrow> 'a outcome" where
  "type_error what = Throw (json_error (''type must be '' @ what))"

definition value_string :: "json \<Rightarrow> string \<Rightarrow> string \<Rightarrow> string outcome" where
  "value_string j k d =
     (case json_member j k of
        None \<Rightarrow> Ret d
      | Some (JString s) \<Rightarrow> Ret s
      | Some _ \<Rightarrow> type_error ''string'')"

definition value_bool :: "json \<Rightarrow> string \<Rightarrow> bool \<Rightarrow> bool outcome" where
  "value_bool j k d =
     (case json_member j k of
        None \<Rightarrow> Ret d
      | Some (JBool b) \<Rightarrow> Ret b
      | Some _ \<Rightarrow> type_error ''boolean'')"

text \<open>
  \<open>get<T>\<close> of a number. The three number types of the library (\<open>std::int64_t\<close>,
  \<open>std::uint64_t\<close>, \<open>double\<close>) take numbers only; other arithmetic types take a boolean too.
\<close>

fun get_number :: "json_api \<Rightarrow> bool \<Rightarrow> json \<Rightarrow> int outcome" where
  "get_number js also_bool (JInt i) = Ret i"
| "get_number js also_bool (JFloat f) = Ret (js_trunc js f)"
| "get_number js also_bool (JBool b) =
     (if also_bool then Ret (if b then 1 else 0) else type_error ''number'')"
| "get_number js also_bool _ = type_error ''number''"

definition value_word :: "json_api \<Rightarrow> bool \<Rightarrow> json \<Rightarrow> string \<Rightarrow> 'a::len word \<Rightarrow> 'a word outcome" where
  "value_word js also_bool j k d =
     (case json_member j k of
        None \<Rightarrow> Ret d
      | Some x \<Rightarrow> outcome_bind (get_number js also_bool x) (\<lambda>i. Ret (word_of_int i)))"

text \<open>A map of strings as an object, and the strings among the members of one.\<close>

definition strings_object :: "(string, string) omap \<Rightarrow> json" where
  "strings_object m = JObject (map (\<lambda>(k, v). (k, JString v)) m)"

fun string_items :: "(string \<times> json) list \<Rightarrow> (string, string) omap \<Rightarrow> (string, string) omap" where
  "string_items [] m = m"
| "string_items ((k, JString v) # ms) m = string_items ms (omap_put k v m)"
| "string_items (_ # ms) m = string_items ms m"

lemma string_items_fold:
  "string_items (map (\<lambda>(k, v). (k, JString v)) kvs) m = fold (\<lambda>(k, v). omap_put k v) kvs m"
  by (induction kvs arbitrary: m) auto

lemma string_items_strings [simp]:
  "omap_wf m \<Longrightarrow> string_items (json_items (strings_object m)) [] = m"
  by (simp add: strings_object_def string_items_fold fold_put_self)

lemma is_object_strings [simp]: "is_object (strings_object m)"
  by (simp add: strings_object_def)

subsection \<open>The members of an object under construction\<close>

text \<open>\<open>j[k] = v\<close>\<close>

fun json_set :: "string \<Rightarrow> json \<Rightarrow> json \<Rightarrow> json" where
  "json_set k v (JObject ms) = JObject (omap_put k v ms)"
| "json_set k v JNull = JObject [(k, v)]"
| "json_set k v j = j"

definition json_object :: "(string \<times> json) list \<Rightarrow> json" where
  "json_object kvs = fold (\<lambda>(k, v). json_set k v) kvs JNull"

lemma json_set_fold:
  "fold (\<lambda>(k, v). json_set k v) kvs (JObject ms) = JObject (fold (\<lambda>(k, v). omap_put k v) kvs ms)"
  by (induction kvs arbitrary: ms) auto

lemma json_object_members:
  "kvs \<noteq> [] \<Longrightarrow> json_object kvs = JObject (fold (\<lambda>(k, v). omap_put k v) kvs [])"
  by (cases kvs) (auto simp: json_object_def json_set_fold)

lemma is_object_json_object [simp]: "kvs \<noteq> [] \<Longrightarrow> is_object (json_object kvs)"
  by (simp add: json_object_members)

text \<open>The last value that was set under a name.\<close>

lemma json_member_object:
  "json_member (json_object kvs) k = map_of (rev kvs) k"
proof (cases "kvs = []")
  case False
  have "map_of (fold (\<lambda>(k, v). omap_put k v) kvs ms) k =
      (case map_of (rev kvs) k of None \<Rightarrow> map_of ms k | Some v \<Rightarrow> Some v)" for ms
    by (induction kvs arbitrary: ms) (auto simp: map_add_def split: option.splits)
  with False show ?thesis
    by (simp add: json_member_def json_object_members split: option.splits)
qed (simp add: json_object_def json_member_def)

subsection \<open>Laws, and an instance\<close>

text \<open>
  What can be printed and read back: texts that are valid UTF-8 (the parameter \<open>utf8\<close>) and
  integers of 64 bits. Floating-point numbers are left out; nothing rests on them.
\<close>

fun json_ok :: "(string \<Rightarrow> bool) \<Rightarrow> json \<Rightarrow> bool" where
  "json_ok utf8 JNull = True"
| "json_ok utf8 (JBool b) = True"
| "json_ok utf8 (JInt i) = (- (2 ^ 63) \<le> i \<and> i < 2 ^ 64)"
| "json_ok utf8 (JFloat f) = False"
| "json_ok utf8 (JString s) = utf8 s"
| "json_ok utf8 (JArray xs) = (\<forall>x \<in> set xs. json_ok utf8 x)"
| "json_ok utf8 (JObject ms) = (omap_wf ms \<and> (\<forall>m \<in> set ms. utf8 (fst m) \<and> json_ok utf8 (snd m)))"

definition json_laws :: "json_api \<Rightarrow> (string \<Rightarrow> bool) \<Rightarrow> bool" where
  "json_laws js utf8 \<longleftrightarrow>
     (\<forall>indent j. json_ok utf8 j \<longrightarrow> (\<exists>text. js_dump js indent j = Ret text \<and> js_parse js text = Some j))"

lemma json_ok_object:
  assumes "kvs \<noteq> []" and "\<forall>(k, v) \<in> set kvs. utf8 k \<and> json_ok utf8 v"
  shows "json_ok utf8 (json_object kvs)"
proof -
  have "(\<forall>m \<in> set (fold (\<lambda>(k, v). omap_put k v) xs ms). utf8 (fst m) \<and> json_ok utf8 (snd m)) \<and>
      omap_wf (fold (\<lambda>(k, v). omap_put k v) xs ms)"
    if "\<forall>(k, v) \<in> set xs. utf8 k \<and> json_ok utf8 v" "\<forall>m \<in> set ms. utf8 (fst m) \<and> json_ok utf8 (snd m)" "omap_wf ms" for xs ms
    using that
  proof (induction xs arbitrary: ms)
    case (Cons p xs)
    obtain k v where p: "p = (k, v)" by (cases p)
    have "\<forall>m \<in> set (omap_put k v ms). utf8 (fst m) \<and> json_ok utf8 (snd m)"
      using Cons.prems(1,2) set_omap_put_subset [of k v ms] by (auto simp: p)
    from Cons.IH [OF _ this omap_wf_put [OF Cons.prems(3)]] Cons.prems(1) show ?case
      unfolding p by (simp only: fold_simps prod.case list.set_intros insert_iff list.set) blast
  qed simp
  from this [of kvs "[]"] assms show ?thesis by (simp add: json_object_members)
qed

lemma json_ok_strings [simp]:
  "json_ok utf8 (strings_object m) \<longleftrightarrow> omap_wf m \<and> (\<forall>(k, v) \<in> set m. utf8 k \<and> utf8 v)"
proof -
  have "map fst (map (\<lambda>(k, v). (k, JString v)) m) = map fst m" by (induction m) auto
  then have "omap_wf (map (\<lambda>(k, v). (k, JString v)) m) = omap_wf m" unfolding omap_wf_def by (simp only:)
  then show ?thesis by (auto simp: strings_object_def)
qed

fun js_text :: "json \<Rightarrow> string" where
  "js_text JNull = ''n''"
| "js_text (JBool b) = (if b then ''t'' else ''f'')"
| "js_text (JInt i) = (if i < 0 then ''m'' else ''p'') @ put_text (to_string (nat \<bar>i\<bar>))"
| "js_text (JFloat f) = ''d'' @ put_text (word_text f)"
| "js_text (JString s) = ''s'' @ put_text s"
| "js_text (JArray xs) = ''a'' @ concat (map (\<lambda>x. ''+'' @ js_text x) xs) @ ''-''"
| "js_text (JObject ms) = ''{'' @ concat (map (\<lambda>m. ''+'' @ put_text (fst m) @ js_text (snd m)) ms) @ ''-''"

fun read_json :: "nat \<Rightarrow> string \<Rightarrow> (json \<times> string) option"
  and read_elements :: "nat \<Rightarrow> string \<Rightarrow> (json list \<times> string) option"
  and read_members :: "nat \<Rightarrow> string \<Rightarrow> ((string \<times> json) list \<times> string) option" where
  "read_json (Suc n) (c # s) =
     (if c = CHR ''n'' then Some (JNull, s)
      else if c = CHR ''t'' then Some (JBool True, s)
      else if c = CHR ''f'' then Some (JBool False, s)
      else if c = CHR ''m'' then map_option (\<lambda>(t, r). (JInt (- int (digits_value t)), r)) (get_text s)
      else if c = CHR ''p'' then map_option (\<lambda>(t, r). (JInt (int (digits_value t)), r)) (get_text s)
      else if c = CHR ''d'' then map_option (\<lambda>(t, r). (JFloat (text_word t), r)) (get_text s)
      else if c = CHR ''s'' then map_option (\<lambda>(t, r). (JString t, r)) (get_text s)
      else if c = CHR ''a'' then map_option (\<lambda>(xs, r). (JArray xs, r)) (read_elements n s)
      else map_option (\<lambda>(ms, r). (JObject ms, r)) (read_members n s))"
| "read_json _ _ = None"
| "read_elements (Suc n) (c # s) =
     (if c = CHR ''+''
      then Option.bind (read_json n s) (\<lambda>(x, r).
             Option.bind (read_elements n r) (\<lambda>(xs, r'). Some (x # xs, r')))
      else Some ([], s))"
| "read_elements _ _ = None"
| "read_members (Suc n) (c # s) =
     (if c = CHR ''+''
      then Option.bind (get_text s) (\<lambda>(k, q).
             Option.bind (read_json n q) (\<lambda>(x, r).
               Option.bind (read_members n r) (\<lambda>(ms, r'). Some ((k, x) # ms, r'))))
      else Some ([], s))"
| "read_members _ _ = None"

lemma js_text_not_Nil [simp]: "js_text j \<noteq> []"
  by (cases j) auto

lemma read_elements_text:
  assumes "\<And>x n r. x \<in> set xs \<Longrightarrow> length (js_text x) \<le> n \<Longrightarrow> read_json n (js_text x @ r) = Some (x, r)"
    and "length (concat (map (\<lambda>x. ''+'' @ js_text x) xs) @ ''-'') \<le> n"
  shows "read_elements n ((concat (map (\<lambda>x. ''+'' @ js_text x) xs) @ ''-'') @ r) = Some (xs, r)"
  using assms
proof (induction xs arbitrary: n)
  case Nil
  then show ?case by (cases n) simp_all
next
  case (Cons x xs)
  then obtain m where n: "n = Suc m" by (cases n) auto
  with Cons.prems(2) have "length (js_text x) \<le> m" "length (concat (map (\<lambda>x. ''+'' @ js_text x) xs) @ ''-'') \<le> m"
    by simp_all
  with Cons.prems(1) [of x m] Cons.IH [of m] Cons.prems(1) n show ?case by simp
qed

lemma read_members_text:
  assumes "\<And>m n r. m \<in> set ms \<Longrightarrow> length (js_text (snd m)) \<le> n \<Longrightarrow>
      read_json n (js_text (snd m) @ r) = Some (snd m, r)"
    and "length (concat (map (\<lambda>m. ''+'' @ put_text (fst m) @ js_text (snd m)) ms) @ ''-'') \<le> n"
  shows "read_members n ((concat (map (\<lambda>m. ''+'' @ put_text (fst m) @ js_text (snd m)) ms) @ ''-'') @ r) =
    Some (ms, r)"
  using assms
proof (induction ms arbitrary: n)
  case Nil
  then show ?case by (cases n) simp_all
next
  case (Cons p ms)
  then obtain m where n: "n = Suc m" by (cases n) auto
  with Cons.prems(2) have "length (js_text (snd p)) \<le> m"
    "length (concat (map (\<lambda>m. ''+'' @ put_text (fst m) @ js_text (snd m)) ms) @ ''-'') \<le> m"
    by simp_all
  with Cons.prems(1) [of p m] Cons.IH [of m] Cons.prems(1) n show ?case by simp
qed

lemma read_json_text: "length (js_text j) \<le> n \<Longrightarrow> read_json n (js_text j @ r) = Some (j, r)"
proof (induction j arbitrary: n r)
  case (JArray xs)
  then obtain m where n: "n = Suc m" by (cases n) auto
  with JArray.prems have "length (concat (map (\<lambda>x. ''+'' @ js_text x) xs) @ ''-'') \<le> m" by simp
  from read_elements_text [OF JArray.IH this, of r] n show ?case by simp
next
  case (JObject ms)
  then obtain m where n: "n = Suc m" by (cases n) auto
  with JObject.prems have l: "length (concat (map (\<lambda>m. ''+'' @ put_text (fst m) @ js_text (snd m)) ms) @ ''-'') \<le> m"
    by simp
  have "read_json n (js_text (snd p) @ r) = Some (snd p, r)"
    if "p \<in> set ms" "length (js_text (snd p)) \<le> n" for p n r
    using that by (intro JObject.IH [of p]) (auto simp: snds.simps)
  from read_members_text [OF this l, of r] n show ?case by simp
next
  case (JInt i)
  then obtain m where n: "n = Suc m" by (cases n) auto
  show ?case by (cases "i < 0") (simp_all add: n)
next
  case JNull
  then show ?case by (cases n) simp_all
next
  case (JBool b)
  then show ?case by (cases n; cases b) simp_all
next
  case (JFloat f)
  then show ?case by (cases n) simp_all
next
  case (JString s)
  then show ?case by (cases n) simp_all
qed

definition plain_json :: json_api where
  "plain_json = \<lparr>
     js_parse = (\<lambda>s. case read_json (length s) s of Some (j, []) \<Rightarrow> Some j | _ \<Rightarrow> None),
     js_dump = (\<lambda>_ j. Ret (js_text j)),
     js_trunc = sint\<rparr>"

lemma plain_json_laws [simp]: "json_laws plain_json utf8"
  using read_json_text [of _ _ "[]"] by (simp add: json_laws_def plain_json_def)

end
