(* ===== verification/Store_Interfaces.thy ===== *)
theory Store_Interfaces
  imports Vector_Index Wal_Properties
begin

text \<open>
  The interfaces through which the gateway reaches its two stores: the virtual functions of
  \<open>KvStore\<close> in \<open>src/core/kv_store.h\<close> and of \<open>VectorIndex\<close> in \<open>src/search/vector_index.h\<close>,
  as records of functions over a store, with the write-ahead store and the brute-force index
  as instances. The second part is the paging loop with which the migration and the
  reindexing walk over a collection: \<open>page_loop\<close> asks for a page, works through it, and goes
  on behind its last key. The locale \<open>paged\<close> says what \<open>Range\<close> promises about pages; in it
  the loop is shown to end and to be the same as working through the collection at once.
\<close>

subsection \<open>The virtual functions\<close>

record 'k kv_ops =
  kv_put :: "DocumentRecord \<Rightarrow> fs \<times> 'k \<Rightarrow> Status \<times> fs \<times> 'k"
  kv_batch_put :: "DocumentRecord list \<Rightarrow> fs \<times> 'k \<Rightarrow> Status \<times> fs \<times> 'k"
  kv_delete :: "string \<Rightarrow> string \<Rightarrow> fs \<times> 'k \<Rightarrow> Status \<times> fs \<times> 'k"
  kv_get :: "string \<Rightarrow> string \<Rightarrow> 'k \<Rightarrow> DocumentRecord StatusOr"
  kv_multi_get :: "search_hit list \<Rightarrow> 'k \<Rightarrow> DocumentRecord list StatusOr"
  kv_range :: "string \<Rightarrow> string \<Rightarrow> string \<Rightarrow> nat \<Rightarrow> 'k \<Rightarrow> DocumentRecord list StatusOr"
  kv_collections :: "'k \<Rightarrow> string list StatusOr"
  kv_flush :: "fs \<times> 'k \<Rightarrow> Status \<times> fs \<times> 'k"

definition wal_ops :: "pb_api \<Rightarrow> wal_store kv_ops" where
  "wal_ops pb = \<lparr>kv_put = Wal_Put pb, kv_batch_put = Wal_BatchPut pb, kv_delete = Wal_Delete pb,
     kv_get = Wal_Get, kv_multi_get = Wal_MultiGet, kv_range = Wal_Range,
     kv_collections = Wal_Collections, kv_flush = Wal_FlushSnapshot pb\<rparr>"

record 'x index_ops =
  ix_upsert :: "DocumentRecord \<Rightarrow> float32 list \<Rightarrow> 'x \<Rightarrow> Status \<times> 'x"
  ix_remove :: "string \<Rightarrow> string \<Rightarrow> 'x \<Rightarrow> Status \<times> 'x"
  ix_search :: "string \<Rightarrow> float32 list \<Rightarrow> SearchFilter list \<Rightarrow> nat \<Rightarrow> 'x \<Rightarrow> search_hit list StatusOr"
  ix_flush :: "fs \<times> 'x \<Rightarrow> Status \<times> fs \<times> 'x"

definition brute_ops :: "pb_api \<Rightarrow> fp_api \<Rightarrow> vector_store index_ops" where
  "brute_ops pb fp = \<lparr>ix_upsert = Index_Upsert, ix_remove = Index_Remove,
     ix_search = Index_Search fp, ix_flush = Index_FlushSnapshot pb\<rparr>"

lemma wal_ops_simps [simp]:
  "kv_put (wal_ops pb) = Wal_Put pb" "kv_batch_put (wal_ops pb) = Wal_BatchPut pb"
  "kv_delete (wal_ops pb) = Wal_Delete pb" "kv_get (wal_ops pb) = Wal_Get"
  "kv_multi_get (wal_ops pb) = Wal_MultiGet" "kv_range (wal_ops pb) = Wal_Range"
  "kv_collections (wal_ops pb) = Wal_Collections" "kv_flush (wal_ops pb) = Wal_FlushSnapshot pb"
  by (simp_all add: wal_ops_def)

lemma brute_ops_simps [simp]:
  "ix_upsert (brute_ops pb fp) = Index_Upsert" "ix_remove (brute_ops pb fp) = Index_Remove"
  "ix_search (brute_ops pb fp) = Index_Search fp" "ix_flush (brute_ops pb fp) = Index_FlushSnapshot pb"
  by (simp_all add: brute_ops_def)

subsection \<open>Pages\<close>

text \<open>
  The loop over pages. A page that cannot be read ends it, and so may the work on a page, with
  a reason of type \<open>'e\<close>; the work may also fail to return, and then so does the loop (\<open>None\<close>).
\<close>

definition next_begin :: "DocumentRecord list \<Rightarrow> string" where
  "next_begin page = doc_key (last page) @ [CHR 0x00]"

partial_function (option) page_loop ::
  "(string \<Rightarrow> 'e + DocumentRecord list) \<Rightarrow> nat \<Rightarrow>
     (DocumentRecord list \<Rightarrow> 's \<Rightarrow> ('e option \<times> 's) option) \<Rightarrow> string \<Rightarrow> 's \<Rightarrow>
     ('e option \<times> 's) option" where
  "page_loop scan page_size work begin_key s =
     (case scan begin_key of
        Inl e \<Rightarrow> Some (Some e, s)
      | Inr [] \<Rightarrow> Some (None, s)
      | Inr (r # rs) \<Rightarrow>
          Option.bind (work (r # rs) s) (\<lambda>(stop, s').
            if stop \<noteq> None then Some (stop, s')
            else if length (r # rs) < page_size then Some (None, s')
            else page_loop scan page_size work (next_begin (r # rs)) s'))"

text \<open>Work that goes through the documents one by one.\<close>

fun each_document ::
  "('r \<Rightarrow> 's \<Rightarrow> ('e option \<times> 's) option) \<Rightarrow> 'r list \<Rightarrow> 's \<Rightarrow> ('e option \<times> 's) option" where
  "each_document f [] s = Some (None, s)"
| "each_document f (r # rs) s =
     Option.bind (f r s) (\<lambda>(stop, s').
       if stop \<noteq> None then Some (stop, s') else each_document f rs s')"

lemma each_document_append:
  "each_document f (xs @ ys) s =
     Option.bind (each_document f xs s) (\<lambda>(stop, s').
       if stop \<noteq> None then Some (stop, s') else each_document f ys s')"
  by (induction xs arbitrary: s) (auto split: Option.bind_splits)

text \<open>What the work on every page keeps, the loop keeps.\<close>

lemma page_loop_invariant:
  assumes "page_loop scan n work b s = Some (stop, s')" and "I s"
    and "\<And>rs s stop s'. work rs s = Some (stop, s') \<Longrightarrow> I s \<Longrightarrow> I s'"
  shows "I s'"
proof -
  have "(\<forall>rs s stop s'. work rs s = Some (stop, s') \<longrightarrow> I s \<longrightarrow> I s') \<longrightarrow> I s \<longrightarrow> I (snd y)"
    if "page_loop scan n work b s = Some y" for y
  proof (rule page_loop.raw_induct [where P = "\<lambda>scan n work b s y.
      (\<forall>rs s stop s'. work rs s = Some (stop, s') \<longrightarrow> I s \<longrightarrow> I s') \<longrightarrow> I s \<longrightarrow> I (snd y)", OF _ that])
    fix page_loop and scan :: "string \<Rightarrow> 'e + DocumentRecord list" and n work b s y
    assume ih: "\<And>scan n work b s y. page_loop scan n work b s = Some y \<Longrightarrow>
        (\<forall>rs s stop s'. work rs s = Some (stop, s') \<longrightarrow> I s \<longrightarrow> I s') \<longrightarrow> I s \<longrightarrow> I (snd y)"
      and body: "(case scan b of
        Inl e \<Rightarrow> Some (Some e, s)
      | Inr [] \<Rightarrow> Some (None, s)
      | Inr (r # rs) \<Rightarrow>
          Option.bind (work (r # rs) s) (\<lambda>(stop, s').
            if stop \<noteq> None then Some (stop, s')
            else if length (r # rs) < n then Some (None, s')
            else page_loop scan n work (next_begin (r # rs)) s')) = Some y"
    show "(\<forall>rs s stop s'. work rs s = Some (stop, s') \<longrightarrow> I s \<longrightarrow> I s') \<longrightarrow> I s \<longrightarrow> I (snd y)"
    proof (intro impI)
      assume w: "\<forall>rs s stop s'. work rs s = Some (stop, s') \<longrightarrow> I s \<longrightarrow> I s'" and i: "I s"
      show "I (snd y)"
      proof (cases "scan b")
        case (Inr page)
        show ?thesis
        proof (cases page)
          case (Cons r rs)
          with body Inr obtain stop s1 where wk: "work (r # rs) s = Some (stop, s1)"
            and rest: "(if stop \<noteq> None then Some (stop, s1)
              else if length (r # rs) < n then Some (None, s1)
              else page_loop scan n work (next_begin (r # rs)) s1) = Some y"
            by (auto simp: bind_eq_Some_conv)
          from w i wk have i1: "I s1" by blast
          from rest consider "y = (stop, s1)" | "y = (None, s1)"
            | "page_loop scan n work (next_begin (r # rs)) s1 = Some y"
            by (metis option.inject)
          then show ?thesis
          proof cases
            case 3
            from ih [OF this] w i1 show ?thesis by blast
          qed (use i1 in simp_all)
        qed (use body i Inr in auto)
      qed (use body i in auto)
    qed
  qed
  from this [OF assms(1)] assms(2,3) show ?thesis by auto
qed

text \<open>Nothing lies between a string and the same string with a zero byte behind it.\<close>

lemma NUL_least [simp]: "CHR 0x00 \<le> c"
  by (simp add: less_eq_char_def)

lemma successor_string: "k @ [CHR 0x00] \<le> x \<longleftrightarrow> k < (x :: string)"
proof (induction k arbitrary: x)
  case Nil
  show ?case
  proof (cases x)
    case (Cons a y)
    have "CHR 0x00 < a \<or> CHR 0x00 = a" using NUL_least [of a] by (simp only: order.order_iff_strict)
    then show ?thesis using Cons by auto
  qed simp
next
  case (Cons c k)
  then show ?case by (cases x) auto
qed

lemma sorted_wrt_last: "sorted_wrt P xs \<Longrightarrow> x \<in> set xs \<Longrightarrow> x = last xs \<or> P x (last xs)"
  by (induction xs) auto

locale paged =
  fixes store_ok :: "string \<Rightarrow> 'k \<Rightarrow> bool"
    and scan :: "string \<Rightarrow> string \<Rightarrow> nat \<Rightarrow> 'k \<Rightarrow> DocumentRecord list StatusOr"
    and documents :: "string \<Rightarrow> 'k \<Rightarrow> DocumentRecord list"
  assumes range_page: "store_ok c st \<Longrightarrow>
      scan c b n st = Inr (take (max 1 n) (filter (\<lambda>r. b \<le> doc_key r) (documents c st)))"
    and documents_sorted: "store_ok c st \<Longrightarrow> sorted_wrt (\<lambda>r r'. doc_key r < doc_key r') (documents c st)"
begin

lemma page_rest:
  assumes "store_ok c st" and "take (max 1 n) (filter (\<lambda>r. b \<le> doc_key r) (documents c st)) = r # rs"
  shows "filter (\<lambda>x. next_begin (r # rs) \<le> doc_key x) (documents c st) =
    drop (max 1 n) (filter (\<lambda>r. b \<le> doc_key r) (documents c st))"
proof -
  let ?ds = "filter (\<lambda>r. b \<le> doc_key r) (documents c st)" and ?l = "last (r # rs)"
  have so: "sorted_wrt (\<lambda>r r'. doc_key r < doc_key r') ?ds"
    using documents_sorted [OF assms(1)] by (rule sorted_wrt_filter)
  have ds: "?ds = (r # rs) @ drop (max 1 n) ?ds"
    using assms(2) by (metis append_take_drop_id)
  from so have so2: "sorted_wrt (\<lambda>r r'. doc_key r < doc_key r') ((r # rs) @ drop (max 1 n) ?ds)"
    using ds by simp
  have l: "?l \<in> set ?ds" using ds by (metis UnCI last_in_set list.discI set_append)
  then have "b \<le> doc_key ?l" by simp
  then have "filter (\<lambda>x. doc_key ?l < doc_key x) (documents c st) = filter (\<lambda>x. doc_key ?l < doc_key x) ?ds"
    by (auto intro!: filter_cong simp: filter_filter)
  also have "\<dots> = filter (\<lambda>x. doc_key ?l < doc_key x) ((r # rs) @ drop (max 1 n) ?ds)" using ds by simp
  also have "\<dots> = filter (\<lambda>x. doc_key ?l < doc_key x) (r # rs) @
      filter (\<lambda>x. doc_key ?l < doc_key x) (drop (max 1 n) ?ds)" by (rule filter_append)
  also have "filter (\<lambda>x. doc_key ?l < doc_key x) (r # rs) = []"
  proof -
    have "sorted_wrt (\<lambda>r r'. doc_key r < doc_key r') (r # rs)"
      using so2 unfolding sorted_wrt_append by blast
    from sorted_wrt_last [OF this] have "\<not> doc_key ?l < doc_key x" if "x \<in> set (r # rs)" for x
      using that by fastforce
    then show ?thesis by (simp add: filter_empty_conv del: last.simps)
  qed
  also have "filter (\<lambda>x. doc_key ?l < doc_key x) (drop (max 1 n) ?ds) = drop (max 1 n) ?ds"
  proof -
    have "\<forall>x \<in> set (r # rs). \<forall>y \<in> set (drop (max 1 n) ?ds). doc_key x < doc_key y"
      using so2 unfolding sorted_wrt_append by blast
    moreover have "?l \<in> set (r # rs)" by (rule last_in_set) simp
    ultimately show ?thesis unfolding filter_id_conv by blast
  qed
  finally show ?thesis by (simp add: next_begin_def successor_string)
qed

lemma page_loop_all:
  assumes "store_ok c st"
  shows "page_loop (\<lambda>b. map_sum fail id (scan c b n st)) n (each_document f) b s =
    each_document f (filter (\<lambda>r. b \<le> doc_key r) (documents c st)) s"
proof (induction "length (filter (\<lambda>r. b \<le> doc_key r) (documents c st))" arbitrary: b s rule: less_induct)
  case less
  let ?ds = "filter (\<lambda>r. b \<le> doc_key r) (documents c st)"
  show ?case
  proof (cases "take (max 1 n) ?ds")
    case Nil
    then have "?ds = []" by (cases ?ds) auto
    with Nil show ?thesis
      by (subst page_loop.simps) (simp add: range_page [OF assms])
  next
    case (Cons r rs)
    have ds: "?ds = (r # rs) @ drop (max 1 n) ?ds" using Cons by (metis append_take_drop_id)
    note rest = page_rest [OF assms Cons]
    have len: "length (drop (max 1 n) ?ds) < length ?ds" using Cons by (cases ?ds) auto
    have ih: "page_loop (\<lambda>b. map_sum fail id (scan c b n st)) n (each_document f) (next_begin (r # rs)) s' =
        each_document f (drop (max 1 n) ?ds) s'" for s'
      using less [of "next_begin (r # rs)" s'] len unfolding rest by blast
    have short: "drop (max 1 n) ?ds = []" if "length (r # rs) < n"
    proof -
      have "min (length ?ds) (max 1 n) < n" using that unfolding Cons [symmetric] length_take .
      then have "length ?ds \<le> max 1 n" by linarith
      then show ?thesis by (rule drop_all)
    qed
    have page: "scan c b n st = Inr (r # rs)" by (simp only: range_page [OF assms] Cons)
    have loop: "page_loop (\<lambda>b. map_sum fail id (scan c b n st)) n (each_document f) b s =
        Option.bind (each_document f (r # rs) s) (\<lambda>(stop, s').
          if stop \<noteq> None then Some (stop, s')
          else if length (r # rs) < n then Some (None, s')
          else page_loop (\<lambda>b. map_sum fail id (scan c b n st)) n (each_document f) (next_begin (r # rs)) s')"
      by (subst page_loop.simps, unfold page map_sum.simps id_apply sum.case list.case) (rule refl)
    have "each_document f ?ds s = Option.bind (each_document f (r # rs) s) (\<lambda>(stop, s').
        if stop \<noteq> None then Some (stop, s') else each_document f (drop (max 1 n) ?ds) s')"
      by (subst ds) (rule each_document_append)
    also have "\<dots> = page_loop (\<lambda>b. map_sum fail id (scan c b n st)) n (each_document f) b s"
    proof -
      have "(if stop \<noteq> None then Some (stop, s') else each_document f (drop (max 1 n) ?ds) s') =
          (if stop \<noteq> None then Some (stop, s')
           else if length (r # rs) < n then Some (None, s')
           else page_loop (\<lambda>b. map_sum fail id (scan c b n st)) n (each_document f) (next_begin (r # rs)) s')" for stop s'
        unfolding ih using short each_document.simps(1) [of f s'] by presburger
      then show ?thesis unfolding loop by presburger
    qed
    finally show ?thesis ..
  qed
qed

end

subsection \<open>The write-ahead store keeps the promise\<close>

definition pages_ok :: "string \<Rightarrow> wal_store \<Rightarrow> bool" where
  "pages_ok c st \<longleftrightarrow> map_inv (records st) \<and> key_separator \<notin> set c \<and>
     (\<forall>r \<in> snd ` set (records st). key_separator \<notin> set (doc_collection r))"

definition paged_documents :: "string \<Rightarrow> wal_store \<Rightarrow> DocumentRecord list" where
  "paged_documents c st =
     map snd (filter (\<lambda>(_, r). doc_collection r = c \<and> doc_key r \<le> [CHR 0x7F]) (records st))"

lemma paged_documents_sorted:
  assumes "map_inv (records st)"
  shows "sorted_wrt (\<lambda>r r'. doc_key r < doc_key r') (paged_documents c st)"
proof -
  let ?m = "filter (\<lambda>(_, r). doc_collection r = c \<and> doc_key r \<le> [CHR 0x7F]) (records st)"
  have "sorted_wrt (\<lambda>p q. fst p < fst q) ?m"
    using map_inv_wf [OF assms] by (auto simp: omap_wf_def sorted_wrt_map intro: sorted_wrt_filter)
  then have "sorted_wrt (\<lambda>p q. doc_key (snd p) < doc_key (snd q)) ?m"
  proof (rule sorted_wrt_mono_rel [rotated])
    fix p q
    assume p: "p \<in> set ?m" and q: "q \<in> set ?m" and "fst p < fst q"
    moreover have "fst p = BuildCompositeKey c (doc_key (snd p))" "fst q = BuildCompositeKey c (doc_key (snd q))"
      using p q assms by (auto simp: map_inv_def document_key_def)
    ultimately show "doc_key (snd p) < doc_key (snd q)" by simp
  qed
  then show ?thesis by (simp add: paged_documents_def sorted_wrt_map)
qed

interpretation wal_pages: paged pages_ok "\<lambda>c b n st. Wal_Range c b [] n st" paged_documents
proof
  fix c b n st
  assume ok: "pages_ok c st"
  then have "Wal_Range c b [] n st = Inr (take (max 1 n) (map snd
      (filter (\<lambda>(_, r). doc_collection r = c \<and> b \<le> doc_key r \<and> doc_key r \<le> [CHR 0x7F]) (records st))))"
    using Wal_Range_interval [of st c b "[]" n] by (simp add: pages_ok_def)
  also have "map snd (filter (\<lambda>(_, r). doc_collection r = c \<and> b \<le> doc_key r \<and> doc_key r \<le> [CHR 0x7F]) (records st)) =
      filter (\<lambda>r. b \<le> doc_key r) (paged_documents c st)"
    unfolding paged_documents_def filter_map filter_filter
    by (intro arg_cong [of _ _ "map snd"] filter_cong) auto
  finally show "Wal_Range c b [] n st = Inr (take (max 1 n) (filter (\<lambda>r. b \<le> doc_key r) (paged_documents c st)))" .
next
  fix c st
  assume "pages_ok c st"
  then show "sorted_wrt (\<lambda>r r'. doc_key r < doc_key r') (paged_documents c st)"
    by (simp add: pages_ok_def paged_documents_sorted)
qed

end
