(* ===== verification/Migration.thy ===== *)
theory Migration
  imports Json Server_Config Routing Outbox Store_Interfaces
begin

text \<open>
  \<open>src/gateway/data_migration.h\<close>, \<open>data_migration.cpp\<close>: documents whose ring position belongs
  to another node are sent there, and deleted here after a delay. \<open>pending_\<close> and
  \<open>delayed_delete_\<close> are kept in a JSON file that is rewritten after every change. Only the
  worker changes them, so a scan is one operation; the stores are reached through
  \<open>kv_ops\<close> and \<open>index_ops\<close>. The network below \<open>SendHttpPost\<close>, the router, the JSON library
  and the clocks are fields of \<open>migration_env\<close>: a clock reading may differ from document to
  document. A run that does not return is \<open>None\<close>, an exception that leaves an operation is
  \<open>Throw\<close>.
\<close>

subsection \<open>State\<close>

record task =
  task_record :: DocumentRecord
  task_target :: ClusterNode
  task_semantic :: bool
  task_attempts :: "64 word"
  task_epoch :: "64 word"
  task_delete_after_ms :: "64 word"
  task_delete_after :: int

record migration_status =
  ms_enabled :: bool
  ms_state :: string
  ms_pending :: nat
  ms_inflight :: nat
  ms_succeeded :: nat
  ms_failed :: nat
  ms_delayed_delete :: nat
  ms_last_scan :: "64 word"
  ms_last_error :: string

record migration =
  mg_config :: ServerConfig
  mg_pending :: "(string, task) omap"
  mg_delayed :: "task list"
  mg_status :: migration_status
  mg_running :: bool
  mg_stopping :: bool
  mg_scan_requested :: bool

text \<open>Milliseconds of the system clock; nanoseconds of the steady clock.\<close>

record clock =
  unix_millis :: "64 word"
  steady :: int

text \<open>
  The socket calls: the addresses of a host and a port or the text of an error, whether a
  socket is made for an address and connected, the number of bytes a \<open>send\<close> of the request
  takes (negative for an error), and what the calls of \<open>recv\<close> yield (an end or an error is
  the empty text).
\<close>

record network =
  net_getaddrinfo :: "string \<Rightarrow> string \<Rightarrow> string + string list"
  net_socket :: "string \<Rightarrow> bool"
  net_connect :: "string \<Rightarrow> bool"
  net_send :: "string \<Rightarrow> string \<Rightarrow> int"
  net_recv :: "string \<Rightarrow> string \<Rightarrow> string list"

record migration_env =
  env_json :: json_api
  env_route :: "string \<Rightarrow> string \<Rightarrow> nat \<Rightarrow> RouteDecision option"
  env_network :: network
  env_now :: "string \<Rightarrow> clock"

definition new_migration :: "ServerConfig \<Rightarrow> migration" where
  "new_migration cfg = \<lparr>mg_config = cfg, mg_pending = [], mg_delayed = [],
     mg_status = \<lparr>ms_enabled = cfg_data_migration_enabled cfg,
       ms_state = (if cfg_data_migration_enabled cfg then ''idle'' else ''disabled''),
       ms_pending = 0, ms_inflight = 0, ms_succeeded = 0, ms_failed = 0, ms_delayed_delete = 0,
       ms_last_scan = 0, ms_last_error = []\<rparr>,
     mg_running = False, mg_stopping = False, mg_scan_requested = False\<rparr>"

definition set_mg_state :: "string \<Rightarrow> migration \<Rightarrow> migration" where
  "set_mg_state v mg = mg\<lparr>mg_status := (mg_status mg)\<lparr>ms_state := v\<rparr>\<rparr>"

definition mg_error :: "Status \<Rightarrow> migration \<Rightarrow> migration" where
  "mg_error status mg =
     mg\<lparr>mg_status := (mg_status mg)\<lparr>ms_state := ''degraded'', ms_last_error := Status_ToString status\<rparr>\<rparr>"

definition mg_note :: "Status \<Rightarrow> migration \<Rightarrow> migration" where
  "mg_note status mg = (if ok status then mg else mg_error status mg)"

subsection \<open>Sending a record\<close>

definition crlf :: string where
  "crlf = [CHR 0x0D, CHR 0x0A]"

definition HttpStatusLine :: "string \<Rightarrow> string" where
  "HttpStatusLine response =
     (case find_str crlf response of None \<Rightarrow> response | Some end_pos \<Rightarrow> take end_pos response)"

definition post_request :: "string \<Rightarrow> string \<Rightarrow> string \<Rightarrow> string list \<Rightarrow> string" where
  "post_request host path body headers =
     ''POST '' @ path @ '' HTTP/1.1'' @ crlf @ ''Host: '' @ host @ crlf @ ''Connection: close'' @ crlf @
     ''Content-Type: application/json'' @ crlf @
     ''Content-Length: '' @ to_string (length body) @ crlf @
     concat (map (\<lambda>h. h @ crlf) headers) @ crlf @ body"

text \<open>The first address that can be connected, and the bytes up to the first empty read.\<close>

fun connect_first :: "network \<Rightarrow> string list \<Rightarrow> string option" where
  "connect_first net [] = None"
| "connect_first net (a # rest) =
     (if net_socket net a \<and> net_connect net a then Some a else connect_first net rest)"

fun received :: "string list \<Rightarrow> string" where
  "received [] = []"
| "received (chunk # chunks) = (if chunk = [] then [] else chunk @ received chunks)"

definition SendHttpPost ::
  "migration_env \<Rightarrow> string \<Rightarrow> 16 word \<Rightarrow> string \<Rightarrow> string \<Rightarrow> string list \<Rightarrow> Status" where
  "SendHttpPost env host port path body headers =
     (let net = env_network env; port_text = to_string (unat port) in
      case net_getaddrinfo net host port_text of
        Inl e \<Rightarrow> Unavailable (''migration target resolve failed: '' @ e)
      | Inr candidates \<Rightarrow>
          case connect_first net candidates of
            None \<Rightarrow> Unavailable (''migration target connect failed: '' @ host @ '':'' @ port_text)
          | Some fd \<Rightarrow>
              let request = post_request host path body headers; sent = net_send net fd request in
              if sent < 0 \<or> nat sent \<noteq> length request then Unavailable ''migration target send failed''
              else
                let status_line = HttpStatusLine (received (net_recv net fd request)) in
                if \<not> contains status_line '' 200 ''
                then Unavailable (''migration target rejected record: '' @ status_line)
                else Ok)"

definition word_json :: "'a::len word \<Rightarrow> json" where
  "word_json w = JInt (uint w)"

definition sword_json :: "'a::len word \<Rightarrow> json" where
  "sword_json w = JInt (sint w)"

definition record_members :: "DocumentRecord \<Rightarrow> (string \<times> json) list" where
  "record_members r =
     [(''collection'', JString (doc_collection r)), (''key'', JString (doc_key r)),
      (''title'', JString (doc_title r)), (''body'', JString (doc_body r)),
      (''metadata'', strings_object (doc_metadata r)), (''version'', word_json (doc_version r)),
      (''updated_at_unix_ms'', sword_json (doc_updated_at r)),
      (''mutation_id'', JString (doc_mutation_id r))]"

definition TaskKey :: "DocumentRecord \<Rightarrow> string" where
  "TaskKey r = doc_collection r @ [CHR 0x00] @ doc_key r"

definition PostMigrationRecord :: "migration_env \<Rightarrow> ServerConfig \<Rightarrow> task \<Rightarrow> Status outcome" where
  "PostMigrationRecord env cfg t =
     (let epoch = (if task_epoch t = 0 then unix_millis (env_now env (TaskKey (task_record t))) else task_epoch t);
          body = json_object (record_members (task_record t) @
            [(''semantic'', JBool (task_semantic t)), (''migration_epoch'', sword_json epoch)]);
          headers = ''x-kvai-internal-migration: 1'' #
            (if cfg_api_key cfg \<noteq> [] then [''x-api-key: '' @ cfg_api_key cfg] else [])
      in outcome_bind (js_dump (env_json env) None body) (\<lambda>text.
           Ret (SendHttpPost env (node_host (task_target t)) (node_port (task_target t))
             ''/internal/migration/records'' text headers)))"

definition MigrateTask :: "migration_env \<Rightarrow> ServerConfig \<Rightarrow> task \<Rightarrow> Status outcome" where
  "MigrateTask env cfg t =
     (if node_host (task_target t) = [] \<or> node_port (task_target t) = 0
      then Ret (Unavailable ''migration target endpoint is empty'')
      else PostMigrationRecord env cfg t)"

subsection \<open>The task file\<close>

definition SteadyFromUnixMillis :: "clock \<Rightarrow> 64 word \<Rightarrow> int" where
  "SteadyFromUnixMillis now ms =
     (if sint ms \<le> sint (unix_millis now) then steady now
      else steady now + (sint ms - sint (unix_millis now)) * 1000000)"

definition task_json :: "string \<Rightarrow> task \<Rightarrow> json" where
  "task_json state t = json_object ((''state'', JString state) # record_members (task_record t) @
     [(''target_id'', JString (node_id (task_target t))),
      (''target_host'', JString (node_host (task_target t))),
      (''target_port'', word_json (node_port (task_target t))),
      (''target_healthy'', JBool (node_healthy (task_target t))),
      (''target_weight'', word_json (node_weight (task_target t))),
      (''target_zone'', JString (node_zone (task_target t))),
      (''semantic'', JBool (task_semantic t)),
      (''attempts'', word_json (task_attempts t)),
      (''migration_epoch'', sword_json (task_epoch t)),
      (''delete_after_unix_ms'', sword_json (task_delete_after_ms t))])"

definition tasks_json :: "migration \<Rightarrow> json" where
  "tasks_json mg = JArray (map (\<lambda>(_, t). task_json ''pending'' t) (mg_pending mg) @
     map (task_json ''delete_pending'') (mg_delayed mg))"

definition task_wal_error :: string where
  "task_wal_error = ''failed to create migration task wal directory: ''"

text \<open>The file is truncated when it is opened, before the text is made.\<close>

definition PersistTasksLocked :: "migration_env \<Rightarrow> fs \<Rightarrow> migration \<Rightarrow> Status outcome \<times> fs" where
  "PersistTasksLocked env s mg =
     (let path = cfg_migration_task_wal_path (mg_config mg);
          status = EnsureParentDirectory task_wal_error s path in
      if \<not> ok status then (Ret status, s)
      else if \<not> fs_writable s path then (Ret (Internal ''failed to open migration task wal''), s)
      else case js_dump (env_json env) (Some 2) (tasks_json mg) of
             Throw e \<Rightarrow> (Throw e, write_file path [] s)
           | Ret text \<Rightarrow> (Ret Ok, write_file path text s))"

text \<open>One item of the file: the state and the task, or an item that is skipped.\<close>

definition json_metadata :: "json \<Rightarrow> (string, string) omap" where
  "json_metadata item =
     (case json_member item ''metadata'' of
        Some (JObject ms) \<Rightarrow> string_items ms []
      | _ \<Rightarrow> [])"

definition parse_record :: "json_api \<Rightarrow> json \<Rightarrow> DocumentRecord outcome" where
  "parse_record js item =
     outcome_bind (value_string item ''collection'' []) (\<lambda>c.
     outcome_bind (value_string item ''key'' []) (\<lambda>k.
     outcome_bind (value_string item ''title'' []) (\<lambda>t.
     outcome_bind (value_string item ''body'' []) (\<lambda>b.
     outcome_bind (value_word js False item ''version'' 0) (\<lambda>v.
     outcome_bind (value_word js False item ''updated_at_unix_ms'' 0) (\<lambda>u.
     outcome_bind (value_string item ''mutation_id'' []) (\<lambda>m.
       Ret \<lparr>doc_collection = c, doc_key = k, doc_title = t, doc_body = b,
         doc_metadata = json_metadata item, doc_version = v, doc_updated_at = u,
         doc_mutation_id = m\<rparr>)))))))"

definition parse_target :: "json_api \<Rightarrow> json \<Rightarrow> ClusterNode outcome" where
  "parse_target js item =
     outcome_bind (value_string item ''target_id'' []) (\<lambda>i.
     outcome_bind (value_string item ''target_host'' []) (\<lambda>h.
     outcome_bind (value_word js True item ''target_port'' (0 :: 32 word)) (\<lambda>p.
     outcome_bind (value_bool item ''target_healthy'' True) (\<lambda>a.
     outcome_bind (value_word js True item ''target_weight'' 100) (\<lambda>w.
     outcome_bind (value_string item ''target_zone'' []) (\<lambda>z.
       Ret \<lparr>node_id = i, node_host = h, node_port = ucast p, node_healthy = a,
         node_weight = w, node_zone = z\<rparr>))))))"

definition parse_task :: "json_api \<Rightarrow> (string \<Rightarrow> clock) \<Rightarrow> json \<Rightarrow> task outcome" where
  "parse_task js now item =
     outcome_bind (parse_record js item) (\<lambda>r.
     outcome_bind (parse_target js item) (\<lambda>n.
     outcome_bind (value_bool item ''semantic'' False) (\<lambda>sem.
     outcome_bind (value_word js False item ''attempts'' 0) (\<lambda>a.
     outcome_bind (value_word js False item ''migration_epoch'' 0) (\<lambda>e.
     outcome_bind (value_word js False item ''delete_after_unix_ms'' 0) (\<lambda>d.
       Ret \<lparr>task_record = r, task_target = n, task_semantic = sem, task_attempts = a, task_epoch = e,
         task_delete_after_ms = d, task_delete_after = SteadyFromUnixMillis (now (TaskKey r)) d\<rparr>))))))"

fun recover_items ::
  "json_api \<Rightarrow> (string \<Rightarrow> clock) \<Rightarrow> json list \<Rightarrow> migration \<Rightarrow> migration \<times> unit outcome" where
  "recover_items js now [] mg = (mg, Ret ())"
| "recover_items js now (item # items) mg =
     (if \<not> is_object item then recover_items js now items mg
      else case parse_task js now item of
        Throw e \<Rightarrow> (mg, Throw e)
      | Ret t \<Rightarrow>
          if doc_collection (task_record t) = [] \<or> doc_key (task_record t) = []
          then recover_items js now items mg
          else case value_string item ''state'' ''pending'' of
            Throw e \<Rightarrow> (mg, Throw e)
          | Ret state \<Rightarrow>
              recover_items js now items
                (if state = ''delete_pending'' then mg\<lparr>mg_delayed := mg_delayed mg @ [t]\<rparr>
                 else mg\<lparr>mg_pending := omap_put (TaskKey (task_record t)) t (mg_pending mg)\<rparr>))"

definition RecoverTasksLocked :: "migration_env \<Rightarrow> fs \<Rightarrow> migration \<Rightarrow> migration \<times> Status outcome" where
  "RecoverTasksLocked env s mg =
     (case ReadWholeFile [] s (cfg_migration_task_wal_path (mg_config mg)) of
        Inl _ \<Rightarrow> (mg, Ret Ok)
      | Inr bytes \<Rightarrow>
          case js_parse (env_json env) bytes of
            None \<Rightarrow> (mg, Ret (Internal ''failed to parse migration task wal''))
          | Some root \<Rightarrow>
              if \<not> is_array root
              then (mg, Ret (InvalidArgument ''migration task wal must contain a JSON array''))
              else case recover_items (env_json env) (env_now env) (json_elements root)
                          (mg\<lparr>mg_pending := [], mg_delayed := []\<rparr>) of
                     (mg', Throw e) \<Rightarrow> (mg', Throw e)
                   | (mg', Ret _) \<Rightarrow>
                       (mg'\<lparr>mg_status := (mg_status mg')\<lparr>ms_pending := length (mg_pending mg'),
                          ms_delayed_delete := length (mg_delayed mg')\<rparr>\<rparr>, Ret Ok))"

subsection \<open>Scanning\<close>

definition IsSemanticRecord :: "ServerConfig \<Rightarrow> DocumentRecord \<Rightarrow> bool" where
  "IsSemanticRecord cfg r \<longleftrightarrow>
     doc_title r \<noteq> [] \<or> doc_collection r = cfg_default_collection cfg \<or>
     (\<exists>k \<in> set [''image_path'', ''image_reference'', ''image_uri'']. map_of (doc_metadata r) k \<noteq> None)"

definition delay_nanos :: "ServerConfig \<Rightarrow> int" where
  "delay_nanos cfg = sint (cfg_migration_delete_delay_ms cfg) * 1000000"

definition new_task :: "migration_env \<Rightarrow> ServerConfig \<Rightarrow> DocumentRecord \<Rightarrow> ClusterNode \<Rightarrow> task" where
  "new_task env cfg r target =
     (let now = env_now env (TaskKey r) in
      \<lparr>task_record = r, task_target = target, task_semantic = IsSemanticRecord cfg r, task_attempts = 0,
       task_epoch = unix_millis now,
       task_delete_after_ms = unix_millis now + cfg_migration_delete_delay_ms cfg,
       task_delete_after = steady now + delay_nanos cfg\<rparr>)"

text \<open>Rewriting the file after a change; a failure is noted in the status.\<close>

definition persist_tasks :: "migration_env \<Rightarrow> fs \<times> migration \<Rightarrow> Status outcome option \<times> fs \<times> migration" where
  "persist_tasks env = (\<lambda>(s, mg).
     case PersistTasksLocked env s mg of
       (Throw e, s') \<Rightarrow> (Some (Throw e), s', mg)
     | (Ret status, s') \<Rightarrow> (None, s', mg_note status mg))"

definition remote :: "RouteDecision \<Rightarrow> bool" where
  "remote d \<longleftrightarrow> route_has_primary d \<and> \<not> route_local_owner d"

definition scan_record ::
  "migration_env \<Rightarrow> DocumentRecord \<Rightarrow> fs \<times> migration \<Rightarrow> (Status outcome option \<times> fs \<times> migration) option" where
  "scan_record env r = (\<lambda>(s, mg).
     map_option (\<lambda>route.
       if \<not> remote route then (None, s, mg)
       else if map_of (mg_pending mg) (TaskKey r) \<noteq> None then (None, s, mg)
       else persist_tasks env (s, mg\<lparr>mg_pending :=
              omap_put (TaskKey r) (new_task env (mg_config mg) r (route_primary route)) (mg_pending mg)\<rparr>))
     (env_route env (doc_collection r) (doc_key r) (cfg_replication_factor (mg_config mg))))"

text \<open>The first loop of \<open>ScanOnce\<close>: every page of every collection.\<close>

definition scan_collection ::
  "migration_env \<Rightarrow> 'k kv_ops \<Rightarrow> 'k \<Rightarrow> string \<Rightarrow> fs \<times> migration \<Rightarrow>
     (Status outcome option \<times> fs \<times> migration) option" where
  "scan_collection env kv st c = (\<lambda>(s, mg).
     let batch_size = cfg_migration_batch_size (mg_config mg) in
     page_loop (\<lambda>b. map_sum Ret id (kv_range kv c b [] batch_size st)) batch_size
       (each_document (scan_record env)) [] (s, mg))"

text \<open>The second loop: one task is sent, and the result is filed.\<close>

definition migrate_begin :: "migration \<Rightarrow> migration" where
  "migrate_begin mg = mg\<lparr>mg_status := (mg_status mg)\<lparr>ms_inflight := ms_inflight (mg_status mg) + 1\<rparr>\<rparr>"

definition migrate_finish :: "migration_env \<Rightarrow> string \<Rightarrow> task \<Rightarrow> Status \<Rightarrow> migration \<Rightarrow> migration" where
  "migrate_finish env key t status mg =
     (let st = mg_status mg; now = env_now env key; cfg = mg_config mg;
          t' = t\<lparr>task_delete_after_ms := unix_millis now + cfg_migration_delete_delay_ms cfg,
                 task_delete_after := SteadyFromUnixMillis now (unix_millis now + cfg_migration_delete_delay_ms cfg)\<rparr>
      in if ok status
         then mg\<lparr>mg_status := st\<lparr>ms_succeeded := ms_succeeded st + 1\<rparr>,
                mg_delayed := mg_delayed mg @ [t'], mg_pending := omap_erase key (mg_pending mg)\<rparr>
         else case map_of (mg_pending mg) key of
           None \<Rightarrow> mg
         | Some t1 \<Rightarrow>
             let t2 = t1\<lparr>task_attempts := task_attempts t1 + 1\<rparr> in
             if unat (task_attempts t2) \<ge> cfg_migration_max_retries cfg
             then mg\<lparr>mg_status := st\<lparr>ms_failed := ms_failed st + 1, ms_last_error := Status_ToString status\<rparr>,
                    mg_pending := omap_erase key (mg_pending mg)\<rparr>
             else mg\<lparr>mg_status := st\<lparr>ms_last_error := Status_ToString status\<rparr>,
                    mg_pending := omap_put key t2 (mg_pending mg)\<rparr>)"

definition migrate_key ::
  "migration_env \<Rightarrow> string \<Rightarrow> fs \<times> migration \<Rightarrow> (Status outcome option \<times> fs \<times> migration) option" where
  "migrate_key env key = (\<lambda>(s, mg).
     case map_of (mg_pending mg) key of
       None \<Rightarrow> Some (None, s, mg)
     | Some t \<Rightarrow>
         let mg1 = migrate_begin mg in
         case MigrateTask env (mg_config mg) t of
           Throw e \<Rightarrow> Some (Some (Throw e), s, mg1)
         | Ret status \<Rightarrow>
             let mg2 = mg1\<lparr>mg_status := (mg_status mg1)\<lparr>ms_inflight := ms_inflight (mg_status mg1) - 1\<rparr>\<rparr>
             in Some (persist_tasks env (s, migrate_finish env key t status mg2)))"

text \<open>
  \<open>ScanOnce\<close>. A failing read of the store is recorded and ends the scan, an exception leaves
  it; both are the reasons for which the loops stop.
\<close>

definition scan_stop :: "Status outcome \<Rightarrow> fs \<times> migration \<Rightarrow> unit outcome \<times> fs \<times> migration" where
  "scan_stop reason = (\<lambda>(s, mg).
     case reason of Ret status \<Rightarrow> (Ret (), s, mg_error status mg) | Throw e \<Rightarrow> (Throw e, s, mg))"

definition migrate_pending ::
  "migration_env \<Rightarrow> string \<Rightarrow> fs \<times> migration \<Rightarrow> (unit outcome \<times> fs \<times> migration) option" where
  "migrate_pending env now_key = (\<lambda>(s, mg).
     let mg1 = mg\<lparr>mg_status := (mg_status mg)\<lparr>ms_last_scan := unix_millis (env_now env now_key),
             ms_state := ''migrating'', ms_inflight := 0\<rparr>\<rparr>
     in map_option (\<lambda>(stop, s', mg').
          case stop of
            Some reason \<Rightarrow> scan_stop reason (s', mg')
          | None \<Rightarrow> (Ret (), s', set_mg_state ''idle'' mg'))
        (each_document (migrate_key env) (map fst (mg_pending mg1)) (s, mg1)))"

definition ScanOnce ::
  "migration_env \<Rightarrow> 'k kv_ops \<Rightarrow> 'k \<Rightarrow> fs \<times> migration \<Rightarrow> (unit outcome \<times> fs \<times> migration) option" where
  "ScanOnce env kv st = (\<lambda>(s, mg).
     let mg0 = set_mg_state ''scanning'' mg in
     case kv_collections kv st of
       Inl e \<Rightarrow> Some (Ret (), s, mg_error e mg0)
     | Inr collections \<Rightarrow>
         Option.bind (each_document (scan_collection env kv st) collections (s, mg0)) (\<lambda>(stop, s1, mg1).
           case stop of
             Some reason \<Rightarrow> Some (scan_stop reason (s1, mg1))
           | None \<Rightarrow> migrate_pending env [] (s1, mg1)))"

subsection \<open>Deleting what has been migrated\<close>

definition DeleteLocalIfStillRemote ::
  "migration_env \<Rightarrow> ServerConfig \<Rightarrow> 'k kv_ops \<Rightarrow> 'x index_ops \<Rightarrow> task \<Rightarrow> fs \<times> 'k \<times> 'x \<Rightarrow>
     (Status \<times> fs \<times> 'k \<times> 'x) option" where
  "DeleteLocalIfStillRemote env cfg kv ix t = (\<lambda>(s, st, x).
     let c = doc_collection (task_record t); k = doc_key (task_record t) in
     map_option (\<lambda>route.
       if \<not> remote route then (Ok, s, st, x)
       else case kv_delete kv c k (s, st) of
         (status, s', st') \<Rightarrow>
           if \<not> ok status then (status, s', st', x)
           else if task_semantic t then (case ix_remove ix c k x of (status', x') \<Rightarrow> (status', s', st', x'))
           else (Ok, s', st', x))
     (env_route env c k (cfg_replication_factor cfg)))"

fun delete_due ::
  "migration_env \<Rightarrow> 'k kv_ops \<Rightarrow> 'x index_ops \<Rightarrow> task list \<Rightarrow> fs \<times> 'k \<times> 'x \<times> migration \<Rightarrow>
     (fs \<times> 'k \<times> 'x \<times> migration) option" where
  "delete_due env kv ix [] y = Some y"
| "delete_due env kv ix (t # ts) (s, st, x, mg) =
     Option.bind (DeleteLocalIfStillRemote env (mg_config mg) kv ix t (s, st, x)) (\<lambda>(status, s', st', x').
       delete_due env kv ix ts (s', st', x', mg_note status mg))"

definition ProcessDueDeletes ::
  "migration_env \<Rightarrow> int \<Rightarrow> 'k kv_ops \<Rightarrow> 'x index_ops \<Rightarrow> fs \<times> 'k \<times> 'x \<times> migration \<Rightarrow>
     (unit outcome \<times> fs \<times> 'k \<times> 'x \<times> migration) option" where
  "ProcessDueDeletes env now kv ix = (\<lambda>(s, st, x, mg).
     let due = filter (\<lambda>t. task_delete_after t \<le> now) (mg_delayed mg);
         mg0 = mg\<lparr>mg_delayed := filter (\<lambda>t. \<not> task_delete_after t \<le> now) (mg_delayed mg)\<rparr>
     in map_option (\<lambda>(s1, st1, x1, mg1).
          if due = [] then (Ret (), s1, st1, x1, mg1)
          else case persist_tasks env (s1, mg1) of
            (Some (Throw e), s2, mg2) \<Rightarrow> (Throw e, s2, st1, x1, mg2)
          | (_, s2, mg2) \<Rightarrow> (Ret (), s2, st1, x1, mg2))
        (delete_due env kv ix due (s, st, x, mg0)))"

subsection \<open>Starting and stopping\<close>

definition Migration_Start :: "migration_env \<Rightarrow> fs \<Rightarrow> migration \<Rightarrow> migration \<times> unit outcome" where
  "Migration_Start env s mg =
     (if \<not> cfg_data_migration_enabled (mg_config mg) \<or> mg_running mg then (mg, Ret ())
      else
        let mg0 = mg\<lparr>mg_stopping := False, mg_running := True,
              mg_status := (mg_status mg)\<lparr>ms_enabled := True, ms_state := ''idle''\<rparr>\<rparr>
        in case RecoverTasksLocked env s mg0 of
             (mg1, Throw e) \<Rightarrow> (mg1, Throw e)
           | (mg1, Ret status) \<Rightarrow> (mg_note status mg1, Ret ()))"

definition TriggerScan :: "migration \<Rightarrow> migration" where
  "TriggerScan mg = (if \<not> cfg_data_migration_enabled (mg_config mg) then mg else mg\<lparr>mg_scan_requested := True\<rparr>)"

definition Migration_Stop :: "migration \<Rightarrow> migration" where
  "Migration_Stop mg = (if \<not> mg_running mg then mg else mg\<lparr>mg_stopping := True, mg_scan_requested := True\<rparr>)"

definition migration_joined :: "migration \<Rightarrow> migration" where
  "migration_joined mg = set_mg_state ''stopped'' (mg\<lparr>mg_running := False\<rparr>)"

definition Migration_Status :: "migration \<Rightarrow> migration_status" where
  "Migration_Status mg =
     (mg_status mg)\<lparr>ms_pending := length (mg_pending mg), ms_delayed_delete := length (mg_delayed mg)\<rparr>"

text \<open>One round of \<open>WorkerLoop\<close> after its wait: \<open>None\<close> inside is the return.\<close>

definition worker_round ::
  "migration_env \<Rightarrow> int \<Rightarrow> 'k kv_ops \<Rightarrow> 'x index_ops \<Rightarrow> fs \<times> 'k \<times> 'x \<times> migration \<Rightarrow>
     (unit outcome option \<times> fs \<times> 'k \<times> 'x \<times> migration) option" where
  "worker_round env now kv ix = (\<lambda>(s, st, x, mg).
     if mg_stopping mg then Some (None, s, st, x, mg)
     else Option.bind (ScanOnce env kv st (s, mg\<lparr>mg_scan_requested := False\<rparr>)) (\<lambda>(out, s1, mg1).
       case out of
         Throw e \<Rightarrow> Some (Some (Throw e), s1, st, x, mg1)
       | Ret _ \<Rightarrow> map_option (\<lambda>(out', y). (Some out', y)) (ProcessDueDeletes env now kv ix (s1, st, x, mg1))))"

text \<open>The receiving side.\<close>

definition ApplyMigratedRecord ::
  "'k kv_ops \<Rightarrow> embedder \<Rightarrow> 'x index_ops \<Rightarrow> DocumentRecord \<Rightarrow> bool \<Rightarrow> fs \<times> 'k \<times> 'x \<Rightarrow> Status \<times> fs \<times> 'k \<times> 'x" where
  "ApplyMigratedRecord kv emb ix r semantic = (\<lambda>(s, st, x).
     if doc_collection r = [] \<or> doc_key r = []
     then (InvalidArgument ''migrated record requires collection and key'', s, st, x)
     else case kv_put kv r (s, st) of
       (status, s', st') \<Rightarrow>
         if \<not> ok status then (status, s', st', x)
         else if \<not> semantic then (Ok, s', st', x)
         else case embed_text emb (doc_title r @ '' '' @ doc_body r) of
           Inl e \<Rightarrow> (e, s', st', x)
         | Inr e \<Rightarrow> (case ix_upsert ix r (emb_values e) x of (status', x') \<Rightarrow> (status', s', st', x')))"

end
