(* ===== verification/Migration_Properties.thy ===== *)
theory Migration_Properties
  imports Migration
begin

text \<open>
  Properties of the migration over the write-ahead store: a scan ends and finds every
  misplaced document, nothing is deleted that the target has not acknowledged, the task file
  is read back, and a delayed deletion does not look at the version it deletes.
\<close>

subsection \<open>Loops over documents\<close>

lemma each_document_invariant:
  assumes "each_document f xs s = Some (stop, s')" and "I s"
    and "\<And>x s stop s'. x \<in> set xs \<Longrightarrow> f x s = Some (stop, s') \<Longrightarrow> I s \<Longrightarrow> I s'"
  shows "I s'"
  using assms
proof (induction xs arbitrary: s)
  case (Cons x xs)
  from Cons.prems(1) obtain st1 s1 where f: "f x s = Some (st1, s1)"
    and r: "if st1 \<noteq> None then (stop, s') = (st1, s1) else each_document f xs s1 = Some (stop, s')"
    by (auto simp: bind_eq_Some_conv split: if_splits)
  have i: "I s1" using Cons.prems(3) [OF _ f Cons.prems(2)] by simp
  show ?case
  proof (cases "st1 = None")
    case True
    with r have "each_document f xs s1 = Some (stop, s')" by simp
    then show ?thesis using i Cons.prems(3) by (rule Cons.IH) auto
  next
    case False
    with r i show ?thesis by simp
  qed
qed simp

lemma each_document_reach:
  assumes "each_document f xs s = Some (None, s')" and "x \<in> set xs"
    and "\<And>s s'. f x s = Some (None, s') \<Longrightarrow> I s \<Longrightarrow> P s'"
    and "\<And>y s stop s'. y \<in> set xs \<Longrightarrow> f y s = Some (stop, s') \<Longrightarrow> P s \<Longrightarrow> P s'"
    and "\<And>y s stop s'. y \<in> set xs \<Longrightarrow> f y s = Some (stop, s') \<Longrightarrow> I s \<Longrightarrow> I s'" and "I s"
  shows "P s'"
proof -
  obtain ys zs where xs: "xs = ys @ x # zs" using assms(2) by (auto simp: in_set_conv_decomp)
  from assms(1) obtain s1 s2 where "each_document f ys s = Some (None, s1)" "f x s1 = Some (None, s2)"
    and zs: "each_document f zs s2 = Some (None, s')"
    by (auto simp: xs each_document_append bind_eq_Some_conv split: if_splits)
  moreover have "I s1"
    using each_document_invariant [where I = I, OF \<open>each_document f ys s = _\<close> assms(6)] assms(5) xs by auto
  ultimately have "P s2" using assms(3) by blast
  then show ?thesis
    using each_document_invariant [where I = P, OF zs] assms(4) xs by auto
qed

lemma each_document_total:
  assumes "\<And>x s. x \<in> set xs \<Longrightarrow> f x s \<noteq> None"
  shows "\<exists>stop s'. each_document f xs s = Some (stop, s')"
  using assms
proof (induction xs arbitrary: s)
  case (Cons x xs)
  then obtain st1 s1 where "f x s = Some (st1, s1)" by fastforce
  moreover obtain stop s' where "each_document f xs s1 = Some (stop, s')"
    using Cons.IH [of s1] Cons.prems by auto
  ultimately show ?case by (cases st1) auto
qed simp

lemma each_document_concat:
  assumes "\<And>c s. c \<in> set cs \<Longrightarrow> f c s = each_document g (h c) s"
  shows "each_document f cs s = each_document g (concat (map h cs)) s"
  using assms
proof (induction cs arbitrary: s)
  case (Cons c cs)
  then show ?case by (auto simp: each_document_append intro!: arg_cong [of _ _ "Option.bind _"])
qed simp

lemma each_document_stop:
  assumes "each_document f xs s = Some (stop, s')" and "\<And>x s s' stop. x \<in> set xs \<Longrightarrow> f x s = Some (stop, s') \<Longrightarrow> stop = None \<or> Q stop"
  shows "stop = None \<or> Q stop"
  using assms
proof (induction xs arbitrary: s)
  case (Cons x xs)
  from Cons.prems(1) obtain st1 s1 where f: "f x s = Some (st1, s1)"
    and r: "if st1 \<noteq> None then (stop, s') = (st1, s1) else each_document f xs s1 = Some (stop, s')"
    by (auto simp: bind_eq_Some_conv split: if_splits)
  show ?case
  proof (cases "st1 = None")
    case True
    with r Cons.IH [of s1] Cons.prems(2) show ?thesis by auto
  next
    case False
    with r Cons.prems(2) [OF _ f] show ?thesis by auto
  qed
qed simp

subsection \<open>What the steps keep\<close>

lemma mg_note_simps [simp]:
  "mg_pending (mg_note st mg) = mg_pending mg" "mg_delayed (mg_note st mg) = mg_delayed mg"
  "mg_config (mg_note st mg) = mg_config mg"
  "ms_failed (mg_status (mg_note st mg)) = ms_failed (mg_status mg)"
  by (simp_all add: mg_note_def mg_error_def)

lemma set_mg_state_simps [simp]:
  "mg_pending (set_mg_state v mg) = mg_pending mg" "mg_delayed (set_mg_state v mg) = mg_delayed mg"
  "mg_config (set_mg_state v mg) = mg_config mg"
  "ms_failed (mg_status (set_mg_state v mg)) = ms_failed (mg_status mg)"
  by (simp_all add: set_mg_state_def)

lemma mg_error_simps [simp]:
  "mg_pending (mg_error st mg) = mg_pending mg" "mg_delayed (mg_error st mg) = mg_delayed mg"
  "mg_config (mg_error st mg) = mg_config mg"
  "ms_failed (mg_status (mg_error st mg)) = ms_failed (mg_status mg)"
  by (simp_all add: mg_error_def)

lemma persist_tasks_keeps:
  "persist_tasks env (s, mg) = (stop, s', mg') \<Longrightarrow>
     mg_pending mg' = mg_pending mg \<and> mg_delayed mg' = mg_delayed mg \<and> mg_config mg' = mg_config mg \<and>
     ms_failed (mg_status mg') = ms_failed (mg_status mg) \<and> (stop = None \<or> (\<exists>e. stop = Some (Throw e)))"
  by (auto simp: persist_tasks_def split: prod.splits outcome.splits)

text \<open>Every waiting task is filed under the key of its record.\<close>

definition tasks_keyed :: "migration \<Rightarrow> bool" where
  "tasks_keyed mg \<longleftrightarrow> (\<forall>k t. map_of (mg_pending mg) k = Some t \<longrightarrow> TaskKey (task_record t) = k)"

lemma tasks_keyed_put:
  "tasks_keyed mg \<Longrightarrow> mg_pending mg' = omap_put k t (mg_pending mg) \<Longrightarrow> TaskKey (task_record t) = k \<Longrightarrow> tasks_keyed mg'"
  by (simp add: tasks_keyed_def)

lemma scan_record_effect:
  assumes "scan_record env r (s, mg) = Some (stop, s', mg')"
  obtains "mg_pending mg' = mg_pending mg" "mg_delayed mg' = mg_delayed mg" "mg_config mg' = mg_config mg"
    "ms_failed (mg_status mg') = ms_failed (mg_status mg)" "stop = None"
    "map_of (mg_pending mg) (TaskKey r) \<noteq> None \<or>
     (\<forall>d. env_route env (doc_collection r) (doc_key r) (cfg_replication_factor (mg_config mg)) = Some d \<longrightarrow> \<not> remote d)"
  | t where "mg_pending mg' = omap_put (TaskKey r) t (mg_pending mg)" "task_record t = r"
    "mg_delayed mg' = mg_delayed mg" "mg_config mg' = mg_config mg"
    "ms_failed (mg_status mg') = ms_failed (mg_status mg)" "stop = None \<or> (\<exists>e. stop = Some (Throw e))"
proof -
  from assms obtain d where d: "env_route env (doc_collection r) (doc_key r) (cfg_replication_factor (mg_config mg)) = Some d"
    by (auto simp: scan_record_def)
  let ?t = "new_task env (mg_config mg) r (route_primary d)"
  show thesis
  proof (cases "\<not> remote d \<or> map_of (mg_pending mg) (TaskKey r) \<noteq> None")
    case True
    with assms d have "stop = None" "mg' = mg" by (auto simp: scan_record_def split: if_splits)
    with True d show thesis by (intro that(1)) auto
  next
    case False
    with assms d have "persist_tasks env (s, mg\<lparr>mg_pending := omap_put (TaskKey r) ?t (mg_pending mg)\<rparr>) = (stop, s', mg')"
      by (auto simp: scan_record_def)
    from persist_tasks_keeps [OF this] show thesis
      by (intro that(2) [of ?t]) (auto simp: new_task_def Let_def)
  qed
qed

lemma migrate_key_effect:
  assumes "migrate_key env key (s, mg) = Some (stop, s', mg')"
  obtains "mg_pending mg' = mg_pending mg" "mg_delayed mg' = mg_delayed mg" "mg_config mg' = mg_config mg"
    "ms_failed (mg_status mg') = ms_failed (mg_status mg)"
  | t t' where "map_of (mg_pending mg) key = Some t" "task_record t' = task_record t"
    "\<exists>status. MigrateTask env (mg_config mg) t = Ret status \<and> ok status"
    "mg_pending mg' = omap_erase key (mg_pending mg)" "mg_delayed mg' = mg_delayed mg @ [t']"
    "mg_config mg' = mg_config mg" "ms_failed (mg_status mg') = ms_failed (mg_status mg)"
  | "mg_pending mg' = omap_erase key (mg_pending mg)" "mg_delayed mg' = mg_delayed mg"
    "mg_config mg' = mg_config mg" "ms_failed (mg_status mg') = ms_failed (mg_status mg) + 1"
  | t t' where "map_of (mg_pending mg) key = Some t" "task_record t' = task_record t"
    "mg_pending mg' = omap_put key t' (mg_pending mg)" "mg_delayed mg' = mg_delayed mg"
    "mg_config mg' = mg_config mg" "ms_failed (mg_status mg') = ms_failed (mg_status mg)"
proof (cases "map_of (mg_pending mg) key")
  case None
  with assms have "mg' = mg" by (simp add: migrate_key_def)
  then show thesis by (intro that(1)) simp_all
next
  case (Some t)
  let ?mg1 = "migrate_begin mg"
  let ?mg2 = "?mg1\<lparr>mg_status := (mg_status ?mg1)\<lparr>ms_inflight := ms_inflight (mg_status ?mg1) - 1\<rparr>\<rparr>"
  have keep: "mg_pending ?mg2 = mg_pending mg" "mg_delayed ?mg2 = mg_delayed mg" "mg_config ?mg2 = mg_config mg"
    "ms_failed (mg_status ?mg2) = ms_failed (mg_status mg)"
    by (simp_all add: migrate_begin_def)
  show thesis
  proof (cases "MigrateTask env (mg_config mg) t")
    case (Throw e)
    with assms Some have "mg' = ?mg1" by (simp add: migrate_key_def Let_def)
    then show thesis by (intro that(1)) (simp_all add: migrate_begin_def)
  next
    case (Ret status)
    let ?mg3 = "migrate_finish env key t status ?mg2"
    from assms Some Ret have "persist_tasks env (s, ?mg3) = (stop, s', mg')"
      by (simp add: migrate_key_def Let_def)
    note p = persist_tasks_keeps [OF this]
    show thesis
    proof (cases "ok status")
      case True
      with p Some Ret keep show thesis
        by (intro that(2)) (auto simp: migrate_finish_def Let_def)
    next
      case False
      then show thesis
      proof (cases "unat (task_attempts t + 1) \<ge> cfg_migration_max_retries (mg_config mg)")
        case True
        with False p Some keep show thesis
          by (intro that(3)) (simp_all add: migrate_finish_def Let_def)
      next
        case more: False
        with False p Some keep show thesis
          by (intro that(4) [of t "t\<lparr>task_attempts := task_attempts t + 1\<rparr>"])
            (simp_all add: migrate_finish_def Let_def)
      qed
    qed
  qed
qed

subsection \<open>A scan finds every misplaced document\<close>

text \<open>
  A document is taken care of: its task waits, or has been sent and waits for the deletion, or
  one more task than before has been given up.
\<close>

definition cared_for :: "nat \<Rightarrow> string \<Rightarrow> migration \<Rightarrow> bool" where
  "cared_for failed key mg \<longleftrightarrow>
     map_of (mg_pending mg) key \<noteq> None \<or> (\<exists>t \<in> set (mg_delayed mg). TaskKey (task_record t) = key) \<or>
     failed < ms_failed (mg_status mg)"

definition scan_inv :: "nat \<Rightarrow> ServerConfig \<Rightarrow> migration \<Rightarrow> bool" where
  "scan_inv failed cfg mg \<longleftrightarrow> tasks_keyed mg \<and> failed \<le> ms_failed (mg_status mg) \<and> mg_config mg = cfg"

lemma scan_record_inv:
  assumes "scan_record env r (s, mg) = Some (stop, s', mg')" and "scan_inv n cfg mg"
  shows "scan_inv n cfg mg'" and "stop = None \<or> (\<exists>e. stop = Some (Throw e))"
proof -
  show "scan_inv n cfg mg'"
    using assms(1)
  proof (rule scan_record_effect)
    fix t
    assume *: "mg_pending mg' = omap_put (TaskKey r) t (mg_pending mg)" "task_record t = r"
      "mg_config mg' = mg_config mg" "ms_failed (mg_status mg') = ms_failed (mg_status mg)"
    then have "tasks_keyed mg'"
      using assms(2) by (intro tasks_keyed_put [OF _ *(1)]) (simp_all add: scan_inv_def)
    with * assms(2) show ?thesis by (simp add: scan_inv_def)
  qed (use assms(2) in \<open>simp add: scan_inv_def tasks_keyed_def\<close>)
  show "stop = None \<or> (\<exists>e. stop = Some (Throw e))"
    using assms(1) by (rule scan_record_effect) simp_all
qed

lemma scan_record_cared:
  assumes "scan_record env r (s, mg) = Some (stop, s', mg')"
  shows "cared_for n key mg \<Longrightarrow> cared_for n key mg'"
    and "env_route env (doc_collection r) (doc_key r) (cfg_replication_factor (mg_config mg)) = Some d \<Longrightarrow>
      remote d \<Longrightarrow> cared_for n (TaskKey r) mg'"
  by (rule scan_record_effect [OF assms]; auto simp: cared_for_def)+

lemma migrate_key_inv:
  assumes "migrate_key env key (s, mg) = Some (stop, s', mg')" and "scan_inv n cfg mg"
  shows "scan_inv n cfg mg'" and "cared_for n k mg \<Longrightarrow> cared_for n k mg'"
  by (rule migrate_key_effect [OF assms(1)];
    use assms(2) in \<open>auto simp: scan_inv_def tasks_keyed_def cared_for_def split: if_splits\<close>)+

text \<open>The page loops of a scan are single passes, and they end.\<close>

lemma scan_collection_wal:
  assumes "pages_ok c st"
  shows "scan_collection env (wal_ops pb) st c (s, mg) =
    each_document (scan_record env) (paged_documents c st) (s, mg)"
  using wal_pages.page_loop_all [OF assms, of Ret "cfg_migration_batch_size (mg_config mg)" "scan_record env" "[]" "(s, mg)"]
  by (simp add: scan_collection_def Let_def)

text \<open>Texts of valid UTF-8 can be printed, and then no exception leaves an operation.\<close>

definition printable :: "migration_env \<Rightarrow> bool" where
  "printable env \<longleftrightarrow> (\<forall>indent j. \<exists>text. js_dump (env_json env) indent j = Ret text)"

lemma persist_tasks_printable:
  assumes "printable env" and "persist_tasks env y = (stop, y')"
  shows "stop = None"
proof -
  obtain s mg where y: "y = (s, mg)" by (cases y)
  obtain bytes where "js_dump (env_json env) (Some 2) (tasks_json mg) = Ret bytes"
    using assms(1) by (auto simp: printable_def)
  with assms(2) show ?thesis
    by (auto simp: y persist_tasks_def PersistTasksLocked_def Let_def split: if_splits)
qed

lemma scan_record_printable:
  assumes "printable env" and "scan_record env r y = Some (stop, y')"
  shows "stop = None"
  using assms(2) persist_tasks_printable [OF assms(1)]
  by (cases y; cases y') (auto simp: scan_record_def split: if_splits)

lemma MigrateTask_printable: "printable env \<Longrightarrow> \<exists>status. MigrateTask env cfg t = Ret status"
proof -
  assume "printable env"
  then obtain bytes where "js_dump (env_json env) None (json_object (record_members (task_record t) @
      [(''semantic'', JBool (task_semantic t)), (''migration_epoch'', sword_json
        (if task_epoch t = 0 then unix_millis (env_now env (TaskKey (task_record t))) else task_epoch t))])) = Ret bytes"
    unfolding printable_def by meson
  then show ?thesis unfolding MigrateTask_def PostMigrationRecord_def Let_def by simp
qed

lemma migrate_key_printable:
  assumes "printable env" and "migrate_key env key y = Some (stop, y')"
  shows "stop = None"
proof (cases y)
  case (Pair s mg)
  show ?thesis
  proof (cases "map_of (mg_pending mg) key")
    case (Some t)
    obtain status where "MigrateTask env (mg_config mg) t = Ret status"
      using MigrateTask_printable [OF assms(1)] by blast
    with assms Some Pair persist_tasks_printable [OF assms(1)] show ?thesis
      by (cases y') (auto simp: migrate_key_def Let_def)
  qed (use assms Pair in \<open>simp add: migrate_key_def\<close>)
qed

lemma scan_record_total:
  "\<forall>c k n. env_route env c k n \<noteq> None \<Longrightarrow> scan_record env r y \<noteq> None"
  by (cases y) (simp add: scan_record_def)

lemma migrate_key_total: "migrate_key env key y \<noteq> None"
  by (cases y) (simp add: migrate_key_def Let_def del: not_None_eq split: option.split outcome.split)

lemma scan_collections_spec:
  assumes "\<forall>c k n. env_route env c k n \<noteq> None" and "\<forall>c \<in> set cs. pages_ok c st" and "scan_inv n cfg mg"
  shows "\<exists>stop s' mg'. each_document (scan_collection env (wal_ops pb) st) cs (s, mg) = Some (stop, s', mg') \<and>
    scan_inv n cfg mg' \<and> (stop = None \<or> (\<exists>e. stop = Some (Throw e))) \<and> (printable env \<longrightarrow> stop = None) \<and>
    (stop = None \<longrightarrow> (\<forall>c \<in> set cs. \<forall>r \<in> set (paged_documents c st). \<forall>d.
       env_route env (doc_collection r) (doc_key r) (cfg_replication_factor cfg) = Some d \<longrightarrow> remote d \<longrightarrow>
       cared_for n (TaskKey r) mg'))"
proof -
  let ?ds = "concat (map (\<lambda>c. paged_documents c st) cs)" and ?R = "scan_record env"
  let ?I = "\<lambda>(s, mg). scan_inv n cfg mg"
  have loop: "each_document (scan_collection env (wal_ops pb) st) cs (s, mg) = each_document ?R ?ds (s, mg)"
    using scan_collection_wal assms(2) by (intro each_document_concat) auto
  obtain stop s' mg' where run: "each_document ?R ?ds (s, mg) = Some (stop, s', mg')"
    using each_document_total [of ?ds ?R "(s, mg)"] scan_record_total [OF assms(1)] by auto
  have keep: "?I y'" if "?R x y = Some (st', y')" "?I y" for x y st' y'
    using that scan_record_inv(1) by (cases y; cases y') simp
  have "?I (s', mg')"
    by (rule each_document_invariant [where I = ?I, OF run]) (use assms(3) keep in auto)
  moreover have "stop = None \<or> (\<exists>e. stop = Some (Throw e))"
    by (rule each_document_stop [where Q = "\<lambda>stop. \<exists>e. stop = Some (Throw e)", OF run])
      (metis scan_record_effect surj_pair)
  moreover have "stop = None" if "printable env"
    using each_document_stop [where Q = "\<lambda>_. False", OF run] scan_record_printable [OF that] by blast
  moreover have "cared_for n (TaskKey r) mg'"
    if "stop = None" "c \<in> set cs" "r \<in> set (paged_documents c st)" "remote d"
      "env_route env (doc_collection r) (doc_key r) (cfg_replication_factor cfg) = Some d" for c r d
  proof -
    let ?P = "\<lambda>(s, mg). cared_for n (TaskKey r) mg"
    have "?P (s', mg')"
    proof (rule each_document_reach [where P = ?P and I = ?I and x = r])
      show "each_document ?R ?ds (s, mg) = Some (None, s', mg')" using run that(1) by simp
      show "r \<in> set ?ds" using that(2,3) by auto
      show "?P y'" if "?R r y = Some (None, y')" "?I y" for y y'
        using that scan_record_cared(2) [of env r "fst y" "snd y" None "fst y'" "snd y'" d n] \<open>remote d\<close> \<open>env_route _ _ _ _ = Some d\<close>
        by (cases y; cases y') (simp add: scan_inv_def)
      show "?P y'" if "?R x y = Some (st', y')" "?P y" for x y st' y'
        using that scan_record_cared(1) by (cases y; cases y') auto
      show "?I y'" if "?R x y = Some (st', y')" "?I y" for x y st' y'
        using keep [OF that] .
      show "?I (s, mg)" using assms(3) by simp
    qed
    then show ?thesis by simp
  qed
  ultimately show ?thesis unfolding loop run by auto
qed

lemma migrate_pending_spec:
  assumes "scan_inv n cfg mg"
  shows "\<exists>out s' mg'. migrate_pending env k0 (s, mg) = Some (out, s', mg') \<and>
    (\<forall>k. cared_for n k mg \<longrightarrow> cared_for n k mg') \<and> (printable env \<longrightarrow> out = Ret ())"
proof -
  let ?mg1 = "mg\<lparr>mg_status := (mg_status mg)\<lparr>ms_last_scan := unix_millis (env_now env k0),
             ms_state := ''migrating'', ms_inflight := 0\<rparr>\<rparr>"
  let ?I = "\<lambda>(s, mg'). scan_inv n cfg mg' \<and> (\<forall>k. cared_for n k mg \<longrightarrow> cared_for n k mg')"
  obtain stop s' mg' where run: "each_document (migrate_key env) (map fst (mg_pending ?mg1)) (s, ?mg1) = Some (stop, s', mg')"
    using each_document_total [of "map fst (mg_pending ?mg1)" "migrate_key env" "(s, ?mg1)"] migrate_key_total by auto
  have "?I (s', mg')"
  proof (rule each_document_invariant [where I = ?I, OF run])
    show "?I (s, ?mg1)" using assms by (simp add: scan_inv_def tasks_keyed_def cared_for_def)
    show "?I y'" if "migrate_key env x y = Some (st', y')" "?I y" for x y st' y'
      using that migrate_key_inv [of env x "fst y" "snd y" st' "fst y'" "snd y'" n cfg]
      by (cases y; cases y') auto
  qed
  moreover have "migrate_pending env k0 (s, mg) = Some (case stop of Some reason \<Rightarrow> scan_stop reason (s', mg')
      | None \<Rightarrow> (Ret (), s', set_mg_state ''idle'' mg'))"
    using run by (simp add: migrate_pending_def Let_def)
  moreover have "stop = None" if "printable env"
    using each_document_stop [where Q = "\<lambda>_. False", OF run] migrate_key_printable [OF that] by blast
  ultimately show ?thesis
    by (cases stop) (auto simp: scan_stop_def cared_for_def split: outcome.split)
qed


text \<open>A store of one document that belongs to another node, which takes it.\<close>

definition sample_target :: ClusterNode where
  "sample_target = new_node ''b'' ''h'' 1"

definition sample_env :: migration_env where
  "sample_env = \<lparr>env_json = plain_json,
     env_route = (\<lambda>_ _ _. Some (empty_decision\<lparr>route_primary := sample_target, route_has_primary := True\<rparr>)),
     env_network = \<lparr>net_getaddrinfo = (\<lambda>h _. Inr [h]), net_socket = (\<lambda>_. True),
       net_connect = (\<lambda>_. True), net_send = (\<lambda>_ request. int (length request)),
       net_recv = (\<lambda>_ _. [''HTTP/1.1 200 OK''])\<rparr>,
     env_now = (\<lambda>_. \<lparr>unix_millis = 1, steady = 1\<rparr>)\<rparr>"

definition misplaced :: DocumentRecord where
  "misplaced = sample_document ''c'' ''a'' 1 []"

definition sample_wal :: wal_store where
  "sample_wal = (new_wal_store ''w'' ''s'')\<lparr>records := [(document_key misplaced, misplaced)]\<rparr>"

lemma accepting_status_line:
  "contains (HttpStatusLine ''HTTP/1.1 200 OK'') '' 200 ''"
  by code_simp

lemma sample_env_simps [simp]:
  "env_json sample_env = plain_json"
  "env_route sample_env c k n = Some (empty_decision\<lparr>route_primary := sample_target, route_has_primary := True\<rparr>)"
  "SendHttpPost sample_env h p q b hs = Ok"
  "remote (empty_decision\<lparr>route_primary := sample_target, route_has_primary := True\<rparr>)"
  using accepting_status_line
  by (simp_all add: sample_env_def remote_def empty_decision_def SendHttpPost_def)

lemma sample_env_printable: "printable sample_env"
  by (simp add: printable_def plain_json_def)

lemma sample_wal_pages:
  "Wal_Collections sample_wal = Inr [''c'']" "pages_ok ''c'' sample_wal"
  "paged_documents ''c'' sample_wal = [misplaced]"
  by (simp_all add: Wal_Collections_def sample_wal_def misplaced_def sample_document_def pages_ok_def
      paged_documents_def map_inv_def omap_wf_def document_key_def empty_document_def key_separator_def)


subsection \<open>Nothing is deleted that was not acknowledged\<close>

definition acknowledged :: "migration_env \<Rightarrow> ServerConfig \<Rightarrow> DocumentRecord \<Rightarrow> bool" where
  "acknowledged env cfg r \<longleftrightarrow>
     (\<exists>t status. task_record t = r \<and> MigrateTask env cfg t = Ret status \<and> ok status)"

text \<open>What may be deleted later: what could be before, and what has been acknowledged since.\<close>

definition deletable :: "migration_env \<Rightarrow> migration \<Rightarrow> DocumentRecord \<Rightarrow> bool" where
  "deletable env mg r \<longleftrightarrow> acknowledged env (mg_config mg) r \<or> r \<in> task_record ` set (mg_delayed mg)"

definition only_deletable :: "migration_env \<Rightarrow> migration \<Rightarrow> migration \<Rightarrow> bool" where
  "only_deletable env mg mg' \<longleftrightarrow>
     mg_config mg' = mg_config mg \<and> (\<forall>t \<in> set (mg_delayed mg'). deletable env mg (task_record t))"

lemma only_deletable_refl [simp]: "only_deletable env mg mg"
  by (auto simp: only_deletable_def deletable_def)

lemma only_deletable_cong:
  "mg_config mg1 = mg_config mg2 \<Longrightarrow> mg_delayed mg1 = mg_delayed mg2 \<Longrightarrow>
   only_deletable env mg mg1 = only_deletable env mg mg2"
  by (simp add: only_deletable_def)

lemma scan_record_deletable:
  assumes "scan_record env r (s, mg1) = Some (stop, s', mg2)" and "only_deletable env mg mg1"
  shows "only_deletable env mg mg2"
  by (rule scan_record_effect [OF assms(1)]) (use assms(2) in \<open>simp_all add: only_deletable_def\<close>)

lemma migrate_key_deletable:
  assumes "migrate_key env k (s, mg1) = Some (stop, s', mg2)" and "only_deletable env mg mg1"
  shows "only_deletable env mg mg2"
proof (rule migrate_key_effect [OF assms(1)])
  fix t t'
  assume *: "task_record t' = task_record t" "mg_delayed mg2 = mg_delayed mg1 @ [t']" "mg_config mg2 = mg_config mg1"
    "\<exists>status. MigrateTask env (mg_config mg1) t = Ret status \<and> ok status"
  then have "deletable env mg (task_record t')"
    using assms(2) by (auto simp: deletable_def acknowledged_def only_deletable_def)
  with * assms(2) show ?thesis by (auto simp: only_deletable_def)
qed (use assms(2) in \<open>simp_all add: only_deletable_def\<close>)

lemma each_document_deletable:
  assumes "each_document f xs (s, mg1) = Some (stop, s', mg2)" and "only_deletable env mg mg1"
    and "\<And>x s mg1 stop s' mg2. f x (s, mg1) = Some (stop, s', mg2) \<Longrightarrow> only_deletable env mg mg1 \<Longrightarrow>
      only_deletable env mg mg2"
  shows "only_deletable env mg mg2"
proof -
  have "case (s', mg2) of (s, m) \<Rightarrow> only_deletable env mg m"
    by (rule each_document_invariant [where I = "\<lambda>(s, m). only_deletable env mg m", OF assms(1)])
      (use assms(2,3) in auto)
  then show ?thesis by simp
qed

lemma scan_collection_deletable:
  assumes "scan_collection env kv st c (s, mg1) = Some (stop, s', mg2)" and "only_deletable env mg mg1"
  shows "only_deletable env mg mg2"
proof -
  from assms(1) have run: "page_loop (\<lambda>b. map_sum Ret id (kv_range kv c b [] (cfg_migration_batch_size (mg_config mg1)) st))
      (cfg_migration_batch_size (mg_config mg1)) (each_document (scan_record env)) [] (s, mg1) = Some (stop, s', mg2)"
    by (simp add: scan_collection_def Let_def)
  have "case (s', mg2) of (s, m) \<Rightarrow> only_deletable env mg m"
  proof (rule page_loop_invariant [where I = "\<lambda>(s, m). only_deletable env mg m", OF run])
    fix rs y st1 y'
    assume "each_document (scan_record env) rs y = Some (st1, y')"
      and "case y of (s, m) \<Rightarrow> only_deletable env mg m"
    then show "case y' of (s, m) \<Rightarrow> only_deletable env mg m"
      using each_document_deletable [of "scan_record env" rs "fst y" "snd y" st1 "fst y'" "snd y'" env mg]
        scan_record_deletable [where mg = mg] by (cases y; cases y') auto
  qed (use assms(2) in simp)
  then show ?thesis by simp
qed

lemma scan_stop_deletable:
  assumes "scan_stop reason (s, mg1) = (out, s', mg2)" and "only_deletable env mg mg1"
  shows "only_deletable env mg mg2"
proof -
  from assms(1) have "mg_config mg2 = mg_config mg1" "mg_delayed mg2 = mg_delayed mg1"
    by (auto simp: scan_stop_def split: outcome.splits)
  with assms(2) show ?thesis by (simp add: only_deletable_def)
qed

lemma migrate_pending_deletable:
  assumes "migrate_pending env k (s, mg1) = Some (out, s', mg2)" and "only_deletable env mg mg1"
  shows "only_deletable env mg mg2"
proof -
  let ?mg = "mg1\<lparr>mg_status := (mg_status mg1)\<lparr>ms_last_scan := unix_millis (env_now env k),
             ms_state := ''migrating'', ms_inflight := 0\<rparr>\<rparr>"
  from assms(1) obtain stop s3 mg3
    where run: "each_document (migrate_key env) (map fst (mg_pending ?mg)) (s, ?mg) = Some (stop, s3, mg3)"
      and res: "(case stop of Some reason \<Rightarrow> scan_stop reason (s3, mg3)
          | None \<Rightarrow> (Ret (), s3, set_mg_state ''idle'' mg3)) = (out, s', mg2)"
    by (auto simp: migrate_pending_def Let_def)
  have "only_deletable env mg ?mg" using assms(2) by (simp add: only_deletable_def)
  from each_document_deletable [OF run this migrate_key_deletable] have d: "only_deletable env mg mg3" .
  show ?thesis
  proof (cases stop)
    case None
    with res d show ?thesis by (auto simp: only_deletable_def)
  next
    case (Some reason)
    with res scan_stop_deletable [OF _ d] show ?thesis by simp
  qed
qed

lemma ScanOnce_deletable:
  assumes "ScanOnce env kv st (s, mg) = Some (out, s', mg')"
  shows "only_deletable env mg mg'"
proof (cases "kv_collections kv st")
  case (Inl e)
  with assms have "mg' = mg_error e (set_mg_state ''scanning'' mg)" by (simp add: ScanOnce_def Let_def)
  then show ?thesis by (auto simp: only_deletable_def deletable_def)
next
  case (Inr cs)
  let ?mg0 = "set_mg_state ''scanning'' mg"
  from assms Inr obtain stop s1 mg1 where run: "each_document (scan_collection env kv st) cs (s, ?mg0) = Some (stop, s1, mg1)"
    and res: "(case stop of Some reason \<Rightarrow> Some (scan_stop reason (s1, mg1))
           | None \<Rightarrow> migrate_pending env [] (s1, mg1)) = Some (out, s', mg')"
    by (auto simp: ScanOnce_def Let_def bind_eq_Some_conv)
  have "only_deletable env mg ?mg0" by (auto simp: only_deletable_def deletable_def)
  from each_document_deletable [OF run this scan_collection_deletable] have d: "only_deletable env mg mg1" .
  show ?thesis
  proof (cases stop)
    case None
    with res migrate_pending_deletable [OF _ d] show ?thesis by simp
  next
    case (Some reason)
    with res scan_stop_deletable [OF _ d] show ?thesis by simp
  qed
qed

text \<open>What the deletions change in the store.\<close>

definition routes_away :: "migration_env \<Rightarrow> ServerConfig \<Rightarrow> DocumentRecord \<Rightarrow> bool" where
  "routes_away env cfg r \<longleftrightarrow>
     (\<exists>d. env_route env (doc_collection r) (doc_key r) (cfg_replication_factor cfg) = Some d \<and> remote d)"

lemma Wal_Delete_records [simp]:
  "records (snd (snd (Wal_Delete pb c k (s, st)))) = omap_erase (BuildCompositeKey c k) (records st)"
  by (simp add: Wal_Delete_def Let_def case_prod_beta)

lemma DeleteLocal_records:
  assumes "DeleteLocalIfStillRemote env cfg (wal_ops pb) ix t (s, st, x) = Some (status, s', st', x')"
  shows "records st' = (if routes_away env cfg (task_record t)
    then omap_erase (document_key (task_record t)) (records st) else records st)"
proof -
  let ?r = "task_record t"
  obtain d where d: "env_route env (doc_collection ?r) (doc_key ?r) (cfg_replication_factor cfg) = Some d"
    using assms by (auto simp: DeleteLocalIfStillRemote_def Let_def)
  obtain st1 s1 w1 where del: "Wal_Delete pb (doc_collection ?r) (doc_key ?r) (s, st) = (st1, s1, w1)"
    by (metis prod_cases3)
  have w1: "records w1 = omap_erase (document_key ?r) (records st)"
    using Wal_Delete_records [of pb "doc_collection ?r" "doc_key ?r" s st] unfolding del document_key_def by simp
  show ?thesis
  proof (cases "remote d")
    case True
    with assms d del have "st' = w1"
      by (auto simp: DeleteLocalIfStillRemote_def Let_def split: if_splits prod.splits)
    with True d w1 show ?thesis by (simp add: routes_away_def)
  next
    case False
    with assms d have "st' = st" by (simp add: DeleteLocalIfStillRemote_def Let_def)
    with False d show ?thesis by (simp add: routes_away_def)
  qed
qed

lemma delete_due_records:
  assumes "delete_due env (wal_ops pb) ix ts (s, st, x, mg) = Some (s', st', x', mg')"
  shows "map_of (records st') key =
    (if \<exists>t \<in> set ts. document_key (task_record t) = key \<and> routes_away env (mg_config mg) (task_record t)
     then None else map_of (records st) key)"
  using assms
proof (induction ts arbitrary: s st x mg)
  case (Cons t ts)
  from Cons.prems obtain status s1 st1 x1
    where del: "DeleteLocalIfStillRemote env (mg_config mg) (wal_ops pb) ix t (s, st, x) = Some (status, s1, st1, x1)"
      and rest: "delete_due env (wal_ops pb) ix ts (s1, st1, x1, mg_note status mg) = Some (s', st', x', mg')"
    by (auto simp: bind_eq_Some_conv)
  from Cons.IH [OF rest] DeleteLocal_records [OF del] show ?case by auto
qed simp

lemma ProcessDueDeletes_records:
  assumes "ProcessDueDeletes env now (wal_ops pb) ix (s, st, x, mg) = Some (out, s', st', x', mg')"
  shows "map_of (records st') key =
    (if \<exists>t \<in> set (mg_delayed mg). task_delete_after t \<le> now \<and> document_key (task_record t) = key \<and>
        routes_away env (mg_config mg) (task_record t)
     then None else map_of (records st) key)"
proof -
  let ?due = "filter (\<lambda>t. task_delete_after t \<le> now) (mg_delayed mg)"
  let ?mg = "mg\<lparr>mg_delayed := filter (\<lambda>t. \<not> task_delete_after t \<le> now) (mg_delayed mg)\<rparr>"
  from assms obtain s1 st1 x1 mg1 where del: "delete_due env (wal_ops pb) ix ?due (s, st, x, ?mg) = Some (s1, st1, x1, mg1)"
    and res: "(if ?due = [] then (Ret (), s1, st1, x1, mg1)
          else case persist_tasks env (s1, mg1) of
            (Some (Throw e), s2, mg2) \<Rightarrow> (Throw e, s2, st1, x1, mg2)
          | (_, s2, mg2) \<Rightarrow> (Ret (), s2, st1, x1, mg2)) = (out, s', st', x', mg')"
    by (auto simp: ProcessDueDeletes_def Let_def)
  have "st' = st1"
    using res by (auto split: if_splits prod.splits option.splits outcome.splits)
  with delete_due_records [OF del, of key] show ?thesis by auto
qed


text \<open>A task whose deletion is due; its document is in no named collection, so no scan sees it.\<close>

definition hidden_document :: DocumentRecord where
  "hidden_document = sample_document [] ''a'' 1 []"

definition hidden_wal :: wal_store where
  "hidden_wal = (new_wal_store ''w'' ''s'')\<lparr>records := [(document_key hidden_document, hidden_document)]\<rparr>"

definition due_task :: task where
  "due_task = \<lparr>task_record = hidden_document, task_target = sample_target, task_semantic = False,
     task_attempts = 0, task_epoch = 1, task_delete_after_ms = 1, task_delete_after = 1\<rparr>"

definition due_migration :: migration where
  "due_migration = (new_migration default_config)\<lparr>mg_delayed := [due_task]\<rparr>"

lemma routes_away_sample [simp]: "routes_away sample_env cfg r"
  by (simp add: routes_away_def)

lemma delete_due_returns:
  assumes "\<forall>c k n. env_route env c k n \<noteq> None"
  shows "delete_due env kv ix ts y \<noteq> None"
proof (induction ts arbitrary: y)
  case (Cons t ts)
  obtain s st x mg where y: "y = (s, st, x, mg)" by (cases y)
  have "DeleteLocalIfStillRemote env (mg_config mg) kv ix t (s, st, x) \<noteq> None"
    using assms by (simp add: DeleteLocalIfStillRemote_def Let_def)
  then obtain status s' st' x' where "DeleteLocalIfStillRemote env (mg_config mg) kv ix t (s, st, x) = Some (status, s', st', x')"
    by (metis option.exhaust prod_cases4)
  with Cons [of "(s', st', x', mg_note status mg)"] show ?case by (simp add: y)
qed (metis option.distinct(1) delete_due.simps(1) prod_cases4)

lemma ProcessDueDeletes_returns:
  assumes "\<forall>c k n. env_route env c k n \<noteq> None"
  shows "\<exists>out s' st' x' mg'. ProcessDueDeletes env now kv ix (s, st, x, mg) = Some (out, s', st', x', mg')"
proof -
  have "ProcessDueDeletes env now kv ix (s, st, x, mg) \<noteq> None"
    using delete_due_returns [OF assms] by (simp add: ProcessDueDeletes_def Let_def)
  then show ?thesis by (metis option.exhaust prod_cases5)
qed

lemma due_round:
  "\<exists>out s' st' x' mg'. worker_round sample_env 1 (wal_ops plain_pb) ix (empty_fs, hidden_wal, x, due_migration) =
     Some (out, s', st', x', mg') \<and> map_of (records st') (document_key hidden_document) = None"
proof -
  let ?mg = "set_mg_state ''idle'' ((set_mg_state ''scanning'' (due_migration\<lparr>mg_scan_requested := False\<rparr>))
    \<lparr>mg_status := (mg_status (set_mg_state ''scanning'' (due_migration\<lparr>mg_scan_requested := False\<rparr>)))
      \<lparr>ms_last_scan := unix_millis (env_now sample_env []), ms_state := ''migrating'', ms_inflight := 0\<rparr>\<rparr>)"
  have c: "Wal_Collections hidden_wal = Inr []"
    by (simp add: Wal_Collections_def hidden_wal_def hidden_document_def sample_document_def empty_document_def)
  have p: "mg_pending due_migration = []" "\<not> mg_stopping due_migration" "mg_delayed ?mg = [due_task]"
    by (simp_all add: due_migration_def new_migration_def set_mg_state_def)
  have scan: "ScanOnce sample_env (wal_ops plain_pb) hidden_wal (empty_fs, due_migration\<lparr>mg_scan_requested := False\<rparr>) =
      Some (Ret (), empty_fs, ?mg)"
    using c p(1) by (simp add: ScanOnce_def migrate_pending_def Let_def)
  have total: "\<forall>c k n. env_route sample_env c k n \<noteq> None" by simp
  obtain out s' st' x' mg' where due: "ProcessDueDeletes sample_env 1 (wal_ops plain_pb) ix (empty_fs, hidden_wal, x, ?mg) =
      Some (out, s', st', x', mg')"
    using ProcessDueDeletes_returns [OF total, of 1 "wal_ops plain_pb" ix empty_fs hidden_wal x ?mg] by blast
  from ProcessDueDeletes_records [OF due, of "document_key hidden_document"] p(3)
  have "map_of (records st') (document_key hidden_document) = None"
    by (simp add: due_task_def)
  then show ?thesis using scan due p(2) by (simp add: worker_round_def)
qed


text \<open>
  A deletion that is due does not look at what it deletes: a version that was written
  after the copy was sent, and that no other node has, is deleted with its key.
\<close>

lemma due_deletion_removes_a_newer_version:
  assumes "\<forall>c k n. env_route env c k n \<noteq> None" and "t \<in> set (mg_delayed mg)" and "task_delete_after t \<le> now"
    and "routes_away env (mg_config mg) (task_record t)"
    and "map_of (records st) (document_key (task_record t)) = Some newer"
    and "doc_version (task_record t) < doc_version newer"
  shows "\<exists>out s' st' x' mg'. ProcessDueDeletes env now (wal_ops pb) ix (s, st, x, mg) = Some (out, s', st', x', mg') \<and>
    map_of (records st') (document_key (task_record t)) = None"
proof -
  obtain out s' st' x' mg' where due: "ProcessDueDeletes env now (wal_ops pb) ix (s, st, x, mg) =
      Some (out, s', st', x', mg')"
    using ProcessDueDeletes_returns [OF assms(1), of now "wal_ops pb" ix s st x mg] by blast
  from ProcessDueDeletes_records [OF due, of "document_key (task_record t)"] assms(2-4)
  have "map_of (records st') (document_key (task_record t)) = None" by auto
  with due show ?thesis by blast
qed

lemma due_deletion_removes_a_newer_version_witness:
  "\<exists>out s' st' x' mg'. ProcessDueDeletes sample_env 1 (wal_ops plain_pb) (brute_ops plain_pb plain_fp)
     (empty_fs, hidden_wal\<lparr>records := [(document_key hidden_document, hidden_document\<lparr>doc_version := 2\<rparr>)]\<rparr>,
      new_vector_store ''i'', due_migration) = Some (out, s', st', x', mg') \<and>
   map_of (records st') (document_key hidden_document) = None"
  using due_deletion_removes_a_newer_version [of sample_env due_task due_migration 1
    "hidden_wal\<lparr>records := [(document_key hidden_document, hidden_document\<lparr>doc_version := 2\<rparr>)]\<rparr>"
    "hidden_document\<lparr>doc_version := 2\<rparr>" plain_pb "brute_ops plain_pb plain_fp" empty_fs "new_vector_store ''i''"]
  by (simp add: due_migration_def due_task_def hidden_document_def sample_document_def)

subsection \<open>The task file\<close>

definition task_texts_ok :: "(string \<Rightarrow> bool) \<Rightarrow> task \<Rightarrow> bool" where
  "task_texts_ok utf8 t \<longleftrightarrow>
     omap_wf (doc_metadata (task_record t)) \<and> doc_collection (task_record t) \<noteq> [] \<and> doc_key (task_record t) \<noteq> [] \<and>
     json_ok utf8 (task_json ''pending'' t) \<and> json_ok utf8 (task_json ''delete_pending'' t)"

text \<open>The task with the time of its deletion on the present steady clock.\<close>

definition rebased :: "migration_env \<Rightarrow> task \<Rightarrow> task" where
  "rebased env t = t\<lparr>task_delete_after :=
     SteadyFromUnixMillis (env_now env (TaskKey (task_record t))) (task_delete_after_ms t)\<rparr>"

lemma task_json_member:
  "json_member (task_json state t) k = map_of (rev ((''state'', JString state) # record_members (task_record t) @
     [(''target_id'', JString (node_id (task_target t))),
      (''target_host'', JString (node_host (task_target t))),
      (''target_port'', word_json (node_port (task_target t))),
      (''target_healthy'', JBool (node_healthy (task_target t))),
      (''target_weight'', word_json (node_weight (task_target t))),
      (''target_zone'', JString (node_zone (task_target t))),
      (''semantic'', JBool (task_semantic t)),
      (''attempts'', word_json (task_attempts t)),
      (''migration_epoch'', sword_json (task_epoch t)),
      (''delete_after_unix_ms'', sword_json (task_delete_after_ms t))])) k"
  by (simp only: task_json_def json_member_object)

lemma port_round_trip [simp]: "(ucast (ucast (w :: 16 word) :: 32 word) :: 16 word) = w"
  by (rule bit_word_eqI) (simp add: bit_ucast_iff)

lemma parse_task_json:
  assumes "omap_wf (doc_metadata (task_record t))"
  shows "parse_task js (env_now env) (task_json state t) = Ret (rebased env t)"
    and "value_string (task_json state t) ''state'' d = Ret state"
    and "is_object (task_json state t)"
proof -
  let ?j = "task_json state t"
  have m: "json_metadata ?j = doc_metadata (task_record t)"
    using assms string_items_strings [OF assms]
    by (simp add: json_metadata_def task_json_member record_members_def strings_object_def)
  have r: "parse_record js ?j = Ret (task_record t)"
    by (simp add: parse_record_def value_string_def value_word_def m task_json_member record_members_def
        word_json_def sword_json_def)
  have n: "parse_target js ?j = Ret (task_target t)"
    by (simp add: parse_target_def value_string_def value_word_def value_bool_def task_json_member record_members_def
        word_json_def sword_json_def)
  show "parse_task js (env_now env) ?j = Ret (rebased env t)"
    by (simp add: parse_task_def r n value_word_def value_bool_def task_json_member record_members_def
        word_json_def sword_json_def rebased_def)
  show "value_string ?j ''state'' d = Ret state"
    by (simp add: value_string_def task_json_member record_members_def)
  show "is_object ?j" by (simp add: task_json_def)
qed

lemma recover_delayed_items:
  assumes "\<forall>t \<in> set ts. task_texts_ok utf8 t"
  shows "recover_items js (env_now env) (map (task_json ''delete_pending'') ts) mg =
    (mg\<lparr>mg_delayed := mg_delayed mg @ map (rebased env) ts\<rparr>, Ret ())"
  using assms
proof (induction ts arbitrary: mg)
  case (Cons t ts)
  then have "doc_collection (task_record t) \<noteq> []" "doc_key (task_record t) \<noteq> []" "omap_wf (doc_metadata (task_record t))"
    by (simp_all add: task_texts_ok_def)
  with Cons.IH [of "mg\<lparr>mg_delayed := mg_delayed mg @ [rebased env t]\<rparr>"] Cons.prems
  show ?case by (simp add: parse_task_json rebased_def del: append_Cons)
qed simp

lemma recover_pending_items:
  assumes "\<forall>t \<in> snd ` set ps. task_texts_ok utf8 t" and "\<forall>(k, t) \<in> set ps. TaskKey (task_record t) = k"
  shows "recover_items js (env_now env) (map (\<lambda>(_, t). task_json ''pending'' t) ps @ items) mg =
    recover_items js (env_now env) items
      (mg\<lparr>mg_pending := fold (\<lambda>(k, t). omap_put k t) (map (\<lambda>(k, t). (k, rebased env t)) ps) (mg_pending mg)\<rparr>)"
  using assms
proof (induction ps arbitrary: mg)
  case (Cons p ps)
  obtain k t where p: "p = (k, t)" by (cases p)
  with Cons.prems have "doc_collection (task_record t) \<noteq> []" "doc_key (task_record t) \<noteq> []" "omap_wf (doc_metadata (task_record t))"
    "TaskKey (task_record t) = k"
    by (simp_all add: task_texts_ok_def)
  with Cons.IH [of "mg\<lparr>mg_pending := omap_put k (rebased env t) (mg_pending mg)\<rparr>"] Cons.prems p
  show ?case by (simp add: parse_task_json rebased_def)
qed simp

text \<open>
  C34: the task file is read back: writing the tasks and starting on the file gives the same
  waiting and scheduled tasks, in the same order, with the time of each deletion converted to
  the steady clock of the new process.
\<close>

theorem tasks_survive_a_restart:
  assumes "json_laws (env_json env) utf8" and "usable s (cfg_migration_task_wal_path (mg_config mg))"
    and "omap_wf (mg_pending mg)" and "tasks_keyed mg"
    and "\<forall>t \<in> snd ` set (mg_pending mg) \<union> set (mg_delayed mg). task_texts_ok utf8 t"
  shows "\<exists>s' mg'. PersistTasksLocked env s mg = (Ret Ok, s') \<and>
    RecoverTasksLocked env s' (new_migration (mg_config mg)) = (mg', Ret Ok) \<and>
    mg_pending mg' = map (\<lambda>(k, t). (k, rebased env t)) (mg_pending mg) \<and>
    mg_delayed mg' = map (rebased env) (mg_delayed mg)"
proof -
  let ?path = "cfg_migration_task_wal_path (mg_config mg)" and ?ps = "mg_pending mg"
  have waiting: "\<And>k t. (k, t) \<in> set ?ps \<Longrightarrow> task_texts_ok utf8 t"
    and scheduled: "\<And>t. t \<in> set (mg_delayed mg) \<Longrightarrow> task_texts_ok utf8 t"
    using assms(5) by force+
  have "json_ok utf8 (tasks_json mg)"
    using waiting scheduled by (auto simp: tasks_json_def task_texts_ok_def)
  then obtain bytes where dump: "js_dump (env_json env) (Some 2) (tasks_json mg) = Ret bytes"
    and parse: "js_parse (env_json env) bytes = Some (tasks_json mg)"
    using assms(1) unfolding json_laws_def by blast
  let ?s = "write_file ?path bytes s"
  have persist: "PersistTasksLocked env s mg = (Ret Ok, ?s)"
    using assms(2) dump by (simp add: PersistTasksLocked_def usable_EnsureParentDirectory usable_def [of s] Let_def)
  have keyed: "\<forall>(k, t) \<in> set ?ps. TaskKey (task_record t) = k"
    using assms(3,4) by (auto simp: tasks_keyed_def omap_in_set)
  have wf: "omap_wf (map (\<lambda>(k, t). (k, rebased env t)) ?ps)"
  proof -
    have "map fst (map (\<lambda>(k, t). (k, rebased env t)) ?ps) = map fst ?ps" by (induction ?ps) auto
    then show ?thesis using assms(3) unfolding omap_wf_def by (simp only:)
  qed
  let ?mg0 = "new_migration (mg_config mg)\<lparr>mg_pending := [], mg_delayed := []\<rparr>"
  have "recover_items (env_json env) (env_now env) (json_elements (tasks_json mg)) ?mg0 =
      recover_items (env_json env) (env_now env) (map (task_json ''delete_pending'') (mg_delayed mg))
        (?mg0\<lparr>mg_pending := fold (\<lambda>(k, t). omap_put k t) (map (\<lambda>(k, t). (k, rebased env t)) ?ps) []\<rparr>)"
    using recover_pending_items [of ?ps utf8 "env_json env" env "map (task_json ''delete_pending'') (mg_delayed mg)" ?mg0]
      waiting keyed by (force simp: tasks_json_def)
  also have "\<dots> = (?mg0\<lparr>mg_pending := map (\<lambda>(k, t). (k, rebased env t)) ?ps, mg_delayed := map (rebased env) (mg_delayed mg)\<rparr>, Ret ())"
    using recover_delayed_items [of "mg_delayed mg" utf8] scheduled by (simp add: fold_put_self [OF wf])
  finally have "recover_items (env_json env) (env_now env) (json_elements (tasks_json mg)) ?mg0 =
      (?mg0\<lparr>mg_pending := map (\<lambda>(k, t). (k, rebased env t)) ?ps, mg_delayed := map (rebased env) (mg_delayed mg)\<rparr>, Ret ())" .
  moreover have "is_array (tasks_json mg)" by (simp add: tasks_json_def)
  ultimately have "\<exists>mg'. RecoverTasksLocked env ?s (new_migration (mg_config mg)) = (mg', Ret Ok) \<and>
      mg_pending mg' = map (\<lambda>(k, t). (k, rebased env t)) ?ps \<and> mg_delayed mg' = map (rebased env) (mg_delayed mg)"
    using parse assms(2)
    by (simp add: RecoverTasksLocked_def ReadWholeFile_def new_migration_def usable_def)
  with persist show ?thesis by blast
qed

text \<open>A migration with one waiting task, and the same task scheduled for deletion.\<close>

definition moving_task :: task where
  "moving_task = due_task\<lparr>task_record := misplaced\<rparr>"

definition moving_migration :: migration where
  "moving_migration = (new_migration default_config)
     \<lparr>mg_pending := [(TaskKey misplaced, moving_task)], mg_delayed := [moving_task]\<rparr>"

lemma moving_task_ok: "task_texts_ok (\<lambda>_. True) moving_task"
  by (simp add: task_texts_ok_def task_json_def record_members_def moving_task_def due_task_def misplaced_def
      sample_document_def sample_target_def new_node_def strings_object_def word_json_def sword_json_def
      empty_document_def json_ok_object)

theorem tasks_survive_a_restart_witness:
  "\<exists>s' mg'. PersistTasksLocked sample_env empty_fs moving_migration = (Ret Ok, s') \<and>
    RecoverTasksLocked sample_env s' (new_migration default_config) = (mg', Ret Ok) \<and>
    mg_pending mg' = [(TaskKey misplaced, rebased sample_env moving_task)] \<and>
    mg_delayed mg' = [rebased sample_env moving_task]"
  using tasks_survive_a_restart [of sample_env "\<lambda>_. True" empty_fs moving_migration] moving_task_ok
  by (simp add: moving_migration_def new_migration_def omap_wf_def tasks_keyed_def moving_task_def)

end
