(* ===== verification/Config_Loader.thy ===== *)
theory Config_Loader
  imports Server_Config Files
begin

text \<open>
  \<open>src/infra/config.cpp\<close>: reading a \<open>ServerConfig\<close> from a file. A build without yaml-cpp reads
  lines \<open>key: value\<close> (\<open>LoadFlatConfig\<close>); a build with it reads nested sections
  (\<open>LoadNestedConfig\<close>) or the same dotted keys from the tree. Both formats are run here as lists
  of entries in the order of the code, one list per group of \<open>if\<close> statements, so that the
  last writer of a field and the first exception are those of the code. The library is the
  record \<open>yaml_api\<close>; mappings have scalar keys, each once. \<open>std::getenv\<close> is the parameter
  \<open>env\<close>. The warning that is logged for the dotted format is left out.
\<close>

subsection \<open>Values\<close>

definition ParseBool :: "string \<Rightarrow> bool" where
  "ParseBool value =
     (let lowered = ToLower (Trim value)
      in lowered = ''1'' \<or> lowered = ''true'' \<or> lowered = ''yes'' \<or> lowered = ''on'')"

text \<open>\<open>std::getenv(name.c_str())\<close>: the name ends at its first NUL.\<close>

definition getenv :: "(string \<Rightarrow> string option) \<Rightarrow> string \<Rightarrow> string" where
  "getenv env name = (case env (takeWhile (\<lambda>c. c \<noteq> CHR 0x00) name) of None \<Rightarrow> [] | Some v \<Rightarrow> v)"

function ExpandEnvironmentVariables :: "(string \<Rightarrow> string option) \<Rightarrow> string \<Rightarrow> string" where
  "ExpandEnvironmentVariables env [] = []"
| "ExpandEnvironmentVariables env (c # s) =
     (if starts_with ''${'' (c # s)
      then (case find_char CHR ''}'' (tl s) of
              None \<Rightarrow> c # s
            | Some i \<Rightarrow> getenv env (take i (tl s)) @ ExpandEnvironmentVariables env (drop (Suc i) (tl s)))
      else c # ExpandEnvironmentVariables env s)"
  by pat_completeness auto
termination by (relation "measure (\<lambda>(_, s). length s)") auto

subsection \<open>The dotted keys\<close>

type_synonym entry = "string \<times> (string \<Rightarrow> ServerConfig \<Rightarrow> ServerConfig outcome)"

definition text_entry :: "string \<Rightarrow> (string \<Rightarrow> ServerConfig \<Rightarrow> ServerConfig) \<Rightarrow> entry" where
  "text_entry key put = (key, \<lambda>v cfg. Ret (put v cfg))"

definition flag_entry :: "string \<Rightarrow> (bool \<Rightarrow> ServerConfig \<Rightarrow> ServerConfig) \<Rightarrow> entry" where
  "flag_entry key put = (key, \<lambda>v cfg. Ret (put (ParseBool v) cfg))"

definition number_entry ::
  "string \<Rightarrow> (string \<Rightarrow> 'n outcome) \<Rightarrow> ('n \<Rightarrow> ServerConfig \<Rightarrow> ServerConfig) \<Rightarrow> entry" where
  "number_entry key parse put = (key, \<lambda>v cfg. outcome_bind (parse v) (\<lambda>n. Ret (put n cfg)))"

fun run_entries :: "entry list \<Rightarrow> (string \<rightharpoonup> string) \<Rightarrow> ServerConfig \<Rightarrow> ServerConfig outcome" where
  "run_entries [] values cfg = Ret cfg"
| "run_entries ((key, f) # es) values cfg =
     (case values key of
        None \<Rightarrow> run_entries es values cfg
      | Some v \<Rightarrow> outcome_bind (f v cfg) (run_entries es values))"

text \<open>The keys that \<open>LoadFlatConfig\<close> looks up.\<close>

definition legacy_server_entries :: "entry list" where
  "legacy_server_entries =
    [text_entry ''server.host'' (\<lambda>v. cfg_host_update (\<lambda>_. v)),
     number_entry ''server.port'' cxx_stoul (\<lambda>v. cfg_port_update (\<lambda>_. word_of_nat v)),
     number_entry ''server.worker_threads'' cxx_stoul (\<lambda>v. cfg_worker_threads_update (\<lambda>_. v)),
     number_entry ''server.graceful_shutdown_timeout_ms'' cxx_stoul
       (\<lambda>v. cfg_graceful_shutdown_timeout_ms_update (\<lambda>_. word_of_nat v)),
     number_entry ''search.max_top_k'' cxx_stoul (\<lambda>v. cfg_max_top_k_update (\<lambda>_. v)),
     number_entry ''gateway.rate_limit_per_second'' cxx_stoul
       (\<lambda>v. cfg_rate_limit_per_second_update (\<lambda>_. v)),
     number_entry ''gateway.kv_batch_max_records'' cxx_stoul
       (\<lambda>v. cfg_kv_batch_max_records_update (\<lambda>_. max 1 v)),
     flag_entry ''gateway.require_api_key'' (\<lambda>v. cfg_require_api_key_update (\<lambda>_. v)),
     text_entry ''gateway.api_key'' (\<lambda>v. cfg_api_key_update (\<lambda>_. v))]"

definition legacy_ai_entries :: "entry list" where
  "legacy_ai_entries =
    [number_entry ''ai.timeout_ms'' cxx_stoul (\<lambda>v. cfg_ai_timeout_ms_update (\<lambda>_. word_of_nat v)),
     text_entry ''ai.model_path'' (\<lambda>v. cfg_model_path_update (\<lambda>_. v)),
     text_entry ''ai.tokenizer_path'' (\<lambda>v. cfg_tokenizer_path_update (\<lambda>_. v)),
     number_entry ''ai.max_tokens'' cxx_stoul (\<lambda>v. cfg_ai_max_tokens_update (\<lambda>_. v)),
     number_entry ''ai.embedding_dimensions'' cxx_stoul (\<lambda>v. cfg_embedding_dimensions_update (\<lambda>_. v)),
     text_entry ''ai.backend'' (\<lambda>v. cfg_ai_backend_update (\<lambda>_. v))]"

definition legacy_storage_entries :: "entry list" where
  "legacy_storage_entries =
    [text_entry ''storage.default_collection'' (\<lambda>v. cfg_default_collection_update (\<lambda>_. v)),
     text_entry ''storage.backend'' (\<lambda>v. cfg_storage_backend_update (\<lambda>_. v)),
     flag_entry ''storage.read_only_mode'' (\<lambda>v. cfg_read_only_mode_update (\<lambda>_. v)),
     flag_entry ''storage.enable_demo_data'' (\<lambda>v. cfg_enable_demo_data_update (\<lambda>_. v)),
     text_entry ''storage.wal_path'' (\<lambda>v. cfg_wal_path_update (\<lambda>_. v)),
     text_entry ''storage.snapshot_path'' (\<lambda>v. cfg_snapshot_path_update (\<lambda>_. v)),
     text_entry ''storage.db_path'' (\<lambda>v. cfg_db_path_update (\<lambda>_. v)),
     number_entry ''storage.rocksdb_max_background_jobs'' cxx_stoul
       (\<lambda>v. cfg_rocksdb_max_background_jobs_update (\<lambda>_. max 1 v)),
     number_entry ''storage.rocksdb_write_buffer_size_mb'' cxx_stoul
       (\<lambda>v. cfg_rocksdb_write_buffer_size_mb_update (\<lambda>_. max 1 v)),
     number_entry ''storage.rocksdb_max_write_buffer_number'' cxx_stoul
       (\<lambda>v. cfg_rocksdb_max_write_buffer_number_update (\<lambda>_. max 2 v)),
     number_entry ''storage.rocksdb_target_file_size_mb'' cxx_stoul
       (\<lambda>v. cfg_rocksdb_target_file_size_mb_update (\<lambda>_. max 1 v)),
     number_entry ''storage.rocksdb_bytes_per_sync'' cxx_stoull
       (\<lambda>v. cfg_rocksdb_bytes_per_sync_update (\<lambda>_. word_of_nat v)),
     number_entry ''storage.rocksdb_wal_bytes_per_sync'' cxx_stoull
       (\<lambda>v. cfg_rocksdb_wal_bytes_per_sync_update (\<lambda>_. word_of_nat v)),
     flag_entry ''storage.rocksdb_enable_pipelined_write''
       (\<lambda>v. cfg_rocksdb_enable_pipelined_write_update (\<lambda>_. v))]"

definition legacy_search_entries :: "entry list" where
  "legacy_search_entries =
    [text_entry ''search.backend'' (\<lambda>v. cfg_search_backend_update (\<lambda>_. v)),
     text_entry ''search.index_path'' (\<lambda>v. cfg_index_path_update (\<lambda>_. v)),
     text_entry ''search.vector_index_outbox_path'' (\<lambda>v. cfg_vector_index_outbox_path_update (\<lambda>_. v)),
     number_entry ''search.faiss_nlist'' cxx_stoi (\<lambda>v. cfg_search_faiss_nlist_update (\<lambda>_. v)),
     number_entry ''search.faiss_nprobe'' cxx_stoi (\<lambda>v. cfg_search_faiss_nprobe_update (\<lambda>_. v))]"

definition legacy_cluster_entries :: "entry list" where
  "legacy_cluster_entries =
    [text_entry ''cluster.discovery_backend'' (\<lambda>v. cfg_discovery_backend_update (\<lambda>_. v)),
     text_entry ''cluster.node_id'' (\<lambda>v. cfg_node_id_update (\<lambda>_. v)),
     text_entry ''cluster.advertise_host'' (\<lambda>v. cfg_advertise_host_update (\<lambda>_. v)),
     text_entry ''cluster.node_zone'' (\<lambda>v. cfg_node_zone_update (\<lambda>_. v)),
     number_entry ''cluster.node_weight'' cxx_stoul
       (\<lambda>v. cfg_node_weight_update (\<lambda>_. let w = word_of_nat v in if w = 0 then 100 else w)),
     number_entry ''cluster.replication_factor'' cxx_stoul
       (\<lambda>v. cfg_replication_factor_update (\<lambda>_. v)),
     flag_entry ''cluster.data_migration_enabled'' (\<lambda>v. cfg_data_migration_enabled_update (\<lambda>_. v)),
     number_entry ''cluster.migration_delete_delay_ms'' cxx_stoull
       (\<lambda>v. cfg_migration_delete_delay_ms_update (\<lambda>_. word_of_nat v)),
     number_entry ''cluster.migration_batch_size'' cxx_stoul
       (\<lambda>v. cfg_migration_batch_size_update (\<lambda>_. v)),
     number_entry ''cluster.migration_max_retries'' cxx_stoul
       (\<lambda>v. cfg_migration_max_retries_update (\<lambda>_. v)),
     text_entry ''cluster.migration_task_wal_path'' (\<lambda>v. cfg_migration_task_wal_path_update (\<lambda>_. v)),
     number_entry ''cluster.slot_count'' cxx_stoul (\<lambda>v. cfg_cluster_slot_count_update (\<lambda>_. max 1 v)),
     text_entry ''cluster.nodes'' (\<lambda>v. cfg_cluster_nodes_update (\<lambda>_. v)),
     text_entry ''cluster.etcd_endpoints'' (\<lambda>v. cfg_etcd_endpoints_update (\<lambda>_. v)),
     text_entry ''cluster.etcd_prefix'' (\<lambda>v. cfg_etcd_prefix_update (\<lambda>_. v)),
     number_entry ''cluster.etcd_lease_ttl_s'' cxx_stoul
       (\<lambda>v. cfg_etcd_lease_ttl_s_update (\<lambda>_. word_of_nat v))]"

definition legacy_logging_entries :: "entry list" where
  "legacy_logging_entries =
    [text_entry ''gateway.openapi_path'' (\<lambda>v. cfg_openapi_path_update (\<lambda>_. v)),
     text_entry ''security.tls_mode'' (\<lambda>v. cfg_tls_mode_update (\<lambda>_. v)),
     text_entry ''log.level'' (\<lambda>v. cfg_log_level_update (\<lambda>_. v)),
     text_entry ''logging.level'' (\<lambda>v. cfg_log_level_update (\<lambda>_. v)),
     text_entry ''logging.file_path'' (\<lambda>v. cfg_log_file_path_update (\<lambda>_. v)),
     number_entry ''logging.file_max_size_mb'' cxx_stoul
       (\<lambda>v. cfg_log_file_max_size_mb_update (\<lambda>_. v)),
     number_entry ''logging.file_max_files'' cxx_stoul (\<lambda>v. cfg_log_file_max_files_update (\<lambda>_. v))]"

definition legacy_entries :: "entry list" where
  "legacy_entries = legacy_server_entries @ legacy_ai_entries @ legacy_storage_entries @
     legacy_search_entries @ legacy_cluster_entries @ legacy_logging_entries"

text \<open>The keys that \<open>LoadFromFile\<close> looks up in a tree of dotted keys.\<close>

definition yaml_server_entries :: "entry list" where
  "yaml_server_entries =
    [text_entry ''server.host'' (\<lambda>v. cfg_host_update (\<lambda>_. v)),
     number_entry ''server.port'' cxx_stoul (\<lambda>v. cfg_port_update (\<lambda>_. word_of_nat v)),
     number_entry ''server.worker_threads'' cxx_stoul (\<lambda>v. cfg_worker_threads_update (\<lambda>_. v)),
     number_entry ''server.graceful_shutdown_timeout_ms'' cxx_stoul
       (\<lambda>v. cfg_graceful_shutdown_timeout_ms_update (\<lambda>_. word_of_nat v)),
     number_entry ''search.max_top_k'' cxx_stoul (\<lambda>v. cfg_max_top_k_update (\<lambda>_. v)),
     number_entry ''gateway.rate_limit_per_second'' cxx_stoul
       (\<lambda>v. cfg_rate_limit_per_second_update (\<lambda>_. v)),
     number_entry ''gateway.kv_batch_max_records'' cxx_stoul
       (\<lambda>v. cfg_kv_batch_max_records_update (\<lambda>_. max 1 v)),
     flag_entry ''gateway.require_api_key'' (\<lambda>v. cfg_require_api_key_update (\<lambda>_. v)),
     text_entry ''gateway.api_key'' (\<lambda>v. cfg_api_key_update (\<lambda>_. v))]"

definition yaml_ai_entries :: "entry list" where
  "yaml_ai_entries =
    [number_entry ''ai.timeout_ms'' cxx_stoul (\<lambda>v. cfg_ai_timeout_ms_update (\<lambda>_. word_of_nat v)),
     text_entry ''ai.model_path'' (\<lambda>v. cfg_model_path_update (\<lambda>_. v)),
     text_entry ''ai.tokenizer_path'' (\<lambda>v. cfg_tokenizer_path_update (\<lambda>_. v)),
     number_entry ''ai.max_tokens'' cxx_stoul (\<lambda>v. cfg_ai_max_tokens_update (\<lambda>_. v)),
     number_entry ''ai.embedding_dimensions'' cxx_stoul (\<lambda>v. cfg_embedding_dimensions_update (\<lambda>_. v)),
     text_entry ''ai.backend'' (\<lambda>v. cfg_ai_backend_update (\<lambda>_. v))]"

definition yaml_storage_entries :: "entry list" where
  "yaml_storage_entries =
    [text_entry ''storage.default_collection'' (\<lambda>v. cfg_default_collection_update (\<lambda>_. v)),
     text_entry ''storage.backend'' (\<lambda>v. cfg_storage_backend_update (\<lambda>_. v)),
     flag_entry ''storage.read_only_mode'' (\<lambda>v. cfg_read_only_mode_update (\<lambda>_. v)),
     flag_entry ''storage.enable_demo_data'' (\<lambda>v. cfg_enable_demo_data_update (\<lambda>_. v)),
     text_entry ''storage.wal_path'' (\<lambda>v. cfg_wal_path_update (\<lambda>_. v)),
     text_entry ''storage.snapshot_path'' (\<lambda>v. cfg_snapshot_path_update (\<lambda>_. v)),
     text_entry ''storage.db_path'' (\<lambda>v. cfg_db_path_update (\<lambda>_. v)),
     number_entry ''storage.rocksdb_max_background_jobs'' cxx_stoul
       (\<lambda>v. cfg_rocksdb_max_background_jobs_update (\<lambda>_. max 1 v)),
     number_entry ''storage.rocksdb_write_buffer_size_mb'' cxx_stoul
       (\<lambda>v. cfg_rocksdb_write_buffer_size_mb_update (\<lambda>_. max 1 v)),
     number_entry ''storage.rocksdb_max_write_buffer_number'' cxx_stoul
       (\<lambda>v. cfg_rocksdb_max_write_buffer_number_update (\<lambda>_. max 2 v)),
     number_entry ''storage.rocksdb_target_file_size_mb'' cxx_stoul
       (\<lambda>v. cfg_rocksdb_target_file_size_mb_update (\<lambda>_. max 1 v)),
     number_entry ''storage.rocksdb_bytes_per_sync'' cxx_stoull
       (\<lambda>v. cfg_rocksdb_bytes_per_sync_update (\<lambda>_. word_of_nat v)),
     number_entry ''storage.rocksdb_wal_bytes_per_sync'' cxx_stoull
       (\<lambda>v. cfg_rocksdb_wal_bytes_per_sync_update (\<lambda>_. word_of_nat v)),
     flag_entry ''storage.rocksdb_enable_pipelined_write''
       (\<lambda>v. cfg_rocksdb_enable_pipelined_write_update (\<lambda>_. v))]"

definition yaml_search_entries :: "entry list" where
  "yaml_search_entries =
    [text_entry ''search.backend'' (\<lambda>v. cfg_search_backend_update (\<lambda>_. v)),
     text_entry ''search.index_path'' (\<lambda>v. cfg_index_path_update (\<lambda>_. v)),
     text_entry ''search.vector_index_outbox_path''
       (\<lambda>v. cfg_vector_index_outbox_path_update (\<lambda>_. v))]"

definition yaml_cluster_entries :: "entry list" where
  "yaml_cluster_entries =
    [text_entry ''cluster.discovery_backend'' (\<lambda>v. cfg_discovery_backend_update (\<lambda>_. v)),
     text_entry ''cluster.node_id'' (\<lambda>v. cfg_node_id_update (\<lambda>_. v)),
     text_entry ''cluster.advertise_host'' (\<lambda>v. cfg_advertise_host_update (\<lambda>_. v)),
     text_entry ''cluster.node_zone'' (\<lambda>v. cfg_node_zone_update (\<lambda>_. v)),
     number_entry ''cluster.node_weight'' cxx_stoul
       (\<lambda>v. cfg_node_weight_update (\<lambda>_. let w = word_of_nat v in if w = 0 then 100 else w)),
     number_entry ''cluster.replication_factor'' cxx_stoul
       (\<lambda>v. cfg_replication_factor_update (\<lambda>_. v)),
     flag_entry ''cluster.data_migration_enabled'' (\<lambda>v. cfg_data_migration_enabled_update (\<lambda>_. v)),
     number_entry ''cluster.migration_delete_delay_ms'' cxx_stoull
       (\<lambda>v. cfg_migration_delete_delay_ms_update (\<lambda>_. word_of_nat v)),
     number_entry ''cluster.migration_batch_size'' cxx_stoul
       (\<lambda>v. cfg_migration_batch_size_update (\<lambda>_. v)),
     number_entry ''cluster.migration_max_retries'' cxx_stoul
       (\<lambda>v. cfg_migration_max_retries_update (\<lambda>_. v)),
     text_entry ''cluster.migration_task_wal_path'' (\<lambda>v. cfg_migration_task_wal_path_update (\<lambda>_. v)),
     number_entry ''cluster.slot_count'' cxx_stoul (\<lambda>v. cfg_cluster_slot_count_update (\<lambda>_. max 1 v)),
     text_entry ''cluster.nodes'' (\<lambda>v. cfg_cluster_nodes_update (\<lambda>_. v)),
     text_entry ''cluster.etcd_endpoints'' (\<lambda>v. cfg_etcd_endpoints_update (\<lambda>_. v)),
     text_entry ''cluster.etcd_prefix'' (\<lambda>v. cfg_etcd_prefix_update (\<lambda>_. v)),
     number_entry ''cluster.etcd_lease_ttl_s'' cxx_stoul
       (\<lambda>v. cfg_etcd_lease_ttl_s_update (\<lambda>_. word_of_nat v))]"

definition yaml_logging_entries :: "entry list" where
  "yaml_logging_entries =
    [text_entry ''gateway.openapi_path'' (\<lambda>v. cfg_openapi_path_update (\<lambda>_. v)),
     text_entry ''security.tls_mode'' (\<lambda>v. cfg_tls_mode_update (\<lambda>_. v)),
     text_entry ''log.level'' (\<lambda>v. cfg_log_level_update (\<lambda>_. v)),
     text_entry ''logging.level'' (\<lambda>v. cfg_log_level_update (\<lambda>_. v)),
     text_entry ''logging.file_path'' (\<lambda>v. cfg_log_file_path_update (\<lambda>_. v)),
     number_entry ''logging.file_max_size_mb'' cxx_stoul
       (\<lambda>v. cfg_log_file_max_size_mb_update (\<lambda>_. v)),
     number_entry ''logging.file_max_files'' cxx_stoul (\<lambda>v. cfg_log_file_max_files_update (\<lambda>_. v))]"

definition yaml_entries :: "entry list" where
  "yaml_entries = yaml_server_entries @ yaml_ai_entries @ yaml_storage_entries @
     yaml_search_entries @ yaml_cluster_entries @ yaml_logging_entries"

text \<open>One line of the file, and the file without the library.\<close>

definition flat_line :: "(string \<Rightarrow> string option) \<Rightarrow> string \<Rightarrow> (string \<rightharpoonup> string) \<Rightarrow> (string \<rightharpoonup> string)" where
  "flat_line env line values =
     (let uncommented = (case find_char CHR ''#'' line of None \<Rightarrow> line | Some i \<Rightarrow> take i line);
          text = Trim uncommented
      in if text = [] then values
         else case find_char CHR '':'' text of
           None \<Rightarrow> values
         | Some i \<Rightarrow> values(Trim (take i text) \<mapsto> ExpandEnvironmentVariables env (Trim (drop (Suc i) text))))"

definition LoadFlatConfig :: "(string \<Rightarrow> string option) \<Rightarrow> fs \<Rightarrow> string \<Rightarrow> ServerConfig outcome" where
  "LoadFlatConfig env s path =
     (case ReadWholeFile [] s path of
        Inl _ \<Rightarrow> Ret default_config
      | Inr bytes \<Rightarrow>
          run_entries legacy_entries (fold (flat_line env) (getlines CHR 0x0A bytes) Map.empty) default_config)"

subsection \<open>The tree\<close>

datatype yaml =
    YNull
  | YScalar string
  | YSequence "yaml list"
  | YMap "(string \<times> yaml) list"

text \<open>
  What is used of yaml-cpp: parsing the bytes of a file, \<open>operator[]\<close> on a node that is not
  a mapping, and the conversions \<open>as<unsigned int>\<close>, \<open>as<std::size_t>\<close>, \<open>as<int>\<close>. An
  exception is its text on the left; on a mapping \<open>operator[]\<close> finds the value of the key.
\<close>

record yaml_api =
  yl_load :: "string \<Rightarrow> string + yaml"
  yl_index :: "yaml \<Rightarrow> string \<Rightarrow> string + yaml option"
  yl_unsigned :: "yaml \<Rightarrow> string + nat"
  yl_size :: "yaml \<Rightarrow> string + nat"
  yl_int :: "yaml \<Rightarrow> string + int"

fun yaml_get :: "yaml_api \<Rightarrow> yaml \<Rightarrow> string \<Rightarrow> string + yaml option" where
  "yaml_get yl (YMap ms) key = Inr (map_of ms key)"
| "yaml_get yl node key = yl_index yl node key"

fun IsMap :: "yaml \<Rightarrow> bool" where
  "IsMap (YMap ms) = True"
| "IsMap _ = False"

fun ExpandEnvVarsInNode :: "(string \<Rightarrow> string option) \<Rightarrow> yaml \<Rightarrow> yaml" where
  "ExpandEnvVarsInNode env (YScalar v) = YScalar (ExpandEnvironmentVariables env v)"
| "ExpandEnvVarsInNode env (YMap ms) = YMap (map (\<lambda>(k, v). (k, ExpandEnvVarsInNode env v)) ms)"
| "ExpandEnvVarsInNode env (YSequence vs) = YSequence (map (ExpandEnvVarsInNode env) vs)"
| "ExpandEnvVarsInNode env YNull = YNull"

fun child :: "yaml \<Rightarrow> string \<Rightarrow> yaml option" where
  "child (YMap ms) key = map_of ms key"
| "child _ key = None"

definition ReadString :: "yaml \<Rightarrow> string \<Rightarrow> string \<Rightarrow> string" where
  "ReadString node key default_value =
     (if \<not> IsMap node then default_value
      else case child node key of Some (YScalar v) \<Rightarrow> v | _ \<Rightarrow> default_value)"

definition ReadBool :: "yaml \<Rightarrow> string \<Rightarrow> bool \<Rightarrow> bool" where
  "ReadBool node key default_value =
     (if \<not> IsMap node then default_value
      else case child node key of Some (YScalar v) \<Rightarrow> ParseBool v | _ \<Rightarrow> default_value)"

definition ReadSize :: "yaml_api \<Rightarrow> yaml \<Rightarrow> string \<Rightarrow> nat \<Rightarrow> string + nat" where
  "ReadSize yl node key default_value =
     (if \<not> IsMap node then Inr default_value
      else case child node key of None \<Rightarrow> Inr default_value | Some v \<Rightarrow> yl_size yl v)"

definition known_sections :: "string list" where
  "known_sections = [''server'', ''gateway'', ''ai'', ''search'', ''storage'', ''cluster'', ''security'', ''logging'']"

definition IsNestedFormat :: "yaml \<Rightarrow> bool" where
  "IsNestedFormat root \<longleftrightarrow> IsMap root \<and> (\<exists>section \<in> set known_sections. child root section \<noteq> None)"

subsection \<open>The sections\<close>

text \<open>
  A statement of \<open>LoadNestedConfig\<close> on the node of its section: a field read with a default,
  or one that is converted if the key is given.
\<close>

type_synonym setting = "yaml_api \<Rightarrow> yaml \<Rightarrow> ServerConfig \<Rightarrow> string + ServerConfig"

definition text_setting ::
  "string \<Rightarrow> (ServerConfig \<Rightarrow> string) \<Rightarrow> (string \<Rightarrow> ServerConfig \<Rightarrow> ServerConfig) \<Rightarrow> setting" where
  "text_setting key get put = (\<lambda>yl node cfg. Inr (put (ReadString node key (get cfg)) cfg))"

definition flag_setting ::
  "string \<Rightarrow> (ServerConfig \<Rightarrow> bool) \<Rightarrow> (bool \<Rightarrow> ServerConfig \<Rightarrow> ServerConfig) \<Rightarrow> setting" where
  "flag_setting key get put = (\<lambda>yl node cfg. Inr (put (ReadBool node key (get cfg)) cfg))"

definition size_setting ::
  "string \<Rightarrow> (ServerConfig \<Rightarrow> nat) \<Rightarrow> (nat \<Rightarrow> ServerConfig \<Rightarrow> ServerConfig) \<Rightarrow> setting" where
  "size_setting key get put = (\<lambda>yl node cfg. map_sum id (\<lambda>v. put v cfg) (ReadSize yl node key (get cfg)))"

definition given_setting ::
  "string \<Rightarrow> (yaml_api \<Rightarrow> yaml \<Rightarrow> string + 'n) \<Rightarrow> ('n \<Rightarrow> ServerConfig \<Rightarrow> ServerConfig) \<Rightarrow> setting" where
  "given_setting key conv put = (\<lambda>yl node cfg.
     case yaml_get yl node key of
       Inl e \<Rightarrow> Inl e
     | Inr None \<Rightarrow> Inr cfg
     | Inr (Some v) \<Rightarrow> map_sum id (\<lambda>n. put n cfg) (conv yl v))"

fun run_settings :: "setting list \<Rightarrow> yaml_api \<Rightarrow> yaml \<Rightarrow> ServerConfig \<Rightarrow> string + ServerConfig" where
  "run_settings [] yl node cfg = Inr cfg"
| "run_settings (f # fs) yl node cfg =
     (case f yl node cfg of Inl e \<Rightarrow> Inl e | Inr cfg' \<Rightarrow> run_settings fs yl node cfg')"

definition server_settings :: "setting list" where
  "server_settings =
    [text_setting ''host'' cfg_host (\<lambda>v. cfg_host_update (\<lambda>_. v)),
     given_setting ''port'' yl_unsigned (\<lambda>v. cfg_port_update (\<lambda>_. word_of_nat v)),
     given_setting ''worker_threads'' yl_size (\<lambda>v. cfg_worker_threads_update (\<lambda>_. v)),
     given_setting ''graceful_shutdown_timeout_ms'' yl_unsigned (\<lambda>v. cfg_graceful_shutdown_timeout_ms_update (\<lambda>_. word_of_nat v))]"

definition gateway_settings :: "setting list" where
  "gateway_settings =
    [given_setting ''rate_limit_per_second'' yl_size (\<lambda>v. cfg_rate_limit_per_second_update (\<lambda>_. v)),
     given_setting ''kv_batch_max_records'' yl_size (\<lambda>v. cfg_kv_batch_max_records_update (\<lambda>_. max 1 v)),
     text_setting ''openapi_path'' cfg_openapi_path (\<lambda>v. cfg_openapi_path_update (\<lambda>_. v)),
     flag_setting ''require_api_key'' cfg_require_api_key (\<lambda>v. cfg_require_api_key_update (\<lambda>_. v)),
     text_setting ''api_key'' cfg_api_key (\<lambda>v. cfg_api_key_update (\<lambda>_. v))]"

definition ai_settings :: "setting list" where
  "ai_settings =
    [given_setting ''timeout_ms'' yl_unsigned (\<lambda>v. cfg_ai_timeout_ms_update (\<lambda>_. word_of_nat v)),
     text_setting ''backend'' cfg_ai_backend (\<lambda>v. cfg_ai_backend_update (\<lambda>_. v)),
     text_setting ''model_path'' cfg_model_path (\<lambda>v. cfg_model_path_update (\<lambda>_. v)),
     text_setting ''tokenizer_path'' cfg_tokenizer_path (\<lambda>v. cfg_tokenizer_path_update (\<lambda>_. v)),
     given_setting ''max_tokens'' yl_size (\<lambda>v. cfg_ai_max_tokens_update (\<lambda>_. v)),
     given_setting ''embedding_dimensions'' yl_size (\<lambda>v. cfg_embedding_dimensions_update (\<lambda>_. v))]"

definition search_settings :: "setting list" where
  "search_settings =
    [given_setting ''max_top_k'' yl_size (\<lambda>v. cfg_max_top_k_update (\<lambda>_. v)),
     text_setting ''backend'' cfg_search_backend (\<lambda>v. cfg_search_backend_update (\<lambda>_. v)),
     text_setting ''index_path'' cfg_index_path (\<lambda>v. cfg_index_path_update (\<lambda>_. v)),
     text_setting ''vector_index_outbox_path'' cfg_vector_index_outbox_path (\<lambda>v. cfg_vector_index_outbox_path_update (\<lambda>_. v)),
     given_setting ''faiss_nlist'' yl_int (\<lambda>v. cfg_search_faiss_nlist_update (\<lambda>_. v)),
     given_setting ''faiss_nprobe'' yl_int (\<lambda>v. cfg_search_faiss_nprobe_update (\<lambda>_. v))]"

definition storage_settings :: "setting list" where
  "storage_settings =
    [text_setting ''default_collection'' cfg_default_collection (\<lambda>v. cfg_default_collection_update (\<lambda>_. v)),
     text_setting ''backend'' cfg_storage_backend (\<lambda>v. cfg_storage_backend_update (\<lambda>_. v)),
     flag_setting ''read_only_mode'' cfg_read_only_mode (\<lambda>v. cfg_read_only_mode_update (\<lambda>_. v)),
     flag_setting ''enable_demo_data'' cfg_enable_demo_data (\<lambda>v. cfg_enable_demo_data_update (\<lambda>_. v)),
     text_setting ''wal_path'' cfg_wal_path (\<lambda>v. cfg_wal_path_update (\<lambda>_. v)),
     text_setting ''snapshot_path'' cfg_snapshot_path (\<lambda>v. cfg_snapshot_path_update (\<lambda>_. v)),
     text_setting ''db_path'' cfg_db_path (\<lambda>v. cfg_db_path_update (\<lambda>_. v)),
     size_setting ''rocksdb_max_background_jobs'' cfg_rocksdb_max_background_jobs (\<lambda>v. cfg_rocksdb_max_background_jobs_update (\<lambda>_. v)),
     size_setting ''rocksdb_write_buffer_size_mb'' cfg_rocksdb_write_buffer_size_mb (\<lambda>v. cfg_rocksdb_write_buffer_size_mb_update (\<lambda>_. v)),
     size_setting ''rocksdb_max_write_buffer_number'' cfg_rocksdb_max_write_buffer_number (\<lambda>v. cfg_rocksdb_max_write_buffer_number_update (\<lambda>_. v)),
     size_setting ''rocksdb_target_file_size_mb'' cfg_rocksdb_target_file_size_mb (\<lambda>v. cfg_rocksdb_target_file_size_mb_update (\<lambda>_. v)),
     size_setting ''rocksdb_bytes_per_sync'' (\<lambda>c. unat (cfg_rocksdb_bytes_per_sync c))
       (\<lambda>v. cfg_rocksdb_bytes_per_sync_update (\<lambda>_. word_of_nat v)),
     size_setting ''rocksdb_wal_bytes_per_sync'' (\<lambda>c. unat (cfg_rocksdb_wal_bytes_per_sync c))
       (\<lambda>v. cfg_rocksdb_wal_bytes_per_sync_update (\<lambda>_. word_of_nat v)),
     flag_setting ''rocksdb_enable_pipelined_write'' cfg_rocksdb_enable_pipelined_write (\<lambda>v. cfg_rocksdb_enable_pipelined_write_update (\<lambda>_. v))]"

definition cluster_settings :: "setting list" where
  "cluster_settings =
    [text_setting ''discovery_backend'' cfg_discovery_backend (\<lambda>v. cfg_discovery_backend_update (\<lambda>_. v)),
     text_setting ''node_id'' cfg_node_id (\<lambda>v. cfg_node_id_update (\<lambda>_. v)),
     text_setting ''advertise_host'' cfg_advertise_host (\<lambda>v. cfg_advertise_host_update (\<lambda>_. v)),
     text_setting ''node_zone'' cfg_node_zone (\<lambda>v. cfg_node_zone_update (\<lambda>_. v)),
     given_setting ''node_weight'' yl_unsigned (\<lambda>v. cfg_node_weight_update (\<lambda>_. let w = word_of_nat v in if w = 0 then 100 else w)),
     given_setting ''replication_factor'' yl_size (\<lambda>v. cfg_replication_factor_update (\<lambda>_. v)),
     flag_setting ''data_migration_enabled'' cfg_data_migration_enabled (\<lambda>v. cfg_data_migration_enabled_update (\<lambda>_. v)),
     size_setting ''migration_delete_delay_ms'' (\<lambda>c. unat (cfg_migration_delete_delay_ms c))
       (\<lambda>v. cfg_migration_delete_delay_ms_update (\<lambda>_. word_of_nat v)),
     size_setting ''migration_batch_size'' cfg_migration_batch_size (\<lambda>v. cfg_migration_batch_size_update (\<lambda>_. v)),
     size_setting ''migration_max_retries'' cfg_migration_max_retries (\<lambda>v. cfg_migration_max_retries_update (\<lambda>_. v)),
     text_setting ''migration_task_wal_path'' cfg_migration_task_wal_path (\<lambda>v. cfg_migration_task_wal_path_update (\<lambda>_. v)),
     size_setting ''slot_count'' cfg_cluster_slot_count (\<lambda>v. cfg_cluster_slot_count_update (\<lambda>_. v)),
     text_setting ''nodes'' cfg_cluster_nodes (\<lambda>v. cfg_cluster_nodes_update (\<lambda>_. v)),
     text_setting ''etcd_endpoints'' cfg_etcd_endpoints (\<lambda>v. cfg_etcd_endpoints_update (\<lambda>_. v)),
     text_setting ''etcd_prefix'' cfg_etcd_prefix (\<lambda>v. cfg_etcd_prefix_update (\<lambda>_. v)),
     given_setting ''etcd_lease_ttl_s'' yl_unsigned (\<lambda>v. cfg_etcd_lease_ttl_s_update (\<lambda>_. word_of_nat v))]"

definition security_settings :: "setting list" where
  "security_settings =
    [text_setting ''tls_mode'' cfg_tls_mode (\<lambda>v. cfg_tls_mode_update (\<lambda>_. v))]"

definition logging_settings :: "setting list" where
  "logging_settings =
    [text_setting ''level'' cfg_log_level (\<lambda>v. cfg_log_level_update (\<lambda>_. v)),
     text_setting ''file_path'' cfg_log_file_path (\<lambda>v. cfg_log_file_path_update (\<lambda>_. v)),
     given_setting ''file_max_size_mb'' yl_size (\<lambda>v. cfg_log_file_max_size_mb_update (\<lambda>_. v)),
     given_setting ''file_max_files'' yl_size (\<lambda>v. cfg_log_file_max_files_update (\<lambda>_. v))]"

fun run_sections ::
  "(string \<times> setting list) list \<Rightarrow> yaml_api \<Rightarrow> yaml \<Rightarrow> ServerConfig \<Rightarrow> string + ServerConfig" where
  "run_sections [] yl root cfg = Inr cfg"
| "run_sections ((section, settings) # rest) yl root cfg =
     (case yaml_get yl root section of
        Inl e \<Rightarrow> Inl e
      | Inr None \<Rightarrow> run_sections rest yl root cfg
      | Inr (Some node) \<Rightarrow>
          (case run_settings settings yl node cfg of
             Inl e \<Rightarrow> Inl e
           | Inr cfg' \<Rightarrow> run_sections rest yl root cfg'))"

definition LoadNestedConfig :: "yaml_api \<Rightarrow> yaml \<Rightarrow> string + ServerConfig" where
  "LoadNestedConfig yl root = run_sections
     [(''server'', server_settings), (''gateway'', gateway_settings), (''ai'', ai_settings),
      (''search'', search_settings), (''storage'', storage_settings), (''cluster'', cluster_settings),
      (''security'', security_settings), (''logging'', logging_settings)] yl root default_config"

subsection \<open>Loading\<close>

text \<open>The scalar members of a tree of dotted keys.\<close>

fun scalar_members :: "yaml \<Rightarrow> string \<rightharpoonup> string" where
  "scalar_members (YMap ms) =
     fold (\<lambda>(k, v) values. case v of YScalar t \<Rightarrow> values(k \<mapsto> t) | _ \<Rightarrow> values) ms Map.empty"
| "scalar_members _ = Map.empty"

definition load_yaml ::
  "yaml_api \<Rightarrow> (string \<Rightarrow> string option) \<Rightarrow> string \<Rightarrow> string \<Rightarrow> ServerConfig StatusOr outcome" where
  "load_yaml yl env path bytes =
     (let failed = (\<lambda>e. Ret (Inl (Internal (''YAML parse error: '' @ e)))) in
      case yl_load yl bytes of
        Inl e \<Rightarrow> failed e
      | Inr node \<Rightarrow>
          if \<not> IsMap node then Ret (Inl (InvalidArgument (''config file must be a YAML mapping: '' @ path)))
          else let root = ExpandEnvVarsInNode env node in
            if IsNestedFormat root
            then (case LoadNestedConfig yl root of Inl e \<Rightarrow> failed e | Inr cfg \<Rightarrow> Ret (Inr cfg))
            else outcome_bind (run_entries yaml_entries (scalar_members root) default_config) (\<lambda>cfg. Ret (Inr cfg)))"

text \<open>\<open>None\<close> is a build without yaml-cpp.\<close>

definition LoadFromFile ::
  "yaml_api option \<Rightarrow> (string \<Rightarrow> string option) \<Rightarrow> fs \<Rightarrow> string \<Rightarrow> ServerConfig StatusOr outcome" where
  "LoadFromFile yl env s path =
     (case ReadWholeFile [] s path of
        Inl _ \<Rightarrow> Ret (Inl (NotFound (''config file not found: '' @ path)))
      | Inr bytes \<Rightarrow>
          case yl of
            Some api \<Rightarrow> load_yaml api env path bytes
          | None \<Rightarrow> outcome_bind (LoadFlatConfig env s path) (\<lambda>cfg. Ret (Inr cfg)))"

end
