(* ===== verification/Config_Properties.thy ===== *)
theory Config_Properties
  imports Config_Loader
begin

text \<open>
  Properties of \<open>ConfigLoader\<close>: a dotted file means the same with and without yaml-cpp except
  for two keys, and the bounds that every loaded configuration satisfies.
\<close>

subsection \<open>Running entries\<close>

lemma run_entries_append:
  "run_entries (es @ rest) m = (\<lambda>cfg. outcome_bind (run_entries es m cfg) (run_entries rest m))"
proof
  fix cfg
  show "run_entries (es @ rest) m cfg = outcome_bind (run_entries es m cfg) (run_entries rest m)"
  proof (induction es m cfg rule: run_entries.induct)
    case (2 key f es m cfg)
    then show ?case by (cases "m key"; cases "f (the (m key)) cfg") auto
  qed simp
qed

definition faiss_keys :: "string set" where
  "faiss_keys = {''search.faiss_nlist'', ''search.faiss_nprobe''}"

lemma run_entries_restrict:
  assumes "fst ` set es \<inter> K = {}"
  shows "run_entries es (values |` (- K)) = run_entries es values"
  using assms
proof (induction es)
  case (Cons e es)
  obtain key f where e: "e = (key, f)" by (cases e)
  with Cons.prems have "(values |` (- K)) key = values key" by (simp add: restrict_map_def)
  moreover have "run_entries es (values |` (- K)) = run_entries es values" using Cons by auto
  ultimately show ?case by (intro ext) (simp add: e split: option.split)
qed (simp add: fun_eq_iff)

lemmas entry_keys = text_entry_def flag_entry_def number_entry_def

lemma chunks_agree:
  "yaml_server_entries = legacy_server_entries" "yaml_ai_entries = legacy_ai_entries"
  "yaml_storage_entries = legacy_storage_entries" "yaml_cluster_entries = legacy_cluster_entries"
  "yaml_logging_entries = legacy_logging_entries"
  by (simp_all only: yaml_server_entries_def legacy_server_entries_def yaml_ai_entries_def legacy_ai_entries_def
      yaml_storage_entries_def legacy_storage_entries_def yaml_cluster_entries_def legacy_cluster_entries_def
      yaml_logging_entries_def legacy_logging_entries_def)

lemma run_search_entries:
  "run_entries yaml_search_entries values cfg = run_entries legacy_search_entries (values |` (- faiss_keys)) cfg"
proof -
  have split: "legacy_search_entries = yaml_search_entries @ drop 3 legacy_search_entries"
    by (simp add: legacy_search_entries_def yaml_search_entries_def)
  have "run_entries (drop 3 legacy_search_entries) (values |` (- faiss_keys)) = Ret"
    by (rule ext) (simp add: legacy_search_entries_def entry_keys faiss_keys_def)
  moreover have "run_entries yaml_search_entries (values |` (- faiss_keys)) = run_entries yaml_search_entries values"
    by (rule run_entries_restrict) (simp add: yaml_search_entries_def entry_keys faiss_keys_def)
  ultimately show ?thesis
    by (subst split, simp add: run_entries_append) (cases "run_entries yaml_search_entries values cfg"; simp)
qed

text \<open>The keys of the other groups are not those of FAISS.\<close>

lemma other_keys:
  "fst ` set legacy_server_entries \<inter> faiss_keys = {}" "fst ` set legacy_ai_entries \<inter> faiss_keys = {}"
  "fst ` set legacy_storage_entries \<inter> faiss_keys = {}" "fst ` set legacy_cluster_entries \<inter> faiss_keys = {}"
  "fst ` set legacy_logging_entries \<inter> faiss_keys = {}"
  by (simp_all add: legacy_server_entries_def legacy_ai_entries_def legacy_storage_entries_def
      legacy_cluster_entries_def legacy_logging_entries_def entry_keys faiss_keys_def)

lemma yaml_entries_are_legacy_entries:
  "run_entries yaml_entries values cfg = run_entries legacy_entries (values |` (- faiss_keys)) cfg"
  by (simp add: yaml_entries_def legacy_entries_def run_entries_append chunks_agree run_search_entries
      run_entries_restrict other_keys)

subsection \<open>A dotted file in both builds\<close>

definition flat_text :: "(string \<times> string) list \<Rightarrow> string" where
  "flat_text kvs = concat (map (\<lambda>(k, v). k @ '': '' @ v @ [CHR 0x0A]) kvs)"

text \<open>A text without comment and line end that trimming leaves alone.\<close>

definition plain_text :: "string \<Rightarrow> bool" where
  "plain_text v \<longleftrightarrow> v \<noteq> [] \<and> \<not> isspace (hd v) \<and> \<not> isspace (last v) \<and> CHR ''#'' \<notin> set v \<and> CHR 0x0A \<notin> set v"

definition plain_pair :: "string \<times> string \<Rightarrow> bool" where
  "plain_pair = (\<lambda>(k, v). plain_text k \<and> CHR '':'' \<notin> set k \<and> plain_text v)"

lemma getlines_flat_text:
  "\<forall>p \<in> set kvs. plain_pair p \<Longrightarrow> getlines CHR 0x0A (flat_text kvs) = map (\<lambda>(k, v). k @ '': '' @ v) kvs"
proof (induction kvs)
  case (Cons p kvs)
  obtain k v where p: "p = (k, v)" by (cases p)
  with Cons.prems have "CHR 0x0A \<notin> set (k @ '': '' @ v)" by (simp add: plain_pair_def plain_text_def)
  from getlines_append [OF this, of "flat_text kvs"] Cons p show ?case by (simp add: flat_text_def)
qed (simp add: flat_text_def)

lemma flat_line_plain:
  assumes "plain_pair (k, v)"
  shows "flat_line env (k @ '': '' @ v) m = m(k \<mapsto> ExpandEnvironmentVariables env v)"
proof -
  have k: "k \<noteq> []" "\<not> isspace (hd k)" "\<not> isspace (last k)" "CHR ''#'' \<notin> set k" "CHR '':'' \<notin> set k"
    and v: "v \<noteq> []" "\<not> isspace (hd v)" "\<not> isspace (last v)" "CHR ''#'' \<notin> set v"
    using assms by (simp_all add: plain_pair_def plain_text_def)
  have "find_char CHR ''#'' (k @ '': '' @ v) = None" using k v by (simp add: find_char_None)
  moreover have "Trim (k @ '': '' @ v) = k @ '': '' @ v" using k v by (simp add: Trim_id)
  moreover have "find_char CHR '':'' (k @ '': '' @ v) = Some (length k)"
    using k(5) by (simp add: find_char_append find_char_None [THEN iffD2])
  moreover have "Trim ('' '' @ v) = v"
    using v Trim_id [of v] by (simp add: Trim_def isspace_def byte_of_def)
  ultimately show ?thesis using k by (simp add: flat_line_def Trim_id)
qed

lemma flat_values:
  "\<forall>p \<in> set kvs. plain_pair p \<Longrightarrow>
   fold (flat_line env) (map (\<lambda>(k, v). k @ '': '' @ v) kvs) m =
   fold (\<lambda>(k, v) m. m(k \<mapsto> ExpandEnvironmentVariables env v)) kvs m"
  by (induction kvs arbitrary: m) (auto simp: flat_line_plain simp del: append_Cons)

definition scalar_tree :: "(string \<times> string) list \<Rightarrow> yaml" where
  "scalar_tree kvs = YMap (map (\<lambda>(k, v). (k, YScalar v)) kvs)"

lemma scalar_members_tree:
  "scalar_members (ExpandEnvVarsInNode env (scalar_tree kvs)) =
   fold (\<lambda>(k, v) m. m(k \<mapsto> ExpandEnvironmentVariables env v)) kvs Map.empty"
proof -
  have "fold (\<lambda>(k, v) m. case v of YScalar t \<Rightarrow> m(k \<mapsto> t) | _ \<Rightarrow> m)
      (map ((\<lambda>(k, v). (k, ExpandEnvVarsInNode env v)) \<circ> (\<lambda>(k, v). (k, YScalar v))) kvs) m =
    fold (\<lambda>(k, v) m. m(k \<mapsto> ExpandEnvironmentVariables env v)) kvs m" for m
    by (induction kvs arbitrary: m) auto
  then show ?thesis by (simp add: scalar_tree_def)
qed

lemma fold_updates_restrict:
  "fst ` set kvs \<inter> K = {} \<Longrightarrow> m |` (- K) = m \<Longrightarrow>
   fold (\<lambda>(k, v) m. m(k \<mapsto> f v)) kvs m |` (- K) = fold (\<lambda>(k, v) m. m(k \<mapsto> f v)) kvs m"
proof (induction kvs arbitrary: m)
  case (Cons p kvs)
  then show ?case by (cases p) (simp add: restrict_map_def fun_eq_iff)
qed simp

lemma child_scalar_tree:
  "child (ExpandEnvVarsInNode env (scalar_tree kvs)) k = None \<longleftrightarrow> k \<notin> fst ` set kvs"
  by (induction kvs) (auto simp: scalar_tree_def)


text \<open>A library that reads one file.\<close>

definition sample_pairs :: "(string \<times> string) list" where
  "sample_pairs = [(''server.port'', ''9090''), (''cluster.slot_count'', ''0'')]"

definition fixed_yaml :: "yaml \<Rightarrow> yaml_api" where
  "fixed_yaml root = \<lparr>yl_load = (\<lambda>_. Inr root), yl_index = (\<lambda>_ _. Inr None),
     yl_unsigned = (\<lambda>_. Inr 0), yl_size = (\<lambda>_. Inr 0), yl_int = (\<lambda>_. Inr 0)\<rparr>"

lemma sample_pairs_plain: "\<forall>p \<in> set sample_pairs. plain_pair p"
  by (simp add: sample_pairs_def plain_pair_def plain_text_def isspace_def byte_of_def)


subsection \<open>Bounds\<close>

text \<open>What every format guarantees, and what the dotted formats guarantee.\<close>

definition usable_config :: "ServerConfig \<Rightarrow> bool" where
  "usable_config cfg \<longleftrightarrow> 1 \<le> cfg_kv_batch_max_records cfg \<and> cfg_node_weight cfg \<noteq> 0"

definition flat_minimums :: "ServerConfig \<Rightarrow> bool" where
  "flat_minimums cfg \<longleftrightarrow> usable_config cfg \<and> 1 \<le> cfg_cluster_slot_count cfg \<and>
     1 \<le> cfg_rocksdb_max_background_jobs cfg \<and> 1 \<le> cfg_rocksdb_write_buffer_size_mb cfg \<and>
     2 \<le> cfg_rocksdb_max_write_buffer_number cfg \<and> 1 \<le> cfg_rocksdb_target_file_size_mb cfg"

definition entry_keeps :: "(ServerConfig \<Rightarrow> bool) \<Rightarrow> entry \<Rightarrow> bool" where
  "entry_keeps P e \<longleftrightarrow> (\<forall>v cfg cfg'. P cfg \<longrightarrow> snd e v cfg = Ret cfg' \<longrightarrow> P cfg')"

lemma entry_keeps_intros:
  "(\<And>v cfg. P cfg \<Longrightarrow> P (put_text v cfg)) \<Longrightarrow> entry_keeps P (text_entry key put_text)"
  "(\<And>b cfg. P cfg \<Longrightarrow> P (put_flag b cfg)) \<Longrightarrow> entry_keeps P (flag_entry key put_flag)"
  "(\<And>n cfg. P cfg \<Longrightarrow> P (put_number n cfg)) \<Longrightarrow> entry_keeps P (number_entry key parse put_number)"
  by (auto simp: entry_keeps_def entry_keys outcome_bind_Ret_iff)

lemma run_entries_keeps:
  "list_all (entry_keeps P) es \<Longrightarrow> run_entries es values cfg = Ret cfg' \<Longrightarrow> P cfg \<Longrightarrow> P cfg'"
proof (induction es arbitrary: cfg)
  case (Cons e es)
  obtain key f where e: "e = (key, f)" by (cases e)
  show ?case
  proof (cases "values key")
    case None
    with Cons e show ?thesis by simp
  next
    case (Some v)
    with Cons.prems(2) e obtain mid where "f v cfg = Ret mid" "run_entries es values mid = Ret cfg'"
      by (auto simp: outcome_bind_Ret_iff)
    moreover from this Cons.prems e have "P mid" by (auto simp: entry_keeps_def)
    ultimately show ?thesis using Cons by auto
  qed
qed simp

lemma legacy_entries_keep: "list_all (entry_keeps flat_minimums) legacy_entries"
  unfolding legacy_entries_def legacy_server_entries_def legacy_ai_entries_def legacy_storage_entries_def
    legacy_search_entries_def legacy_cluster_entries_def legacy_logging_entries_def list_all_append list.pred_inject
  by (intro conjI list.pred_inject(1); rule entry_keeps_intros; simp add: flat_minimums_def usable_config_def Let_def)

lemma run_yaml_entries_keeps:
  assumes "run_entries yaml_entries values cfg = Ret cfg'" and "flat_minimums cfg"
  shows "flat_minimums cfg'"
  using run_entries_keeps [OF legacy_entries_keep] assms unfolding yaml_entries_are_legacy_entries by blast

definition setting_keeps :: "(ServerConfig \<Rightarrow> bool) \<Rightarrow> setting \<Rightarrow> bool" where
  "setting_keeps P f \<longleftrightarrow> (\<forall>yl node cfg cfg'. P cfg \<longrightarrow> f yl node cfg = Inr cfg' \<longrightarrow> P cfg')"

lemma map_sum_Inr_iff: "map_sum f g x = Inr y \<longleftrightarrow> (\<exists>z. x = Inr z \<and> y = g z)"
  by (cases x) auto

lemma setting_keeps_intros:
  "(\<And>v cfg. P cfg \<Longrightarrow> P (put_text v cfg)) \<Longrightarrow> setting_keeps P (text_setting key get_text put_text)"
  "(\<And>v cfg. P cfg \<Longrightarrow> P (put_flag v cfg)) \<Longrightarrow> setting_keeps P (flag_setting key get_flag put_flag)"
  "(\<And>v cfg. P cfg \<Longrightarrow> P (put_size v cfg)) \<Longrightarrow> setting_keeps P (size_setting key get_size put_size)"
  "(\<And>v cfg. P cfg \<Longrightarrow> P (put_number v cfg)) \<Longrightarrow> setting_keeps P (given_setting key conv put_number)"
  by (auto simp: setting_keeps_def text_setting_def flag_setting_def size_setting_def given_setting_def
      map_sum_Inr_iff split: sum.splits option.splits)

lemma run_settings_keeps:
  "list_all (setting_keeps P) fs \<Longrightarrow> run_settings fs yl node cfg = Inr cfg' \<Longrightarrow> P cfg \<Longrightarrow> P cfg'"
proof (induction fs arbitrary: cfg)
  case (Cons f fs)
  from Cons.prems(2) obtain mid where "f yl node cfg = Inr mid" "run_settings fs yl node mid = Inr cfg'"
    by (auto split: sum.splits)
  moreover from this Cons.prems have "P mid" unfolding setting_keeps_def list.pred_inject by blast
  ultimately show ?case using Cons by auto
qed simp

lemma run_sections_keeps:
  "list_all (\<lambda>(_, fs). list_all (setting_keeps P) fs) secs \<Longrightarrow> run_sections secs yl root cfg = Inr cfg' \<Longrightarrow>
   P cfg \<Longrightarrow> P cfg'"
proof (induction secs arbitrary: cfg)
  case (Cons sec secs)
  obtain name fs where sec: "sec = (name, fs)" by (cases sec)
  from Cons.prems(2) sec obtain mid where "run_sections secs yl root mid = Inr cfg'"
      "mid = cfg \<or> (\<exists>node. run_settings fs yl node cfg = Inr mid)"
    by (auto split: sum.splits option.splits)
  moreover from this Cons.prems sec have "P mid" using run_settings_keeps by auto
  ultimately show ?case using Cons by auto
qed simp

lemma nested_settings_keep:
  "list_all (setting_keeps usable_config) server_settings" "list_all (setting_keeps usable_config) gateway_settings"
  "list_all (setting_keeps usable_config) ai_settings" "list_all (setting_keeps usable_config) search_settings"
  "list_all (setting_keeps usable_config) storage_settings" "list_all (setting_keeps usable_config) cluster_settings"
  "list_all (setting_keeps usable_config) security_settings" "list_all (setting_keeps usable_config) logging_settings"
  unfolding server_settings_def gateway_settings_def ai_settings_def search_settings_def storage_settings_def
    cluster_settings_def security_settings_def logging_settings_def list.pred_inject
  by ((intro conjI list.pred_inject(1); rule setting_keeps_intros; simp add: usable_config_def Let_def)+)

lemma default_config_minimums [simp]: "flat_minimums default_config" "usable_config default_config"
  by (simp_all add: flat_minimums_def usable_config_def default_config_def)

text \<open>A number of the dotted format is bounded from below; a number of a section is taken as it is.\<close>

definition nested_sample :: yaml where
  "nested_sample = YMap [(''cluster'', YMap [(''slot_count'', YScalar ''0'')])]"

lemma nested_slot_count_is_not_bounded:
  "\<exists>cfg. LoadFromFile (Some (fixed_yaml nested_sample)) Map.empty (write_file ''c'' [] empty_fs) ''c'' = Ret (Inr cfg) \<and>
     cfg_cluster_slot_count cfg = 0"
  by (simp add: LoadFromFile_def load_yaml_def ReadWholeFile_def fixed_yaml_def nested_sample_def IsNestedFormat_def
      known_sections_def LoadNestedConfig_def cluster_settings_def text_setting_def flag_setting_def size_setting_def
      given_setting_def ReadSize_def)

text \<open>
  C36: every configuration that is loaded allows batches of one record and has a weight that is
  not zero; from a dotted file the slot count and the RocksDB numbers are bounded from below too.
\<close>

theorem loaded_configuration_respects_minimums:
  assumes "LoadFromFile yl env s path = Ret (Inr cfg)"
  shows "usable_config cfg \<and> (flat_minimums cfg \<or> (\<exists>api bytes root. yl = Some api \<and>
    ReadWholeFile [] s path = Inr bytes \<and> yl_load api bytes = Inr root \<and>
    IsNestedFormat (ExpandEnvVarsInNode env root)))"
proof -
  obtain bytes where bytes: "ReadWholeFile [] s path = Inr bytes"
    using assms by (auto simp: LoadFromFile_def split: sum.splits)
  show ?thesis
  proof (cases yl)
    case None
    with assms bytes have "\<exists>m. run_entries legacy_entries m default_config = Ret cfg"
      by (auto simp: LoadFromFile_def LoadFlatConfig_def outcome_bind_Ret_iff)
    then have "flat_minimums cfg" using run_entries_keeps [OF legacy_entries_keep] default_config_minimums by blast
    then show ?thesis by (simp add: flat_minimums_def)
  next
    case (Some api)
    with assms bytes obtain root where root: "yl_load api bytes = Inr root"
      by (auto simp: LoadFromFile_def load_yaml_def Let_def split: sum.splits)
    with assms bytes Some have load: "load_yaml api env path bytes = Ret (Inr cfg)" by (simp add: LoadFromFile_def)
    show ?thesis
    proof (cases "IsNestedFormat (ExpandEnvVarsInNode env root)")
      case True
      with load root have "LoadNestedConfig api (ExpandEnvVarsInNode env root) = Inr cfg"
        by (auto simp: load_yaml_def Let_def split: if_splits sum.splits)
      then have "usable_config cfg"
        unfolding LoadNestedConfig_def by (rule run_sections_keeps [rotated]) (simp_all add: nested_settings_keep)
      with True root bytes Some show ?thesis by blast
    next
      case False
      with load root have "\<exists>m. run_entries yaml_entries m default_config = Ret cfg"
        by (auto simp: load_yaml_def Let_def outcome_bind_Ret_iff split: if_splits)
      then have "flat_minimums cfg" using run_yaml_entries_keeps default_config_minimums by blast
      then show ?thesis by (simp add: flat_minimums_def)
    qed
  qed
qed

theorem loaded_configuration_respects_minimums_witness:
  "\<exists>cfg. LoadFromFile None Map.empty (write_file ''c'' [] empty_fs) ''c'' = Ret (Inr cfg) \<and> usable_config cfg \<and> flat_minimums cfg"
proof -
  have "LoadFromFile None Map.empty (write_file ''c'' [] empty_fs) ''c'' =
      outcome_bind (run_entries legacy_entries Map.empty default_config) (\<lambda>cfg. Ret (Inr cfg))"
    by (simp add: LoadFromFile_def LoadFlatConfig_def ReadWholeFile_def)
  moreover have "run_entries es Map.empty cfg = Ret cfg" for es cfg by (induction es) auto
  ultimately have load: "LoadFromFile None Map.empty (write_file ''c'' [] empty_fs) ''c'' = Ret (Inr default_config)" by simp
  from loaded_configuration_respects_minimums [OF this] load show ?thesis by simp
qed

end
