(* ===== verification/Search_Service.thy ===== *)
theory Search_Service
  imports Server_Config Store_Interfaces Outbox
begin

text \<open>
  \<open>src/gateway/service_types.h\<close>, \<open>semantic_search_service.h\<close> and
  \<open>semantic_search_service.cpp\<close>, with the counters of \<open>src/infra/metrics.cpp\<close>: a query is
  embedded by the thread pool and looked up in the vector index; when the embedding is late,
  throws or fails, the documents of the collection are ranked by the words of the query. How
  the embedding task ends is the parameter \<open>task_end\<close>. The scores of the ranking are sums of
  5.0, 3.0 and 1.0, which double precision represents exactly, so they are natural numbers
  here, written as doubles by the field \<open>se_double\<close>.
\<close>

subsection \<open>Types of the service\<close>

record search_query =
  sq_trace_id :: string
  sq_collection :: string
  sq_query :: string
  sq_image_reference :: string
  sq_top_k :: nat
  sq_filters :: "SearchFilter list"

record hit =
  hit_key :: string
  hit_title :: string
  hit_snippet :: string
  hit_score :: float64
  hit_metadata :: "(string, string) omap"

record search_result =
  sr_trace_id :: string
  sr_hits :: "hit list"
  sr_degraded :: bool
  sr_message :: string

record health_report =
  hr_trace_id :: string
  hr_status :: string
  hr_version :: string
  hr_warnings :: "string list"
  hr_details :: "(string, string) omap"

text \<open>The counters of \<open>MetricsRegistry\<close>.\<close>

record metrics =
  mt_search_requests :: "64 word"
  mt_search_failures :: "64 word"
  mt_degraded_searches :: "64 word"
  mt_http_requests :: "64 word"
  mt_total_search_latency_us :: "64 word"

definition new_metrics :: metrics where
  "new_metrics = \<lparr>mt_search_requests = 0, mt_search_failures = 0, mt_degraded_searches = 0,
     mt_http_requests = 0, mt_total_search_latency_us = 0\<rparr>"

definition IncrementSearchRequests :: "metrics \<Rightarrow> metrics" where
  "IncrementSearchRequests m = m\<lparr>mt_search_requests := mt_search_requests m + 1\<rparr>"

definition IncrementSearchFailures :: "metrics \<Rightarrow> metrics" where
  "IncrementSearchFailures m = m\<lparr>mt_search_failures := mt_search_failures m + 1\<rparr>"

definition IncrementDegradedSearches :: "metrics \<Rightarrow> metrics" where
  "IncrementDegradedSearches m = m\<lparr>mt_degraded_searches := mt_degraded_searches m + 1\<rparr>"

definition IncrementHttpRequests :: "metrics \<Rightarrow> metrics" where
  "IncrementHttpRequests m = m\<lparr>mt_http_requests := mt_http_requests m + 1\<rparr>"

definition ObserveSearchLatency :: "64 word \<Rightarrow> metrics \<Rightarrow> metrics" where
  "ObserveSearchLatency us m = m\<lparr>mt_total_search_latency_us := mt_total_search_latency_us m + us\<rparr>"

text \<open>
  \<open>RenderPrometheus\<close>: the readings of the host and the printed averages are parameters, the
  order and the names of the lines are those of the code.
\<close>

record metrics_env =
  me_average :: "64 word \<Rightarrow> 64 word \<Rightarrow> string"
  me_uptime_seconds :: string
  me_cpu :: string
  me_disk :: string

definition metric_lines :: "string \<Rightarrow> string \<Rightarrow> string \<Rightarrow> string \<Rightarrow> string" where
  "metric_lines name help kind v =
     ''# HELP '' @ name @ '' '' @ help @ [CHR 0x0A] @ ''# TYPE '' @ name @ '' '' @ kind @ [CHR 0x0A] @
     name @ '' '' @ v @ [CHR 0x0A]"

definition RenderPrometheus :: "metrics_env \<Rightarrow> metrics \<Rightarrow> string" where
  "RenderPrometheus env m =
     metric_lines ''kvai_search_requests_total'' ''Total semantic search requests'' ''counter''
       (word_text (mt_search_requests m)) @
     metric_lines ''kvai_search_failures_total'' ''Total failed semantic search requests'' ''counter''
       (word_text (mt_search_failures m)) @
     metric_lines ''kvai_search_degraded_total'' ''Total degraded semantic search requests'' ''counter''
       (word_text (mt_degraded_searches m)) @
     metric_lines ''kvai_http_requests_total'' ''Total HTTP requests'' ''counter''
       (word_text (mt_http_requests m)) @
     metric_lines ''kvai_search_latency_average_us'' ''Average semantic search latency in microseconds'' ''gauge''
       (me_average env (mt_total_search_latency_us m) (mt_search_requests m)) @
     metric_lines ''kvai_uptime_seconds'' ''Process uptime in seconds'' ''gauge'' (me_uptime_seconds env) @
     metric_lines ''kvai_cpu_utilization_ratio''
       ''Approximate host CPU utilization ratio from load average'' ''gauge'' (me_cpu env) @
     metric_lines ''kvai_disk_utilization_ratio''
       ''Current working directory filesystem utilization ratio'' ''gauge'' (me_disk env)"

subsection \<open>The ranking by words\<close>

text \<open>
  How the future of the embedding task ends: in time, after the timeout, or with an exception
  (also that of a pool which refused the task).
\<close>

datatype task_end =
    In_Time
  | Too_Late
  | Task_Threw string

record search_env =
  se_task :: "search_query \<Rightarrow> task_end"
  se_double :: "nat \<Rightarrow> float64"

fun tokens_from :: "string \<Rightarrow> string \<Rightarrow> string list \<Rightarrow> string list" where
  "tokens_from [] current tokens = (if current \<noteq> [] then tokens @ [current] else tokens)"
| "tokens_from (ch # s) current tokens =
     (if isalnum ch then tokens_from s (current @ [ch]) tokens
      else tokens_from s [] (if current \<noteq> [] then tokens @ [current] else tokens))"

definition Tokenize :: "string \<Rightarrow> string list" where
  "Tokenize value = tokens_from (ToLower value) [] []"

fun MatchesGatewayFilters :: "DocumentRecord \<Rightarrow> SearchFilter list \<Rightarrow> bool" where
  "MatchesGatewayFilters r [] = True"
| "MatchesGatewayFilters r (f # fs) =
     (case map_of (doc_metadata r) (filter_field f) of
        None \<Rightarrow> False
      | Some v \<Rightarrow> if v \<noteq> filter_value f then False else MatchesGatewayFilters r fs)"

fun token_scores :: "string \<Rightarrow> string \<Rightarrow> string list \<Rightarrow> nat \<Rightarrow> nat" where
  "token_scores title body [] score = score"
| "token_scores title body (token # ts) score =
     (if token = [] then token_scores title body ts score
      else token_scores title body ts
        (score + (if contains title token then 3 else 0) + (if contains body token then 1 else 0)))"

definition keyword_score :: "string \<Rightarrow> DocumentRecord \<Rightarrow> nat" where
  "keyword_score query r =
     (let title = ToLower (doc_title r); body = ToLower (doc_body r);
          score = (if contains (title @ '' '' @ body) (ToLower query) then 5 else 0)
      in token_scores title body (Tokenize query) score)"

definition BuildSnippet :: "string \<Rightarrow> string \<Rightarrow> string" where
  "BuildSnippet body query =
     (if body = [] then []
      else case find_str (ToLower query) (ToLower body) of
             None \<Rightarrow> take 120 body
           | Some position \<Rightarrow>
               let begin_pos = (if position > 40 then position - 40 else 0)
               in take 120 (drop begin_pos body))"

definition make_hit :: "search_query \<Rightarrow> DocumentRecord \<Rightarrow> float64 \<Rightarrow> hit" where
  "make_hit q r score =
     \<lparr>hit_key = doc_key r, hit_title = doc_title r, hit_snippet = BuildSnippet (doc_body r) (sq_query q),
      hit_score = score, hit_metadata = doc_metadata r\<rparr>"

definition effective_collection :: "ServerConfig \<Rightarrow> string \<Rightarrow> string" where
  "effective_collection cfg c = (if c = [] then cfg_default_collection cfg else c)"

definition effective_top_k :: "ServerConfig \<Rightarrow> search_query \<Rightarrow> nat" where
  "effective_top_k cfg q = min (max 1 (sq_top_k q)) (cfg_max_top_k cfg)"

text \<open>Higher scores first, equal scores by key; \<open>std::stable_sort\<close>.\<close>

definition rank_before :: "nat \<times> DocumentRecord \<Rightarrow> nat \<times> DocumentRecord \<Rightarrow> bool" where
  "rank_before lhs rhs =
     (if fst lhs = fst rhs then doc_key (snd lhs) < doc_key (snd rhs) else fst lhs > fst rhs)"

definition stable_sort :: "('a \<Rightarrow> 'a \<Rightarrow> bool) \<Rightarrow> 'a list \<Rightarrow> 'a list" where
  "stable_sort before = sort_by (\<lambda>x y. \<not> before y x)"

definition ranked_documents :: "search_query \<Rightarrow> DocumentRecord list \<Rightarrow> (nat \<times> DocumentRecord) list" where
  "ranked_documents q docs = stable_sort rank_before
     (filter (\<lambda>p. fst p > 0)
       (map (\<lambda>r. (keyword_score (sq_query q) r, r)) (filter (\<lambda>r. MatchesGatewayFilters r (sq_filters q)) docs)))"

definition KeywordFallback ::
  "search_env \<Rightarrow> ServerConfig \<Rightarrow> 'k kv_ops \<Rightarrow> 'k \<Rightarrow> search_query \<Rightarrow> string \<Rightarrow> string \<Rightarrow> search_result StatusOr" where
  "KeywordFallback env cfg kv st q trace_id reason =
     (case kv_range kv (effective_collection cfg (sq_collection q)) [] [] 1000 st of
        Inl e \<Rightarrow> Inl e
      | Inr docs \<Rightarrow> Inr
          \<lparr>sr_trace_id = trace_id,
           sr_hits = map (\<lambda>(score, r). make_hit q r (se_double env score))
             (take (effective_top_k cfg q) (ranked_documents q docs)),
           sr_degraded = True, sr_message = ''keyword fallback: '' @ reason\<rparr>)"

subsection \<open>Searching\<close>

text \<open>
  The loop over the documents that \<open>MultiGet\<close> found: the score is that of the reference at the
  same position.
\<close>

definition scored_hits :: "search_query \<Rightarrow> search_hit list \<Rightarrow> DocumentRecord list \<Rightarrow> hit list" where
  "scored_hits q refs docs =
     map (\<lambda>i. make_hit q (docs ! i) (if i < length refs then ref_score (refs ! i) else d_zero)) [0..<length docs]"

definition SemanticSearch ::
  "search_env \<Rightarrow> ServerConfig \<Rightarrow> 'k kv_ops \<Rightarrow> embedder \<Rightarrow> 'x index_ops \<Rightarrow> 'k \<Rightarrow> 'x \<Rightarrow> search_query \<Rightarrow>
     search_result StatusOr" where
  "SemanticSearch env cfg kv emb ix st x q =
     (if sq_query q = [] \<and> sq_image_reference q = []
      then Inl (InvalidArgument ''query or image_reference cannot be empty'')
      else case se_task env q of
        Too_Late \<Rightarrow>
          KeywordFallback env cfg kv st q (sq_trace_id q) ''embedding timeout triggered keyword fallback''
      | Task_Threw what \<Rightarrow>
          KeywordFallback env cfg kv st q (sq_trace_id q) (''embedding task failed: '' @ what)
      | In_Time \<Rightarrow>
          (case (if sq_image_reference q \<noteq> [] then embed_image emb (sq_image_reference q)
                 else embed_text emb (sq_query q)) of
             Inl e \<Rightarrow> if sq_query q = [] then Inl e
                      else KeywordFallback env cfg kv st q (sq_trace_id q) (Status_ToString e)
           | Inr embedding \<Rightarrow>
               (case ix_search ix (effective_collection cfg (sq_collection q)) (emb_values embedding)
                       (sq_filters q) (effective_top_k cfg q) x of
                  Inl e \<Rightarrow> Inl e
                | Inr refs \<Rightarrow>
                    (case kv_multi_get kv refs st of
                       Inl e \<Rightarrow> Inl e
                     | Inr docs \<Rightarrow> Inr
                         \<lparr>sr_trace_id = sq_trace_id q, sr_hits = scored_hits q refs docs,
                          sr_degraded = emb_degraded embedding,
                          sr_message = ''semantic search completed''\<rparr>))))"

subsection \<open>Health\<close>

text \<open>\<open>report.details.emplace\<close>: the first value of a name stays.\<close>

definition add_details :: "(string \<times> string) list \<Rightarrow> health_report \<Rightarrow> health_report" where
  "add_details kvs r = r\<lparr>hr_details := fold (\<lambda>(k, v). omap_emplace k v) kvs (hr_details r)\<rparr>"

definition add_warning :: "bool \<Rightarrow> string \<Rightarrow> health_report \<Rightarrow> health_report" where
  "add_warning b w r = (if b then r\<lparr>hr_warnings := hr_warnings r @ [w]\<rparr> else r)"

definition ServiceHealthCheck :: "ServerConfig \<Rightarrow> metrics \<Rightarrow> string \<Rightarrow> health_report" where
  "ServiceHealthCheck cfg m trace_id =
     (let report = add_details
            [(''ai_backend'', cfg_ai_backend cfg),
             (''storage_backend'', cfg_storage_backend cfg),
             (''search_backend'', cfg_search_backend cfg),
             (''search_requests_total'', word_text (mt_search_requests m)),
             (''search_failures_total'', word_text (mt_search_failures m)),
             (''degraded_search_total'', word_text (mt_degraded_searches m)),
             (''http_requests_total'', word_text (mt_http_requests m))]
            \<lparr>hr_trace_id = trace_id, hr_status = ''SERVING'', hr_version = ''0.1.0'', hr_warnings = [],
             hr_details = []\<rparr>
      in add_warning (cfg_storage_backend cfg = ''wal'')
           ''local WAL store enabled; configure RocksDB adapter before production rollout''
        (add_warning (cfg_search_backend cfg = ''brute_force'')
           ''brute-force vector index enabled; configure FAISS adapter before production rollout''
        (add_warning (cfg_ai_backend cfg = ''deterministic'')
           ''deterministic embedding fallback enabled; configure ONNX adapter before production rollout''
           report)))"

subsection \<open>Ranking\<close>

lemma sorted_insert_stable:
  assumes "weak_order_on before (insert x (set ys))" and "sorted_wrt (\<lambda>x y. \<not> before y x) ys"
  shows "sorted_wrt (\<lambda>x y. \<not> before y x) (insert_by (\<lambda>x y. \<not> before y x) x ys)"
  using assms
proof (induction ys)
  case (Cons y ys)
  have w: "weak_order_on before (insert x (set ys))" using Cons.prems(1) by (simp add: weak_order_on_def)
  show ?case
  proof (cases "before y x")
    case True
    then have "\<not> before x y" using Cons.prems(1) by (auto simp: weak_order_on_def)
    with True Cons.IH [OF w] Cons.prems(2) show ?thesis by (auto simp: set_insert_by)
  next
    case False
    have "\<not> before z x" if "z \<in> set ys" for z
    proof
      assume "before z x"
      moreover have "\<not> before z y" using Cons.prems(2) that by simp
      ultimately show False using Cons.prems(1) False that unfolding weak_order_on_def by (metis insertCI list.set_intros)
    qed
    with False Cons.prems(2) show ?thesis by simp
  qed
qed simp

lemma sorted_stable_sort:
  "weak_order_on before (set xs) \<Longrightarrow> sorted_wrt (\<lambda>x y. \<not> before y x) (stable_sort before xs)"
proof (induction xs)
  case (Cons x xs)
  then have "weak_order_on before (set xs)" by (simp add: weak_order_on_def)
  with Cons show ?case by (simp add: stable_sort_def sorted_insert_stable set_sort_by)
qed (simp add: stable_sort_def)

lemma mset_stable_sort [simp]: "mset (stable_sort before xs) = mset xs"
  by (simp add: stable_sort_def)

lemma rank_before_weak_order: "weak_order_on rank_before S"
  by (auto simp: weak_order_on_def rank_before_def split: if_splits)

text \<open>The documents among which the fallback chooses.\<close>

definition candidates :: "search_query \<Rightarrow> DocumentRecord list \<Rightarrow> DocumentRecord list" where
  "candidates q docs = filter (\<lambda>r. passes (sq_filters q) r \<and> keyword_score (sq_query q) r > 0) docs"

lemma MatchesGatewayFilters_passes: "MatchesGatewayFilters r filters \<longleftrightarrow> passes filters r"
  by (induction filters) (auto simp: passes_def split: option.split)

lemma ranked_candidates: "mset (map snd (ranked_documents q docs)) = mset (candidates q docs)"
proof -
  have "map snd (filter (\<lambda>p. fst p > 0) (map (\<lambda>r. (keyword_score (sq_query q) r, r)) rs)) =
      filter (\<lambda>r. keyword_score (sq_query q) r > 0) rs" for rs
    by (induction rs) auto
  then have "mset (map snd (ranked_documents q docs)) =
      mset (filter (\<lambda>r. keyword_score (sq_query q) r > 0) (filter (\<lambda>r. MatchesGatewayFilters r (sq_filters q)) docs))"
    unfolding ranked_documents_def mset_map mset_stable_sort unfolding mset_map [symmetric] by (simp only:)
  then show ?thesis by (simp add: candidates_def MatchesGatewayFilters_passes conj_commute)
qed

lemma ranked_scores: "p \<in> set (ranked_documents q docs) \<Longrightarrow> fst p = keyword_score (sq_query q) (snd p)"
proof -
  assume "p \<in> set (ranked_documents q docs)"
  then have "p \<in> set_mset (mset (ranked_documents q docs))" by simp
  then show ?thesis by (auto simp: ranked_documents_def)
qed

text \<open>One document before another in the answer: more matches, or as many and a smaller key.\<close>

definition outranks :: "search_query \<Rightarrow> DocumentRecord \<Rightarrow> DocumentRecord \<Rightarrow> bool" where
  "outranks q r r' \<longleftrightarrow> rank_before (keyword_score (sq_query q) r, r) (keyword_score (sq_query q) r', r')"


text \<open>Two documents, of which the second matches the query twice.\<close>

definition sample_env :: search_env where
  "sample_env = \<lparr>se_task = (\<lambda>_. Too_Late), se_double = word_of_nat\<rparr>"

definition sample_query :: search_query where
  "sample_query = \<lparr>sq_trace_id = ''t'', sq_collection = ''c'', sq_query = ''cat'', sq_image_reference = [],
     sq_top_k = 1, sq_filters = []\<rparr>"

definition sample_texts :: "DocumentRecord list" where
  "sample_texts = [empty_document\<lparr>doc_collection := ''c'', doc_key := ''a'', doc_body := ''A dog''\<rparr>,
     empty_document\<lparr>doc_collection := ''c'', doc_key := ''b'', doc_title := ''Cat'', doc_body := ''A cat''\<rparr>]"

definition sample_store :: wal_store where
  "sample_store = (new_wal_store ''w'' ''s'')\<lparr>records := map (\<lambda>r. (document_key r, r)) sample_texts\<rparr>"

lemma sample_range: "Wal_Range ''c'' [] [] 1000 sample_store = Inr sample_texts"
  by code_simp

lemma sample_candidates: "candidates sample_query sample_texts = tl sample_texts"
  by code_simp


subsection \<open>Scores\<close>

definition found :: "wal_store \<Rightarrow> search_hit \<Rightarrow> DocumentRecord option" where
  "found st ref = map_of (records st) (BuildCompositeKey (ref_collection ref) (ref_key ref))"

lemma multi_get_found:
  "\<forall>ref \<in> set refs. found st ref \<noteq> None \<Longrightarrow> multi_get_loop (records st) refs = map (the \<circ> found st) refs"
  by (induction refs) (auto simp: found_def)

definition query_embedding :: "embedder \<Rightarrow> search_query \<Rightarrow> Embedding StatusOr" where
  "query_embedding emb q =
     (if sq_image_reference q \<noteq> [] then embed_image emb (sq_image_reference q) else embed_text emb (sq_query q))"

text \<open>A query that is embedded in time and looked up with the result \<open>refs\<close>.\<close>

definition looked_up ::
  "search_env \<Rightarrow> ServerConfig \<Rightarrow> embedder \<Rightarrow> 'x index_ops \<Rightarrow> 'x \<Rightarrow> search_query \<Rightarrow> search_hit list \<Rightarrow> bool" where
  "looked_up env cfg emb ix x q refs \<longleftrightarrow>
     (sq_query q \<noteq> [] \<or> sq_image_reference q \<noteq> []) \<and> se_task env q = In_Time \<and>
     (\<exists>e. query_embedding emb q = Inr e \<and>
       ix_search ix (effective_collection cfg (sq_collection q)) (emb_values e) (sq_filters q) (effective_top_k cfg q) x =
         Inr refs)"

lemma looked_up_answer:
  assumes "looked_up env cfg emb ix x q refs"
  shows "\<exists>answer. SemanticSearch env cfg (wal_ops pb) emb ix st x q = Inr answer \<and>
    sr_hits answer = scored_hits q refs (multi_get_loop (records st) refs)"
  using assms by (auto simp: looked_up_def query_embedding_def SemanticSearch_def Wal_MultiGet_def)

text \<open>
  When every document that the index refers to is in the store, the hits are these
  documents in the order of the index, each with its own score.
\<close>

lemma hits_carry_their_own_scores:
  assumes "looked_up env cfg emb ix x q refs" and "\<forall>ref \<in> set refs. found st ref \<noteq> None"
  shows "\<exists>answer. SemanticSearch env cfg (wal_ops pb) emb ix st x q = Inr answer \<and>
    sr_hits answer = map (\<lambda>ref. make_hit q (the (found st ref)) (ref_score ref)) refs"
proof -
  have "scored_hits q refs (map (the \<circ> found st) refs) = map (\<lambda>ref. make_hit q (the (found st ref)) (ref_score ref)) refs"
    by (rule nth_equalityI) (simp_all add: scored_hits_def)
  then show ?thesis using looked_up_answer [OF assms(1), of pb st] multi_get_found [OF assms(2)] by metis
qed

text \<open>
  When the index still refers to a document that the store no longer has, every document
  behind it is returned with the score of the document before it.
\<close>

lemma missing_document_shifts_the_scores:
  assumes "looked_up env cfg emb ix x q (stale # refs)" and "found st stale = None"
    and "\<forall>ref \<in> set refs. found st ref \<noteq> None"
  shows "\<exists>answer. SemanticSearch env cfg (wal_ops pb) emb ix st x q = Inr answer \<and>
    length (sr_hits answer) = length refs \<and>
    (\<forall>i < length refs. sr_hits answer ! i =
       make_hit q (the (found st (refs ! i))) (ref_score ((stale # refs) ! i)))"
proof -
  have docs: "multi_get_loop (records st) (stale # refs) = map (the \<circ> found st) refs"
    using assms(2) multi_get_found [OF assms(3)] by (simp add: found_def)
  obtain answer where run: "SemanticSearch env cfg (wal_ops pb) emb ix st x q = Inr answer"
    and hits: "sr_hits answer = scored_hits q (stale # refs) (map (the \<circ> found st) refs)"
    using looked_up_answer [OF assms(1), of pb st] unfolding docs by blast
  have "length (sr_hits answer) = length refs" by (simp add: hits scored_hits_def)
  moreover have "\<forall>i < length refs. sr_hits answer ! i = make_hit q (the (found st (refs ! i))) (ref_score ((stale # refs) ! i))"
    by (simp add: hits scored_hits_def del: upt_Suc)
  ultimately show ?thesis using run by blast
qed

text \<open>The index of two entries over a store with both documents, and with the second only.\<close>

definition in_time_env :: search_env where
  "in_time_env = \<lparr>se_task = (\<lambda>_. In_Time), se_double = word_of_nat\<rparr>"

definition indexed_store :: wal_store where
  "indexed_store = (new_wal_store ''w'' ''s'')\<lparr>records :=
     map (\<lambda>(k, e). (k, ve_record e)) (entries sample_index)\<rparr>"

definition pair_query :: search_query where
  "pair_query = sample_query\<lparr>sq_top_k := 2\<rparr>"

definition hit_b :: search_hit where
  "hit_b = search_hit_of plain_fp [1] (sample_entry ''b'' 2)"

definition hit_a :: search_hit where
  "hit_a = search_hit_of plain_fp [1] (sample_entry ''a'' 1)"

lemma pair_search: "Index_Search plain_fp ''c'' [1] [] 2 sample_index = Inr [hit_b, hit_a]"
  by code_simp

lemma pair_looked_up:
  "looked_up in_time_env default_config constant_embedder (brute_ops plain_pb plain_fp) sample_index pair_query [hit_b, hit_a]"
proof -
  have "effective_top_k default_config pair_query = 2" by code_simp
  moreover have "effective_collection default_config (sq_collection pair_query) = ''c''" "sq_filters pair_query = []"
    by (simp_all add: effective_collection_def pair_query_def sample_query_def)
  ultimately have "ix_search (brute_ops plain_pb plain_fp) (effective_collection default_config (sq_collection pair_query)) [1]
      (sq_filters pair_query) (effective_top_k default_config pair_query) sample_index = Inr [hit_b, hit_a]"
    using pair_search by simp
  then show ?thesis
    by (simp add: looked_up_def in_time_env_def pair_query_def sample_query_def query_embedding_def constant_embedder_def)
qed

lemma pair_found:
  "found indexed_store hit_a = Some (ve_record (sample_entry ''a'' 1))"
  "found indexed_store hit_b = Some (ve_record (sample_entry ''b'' 2))"
  by code_simp+

lemma hits_carry_their_own_scores_witness:
  "\<exists>answer. SemanticSearch in_time_env default_config (wal_ops plain_pb) constant_embedder (brute_ops plain_pb plain_fp)
      indexed_store sample_index pair_query = Inr answer \<and>
    map hit_score (sr_hits answer) = [ref_score hit_b, ref_score hit_a]"
  using hits_carry_their_own_scores [OF pair_looked_up, of indexed_store plain_pb] pair_found
  by (auto simp: make_hit_def)

definition reduced_store :: wal_store where
  "reduced_store = indexed_store\<lparr>records := filter (\<lambda>(_, r). doc_key r = ''a'') (records indexed_store)\<rparr>"

lemma reduced_found:
  "found reduced_store hit_a = Some (ve_record (sample_entry ''a'' 1))" "found reduced_store hit_b = None"
  by code_simp+

lemma missing_document_shifts_the_scores_witness:
  "\<exists>answer. SemanticSearch in_time_env default_config (wal_ops plain_pb) constant_embedder (brute_ops plain_pb plain_fp)
      reduced_store sample_index pair_query = Inr answer \<and>
    map (\<lambda>h. (hit_key h, hit_score h)) (sr_hits answer) = [(''a'', ref_score hit_b)] \<and>
    ref_score hit_b \<noteq> ref_score hit_a"
proof -
  obtain answer where run: "SemanticSearch in_time_env default_config (wal_ops plain_pb) constant_embedder
      (brute_ops plain_pb plain_fp) reduced_store sample_index pair_query = Inr answer"
    and len: "length (sr_hits answer) = length [hit_a]"
    and nth: "\<forall>i < length [hit_a]. sr_hits answer ! i =
      make_hit pair_query (the (found reduced_store ([hit_a] ! i))) (ref_score ([hit_b, hit_a] ! i))"
    using missing_document_shifts_the_scores [OF pair_looked_up, of reduced_store plain_pb] reduced_found by auto
  then have "sr_hits answer = [make_hit pair_query (ve_record (sample_entry ''a'' 1)) (ref_score hit_b)]"
    using reduced_found by (cases "sr_hits answer") auto
  moreover have "ref_score hit_b \<noteq> ref_score hit_a" by code_simp
  ultimately show ?thesis using run by (simp add: make_hit_def sample_entry_def)
qed

end
