(* ===== verification/Etcd_Discovery.thy ===== *)
theory Etcd_Discovery
  imports Json Routing
begin

text \<open>
  \<open>src/infra/etcd_discovery.h\<close>, \<open>etcd_discovery.cpp\<close> in a build with etcd: the values under
  which nodes register, the listing that rebuilds the ring of the router, and the life of the
  discovery as steps: \<open>Start\<close>, the callbacks of the client, the rounds of the watch loop,
  \<open>Stop\<close>. The client library is the record \<open>etcd_api\<close>, given anew with every call because its
  answers change; the JSON library and the hash function are parameters too. \<open>'c\<close> is the state
  that the callback for ring changes works on.
\<close>

subsection \<open>Values of nodes\<close>

fun exception_text :: "cxx_exception \<Rightarrow> string" where
  "exception_text (invalid_argument what) = what"
| "exception_text (out_of_range what) = what"
| "exception_text (json_error what) = what"
| "exception_text (runtime_error what) = what"

definition ParseLegacyNodeValue :: "string \<Rightarrow> string \<Rightarrow> ClusterNode StatusOr" where
  "ParseLegacyNodeValue i value =
     (case rfind_char CHR '':'' value of
        None \<Rightarrow> Inl (InvalidArgument ''legacy etcd node value must be host:port'')
      | Some colon \<Rightarrow>
          (case cxx_stoul (drop (Suc colon) value) of
             Throw e \<Rightarrow> Inl (InvalidArgument (''invalid legacy etcd node port: '' @ exception_text e))
           | Ret parsed_port \<Rightarrow>
               if parsed_port = 0 \<or> parsed_port > 65535
               then Inl (InvalidArgument ''legacy etcd node port out of range'')
               else if take colon value = []
               then Inl (InvalidArgument ''legacy etcd node host cannot be empty'')
               else Inr (new_node i (take colon value) (word_of_nat parsed_port))))"

definition effective_weight :: "32 word \<Rightarrow> 32 word" where
  "effective_weight w = (if w = 0 then 100 else w)"

definition node_json :: "ClusterNode \<Rightarrow> json" where
  "node_json node = json_object
     [(''version'', JInt 1), (''id'', JString (node_id node)), (''host'', JString (node_host node)),
      (''port'', JInt (uint (node_port node))), (''healthy'', JBool (node_healthy node)),
      (''weight'', JInt (uint (effective_weight (node_weight node)))), (''zone'', JString (node_zone node))]"

definition SerializeEtcdNodeValue :: "json_api \<Rightarrow> ClusterNode \<Rightarrow> string outcome" where
  "SerializeEtcdNodeValue js node = js_dump js None (node_json node)"

definition unsigned_member :: "json \<Rightarrow> string \<Rightarrow> int option" where
  "unsigned_member j k = (case json_member j k of Some (JInt i) \<Rightarrow> if i \<ge> 0 then Some i else None | _ \<Rightarrow> None)"

definition parse_json_node :: "json_api \<Rightarrow> string \<Rightarrow> json \<Rightarrow> ClusterNode StatusOr outcome" where
  "parse_json_node js i parsed =
     outcome_bind (value_string parsed ''id'' i) (\<lambda>given.
       case string_member parsed ''host'' of
         None \<Rightarrow> Ret (Inl (InvalidArgument ''etcd node JSON value missing string host''))
       | Some host \<Rightarrow>
           (case unsigned_member parsed ''port'' of
              None \<Rightarrow> Ret (Inl (InvalidArgument ''etcd node JSON value missing numeric port''))
            | Some p \<Rightarrow>
                let parsed_port = (word_of_int p :: 32 word) in
                if host = [] \<or> parsed_port = 0 \<or> parsed_port > 65535
                then Ret (Inl (InvalidArgument ''etcd node JSON value has invalid host or port''))
                else
                  outcome_bind (value_bool parsed ''healthy'' True) (\<lambda>healthy.
                  outcome_bind (value_word js True parsed ''weight'' 100) (\<lambda>weight.
                  outcome_bind (value_string parsed ''zone'' []) (\<lambda>zone.
                    Ret (Inr \<lparr>node_id = (if given = [] then i else given), node_host = host,
                      node_port = ucast parsed_port, node_healthy = healthy,
                      node_weight = effective_weight weight, node_zone = zone\<rparr>))))))"

definition ParseEtcdNodeValue :: "json_api \<Rightarrow> string \<Rightarrow> string \<Rightarrow> ClusterNode StatusOr" where
  "ParseEtcdNodeValue js i value =
     (case dropWhile (\<lambda>c. c \<in> {CHR '' '', CHR 0x09, CHR 0x0D, CHR 0x0A}) value of
        [] \<Rightarrow> Inl (InvalidArgument ''etcd node value cannot be empty'')
      | c # _ \<Rightarrow>
          if c \<noteq> CHR ''{'' then ParseLegacyNodeValue i value
          else (case js_parse js value of
                  None \<Rightarrow> Inl (InvalidArgument ''invalid etcd node JSON value'')
                | Some parsed \<Rightarrow>
                    if \<not> is_object parsed then Inl (InvalidArgument ''invalid etcd node JSON value'')
                    else (case parse_json_node js i parsed of
                            Throw e \<Rightarrow> Inl (InvalidArgument (''invalid etcd node JSON field type: '' @ exception_text e))
                          | Ret r \<Rightarrow> r)))"

text \<open>The end of the key range that \<open>prefix\<close> begins: its last byte below 0xFF is incremented.\<close>

fun increment_back :: "string \<Rightarrow> string" where
  "increment_back [] = [CHR 0x00]"
| "increment_back (c # before) =
     (if byte_of c \<noteq> 255 then rev (char_of (byte_of c + 1) # before) else increment_back before)"

definition PrefixRangeEnd :: "string \<Rightarrow> string" where
  "PrefixRangeEnd prefix = (if prefix = [] then [CHR 0x00] else increment_back (rev prefix))"

subsection \<open>State\<close>

record discovery_status =
  ds_available :: bool
  ds_running :: bool
  ds_degraded :: bool
  ds_state :: string
  ds_last_error :: string
  ds_lease_id :: "64 word"
  ds_watch_restart_count :: "64 word"
  ds_keepalive_error_count :: "64 word"
  ds_ring_rebuild_count :: "64 word"
  ds_known_node_count :: nat
  ds_last_success_unix_ms :: "64 word"

definition new_discovery_status :: discovery_status where
  "new_discovery_status = \<lparr>ds_available = False, ds_running = False, ds_degraded = False,
     ds_state = ''unavailable'', ds_last_error = [], ds_lease_id = 0, ds_watch_restart_count = 0,
     ds_keepalive_error_count = 0, ds_ring_rebuild_count = 0, ds_known_node_count = 0,
     ds_last_success_unix_ms = 0\<rparr>"

text \<open>\<open>dc_client\<close>: whether \<open>client_state_->client\<close> exists.\<close>

record 'c discovery =
  dc_endpoints :: string
  dc_prefix :: string
  dc_local_node :: ClusterNode
  dc_lease_ttl :: "32 word"
  dc_nodes :: "ClusterNode list"
  dc_stopping :: bool
  dc_client :: bool
  dc_status :: discovery_status
  dc_callback :: "('c \<Rightarrow> 'c) option"

definition new_discovery :: "string \<Rightarrow> string \<Rightarrow> ClusterNode \<Rightarrow> 32 word \<Rightarrow> 'c discovery" where
  "new_discovery endpoints prefix node ttl = \<lparr>dc_endpoints = endpoints, dc_prefix = prefix,
     dc_local_node = node, dc_lease_ttl = ttl, dc_nodes = [], dc_stopping = False, dc_client = False,
     dc_status = new_discovery_status, dc_callback = None\<rparr>"

text \<open>The client: errors are texts on the left.\<close>

record etcd_api =
  et_connect :: "string \<Rightarrow> string option"
  et_leasegrant :: "32 word \<Rightarrow> string + 64 word"
  et_set :: "string \<Rightarrow> string \<Rightarrow> 64 word \<Rightarrow> string option"
  et_ls :: "string \<Rightarrow> string + (string \<times> string) list"
  et_now :: "64 word"

definition Discovery_RecordSuccess :: "64 word \<Rightarrow> string \<Rightarrow> 'c discovery \<Rightarrow> 'c discovery" where
  "Discovery_RecordSuccess now state d =
     (let st = dc_status d; degraded = ds_keepalive_error_count st > 0 in
      d\<lparr>dc_status := st\<lparr>ds_available := True, ds_running := True, ds_degraded := degraded, ds_state := state,
        ds_last_error := (if \<not> degraded then [] else ds_last_error st), ds_last_success_unix_ms := now\<rparr>\<rparr>)"

definition Discovery_RecordError :: "string \<Rightarrow> string \<Rightarrow> bool \<Rightarrow> 'c discovery \<Rightarrow> 'c discovery" where
  "Discovery_RecordError state what degraded d =
     d\<lparr>dc_status := (dc_status d)\<lparr>ds_available := True, ds_running := True, ds_degraded := degraded,
       ds_state := state, ds_last_error := what\<rparr>\<rparr>"

definition SetRingChangeCallback :: "('c \<Rightarrow> 'c) \<Rightarrow> 'c discovery \<Rightarrow> 'c discovery" where
  "SetRingChangeCallback callback d = d\<lparr>dc_callback := Some callback\<rparr>"

definition CurrentNodes :: "'c discovery \<Rightarrow> ClusterNode list" where
  "CurrentNodes d = dc_nodes d"

definition DiscoveryStatus :: "'c discovery \<Rightarrow> discovery_status" where
  "DiscoveryStatus d = dc_status d"

subsection \<open>Listing the nodes\<close>

definition RebuildRing ::
  "(string \<Rightarrow> 64 word) \<Rightarrow> ClusterNode list \<Rightarrow> 'c discovery \<times> router \<times> 'c \<Rightarrow> 'c discovery \<times> router \<times> 'c" where
  "RebuildRing hash nodes = (\<lambda>(d, r, c).
     let st = dc_status d in
     (d\<lparr>dc_nodes := nodes,
        dc_status := st\<lparr>ds_ring_rebuild_count := ds_ring_rebuild_count st + 1, ds_known_node_count := length nodes\<rparr>\<rparr>,
      Rebuild hash nodes r,
      (case dc_callback d of None \<Rightarrow> c | Some callback \<Rightarrow> callback c)))"

fun listed_nodes :: "json_api \<Rightarrow> string \<Rightarrow> (string \<times> string) list \<Rightarrow> ClusterNode list" where
  "listed_nodes js prefix [] = []"
| "listed_nodes js prefix ((key, value) # kvs) =
     (if \<not> starts_with prefix key then listed_nodes js prefix kvs
      else case ParseEtcdNodeValue js (drop (length prefix) key) value of
        Inl _ \<Rightarrow> listed_nodes js prefix kvs
      | Inr node \<Rightarrow> node\<lparr>node_healthy := True\<rparr> # listed_nodes js prefix kvs)"

definition ReloadNodes ::
  "etcd_api \<Rightarrow> json_api \<Rightarrow> (string \<Rightarrow> 64 word) \<Rightarrow> 'c discovery \<times> router \<times> 'c \<Rightarrow>
     Status \<times> 'c discovery \<times> router \<times> 'c" where
  "ReloadNodes et js hash = (\<lambda>(d, r, c).
     if \<not> dc_client d then (Unavailable ''etcd client is not initialized'', d, r, c)
     else case et_ls et (dc_prefix d) of
       Inl e \<Rightarrow> (Unavailable (''failed to list etcd prefix '' @ dc_prefix d @ '': '' @ e), d, r, c)
     | Inr kvs \<Rightarrow>
         (case RebuildRing hash (listed_nodes js (dc_prefix d) kvs) (d, r, c) of
            (d', r', c') \<Rightarrow> (Ok, Discovery_RecordSuccess (et_now et) ''running'' d', r', c')))"

subsection \<open>Starting and stopping\<close>

definition start_failed :: "string \<Rightarrow> 'c discovery \<times> router \<times> 'c \<Rightarrow> Status outcome \<times> 'c discovery \<times> router \<times> 'c" where
  "start_failed what = (\<lambda>(d, r, c).
     (Ret (Unavailable what), Discovery_RecordError ''unavailable'' what True d, r, c))"

definition Discovery_Start ::
  "etcd_api \<Rightarrow> json_api \<Rightarrow> (string \<Rightarrow> 64 word) \<Rightarrow> 'c discovery \<times> router \<times> 'c \<Rightarrow>
     Status outcome \<times> 'c discovery \<times> router \<times> 'c" where
  "Discovery_Start et js hash = (\<lambda>(d, r, c).
     let d0 = d\<lparr>dc_stopping := False, dc_client := False,
           dc_status := new_discovery_status\<lparr>ds_available := True, ds_state := ''starting''\<rparr>\<rparr> in
     case et_connect et (dc_endpoints d) of
       Some e \<Rightarrow> start_failed (''failed to connect to etcd: '' @ e) (d0, r, c)
     | None \<Rightarrow>
         let d1 = d0\<lparr>dc_client := True\<rparr> in
         (case et_leasegrant et (dc_lease_ttl d) of
            Inl e \<Rightarrow> start_failed (''failed to grant etcd lease: '' @ e) (d1, r, c)
          | Inr lease \<Rightarrow>
              let d2 = d1\<lparr>dc_status := (dc_status d1)\<lparr>ds_lease_id := lease\<rparr>\<rparr> in
              (case SerializeEtcdNodeValue js (dc_local_node d) of
                 Throw e \<Rightarrow> (Throw e, d2, r, c)
               | Ret value \<Rightarrow>
                   (case et_set et (dc_prefix d @ node_id (dc_local_node d)) value lease of
                      Some e \<Rightarrow> start_failed (''failed to register node in etcd: '' @ e) (d2, r, c)
                    | None \<Rightarrow>
                        (case ReloadNodes et js hash (d2, r, c) of
                           (_, d3, r', c') \<Rightarrow>
                             (Ret Ok, Discovery_RecordSuccess (et_now et) ''running'' d3, r', c'))))))"

definition Discovery_Stop :: "'c discovery \<Rightarrow> 'c discovery" where
  "Discovery_Stop d =
     (if dc_stopping d then d
      else d\<lparr>dc_stopping := True, dc_client := False,
             dc_status := (dc_status d)\<lparr>ds_running := False, ds_state := ''stopped''\<rparr>\<rparr>)"

subsection \<open>Callbacks and the watch loop\<close>

definition keepalive_failed :: "string \<Rightarrow> 'c discovery \<Rightarrow> 'c discovery" where
  "keepalive_failed what d =
     d\<lparr>dc_status := (dc_status d)\<lparr>ds_degraded := True, ds_state := ''degraded'',
       ds_last_error := ''etcd keepalive error: '' @ what,
       ds_keepalive_error_count := ds_keepalive_error_count (dc_status d) + 1\<rparr>\<rparr>"

text \<open>A response of the watcher: an error, or a change after which the nodes are listed again.\<close>

definition note_unless_stopping :: "string \<Rightarrow> 'c discovery \<Rightarrow> 'c discovery" where
  "note_unless_stopping what d = (if dc_stopping d then d else Discovery_RecordError ''degraded'' what True d)"

definition watch_response ::
  "etcd_api \<Rightarrow> json_api \<Rightarrow> (string \<Rightarrow> 64 word) \<Rightarrow> string option \<Rightarrow> 'c discovery \<times> router \<times> 'c \<Rightarrow>
     'c discovery \<times> router \<times> 'c" where
  "watch_response et js hash response = (\<lambda>(d, r, c).
     case response of
       Some e \<Rightarrow> (note_unless_stopping (''etcd watch error: '' @ e) d, r, c)
     | None \<Rightarrow>
         (case ReloadNodes et js hash (d, r, c) of
            (status, d', r', c') \<Rightarrow>
              (if ok status then d' else note_unless_stopping (Status_ToString status) d', r', c')))"

text \<open>The beginning of a round of the loop, and its end: how the watcher stopped waiting.\<close>

definition watch_begin ::
  "etcd_api \<Rightarrow> json_api \<Rightarrow> (string \<Rightarrow> 64 word) \<Rightarrow> 'c discovery \<times> router \<times> 'c \<Rightarrow> 'c discovery \<times> router \<times> 'c" where
  "watch_begin et js hash x =
     (case ReloadNodes et js hash x of
        (status, d', r', c') \<Rightarrow>
          (if ok status then d' else Discovery_RecordError ''degraded'' (Status_ToString status) True d', r', c'))"

datatype watch_end =
    Waited bool
  | Watch_Threw string

definition watch_over :: "watch_end \<Rightarrow> 'c discovery \<Rightarrow> 'c discovery" where
  "watch_over result d =
     (let (normal_stop, d1) =
        (case result of
           Waited b \<Rightarrow> (b, d)
         | Watch_Threw what \<Rightarrow> (False, note_unless_stopping (''etcd watch loop failed: '' @ what) d))
      in if dc_stopping d1 then d1
         else let st = dc_status d1 in
           d1\<lparr>dc_status := st\<lparr>ds_watch_restart_count := ds_watch_restart_count st + 1, ds_degraded := True,
             ds_state := (if normal_stop then ''watch_restarting'' else ''watch_reconnecting''),
             ds_last_error := (if ds_last_error st = []
               then (if normal_stop then ''etcd watch stopped'' else ''etcd watch disconnected'')
               else ds_last_error st)\<rparr>\<rparr>)"

text \<open>Milliseconds to wait before the next round.\<close>

definition next_backoff :: "nat \<Rightarrow> nat" where
  "next_backoff backoff = min (backoff * 2) 5000"

text \<open>The same class in a build without etcd.\<close>

definition etcd_missing :: string where
  "etcd_missing = ''etcd service discovery is not available in this build (etcd-cpp-apiv3 not found)''"

definition Fallback_Start :: "'c discovery \<Rightarrow> Status \<times> 'c discovery" where
  "Fallback_Start d =
     (NotSupported etcd_missing,
      d\<lparr>dc_status := (dc_status d)\<lparr>ds_state := ''unavailable'', ds_last_error := etcd_missing,
        ds_degraded := False\<rparr>\<rparr>)"

definition Fallback_Stop :: "'c discovery \<Rightarrow> 'c discovery" where
  "Fallback_Stop d = d\<lparr>dc_status := (dc_status d)\<lparr>ds_running := False, ds_state := ''stopped''\<rparr>\<rparr>"

definition Fallback_DiscoveryStatus :: "'c discovery \<Rightarrow> discovery_status" where
  "Fallback_DiscoveryStatus d =
     (let st = (dc_status d)\<lparr>ds_available := False\<rparr> in
      if ds_state st = ''unavailable''
      then st\<lparr>ds_last_error := ''etcd service discovery is not available in this build''\<rparr> else st)"

definition Fallback_CurrentNodes :: "'c discovery \<Rightarrow> ClusterNode list" where
  "Fallback_CurrentNodes d = []"

definition Fallback_SetRingChangeCallback :: "('c \<Rightarrow> 'c) \<Rightarrow> 'c discovery \<Rightarrow> 'c discovery" where
  "Fallback_SetRingChangeCallback callback d = d\<lparr>dc_callback := Some callback\<rparr>"

definition Fallback_ReloadNodes :: Status where
  "Fallback_ReloadNodes = NotSupported etcd_missing"

definition Fallback_RebuildRing :: "ClusterNode list \<Rightarrow> 'c discovery \<Rightarrow> 'c discovery" where
  "Fallback_RebuildRing nodes d = d"

definition Fallback_RecordSuccess :: "string \<Rightarrow> 'c discovery \<Rightarrow> 'c discovery" where
  "Fallback_RecordSuccess state d = d\<lparr>dc_status := (dc_status d)\<lparr>ds_state := state\<rparr>\<rparr>"

definition Fallback_RecordError :: "string \<Rightarrow> string \<Rightarrow> bool \<Rightarrow> 'c discovery \<Rightarrow> 'c discovery" where
  "Fallback_RecordError state msg degraded d =
     d\<lparr>dc_status := (dc_status d)\<lparr>ds_state := state, ds_last_error := msg, ds_degraded := degraded\<rparr>\<rparr>"

text \<open>The start records its error, but a reader of the status is told a shorter one.\<close>

lemma Fallback_Start_records:
  "Fallback_Start d = (NotSupported etcd_missing, Fallback_RecordError ''unavailable'' etcd_missing False d)"
  "ds_last_error (Fallback_DiscoveryStatus (snd (Fallback_Start d))) = ''etcd service discovery is not available in this build''"
  by (simp_all add: Fallback_Start_def Fallback_RecordError_def Fallback_DiscoveryStatus_def Let_def)

text \<open>What may happen to a discovery, in any order, with any answers of the server.\<close>

inductive discovery_step ::
  "json_api \<Rightarrow> (string \<Rightarrow> 64 word) \<Rightarrow> 'c discovery \<times> router \<times> 'c \<Rightarrow> 'c discovery \<times> router \<times> 'c \<Rightarrow> bool"
  for js hash where
  step_start: "Discovery_Start et js hash x = (out, y) \<Longrightarrow> discovery_step js hash x y"
| step_keepalive: "discovery_step js hash (d, r, c) (keepalive_failed what d, r, c)"
| step_response: "discovery_step js hash x (watch_response et js hash response x)"
| step_begin: "discovery_step js hash x (watch_begin et js hash x)"
| step_over: "discovery_step js hash (d, r, c) (watch_over result d, r, c)"
| step_stop: "discovery_step js hash (d, r, c) (Discovery_Stop d, r, c)"
| step_callback: "discovery_step js hash (d, r, c) (SetRingChangeCallback callback d, r, c)"

subsection \<open>Round trip\<close>

definition registered_node :: "ClusterNode \<Rightarrow> ClusterNode" where
  "registered_node node = node\<lparr>node_weight := effective_weight (node_weight node)\<rparr>"

lemma effective_weight_twice [simp]: "effective_weight (effective_weight w) = effective_weight w"
  by (simp add: effective_weight_def)

lemma node_json_member:
  "json_member (node_json node) k = map_of (rev
     [(''version'', JInt 1), (''id'', JString (node_id node)), (''host'', JString (node_host node)),
      (''port'', JInt (uint (node_port node))), (''healthy'', JBool (node_healthy node)),
      (''weight'', JInt (uint (effective_weight (node_weight node)))), (''zone'', JString (node_zone node))]) k"
  by (simp only: node_json_def json_member_object)

lemma port_word:
  fixes p :: "16 word"
  shows "(ucast (ucast p :: 32 word) :: 16 word) = p" "(word_of_int (uint p) :: 32 word) = ucast p"
    "(ucast p :: 32 word) = 0 \<longleftrightarrow> p = 0" "\<not> (ucast p :: 32 word) > 65535"
proof -
  show again: "(ucast (ucast p :: 32 word) :: 16 word) = p" by (rule bit_word_eqI) (simp add: bit_ucast_iff)
  show "(word_of_int (uint p) :: 32 word) = ucast p" by (simp add: word_uint_eq_iff unsigned_ucast_eq)
  show "(ucast p :: 32 word) = 0 \<longleftrightarrow> p = 0" using again by (metis unsigned_0)
  show "\<not> (ucast p :: 32 word) > 65535"
  proof -
    have "uint p < 2 ^ 16" using uint_lt2p [of p] by simp
    moreover have "take_bit 32 (uint p) \<le> uint p" by (simp add: take_bit_int_less_eq_self_iff)
    ultimately show ?thesis by (simp add: word_less_def unsigned_ucast_eq)
  qed
qed

lemma parse_node_json:
  assumes "node_host node \<noteq> []" and "node_port node \<noteq> 0" and "node_id node \<noteq> []"
  shows "parse_json_node js i (node_json node) = Ret (Inr (registered_node node))"
  using assms
  by (simp add: parse_json_node_def value_string_def value_bool_def value_word_def string_member_def
      unsigned_member_def node_json_member port_word Let_def registered_node_def)

text \<open>Printing an object gives a text that begins with a brace.\<close>

definition braced :: "json_api \<Rightarrow> bool" where
  "braced js \<longleftrightarrow> (\<forall>ms text. js_dump js None (JObject ms) = Ret text \<longrightarrow> (\<exists>rest. text = CHR ''{'' # rest))"

text \<open>
  A node that registers itself is read back by every member of the cluster as it is, apart
  from a weight of zero, which counts as 100.
\<close>

lemma registered_node_is_read_back:
  assumes "json_laws js utf8" and "braced js"
    and "utf8 (node_id node)" "utf8 (node_host node)" "utf8 (node_zone node)"
    and "\<forall>s \<in> {''version'', ''id'', ''host'', ''port'', ''healthy'', ''weight'', ''zone''}. utf8 s"
    and "node_id node \<noteq> []" and "node_host node \<noteq> []" and "node_port node \<noteq> 0"
  shows "\<exists>value. SerializeEtcdNodeValue js node = Ret value \<and>
    ParseEtcdNodeValue js i value = Inr (registered_node node)"
proof -
  have bound: "uint w < 2 ^ 64" "- (2 ^ 63) \<le> uint w" if "LENGTH('a) \<le> 64" for w :: "'a::len word"
  proof -
    have "uint w < 2 ^ LENGTH('a)" by (rule uint_lt2p)
    also have "\<dots> \<le> 2 ^ 64" using that by (rule power_increasing) simp
    finally show "uint w < 2 ^ 64" .
    show "- (2 ^ 63) \<le> uint w" by (rule order_trans [OF _ uint_ge_0]) simp
  qed
  have "json_ok utf8 (node_json node)"
    unfolding node_json_def
    by (rule json_ok_object) (use assms bound [of "node_port node"] bound [of "effective_weight (node_weight node)"] in simp_all)
  then obtain bytes where dump: "js_dump js None (node_json node) = Ret bytes"
    and parse: "js_parse js bytes = Some (node_json node)"
    using assms(1) by (auto simp: json_laws_def)
  obtain ms where object: "node_json node = JObject ms" by (simp add: node_json_def json_object_members)
  with dump assms(2) obtain rest where "bytes = CHR ''{'' # rest" by (auto simp: braced_def)
  then have "ParseEtcdNodeValue js i bytes = Inr (registered_node node)"
    using parse parse_node_json [of node js i] assms(7-9) by (simp add: ParseEtcdNodeValue_def object)
  then show ?thesis using dump by (simp add: SerializeEtcdNodeValue_def)
qed

lemma plain_json_braced: "braced plain_json"
  by (simp add: braced_def plain_json_def)

lemma registered_node_is_read_back_witness:
  "\<exists>value. SerializeEtcdNodeValue plain_json (new_node ''a'' ''h'' 1) = Ret value \<and>
    ParseEtcdNodeValue plain_json ''x'' value = Inr (registered_node (new_node ''a'' ''h'' 1))"
  using registered_node_is_read_back [OF plain_json_laws [of "\<lambda>_. True"] plain_json_braced, of "new_node ''a'' ''h'' 1" "''x''"]
  by (simp add: new_node_def)

subsection \<open>The watched range\<close>

definition byte_FF :: char where
  "byte_FF = CHR 0xFF"

lemma byte_FF [simp]: "byte_of c = 255 \<longleftrightarrow> c = byte_FF" "byte_of byte_FF = 255"
proof -
  show ff: "byte_of byte_FF = 255" by (simp add: byte_of_def byte_FF_def)
  show "byte_of c = 255 \<longleftrightarrow> c = byte_FF" by (metis ff byte_of_inject)
qed

lemma byte_order: "c < d \<longleftrightarrow> byte_of c < byte_of d" "c \<le> d \<longleftrightarrow> byte_of c \<le> byte_of d"
  by (simp_all add: byte_of_def less_char_def less_eq_char_def)

lemma byte_FF_greatest [simp]: "\<not> byte_FF < c"
  using byte_of_less [of c] by (simp add: byte_order)

lemma below_next_byte: "c \<noteq> byte_FF \<Longrightarrow> d < char_of (byte_of c + 1) \<longleftrightarrow> d \<le> c"
  and next_byte: "c \<noteq> byte_FF \<Longrightarrow> byte_of (char_of (byte_of c + 1)) = byte_of c + 1"
proof -
  assume "c \<noteq> byte_FF"
  then have "byte_of c \<noteq> 255" by simp
  then have "byte_of c + 1 < 256" using byte_of_less [of c] by linarith
  then show n: "byte_of (char_of (byte_of c + 1)) = byte_of c + 1" by (rule byte_of_char_of)
  show "d < char_of (byte_of c + 1) \<longleftrightarrow> d \<le> c" unfolding byte_order n by linarith
qed

lemma increment_back_snoc:
  "increment_back (xs @ [c]) = (if \<exists>b \<in> set xs. b \<noteq> byte_FF then c # increment_back xs else increment_back [c])"
  by (induction xs) auto

lemma PrefixRangeEnd_Cons:
  "PrefixRangeEnd (c # p) = (if \<exists>b \<in> set p. b \<noteq> byte_FF then c # PrefixRangeEnd p
     else if c \<noteq> byte_FF then [char_of (byte_of c + 1)] else [CHR 0x00])"
  by (cases "p = []") (auto simp: PrefixRangeEnd_def increment_back_snoc)

lemma greatest_prefix: "\<forall>b \<in> set p. b = byte_FF \<Longrightarrow> p \<le> k \<longleftrightarrow> starts_with p k"
proof (induction p arbitrary: k)
  case (Cons c p)
  then show ?case by (cases k) (auto simp: starts_with_iff)
qed (simp add: starts_with_iff)

text \<open>
  The range that is watched holds exactly the keys that begin with the prefix, if the
  prefix has a byte other than 0xFF.
\<close>

lemma watched_range_is_the_prefix:
  assumes "\<exists>b \<in> set prefix. b \<noteq> CHR 0xFF"
  shows "prefix \<le> key \<and> key < PrefixRangeEnd prefix \<longleftrightarrow> starts_with prefix key"
proof -
  have "\<exists>b \<in> set prefix. b \<noteq> byte_FF \<Longrightarrow> prefix \<le> key \<and> key < PrefixRangeEnd prefix \<longleftrightarrow> starts_with prefix key"
  proof (induction prefix arbitrary: key)
    case (Cons c p)
    show ?case
    proof (cases key)
      case (Cons d k)
      show ?thesis
      proof (cases "\<exists>b \<in> set p. b \<noteq> byte_FF")
        case True
        then show ?thesis using Cons.IH [of k] Cons by (auto simp: PrefixRangeEnd_Cons starts_with_iff)
      next
        case False
        with Cons.prems have "c \<noteq> byte_FF" by auto
        moreover have "p \<le> k \<longleftrightarrow> starts_with p k" using False by (intro greatest_prefix) blast
        ultimately show ?thesis
          using False Cons below_next_byte [of c d] by (auto simp: PrefixRangeEnd_Cons starts_with_iff)
      qed
    qed (simp add: starts_with_iff)
  qed simp
  then show ?thesis using assms by (simp add: byte_FF_def)
qed

lemma watched_range_is_the_prefix_witness:
  "''/n/'' \<le> ''/n/a'' \<and> ''/n/a'' < PrefixRangeEnd ''/n/''"
  using watched_range_is_the_prefix [of "''/n/''" "''/n/a''"] by (simp add: starts_with_iff)

subsection \<open>The ring and the listing\<close>

definition reachable_node :: "ClusterNode \<Rightarrow> bool" where
  "reachable_node node \<longleftrightarrow> node_healthy node \<and> node_host node \<noteq> [] \<and> node_port node \<noteq> 0 \<and> node_weight node \<noteq> 0"

lemma legacy_node_reachable: "ParseLegacyNodeValue i v = Inr node \<Longrightarrow> reachable_node (node\<lparr>node_healthy := True\<rparr>)"
  by (auto simp: ParseLegacyNodeValue_def reachable_node_def new_node_def word_of_nat_eq_0_iff
      dest!: dvd_imp_le split: option.splits outcome.splits if_splits)

lemma port_not_zero:
  fixes p :: "32 word"
  assumes "p \<noteq> 0" and "\<not> p > 65535"
  shows "(ucast p :: 16 word) \<noteq> 0"
proof
  assume "(ucast p :: 16 word) = 0"
  then have "uint (ucast p :: 16 word) = 0" by simp
  then have "uint p mod 2 ^ 16 = 0" by (simp add: unsigned_ucast_eq take_bit_eq_mod)
  moreover have "uint p \<le> 65535" using assms(2) by (simp add: word_less_def)
  ultimately have "uint p = 0" by simp
  with assms(1) show False by (simp add: uint_0_iff)
qed

lemma effective_weight_positive [simp]: "effective_weight w \<noteq> 0"
  by (simp add: effective_weight_def)

lemma json_node_reachable:
  assumes "parse_json_node js i j = Ret (Inr node)"
  shows "reachable_node (node\<lparr>node_healthy := True\<rparr>)"
proof (cases "string_member j ''host''")
  case (Some host)
  show ?thesis
  proof (cases "unsigned_member j ''port''")
    case (Some p)
    let ?port = "word_of_int p :: 32 word"
    have "host \<noteq> []" "?port \<noteq> 0" "\<not> ?port > 65535"
      using assms Some \<open>string_member j ''host'' = Some host\<close>
      by (auto simp: parse_json_node_def outcome_bind_Ret_iff Let_def split: if_splits)
    moreover obtain given healthy weight zone where "node = \<lparr>node_id = given, node_host = host,
        node_port = ucast ?port, node_healthy = healthy, node_weight = effective_weight weight, node_zone = zone\<rparr>"
      using assms Some \<open>string_member j ''host'' = Some host\<close>
      by (auto simp: parse_json_node_def outcome_bind_Ret_iff Let_def split: if_splits)
    ultimately show ?thesis by (simp add: reachable_node_def port_not_zero)
  qed (use assms Some in \<open>auto simp: parse_json_node_def outcome_bind_Ret_iff\<close>)
qed (use assms in \<open>auto simp: parse_json_node_def outcome_bind_Ret_iff\<close>)

lemma parsed_node_reachable: "ParseEtcdNodeValue js i v = Inr node \<Longrightarrow> reachable_node (node\<lparr>node_healthy := True\<rparr>)"
  using json_node_reachable legacy_node_reachable
  by (auto simp: ParseEtcdNodeValue_def split: list.splits if_splits option.splits outcome.splits)

lemma listed_nodes_reachable: "node \<in> set (listed_nodes js prefix kvs) \<Longrightarrow> reachable_node node"
  by (induction js prefix kvs rule: listed_nodes.induct) (auto split: if_splits sum.splits dest: parsed_node_reachable)

definition ring_listed :: "(string \<Rightarrow> 64 word) \<Rightarrow> router \<Rightarrow> 'c discovery \<Rightarrow> router \<Rightarrow> bool" where
  "ring_listed hash r0 d r \<longleftrightarrow>
     (r = Rebuild hash (dc_nodes d) r0 \<or> dc_nodes d = [] \<and> r = r0) \<and> (\<forall>node \<in> set (dc_nodes d). reachable_node node)"

lemma Rebuild_again [simp]: "Rebuild hash nodes (Rebuild hash nodes' r) = Rebuild hash nodes r"
  by (simp add: Rebuild_def)

lemma ring_listed_cong: "dc_nodes d' = dc_nodes d \<Longrightarrow> ring_listed hash r0 d' r \<longleftrightarrow> ring_listed hash r0 d r"
  by (simp add: ring_listed_def)

lemma ring_listed_simps [simp]:
  "ring_listed hash r0 (dc_status_update f d) r \<longleftrightarrow> ring_listed hash r0 d r"
  "ring_listed hash r0 (dc_client_update g d) r \<longleftrightarrow> ring_listed hash r0 d r"
  "ring_listed hash r0 (dc_stopping_update g d) r \<longleftrightarrow> ring_listed hash r0 d r"
  "ring_listed hash r0 (dc_callback_update h d) r \<longleftrightarrow> ring_listed hash r0 d r"
  "ring_listed hash r0 (Discovery_RecordSuccess now state d) r \<longleftrightarrow> ring_listed hash r0 d r"
  "ring_listed hash r0 (Discovery_RecordError state what degraded d) r \<longleftrightarrow> ring_listed hash r0 d r"
  "ring_listed hash r0 (note_unless_stopping what d) r \<longleftrightarrow> ring_listed hash r0 d r"
  by (rule ring_listed_cong; simp add: Discovery_RecordSuccess_def Discovery_RecordError_def note_unless_stopping_def Let_def)+

lemma ring_listed_operations [simp]:
  "ring_listed hash r0 (keepalive_failed what d) r \<longleftrightarrow> ring_listed hash r0 d r"
  "ring_listed hash r0 (watch_over result d) r \<longleftrightarrow> ring_listed hash r0 d r"
  "ring_listed hash r0 (Discovery_Stop d) r \<longleftrightarrow> ring_listed hash r0 d r"
  "ring_listed hash r0 (SetRingChangeCallback callback d) r \<longleftrightarrow> ring_listed hash r0 d r"
  by (simp_all add: keepalive_failed_def watch_over_def Discovery_Stop_def SetRingChangeCallback_def Let_def
      split: watch_end.splits)

lemma ReloadNodes_listed:
  "ReloadNodes et js hash (d, r, c) = (status, d', r', c') \<Longrightarrow> ring_listed hash r0 d r \<Longrightarrow> ring_listed hash r0 d' r'"
  by (auto simp: ReloadNodes_def RebuildRing_def Let_def split: if_splits sum.splits)
    (auto simp: ring_listed_def listed_nodes_reachable)

lemma Discovery_Start_listed:
  "Discovery_Start et js hash (d, r, c) = (out, d', r', c') \<Longrightarrow> ring_listed hash r0 d r \<Longrightarrow> ring_listed hash r0 d' r'"
  by (auto simp: Discovery_Start_def start_failed_def Let_def split: option.splits sum.splits outcome.splits prod.splits
      dest: ReloadNodes_listed)

lemma step_listed:
  assumes "discovery_step js hash (d, r, c) (d', r', c')" and "ring_listed hash r0 d r"
  shows "ring_listed hash r0 d' r'"
  using assms(1)
proof cases
  case step_start
  then show ?thesis using assms(2) by (blast dest: Discovery_Start_listed)
next
  case (step_response et response)
  then show ?thesis using assms(2)
    by (auto simp: watch_response_def split: option.splits prod.splits if_splits dest: ReloadNodes_listed)
next
  case (step_begin et)
  then show ?thesis using assms(2)
    by (auto simp: watch_begin_def split: prod.splits if_splits dest: ReloadNodes_listed)
qed (use assms(2) in simp_all)

text \<open>
  C38: whatever happens to a discovery, in any order and with any answers of the server, the
  ring is that of the nodes it knows, or still the first one when it knows none; and every
  known node is healthy and has a host, a port and a weight.
\<close>

theorem ring_follows_the_listing:
  assumes "(discovery_step js hash)\<^sup>*\<^sup>* (new_discovery endpoints prefix node ttl, r0, c0) (d, r, c)"
  shows "(r = Rebuild hash (dc_nodes d) r0 \<or> dc_nodes d = [] \<and> r = r0) \<and> (\<forall>node \<in> set (dc_nodes d). reachable_node node)"
proof -
  have "ring_listed hash r0 (fst x) (fst (snd x))"
    if "(discovery_step js hash)\<^sup>*\<^sup>* (new_discovery endpoints prefix node ttl, r0, c0) x" for x
    using that
  proof (induction rule: rtranclp_induct)
    case base
    then show ?case by (simp add: ring_listed_def new_discovery_def)
  next
    case (step x y)
    then show ?case by (cases x; cases y) (auto dest: step_listed)
  qed
  from this [OF assms] show ?thesis by (simp add: ring_listed_def)
qed

text \<open>A start whose listing fails reports success, and no sign of the failure remains.\<close>

definition offline_listing :: etcd_api where
  "offline_listing = \<lparr>et_connect = (\<lambda>_. None), et_leasegrant = (\<lambda>_. Inr 7), et_set = (\<lambda>_ _ _. None),
     et_ls = (\<lambda>_. Inl ''deadline exceeded''), et_now = 5\<rparr>"

lemma start_hides_a_failed_listing:
  "\<exists>d r c. Discovery_Start offline_listing plain_json hash (new_discovery e p (new_node ''a'' ''h'' 1) 10, r0, c0) = (Ret Ok, d, r, c) \<and>
     ds_state (dc_status d) = ''running'' \<and> \<not> ds_degraded (dc_status d) \<and> ds_last_error (dc_status d) = [] \<and>
     dc_nodes d = [] \<and> r = r0"
  by (simp add: Discovery_Start_def offline_listing_def SerializeEtcdNodeValue_def plain_json_def ReloadNodes_def
      Discovery_RecordSuccess_def new_discovery_def new_discovery_status_def Let_def)

lemma plain_serialize: "SerializeEtcdNodeValue plain_json node = Ret (js_text (node_json node))"
  by (simp add: SerializeEtcdNodeValue_def plain_json_def)

theorem ring_follows_the_listing_witness:
  "\<exists>d. Discovery_Start (offline_listing\<lparr>et_ls := (\<lambda>_. Inr [(''/n/b'', ''h:80''), (''/n/c'', ''bad'')])\<rparr>) plain_json sample_hash
      (new_discovery ''e'' ''/n/'' (new_node ''a'' ''h'' 1) 10, (new_router ''a'' 1 8), ()) =
        (Ret Ok, d, Rebuild sample_hash [new_node ''b'' ''h'' 80] (new_router ''a'' 1 8), ()) \<and>
    dc_nodes d = [new_node ''b'' ''h'' 80] \<and> (\<forall>node \<in> set (dc_nodes d). reachable_node node)"
proof -
  let ?et = "offline_listing\<lparr>et_ls := (\<lambda>_. Inr [(''/n/b'', ''h:80''), (''/n/c'', ''bad'')])\<rparr>"
    and ?d = "new_discovery ''e'' ''/n/'' (new_node ''a'' ''h'' 1) 10 :: unit discovery"
  have "cxx_stoul (to_string 80) = Ret 80" by simp
  moreover have "to_string 80 = ''80''" by (simp add: to_string.simps char_of_def bit_0)
  ultimately have "cxx_stoul ''80'' = Ret 80" by simp
  then have "ParseLegacyNodeValue ''b'' ''h:80'' = Inr (new_node ''b'' ''h'' 80)"
      "\<exists>e. ParseLegacyNodeValue ''c'' ''bad'' = Inl e"
    by (simp_all add: ParseLegacyNodeValue_def rfind_char_def)
  then have nodes: "listed_nodes plain_json ''/n/'' [(''/n/b'', ''h:80''), (''/n/c'', ''bad'')] = [new_node ''b'' ''h'' 80]"
    by (auto simp: ParseEtcdNodeValue_def starts_with_def new_node_def)
  let ?x = "Discovery_Start ?et plain_json sample_hash (?d, (new_router ''a'' 1 8), ())"
  have "fst ?x = Ret Ok" "dc_nodes (fst (snd ?x)) = [new_node ''b'' ''h'' 80]"
    "snd (snd ?x) = (Rebuild sample_hash [new_node ''b'' ''h'' 80] (new_router ''a'' 1 8), ())"
    unfolding Discovery_Start_def offline_listing_def
    by (simp_all add: plain_serialize ReloadNodes_def RebuildRing_def Discovery_RecordSuccess_def new_discovery_def
        nodes Let_def del: listed_nodes.simps)
  then obtain d where start: "?x = (Ret Ok, d, Rebuild sample_hash [new_node ''b'' ''h'' 80] (new_router ''a'' 1 8), ())"
    and known: "dc_nodes d = [new_node ''b'' ''h'' 80]"
    by (metis prod.collapse)
  from start have "discovery_step plain_json sample_hash (?d, (new_router ''a'' 1 8), ()) (d, Rebuild sample_hash [new_node ''b'' ''h'' 80] (new_router ''a'' 1 8), ())"
    by (rule step_start)
  then have "(discovery_step plain_json sample_hash)\<^sup>*\<^sup>* (?d, (new_router ''a'' 1 8), ()) (d, Rebuild sample_hash [new_node ''b'' ''h'' 80] (new_router ''a'' 1 8), ())"
    by (rule r_into_rtranclp [where r = "discovery_step plain_json sample_hash"])
  from ring_follows_the_listing [OF this] start known show ?thesis by blast
qed

end
