(* ===== verification/Server.thy ===== *)
theory Server
  imports Search_Service Migration Gateway_Guards Etcd_Discovery
begin

text \<open>
  \<open>src/gateway/server.h\<close>, \<open>server.cpp\<close>: the gateway server, which puts the components
  together. Its operations check that the server runs and may write, fill in the collection,
  ask the router who owns the key, complete the mutation, and call the stores, the outbox and
  the search service. The stores are reached through \<open>kv_ops\<close> and \<open>index_ops\<close>; the clocks, the
  generator of trace identifiers and the readings of the host are fields of \<open>server_env\<close>, given
  with every call. An operation whose route does not return is \<open>None\<close>. The mutexes of the parts
  are released between their calls; the operations are taken here one after the other.
\<close>

subsection \<open>State\<close>

record server_env =
  sn_pb :: pb_api
  sn_hash :: "string \<Rightarrow> 64 word"
  sn_unix_millis :: "64 word"
  sn_steady :: int
  sn_latency_us :: "64 word"
  sn_new_trace_id :: string
  sn_search :: search_env
  sn_cpu :: string
  sn_disk :: string
  sn_workers :: nat
  sn_pending_tasks :: nat

record ('k, 'x) server =
  sv_config :: ServerConfig
  sv_kv :: 'k
  sv_embedder :: embedder
  sv_index :: 'x
  sv_router :: router
  sv_metrics :: metrics
  sv_limiter :: rate_limiter
  sv_discovery :: "migration option discovery option"
  sv_migration :: "migration option"
  sv_outbox :: "outbox option"
  sv_counter :: "64 word"
  sv_started :: bool

definition EnsureTraceId :: "server_env \<Rightarrow> string \<Rightarrow> string" where
  "EnsureTraceId env trace_id = (if trace_id = [] then sn_new_trace_id env else trace_id)"

definition RemoteOwnerMessage :: "string \<Rightarrow> RouteDecision \<Rightarrow> string \<Rightarrow> string" where
  "RemoteOwnerMessage subject route trace_id =
     (let primary = route_primary route;
          endpoint = node_host primary @
            (if node_port primary \<noteq> 0 then '':'' @ to_string (unat (node_port primary)) else [])
      in subject @ '' owned by remote node: '' @ node_id primary @
         (if endpoint = [] then [] else '' endpoint='' @ endpoint) @ '' trace_id='' @ trace_id)"

text \<open>The record with its time, version and identifier filled in, and the counter after it.\<close>

definition PrepareMutation :: "64 word \<Rightarrow> string \<Rightarrow> DocumentRecord \<times> 64 word \<Rightarrow> DocumentRecord \<times> 64 word" where
  "PrepareMutation now i = (\<lambda>(r, counter).
     let r1 = (if doc_updated_at r = 0 then r\<lparr>doc_updated_at := now\<rparr> else r);
         r2 = (if doc_version r1 = 0 then r1\<lparr>doc_version := doc_updated_at r1\<rparr> else r1)
     in if doc_mutation_id r2 = []
        then (r2\<lparr>doc_mutation_id := i @ '':'' @ to_string_int (sint (doc_updated_at r2)) @ '':'' @
                to_string (unat counter)\<rparr>, counter + 1)
        else (r2, counter))"

fun prepare_all :: "64 word \<Rightarrow> string \<Rightarrow> DocumentRecord list \<times> 64 word \<Rightarrow> DocumentRecord list \<times> 64 word" where
  "prepare_all now i ([], counter) = ([], counter)"
| "prepare_all now i (r # rs, counter) =
     (case PrepareMutation now i (r, counter) of (r', counter') \<Rightarrow>
        (case prepare_all now i (rs, counter') of (rs', counter'') \<Rightarrow> (r' # rs', counter'')))"

definition DescribeRoute :: "server_env \<Rightarrow> ('k, 'x) server \<Rightarrow> string \<Rightarrow> string \<Rightarrow> RouteDecision option" where
  "DescribeRoute env sv c k =
     Route (sn_hash env) (sv_router sv) (effective_collection (sv_config sv) c) k
       (cfg_replication_factor (sv_config sv))"

text \<open>The route of a key, as the reason to refuse it or as nothing.\<close>

definition refuse_remote ::
  "server_env \<Rightarrow> string \<Rightarrow> string \<Rightarrow> string \<Rightarrow> string \<Rightarrow> ('k, 'x) server \<Rightarrow> Status option option" where
  "refuse_remote env subject trace c k sv =
     map_option (\<lambda>route.
       if remote route then Some (Unavailable (RemoteOwnerMessage subject route trace)) else None)
     (DescribeRoute env sv c k)"

definition not_started :: Status where
  "not_started = Unavailable ''server not started''"

definition read_only :: Status where
  "read_only = Unavailable ''storage is in read-only mode''"

subsection \<open>Searching\<close>

definition Server_Search ::
  "server_env \<Rightarrow> 'k kv_ops \<Rightarrow> 'x index_ops \<Rightarrow> search_query \<Rightarrow> ('k, 'x) server \<Rightarrow>
     search_result StatusOr \<times> ('k, 'x) server" where
  "Server_Search env kv ix q sv =
     (if \<not> sv_started sv then (Inl not_started, sv)
      else case Allow (sn_steady env) (sv_limiter sv) of
        (False, l) \<Rightarrow>
          (Inl (Unavailable ''rate limit exceeded''),
           sv\<lparr>sv_limiter := l, sv_metrics := IncrementSearchFailures (sv_metrics sv)\<rparr>)
      | (True, l) \<Rightarrow>
          let q1 = q\<lparr>sq_trace_id := EnsureTraceId env (sq_trace_id q)\<rparr>;
              out = SemanticSearch (sn_search env) (sv_config sv) kv (sv_embedder sv) ix (sv_kv sv) (sv_index sv) q1;
              m = ObserveSearchLatency (sn_latency_us env) (IncrementSearchRequests (sv_metrics sv))
          in (out, sv\<lparr>sv_limiter := l, sv_metrics :=
                (case out of
                   Inl _ \<Rightarrow> IncrementSearchFailures m
                 | Inr answer \<Rightarrow> if sr_degraded answer then IncrementDegradedSearches m else m)\<rparr>))"

subsection \<open>Writing\<close>

definition enqueue_and_drain ::
  "server_env \<Rightarrow> 'x index_ops \<Rightarrow> DocumentRecord \<Rightarrow> fs \<times> ('k, 'x) server \<Rightarrow> Status \<times> fs \<times> ('k, 'x) server" where
  "enqueue_and_drain env ix r = (\<lambda>(s, sv).
     case sv_outbox sv of
       None \<Rightarrow> (Unavailable ''vector index outbox is not initialized'', s, sv)
     | Some ob \<Rightarrow>
         (case Enqueue (sn_pb env) r (s, ob) of
            (status, s1, ob1) \<Rightarrow>
              if \<not> ok status then (status, s1, sv\<lparr>sv_outbox := Some ob1\<rparr>)
              else (case DrainOnce (sn_pb env) (sv_embedder sv) (ix_upsert ix) (s1, ob1, sv_index sv) of
                      (_, s2, ob2, x2) \<Rightarrow> (Ok, s2, sv\<lparr>sv_outbox := Some ob2, sv_index := x2\<rparr>))))"

definition UpsertDocument ::
  "server_env \<Rightarrow> 'k kv_ops \<Rightarrow> 'x index_ops \<Rightarrow> DocumentRecord \<Rightarrow> string \<Rightarrow> fs \<times> ('k, 'x) server \<Rightarrow>
     (Status \<times> fs \<times> ('k, 'x) server) option" where
  "UpsertDocument env kv ix r trace_id = (\<lambda>(s, sv).
     let cfg = sv_config sv; r1 = r\<lparr>doc_collection := effective_collection cfg (doc_collection r)\<rparr> in
     if \<not> sv_started sv then Some (not_started, s, sv)
     else if cfg_read_only_mode cfg then Some (read_only, s, sv)
     else if doc_key r = [] then Some (InvalidArgument ''document key cannot be empty'', s, sv)
     else map_option (\<lambda>refusal.
       case refusal of
         Some e \<Rightarrow> (e, s, sv)
       | None \<Rightarrow>
           (case PrepareMutation (sn_unix_millis env) (cfg_node_id cfg) (r1, sv_counter sv) of
              (r2, counter) \<Rightarrow>
                (case kv_put kv r2 (s, sv_kv sv) of
                   (status, s1, st) \<Rightarrow>
                     let sv1 = sv\<lparr>sv_counter := counter, sv_kv := st\<rparr> in
                     if \<not> ok status then (status, s1, sv1) else enqueue_and_drain env ix r2 (s1, sv1))))
       (refuse_remote env ''document'' (EnsureTraceId env trace_id) (doc_collection r1) (doc_key r) sv))"

definition DeleteDocument ::
  "server_env \<Rightarrow> 'k kv_ops \<Rightarrow> 'x index_ops \<Rightarrow> string \<Rightarrow> string \<Rightarrow> string \<Rightarrow> fs \<times> ('k, 'x) server \<Rightarrow>
     (Status \<times> fs \<times> ('k, 'x) server) option" where
  "DeleteDocument env kv ix c k trace_id = (\<lambda>(s, sv).
     let cfg = sv_config sv; c1 = effective_collection cfg c in
     if \<not> sv_started sv then Some (not_started, s, sv)
     else if cfg_read_only_mode cfg then Some (read_only, s, sv)
     else if k = [] then Some (InvalidArgument ''document key cannot be empty'', s, sv)
     else map_option (\<lambda>refusal.
       case refusal of
         Some e \<Rightarrow> (e, s, sv)
       | None \<Rightarrow>
           (case (case sv_outbox sv of
                    None \<Rightarrow> (Ok, s, sv)
                  | Some ob \<Rightarrow> (case Outbox_Remove (sn_pb env) c1 k (s, ob) of
                      (status, s1, ob1) \<Rightarrow> (status, s1, sv\<lparr>sv_outbox := Some ob1\<rparr>))) of
              (pending_status, s1, sv1) \<Rightarrow>
                if \<not> ok pending_status then (pending_status, s1, sv1)
                else (case kv_delete kv c1 k (s1, sv_kv sv1) of
                  (status, s2, st) \<Rightarrow>
                    let sv2 = sv1\<lparr>sv_kv := st\<rparr> in
                    if \<not> ok status then (status, s2, sv2)
                    else (case ix_remove ix c1 k (sv_index sv2) of
                            (removed, x) \<Rightarrow> (removed, s2, sv2\<lparr>sv_index := x\<rparr>)))))
       (refuse_remote env ''document'' (EnsureTraceId env trace_id) c1 k sv))"

definition PutKvRecord ::
  "server_env \<Rightarrow> 'k kv_ops \<Rightarrow> DocumentRecord \<Rightarrow> string \<Rightarrow> fs \<times> ('k, 'x) server \<Rightarrow>
     (Status \<times> fs \<times> ('k, 'x) server) option" where
  "PutKvRecord env kv r trace_id = (\<lambda>(s, sv).
     let cfg = sv_config sv; r1 = r\<lparr>doc_collection := effective_collection cfg (doc_collection r)\<rparr> in
     if \<not> sv_started sv then Some (not_started, s, sv)
     else if cfg_read_only_mode cfg then Some (read_only, s, sv)
     else if doc_key r = [] then Some (InvalidArgument ''kv key cannot be empty'', s, sv)
     else map_option (\<lambda>refusal.
       case refusal of
         Some e \<Rightarrow> (e, s, sv)
       | None \<Rightarrow>
           (case PrepareMutation (sn_unix_millis env) (cfg_node_id cfg) (r1, sv_counter sv) of
              (r2, counter) \<Rightarrow>
                (case kv_put kv r2 (s, sv_kv sv) of
                   (status, s1, st) \<Rightarrow> (status, s1, sv\<lparr>sv_counter := counter, sv_kv := st\<rparr>))))
       (refuse_remote env ''kv record'' (EnsureTraceId env trace_id) (doc_collection r1) (doc_key r) sv))"

text \<open>The checks of a batch: the reason to refuse it, or the records with their collections.\<close>

definition batch_key :: "DocumentRecord \<Rightarrow> string" where
  "batch_key r = doc_collection r @ [CHR 0x0A] @ doc_key r"

fun check_batch ::
  "server_env \<Rightarrow> string \<Rightarrow> ('k, 'x) server \<Rightarrow> DocumentRecord list \<Rightarrow> string set \<Rightarrow> DocumentRecord list \<Rightarrow>
     (Status + DocumentRecord list) option" where
  "check_batch env trace sv [] seen checked = Some (Inr checked)"
| "check_batch env trace sv (r # rs) seen checked =
     (let r1 = r\<lparr>doc_collection := effective_collection (sv_config sv) (doc_collection r)\<rparr> in
      if doc_key r = [] then Some (Inl (InvalidArgument ''kv key cannot be empty''))
      else if batch_key r1 \<in> seen
      then Some (Inl (InvalidArgument (''kv batch contains duplicate key: '' @ doc_collection r1 @ '':'' @ doc_key r)))
      else case refuse_remote env ''kv record'' trace (doc_collection r1) (doc_key r) sv of
        None \<Rightarrow> None
      | Some (Some e) \<Rightarrow> Some (Inl e)
      | Some None \<Rightarrow> check_batch env trace sv rs (insert (batch_key r1) seen) (checked @ [r1]))"

definition PutKvRecords ::
  "server_env \<Rightarrow> 'k kv_ops \<Rightarrow> DocumentRecord list \<Rightarrow> string \<Rightarrow> fs \<times> ('k, 'x) server \<Rightarrow>
     (Status \<times> fs \<times> ('k, 'x) server) option" where
  "PutKvRecords env kv rs trace_id = (\<lambda>(s, sv).
     let cfg = sv_config sv in
     if \<not> sv_started sv then Some (not_started, s, sv)
     else if cfg_read_only_mode cfg then Some (read_only, s, sv)
     else if rs = [] then Some (InvalidArgument ''kv batch cannot be empty'', s, sv)
     else if length rs > cfg_kv_batch_max_records cfg
     then Some (InvalidArgument ''kv batch exceeds gateway.kv_batch_max_records'', s, sv)
     else map_option (\<lambda>checked.
       case checked of
         Inl e \<Rightarrow> (e, s, sv)
       | Inr rs1 \<Rightarrow>
           (case prepare_all (sn_unix_millis env) (cfg_node_id cfg) (rs1, sv_counter sv) of
              (rs2, counter) \<Rightarrow>
                (case kv_batch_put kv rs2 (s, sv_kv sv) of
                   (status, s1, st) \<Rightarrow> (status, s1, sv\<lparr>sv_counter := counter, sv_kv := st\<rparr>))))
       (check_batch env (EnsureTraceId env trace_id) sv rs {} []))"

definition DeleteKvRecord ::
  "server_env \<Rightarrow> 'k kv_ops \<Rightarrow> string \<Rightarrow> string \<Rightarrow> string \<Rightarrow> fs \<times> ('k, 'x) server \<Rightarrow>
     (Status \<times> fs \<times> ('k, 'x) server) option" where
  "DeleteKvRecord env kv c k trace_id = (\<lambda>(s, sv).
     let cfg = sv_config sv; c1 = effective_collection cfg c in
     if \<not> sv_started sv then Some (not_started, s, sv)
     else if cfg_read_only_mode cfg then Some (read_only, s, sv)
     else if k = [] then Some (InvalidArgument ''kv key cannot be empty'', s, sv)
     else map_option (\<lambda>refusal.
       case refusal of
         Some e \<Rightarrow> (e, s, sv)
       | None \<Rightarrow>
           (case kv_delete kv c1 k (s, sv_kv sv) of (status, s1, st) \<Rightarrow> (status, s1, sv\<lparr>sv_kv := st\<rparr>)))
       (refuse_remote env ''kv record'' (EnsureTraceId env trace_id) c1 k sv))"

definition Server_ApplyMigratedRecord ::
  "server_env \<Rightarrow> 'k kv_ops \<Rightarrow> 'x index_ops \<Rightarrow> DocumentRecord \<Rightarrow> bool \<Rightarrow> string \<Rightarrow> fs \<times> ('k, 'x) server \<Rightarrow>
     Status \<times> fs \<times> ('k, 'x) server" where
  "Server_ApplyMigratedRecord env kv ix r semantic trace_id = (\<lambda>(s, sv).
     let cfg = sv_config sv; r1 = r\<lparr>doc_collection := effective_collection cfg (doc_collection r)\<rparr> in
     if \<not> sv_started sv then (not_started, s, sv)
     else if cfg_read_only_mode cfg then (read_only, s, sv)
     else if doc_key r = [] then (InvalidArgument ''migrated record key cannot be empty'', s, sv)
     else case PrepareMutation (sn_unix_millis env) (cfg_node_id cfg) (r1, sv_counter sv) of
       (r2, counter) \<Rightarrow>
         let r3 = (if trace_id = [] then r2
               else r2\<lparr>doc_metadata := omap_put ''trace_id'' (EnsureTraceId env trace_id) (doc_metadata r2)\<rparr>)
         in (case kv_put kv r3 (s, sv_kv sv) of
               (status, s1, st) \<Rightarrow>
                 let sv1 = sv\<lparr>sv_counter := counter, sv_kv := st\<rparr> in
                 if \<not> ok status then (status, s1, sv1)
                 else if \<not> semantic then (Ok, s1, sv1)
                 else enqueue_and_drain env ix r3 (s1, sv1)))"

subsection \<open>Reading\<close>

definition GetKvRecord ::
  "server_env \<Rightarrow> 'k kv_ops \<Rightarrow> string \<Rightarrow> string \<Rightarrow> string \<Rightarrow> ('k, 'x) server \<Rightarrow> DocumentRecord StatusOr option" where
  "GetKvRecord env kv c k trace_id sv =
     (let c1 = effective_collection (sv_config sv) c in
      if \<not> sv_started sv then Some (Inl not_started)
      else if k = [] then Some (Inl (InvalidArgument ''kv key cannot be empty''))
      else map_option (\<lambda>refusal. case refusal of Some e \<Rightarrow> Inl e | None \<Rightarrow> kv_get kv c1 k (sv_kv sv))
        (refuse_remote env ''kv record'' (EnsureTraceId env trace_id) c1 k sv))"

definition RangeKvRecords ::
  "'k kv_ops \<Rightarrow> string \<Rightarrow> string \<Rightarrow> string \<Rightarrow> nat \<Rightarrow> ('k, 'x) server \<Rightarrow> DocumentRecord list StatusOr" where
  "RangeKvRecords kv c begin_key end_key limit sv =
     (if \<not> sv_started sv then Inl not_started
      else kv_range kv (effective_collection (sv_config sv) c) begin_key end_key (min (max 1 limit) 1000) (sv_kv sv))"

definition TriggerMigrationScan :: "('k, 'x) server \<Rightarrow> ('k, 'x) server" where
  "TriggerMigrationScan sv = sv\<lparr>sv_migration := map_option TriggerScan (sv_migration sv)\<rparr>"

definition no_migration :: migration_status where
  "no_migration = \<lparr>ms_enabled = False, ms_state = ''disabled'', ms_pending = 0, ms_inflight = 0, ms_succeeded = 0,
     ms_failed = 0, ms_delayed_delete = 0, ms_last_scan = 0, ms_last_error = []\<rparr>"

definition MigrationStatus :: "('k, 'x) server \<Rightarrow> migration_status" where
  "MigrationStatus sv = (case sv_migration sv of None \<Rightarrow> no_migration | Some mg \<Rightarrow> Migration_Status mg)"

definition VectorOutboxStatus :: "('k, 'x) server \<Rightarrow> outbox_status" where
  "VectorOutboxStatus sv =
     (case sv_outbox sv of None \<Rightarrow> ob_status (new_outbox []) | Some ob \<Rightarrow> Outbox_Status ob)"

subsection \<open>Reindexing\<close>

definition reindex_record ::
  "embedder \<Rightarrow> 'x index_ops \<Rightarrow> DocumentRecord \<Rightarrow> 'x \<Rightarrow> (Status option \<times> 'x) option" where
  "reindex_record emb ix r x =
     (case record_embedding emb r of
        Inl e \<Rightarrow> Some (Some e, x)
      | Inr e \<Rightarrow>
          (case ix_upsert ix r (emb_values e) x of
             (status, x') \<Rightarrow> Some (if \<not> ok status then Some status else None, x')))"

definition ReindexDocuments ::
  "'k kv_ops \<Rightarrow> 'x index_ops \<Rightarrow> string \<Rightarrow> fs \<times> ('k, 'x) server \<Rightarrow> (Status \<times> fs \<times> ('k, 'x) server) option" where
  "ReindexDocuments kv ix c = (\<lambda>(s, sv).
     let c1 = effective_collection (sv_config sv) c in
     if \<not> sv_started sv then Some (not_started, s, sv)
     else map_option (\<lambda>(stop, x).
       case stop of
         Some e \<Rightarrow> (e, s, sv\<lparr>sv_index := x\<rparr>)
       | None \<Rightarrow> (case ix_flush ix (s, x) of (status, s', x') \<Rightarrow> (status, s', sv\<lparr>sv_index := x'\<rparr>)))
       (page_loop (\<lambda>b. kv_range kv c1 b [] 1000 (sv_kv sv)) 1000
         (each_document (reindex_record (sv_embedder sv) ix)) [] (sv_index sv)))"

end
