(* ===== verification/Server_Properties.thy ===== *)
theory Server_Properties
  imports Server Migration_Properties
begin

text \<open>
  Properties of the gateway server, which rest on those of its parts: a call that the guards
  refuse changes nothing, an acknowledged document is read back and is in the index or waits
  for it, and reindexing puts every document of a collection back into the index.
\<close>

subsection \<open>Calls that are refused\<close>

datatype mutation_call =
    UpsertCall DocumentRecord string
  | DeleteDocumentCall string string string
  | PutCall DocumentRecord string
  | BatchCall "DocumentRecord list" string
  | DeleteKvCall string string string

fun serve ::
  "server_env \<Rightarrow> 'k kv_ops \<Rightarrow> 'x index_ops \<Rightarrow> mutation_call \<Rightarrow> fs \<times> ('k, 'x) server \<Rightarrow>
     (Status \<times> fs \<times> ('k, 'x) server) option" where
  "serve env kv ix (UpsertCall r t) = UpsertDocument env kv ix r t"
| "serve env kv ix (DeleteDocumentCall c k t) = DeleteDocument env kv ix c k t"
| "serve env kv ix (PutCall r t) = PutKvRecord env kv r t"
| "serve env kv ix (BatchCall rs t) = PutKvRecords env kv rs t"
| "serve env kv ix (DeleteKvCall c k t) = DeleteKvRecord env kv c k t"

text \<open>The keys that a call would change.\<close>

fun targets :: "mutation_call \<Rightarrow> (string \<times> string) list" where
  "targets (UpsertCall r t) = [(doc_collection r, doc_key r)]"
| "targets (DeleteDocumentCall c k t) = [(c, k)]"
| "targets (PutCall r t) = [(doc_collection r, doc_key r)]"
| "targets (BatchCall rs t) = map (\<lambda>r. (doc_collection r, doc_key r)) rs"
| "targets (DeleteKvCall c k t) = [(c, k)]"

definition owned_remotely :: "server_env \<Rightarrow> ('k, 'x) server \<Rightarrow> string \<Rightarrow> string \<Rightarrow> bool" where
  "owned_remotely env sv c k \<longleftrightarrow> (\<exists>d. DescribeRoute env sv c k = Some d \<and> remote d)"

lemma effective_collection_again [simp]:
  "effective_collection cfg (effective_collection cfg c) = effective_collection cfg c"
  by (simp add: effective_collection_def)

lemma DescribeRoute_effective [simp]:
  "DescribeRoute env sv (effective_collection (sv_config sv) c) k = DescribeRoute env sv c k"
  by (simp add: DescribeRoute_def)

lemma refuse_remote_owned:
  "owned_remotely env sv c k \<Longrightarrow> \<exists>e. refuse_remote env subject t c k sv = Some (Some e) \<and> \<not> ok e"
  by (auto simp: owned_remotely_def refuse_remote_def)

lemma refuse_remote_effective [simp]:
  "refuse_remote env subject t (effective_collection (sv_config sv) c) k sv = refuse_remote env subject t c k sv"
  by (simp add: refuse_remote_def)

lemma refuse_remote_returns: "DescribeRoute env sv c k \<noteq> None \<Longrightarrow> refuse_remote env subject t c k sv \<noteq> None"
  by (simp add: refuse_remote_def)

lemma refuse_remote_not_ok: "refuse_remote env subject t c k sv = Some (Some e) \<Longrightarrow> \<not> ok e"
  by (auto simp: refuse_remote_def split: if_splits)

lemma check_batch_refuses:
  assumes "\<exists>r \<in> set rs. owned_remotely env sv (doc_collection r) (doc_key r)"
    and "\<forall>r \<in> set rs. DescribeRoute env sv (doc_collection r) (doc_key r) \<noteq> None"
  shows "\<exists>e. check_batch env t sv rs seen checked = Some (Inl e) \<and> \<not> ok e"
  using assms
proof (induction rs arbitrary: seen checked)
  case (Cons r rs)
  let ?r = "r\<lparr>doc_collection := effective_collection (sv_config sv) (doc_collection r)\<rparr>"
  obtain refusal where refusal: "refuse_remote env ''kv record'' t (doc_collection r) (doc_key r) sv = Some refusal"
    using refuse_remote_returns Cons.prems(2) by fastforce
  show ?case
  proof (cases refusal)
    case None
    then have "\<not> owned_remotely env sv (doc_collection r) (doc_key r)"
      using refuse_remote_owned [of env sv "doc_collection r" "doc_key r" "''kv record''" t] refusal by auto
    with Cons.IH [of "insert (batch_key ?r) seen" "checked @ [?r]"] Cons.prems refusal None show ?thesis
      by (auto simp: Let_def)
  next
    case (Some e)
    with refusal refuse_remote_not_ok show ?thesis by (fastforce simp: Let_def)
  qed
qed simp


text \<open>A server whose ring has one other node, which then owns every key.\<close>

definition sample_server_env :: server_env where
  "sample_server_env = \<lparr>sn_pb = plain_pb, sn_hash = (\<lambda>_. 0), sn_unix_millis = 9, sn_steady = 0, sn_latency_us = 1,
     sn_new_trace_id = ''x'', sn_search = in_time_env, sn_cpu = [], sn_disk = [], sn_workers = 4, sn_pending_tasks = 0\<rparr>"

definition sample_server :: "(wal_store, vector_store) server" where
  "sample_server = \<lparr>sv_config = default_config\<lparr>cfg_node_id := ''a''\<rparr>, sv_kv = new_wal_store ''w'' ''s'',
     sv_embedder = constant_embedder, sv_index = new_vector_store ''i'', sv_router = new_router ''a'' 1 1,
     sv_metrics = new_metrics, sv_limiter = new_rate_limiter 10 0, sv_discovery = None, sv_migration = None,
     sv_outbox = Some (new_outbox ''o''), sv_counter = 0, sv_started = True\<rparr>"

definition guest_server :: "(wal_store, vector_store) server" where
  "guest_server = sample_server\<lparr>sv_router := \<lparr>local_node_id = ''a'', virtual_nodes = 1, slot_count = 1,
     router_nodes = [new_node ''b'' ''h'' 1], router_ring = [(0, 0)]\<rparr>\<rparr>"

lemma guest_route: "DescribeRoute sample_server_env guest_server c k =
    Some \<lparr>route_primary = new_node ''b'' ''h'' 1, route_replicas = [new_node ''b'' ''h'' 1],
      route_local_owner = False, route_has_primary = True, route_slot_id = 0\<rparr>"
  by (simp add: DescribeRoute_def Route_def guest_server_def sample_server_def sample_server_env_def SlotFor_def
      desired_replicas_def ring_start_def omap_lower_bound_def select_loop_def while_option_unfold select_step_def
      default_config_def new_node_def Let_def)


subsection \<open>Acknowledged documents\<close>

text \<open>A document that waits in the outbox or is in the index with its vector.\<close>

definition cared :: "embedder \<Rightarrow> ('x \<Rightarrow> string \<Rightarrow> VectorEntry option) \<Rightarrow> DocumentRecord \<Rightarrow> outbox \<Rightarrow> 'x \<Rightarrow> bool" where
  "cared emb vectors r ob x \<longleftrightarrow> map_of (pending ob) (document_key r) = Some r \<or>
     map_of (pending ob) (document_key r) = None \<and>
     (\<exists>v. indexable emb r = Some v \<and> vectors x (document_key r) = Some \<lparr>ve_record = r, ve_vector = v\<rparr>)"

lemma drain_finish_pending:
  assumes "drain_finish pb key status (s, ob) = (out, s', ob')"
  shows "pending ob' = (if ok status then omap_erase key (pending ob) else pending ob)"
  using assms by (auto simp: drain_finish_def RecordError_def Let_def split: if_splits prod.splits)

context vector_index
begin

lemma index_step_cared:
  assumes "embedder_ok emb" and "map_inv (pending ob)" and "map_of (pending ob) key = Some r'"
    and "IndexRecord emb upsert r' x = (status, x')" and "drain_finish pb key status (s, ob) = (out, s', ob')"
    and "cared emb vectors r ob x"
  shows "cared emb vectors r ob' x'"
proof -
  have key: "document_key r' = key" using assms(2,3) map_inv_lookup by blast
  note spec = IndexRecord_indexable [OF assms(1,4)] and pend = drain_finish_pending [OF assms(5)]
  show ?thesis
  proof (cases "indexable emb r'")
    case None
    with spec pend assms(6) show ?thesis by (simp add: cared_def)
  next
    case (Some v)
    with spec have x': "vectors x' = (vectors x)(key \<mapsto> \<lparr>ve_record = r', ve_vector = v\<rparr>)" and "ok status"
      by (simp_all add: key)
    with pend have pend': "map_of (pending ob') = (map_of (pending ob))(key := None)" by simp
    show ?thesis
    proof (cases "document_key r = key")
      case True
      with assms(3,6) Some have "r' = r" by (simp add: cared_def)
      with True Some show ?thesis by (simp add: cared_def x' pend')
    next
      case False
      with assms(6) pend' x' show ?thesis by (simp add: cared_def)
    qed
  qed
qed

lemma drain_keys_cared:
  assumes "embedder_ok emb" and "map_inv (pending ob)" and "cared emb vectors r ob x"
    and "drain_keys pb emb upsert keys (s, ob, x) = (status, s', ob', x')"
  shows "cared emb vectors r ob' x'"
  using assms(2-4)
proof (induction keys arbitrary: s ob x)
  case (Cons key keys)
  show ?case
  proof (cases "map_of (pending ob) key")
    case None
    with Cons show ?thesis by simp
  next
    case (Some r')
    obtain st1 x1 where ix: "IndexRecord emb upsert r' x = (st1, x1)" by (cases "IndexRecord emb upsert r' x")
    obtain out s1 ob1 where fin: "drain_finish pb key st1 (s, ob) = (out, s1, ob1)"
      by (cases "drain_finish pb key st1 (s, ob)")
    have c: "cared emb vectors r ob1 x1"
      by (rule index_step_cared [OF assms(1) Cons.prems(1) Some ix fin Cons.prems(2)])
    have m: "map_inv (pending ob1)" using drain_finish_pending [OF fin] Cons.prems(1) by simp
    from Cons.prems(3) Some ix fin Cons.IH [OF m c] c show ?thesis by (cases out) auto
  qed
qed simp

end

lemma Enqueue_pending:
  "Enqueue pb r (s, ob) = (status, s', ob') \<Longrightarrow> pending ob' = omap_put (document_key r) r (pending ob)"
  by (auto simp: Enqueue_def RecordError_def set_state_def count_pending_def Let_def split: if_splits prod.splits)

lemma enqueue_and_drain_cared:
  assumes "enqueue_and_drain env (brute_ops pb fp) r (s, sv) = (Ok, s', sv')" and "embedder_ok (sv_embedder sv)"
    and "sv_outbox sv = Some ob" and "map_inv (pending ob)"
  shows "\<exists>ob'. sv_outbox sv' = Some ob' \<and>
    cared (sv_embedder sv) (\<lambda>x. map_of (entries x)) r ob' (sv_index sv')"
    and "sv_kv sv' = sv_kv sv" "sv_config sv' = sv_config sv" "sv_router sv' = sv_router sv" "sv_started sv' = sv_started sv"
proof -
  obtain status s1 ob1 where enq: "Enqueue (sn_pb env) r (s, ob) = (status, s1, ob1)" by (cases "Enqueue (sn_pb env) r (s, ob)")
  obtain dst s2 ob2 x2 where dr: "DrainOnce (sn_pb env) (sv_embedder sv) Index_Upsert (s1, ob1, sv_index sv) = (dst, s2, ob2, x2)"
    by (cases "DrainOnce (sn_pb env) (sv_embedder sv) Index_Upsert (s1, ob1, sv_index sv)")
  from assms(1,3) enq dr have "ok status" and sv': "sv' = sv\<lparr>sv_outbox := Some ob2, sv_index := x2\<rparr>"
    by (auto simp: enqueue_and_drain_def split: if_splits)
  have inv: "map_inv (pending ob1)" and here: "map_of (pending ob1) (document_key r) = Some r"
    using Enqueue_pending [OF enq] assms(4) by simp_all
  from dr have "drain_keys (sn_pb env) (sv_embedder sv) Index_Upsert (map fst (pending ob1))
      (s1, set_state (if pending ob1 = [] then ''idle'' else ''indexing'') ob1, sv_index sv) = (dst, s2, ob2, x2)"
    by (simp add: DrainOnce_def drain_begin_def)
  from brute_index.drain_keys_cared [OF assms(2) _ _ this, of r] inv here
  have "cared (sv_embedder sv) (\<lambda>x. map_of (entries x)) r ob2 x2" by (simp add: cared_def set_state_def)
  with sv' show "\<exists>ob'. sv_outbox sv' = Some ob' \<and> cared (sv_embedder sv) (\<lambda>x. map_of (entries x)) r ob' (sv_index sv')"
    by simp
  show "sv_kv sv' = sv_kv sv" "sv_config sv' = sv_config sv" "sv_router sv' = sv_router sv" "sv_started sv' = sv_started sv"
    using sv' by simp_all
qed

text \<open>The document as it is stored: with its collection and its mutation filled in.\<close>

definition completed :: "server_env \<Rightarrow> ('k, 'x) server \<Rightarrow> DocumentRecord \<Rightarrow> DocumentRecord" where
  "completed env sv r = fst (PrepareMutation (sn_unix_millis env) (cfg_node_id (sv_config sv))
     (r\<lparr>doc_collection := effective_collection (sv_config sv) (doc_collection r)\<rparr>, sv_counter sv))"

lemma document_key_completed:
  "document_key (completed env sv r) = BuildCompositeKey (effective_collection (sv_config sv) (doc_collection r)) (doc_key r)"
  by (simp add: completed_def PrepareMutation_def document_key_def Let_def)

lemma Wal_Put_Ok:
  assumes "Wal_Put pb r (s, st) = (status, s', st')" and "ok status"
  shows "\<exists>e. map_of (records st') (document_key r) = Some e \<and>
    (e = r \<or> map_of (records st) (document_key r) = Some e \<and> IsDuplicateMutation e r)"
  using assms(1)
proof (cases rule: Wal_Put_cases)
  case (stale e)
  then have "\<not> ok (ValidateMutation e r)" by (simp add: accepts_def)
  with stale(3) assms(2) show ?thesis by simp
qed simp_all

text \<open>
  C17: an upsert that is acknowledged is read back under its key, as it was completed or, for
  the retry of a mutation, as it was stored before; and the document is in the index with its
  vector, or it waits for it in the outbox.
\<close>

theorem acknowledged_document_is_read_back_and_indexed:
  assumes "UpsertDocument env (wal_ops pb) (brute_ops pb fp) r t (s, sv) = Some (Ok, s', sv')"
    and "sv_outbox sv = Some ob" and "map_inv (pending ob)" and "embedder_ok (sv_embedder sv)"
  shows "(\<exists>stored. GetKvRecord env (wal_ops pb) (doc_collection r) (doc_key r) t sv' = Some (Inr stored) \<and>
      (stored = completed env sv r \<or> map_of (records (sv_kv sv)) (document_key (completed env sv r)) = Some stored \<and>
         IsDuplicateMutation stored (completed env sv r))) \<and>
    (\<exists>ob'. sv_outbox sv' = Some ob' \<and>
       cared (sv_embedder sv) (\<lambda>x. map_of (entries x)) (completed env sv r) ob' (sv_index sv'))"
proof -
  let ?r1 = "r\<lparr>doc_collection := effective_collection (sv_config sv) (doc_collection r)\<rparr>" and ?r2 = "completed env sv r"
  have started: "sv_started sv" "doc_key r \<noteq> []"
    using assms(1) by (auto simp: UpsertDocument_def not_started_def read_only_def Let_def split: if_splits)
  obtain refusal where route: "refuse_remote env ''document'' (EnsureTraceId env t) (doc_collection r) (doc_key r) sv = Some refusal"
    using assms(1) started by (auto simp: UpsertDocument_def read_only_def Let_def split: if_splits)
  have local: "refusal = None"
    using assms(1) started route refuse_remote_not_ok [of env "''document''" "EnsureTraceId env t" "doc_collection r" "doc_key r" sv]
    by (cases refusal) (auto simp: UpsertDocument_def read_only_def Let_def split: if_splits)
  obtain counter where prep: "PrepareMutation (sn_unix_millis env) (cfg_node_id (sv_config sv)) (?r1, sv_counter sv) = (?r2, counter)"
    unfolding completed_def by (metis prod.collapse)
  obtain status s1 st where put: "Wal_Put pb ?r2 (s, sv_kv sv) = (status, s1, st)" by (cases "Wal_Put pb ?r2 (s, sv_kv sv)")
  let ?sv = "sv\<lparr>sv_counter := counter, sv_kv := st\<rparr>"
  have "(if \<not> ok status then (status, s1, ?sv) else enqueue_and_drain env (brute_ops pb fp) ?r2 (s1, ?sv)) = (Ok, s', sv')"
    using assms(1) started route local prep put
    by (simp add: UpsertDocument_def read_only_def Let_def split: if_splits)
  then have okay: "ok status" and rest: "enqueue_and_drain env (brute_ops pb fp) ?r2 (s1, ?sv) = (Ok, s', sv')"
    by (auto split: if_splits)
  note kept = enqueue_and_drain_cared [OF rest, of ob]
  have same: "sv_kv sv' = st" "sv_config sv' = sv_config sv" "sv_router sv' = sv_router sv" "sv_started sv' = sv_started sv"
    using kept(2-5) assms(2-4) by simp_all
  obtain e where e: "map_of (records st) (document_key ?r2) = Some e"
    and stored: "e = ?r2 \<or> map_of (records (sv_kv sv)) (document_key ?r2) = Some e \<and> IsDuplicateMutation e ?r2"
    using Wal_Put_Ok [OF put okay] by blast
  have "refuse_remote env ''kv record'' (EnsureTraceId env t) (doc_collection r) (doc_key r) sv' = Some None"
    using route local same by (auto simp: refuse_remote_def DescribeRoute_def split: if_splits)
  then have "GetKvRecord env (wal_ops pb) (doc_collection r) (doc_key r) t sv' = Some (Inr e)"
    using e started same refuse_remote_effective [of env "''kv record''" "EnsureTraceId env t" sv']
    by (simp add: GetKvRecord_def Wal_Get_def document_key_completed Let_def)
  with stored show ?thesis using kept(1) assms(2-4) by auto
qed

lemma sample_server_simps:
  "sv_started sample_server" "\<not> cfg_read_only_mode (sv_config sample_server)" "cfg_node_id (sv_config sample_server) = ''a''"
  "sv_counter sample_server = 0" "sv_kv sample_server = new_wal_store ''w'' ''s''" "sv_outbox sample_server = Some (new_outbox ''o'')"
  "sv_embedder sample_server = constant_embedder" "sn_unix_millis sample_server_env = 9" "sn_pb sample_server_env = plain_pb"
  by (simp_all add: sample_server_def sample_server_env_def default_config_def)

lemma home_refusal: "refuse_remote sample_server_env subject t c k sample_server = Some None"
  by (simp add: refuse_remote_def DescribeRoute_def Route_def sample_server_def new_router_def remote_def empty_decision_def)

theorem acknowledged_document_is_read_back_and_indexed_witness:
  "\<exists>s' sv' stored ob'. UpsertDocument sample_server_env (wal_ops plain_pb) (brute_ops plain_pb plain_fp) waiting_document ''t''
      (empty_fs, sample_server) = Some (Ok, s', sv') \<and>
    GetKvRecord sample_server_env (wal_ops plain_pb) ''c'' ''a'' ''t'' sv' = Some (Inr stored) \<and>
    sv_outbox sv' = Some ob' \<and>
    cared constant_embedder (\<lambda>x. map_of (entries x)) (completed sample_server_env sample_server waiting_document) ob' (sv_index sv')"
proof -
  let ?r = "completed sample_server_env sample_server waiting_document"
  obtain counter where prep: "PrepareMutation 9 ''a''
      (waiting_document\<lparr>doc_collection := effective_collection (sv_config sample_server) (doc_collection waiting_document)\<rparr>, 0) = (?r, counter)"
    by (simp add: completed_def sample_server_simps) (metis prod.collapse)
  have new: "\<forall>e. map_of (records (new_wal_store ''w'' ''s'')) (document_key ?r) = Some e \<longrightarrow>
      ok (ValidateMutation e ?r) \<and> \<not> IsDuplicateMutation e ?r"
    by (simp add: new_wal_store_def)
  obtain s1 st where put: "Wal_Put plain_pb ?r (empty_fs, new_wal_store ''w'' ''s'') = (Ok, s1, st)" and usable: "usable s1 ''o''"
    using Wal_Put_stored [OF new, of plain_pb empty_fs]
    by (auto simp: AppendWalLocked_def append_entries_def new_wal_store_def ShouldRewriteLegacyWal_def EnsureParentDirectory_def
        file_exists_def empty_fs_def usable_def parent_path_def rfind_char_def Let_def)
  let ?sv = "sample_server\<lparr>sv_counter := counter, sv_kv := st\<rparr>"
  have "\<exists>s2 sv2. enqueue_and_drain sample_server_env (brute_ops plain_pb plain_fp) ?r (s1, ?sv) = (Ok, s2, sv2)"
  proof -
    have "\<exists>s2 ob2. Enqueue plain_pb ?r (s1, new_outbox ''o'') = (Ok, s2, ob2)"
      using RewriteLocked_usable [of s1 "set_state ''pending'' (count_pending ((new_outbox ''o'')\<lparr>pending :=
          omap_put (document_key ?r) ?r (pending (new_outbox ''o''))\<rparr>))" plain_pb] usable
      by (simp add: Enqueue_def set_state_def count_pending_def new_outbox_def Let_def)
    then show ?thesis
      by (auto simp: enqueue_and_drain_def sample_server_simps split: prod.splits)
  qed
  then obtain s2 sv2 where rest: "enqueue_and_drain sample_server_env (brute_ops plain_pb plain_fp) ?r (s1, ?sv) = (Ok, s2, sv2)"
    by blast
  have w: "doc_collection waiting_document = ''c''" "doc_key waiting_document = ''a''"
    by (simp_all add: waiting_document_def sample_entry_def)
  have "UpsertDocument sample_server_env (wal_ops plain_pb) (brute_ops plain_pb plain_fp) waiting_document ''t''
      (empty_fs, sample_server) = Some (Ok, s2, sv2)"
    using prep put rest by (simp add: UpsertDocument_def home_refusal sample_server_simps w Let_def)
  from acknowledged_document_is_read_back_and_indexed [OF this, of "new_outbox ''o''"] this
  show ?thesis by (auto simp: sample_server_simps constant_embedder_ok new_outbox_def w)
qed

subsection \<open>Reindexing\<close>

definition indexed_entry :: "embedder \<Rightarrow> DocumentRecord \<Rightarrow> VectorEntry" where
  "indexed_entry emb r = \<lparr>ve_record = r, ve_vector = the (indexable emb r)\<rparr>"

lemma reindex_record_indexable:
  assumes "indexable emb r \<noteq> None"
  shows "reindex_record emb (brute_ops pb fp) r x = Some (None, x\<lparr>entries := put_vector (indexed_entry emb r) (entries x)\<rparr>)"
  using assms
  by (auto simp: reindex_record_def indexable_def indexed_entry_def Index_Upsert_def split: sum.splits if_splits)

lemma reindex_all:
  "\<forall>r \<in> set rs. indexable emb r \<noteq> None \<Longrightarrow>
   each_document (reindex_record emb (brute_ops pb fp)) rs x =
     Some (None, x\<lparr>entries := fold (\<lambda>r. put_vector (indexed_entry emb r)) rs (entries x)\<rparr>)"
  by (induction rs arbitrary: x) (simp_all add: reindex_record_indexable)

lemma fold_put_vector:
  assumes "sorted_wrt (\<lambda>r r'. doc_key r < doc_key r') rs" and "\<forall>r \<in> set rs. doc_collection r = c"
  shows "map_of (fold (\<lambda>r. put_vector (indexed_entry emb r)) rs m) k =
    (case find (\<lambda>r. document_key r = k) rs of Some r \<Rightarrow> Some (indexed_entry emb r) | None \<Rightarrow> map_of m k)"
  using assms
proof (induction rs arbitrary: m)
  case (Cons r rs)
  have "document_key r' \<noteq> document_key r" if "r' \<in> set rs" for r'
  proof -
    have "doc_collection r' = doc_collection r" "doc_key r < doc_key r'" using Cons.prems that by simp_all
    then show ?thesis by (simp add: document_key_def BuildCompositeKey_def)
  qed
  then have "find (\<lambda>r'. document_key r' = document_key r) rs = None" by (auto simp: find_None_iff)
  with Cons show ?case
    by (auto simp: put_vector_def indexed_entry_def split: option.splits)
qed simp

text \<open>
  C19: reindexing a collection returns; if every document that its pages show can be embedded,
  each is in the index afterwards with its own vector, every other entry is as before, and the
  snapshot file holds the index.
\<close>

theorem reindexing_restores_the_index:
  assumes "sv_started sv" and "pages_ok (effective_collection (sv_config sv) c) (sv_kv sv)"
    and "usable s (index_path (sv_index sv))"
    and "\<forall>r \<in> set (paged_documents (effective_collection (sv_config sv) c) (sv_kv sv)). indexable (sv_embedder sv) r \<noteq> None"
  shows "\<exists>s' sv'. ReindexDocuments (wal_ops pb) (brute_ops pb fp) c (s, sv) = Some (Ok, s', sv') \<and>
    (\<forall>k. map_of (entries (sv_index sv')) k =
      (case find (\<lambda>r. document_key r = k) (paged_documents (effective_collection (sv_config sv) c) (sv_kv sv)) of
         Some r \<Rightarrow> Some (indexed_entry (sv_embedder sv) r)
       | None \<Rightarrow> map_of (entries (sv_index sv)) k)) \<and>
    fs_files s' (index_path (sv_index sv)) = Some (index_bytes pb (entries (sv_index sv')))"
proof -
  let ?c = "effective_collection (sv_config sv) c" and ?x = "sv_index sv" and ?emb = "sv_embedder sv"
  let ?docs = "paged_documents ?c (sv_kv sv)"
  let ?x' = "?x\<lparr>entries := fold (\<lambda>r. put_vector (indexed_entry ?emb r)) ?docs (entries ?x)\<rparr>"
  let ?s' = "write_file (index_path ?x) (index_bytes pb (entries ?x')) s"
  have "page_loop (\<lambda>b. Wal_Range ?c b [] 1000 (sv_kv sv)) 1000 (each_document (reindex_record ?emb (brute_ops pb fp))) [] ?x =
      each_document (reindex_record ?emb (brute_ops pb fp)) ?docs ?x"
    using wal_pages.page_loop_all [OF assms(2), of id 1000 "reindex_record ?emb (brute_ops pb fp)" "[]" ?x]
    by (simp add: map_sum.id)
  also have "\<dots> = Some (None, ?x')" by (rule reindex_all [OF assms(4)])
  finally have "ReindexDocuments (wal_ops pb) (brute_ops pb fp) c (s, sv) = Some (Ok, ?s', sv\<lparr>sv_index := ?x'\<rparr>)"
    using assms(1,3)
    by (simp add: ReindexDocuments_def Index_FlushSnapshot_def usable_EnsureParentDirectory usable_def [of s] Let_def)
  moreover have "map_of (entries ?x') k = (case find (\<lambda>r. document_key r = k) ?docs of
      Some r \<Rightarrow> Some (indexed_entry ?emb r) | None \<Rightarrow> map_of (entries ?x) k)" for k
    using fold_put_vector [OF paged_documents_sorted [of "sv_kv sv" ?c], of ?c ?emb "entries ?x" k] assms(2)
    by (simp add: pages_ok_def paged_documents_def)
  ultimately show ?thesis by auto
qed

theorem reindexing_restores_the_index_witness:
  "\<exists>s' sv'. ReindexDocuments (wal_ops plain_pb) (brute_ops plain_pb plain_fp) ''c''
      (empty_fs, sample_server\<lparr>sv_kv := sample_wal\<rparr>) = Some (Ok, s', sv') \<and>
    map_of (entries (sv_index sv')) (document_key misplaced) = Some (indexed_entry constant_embedder misplaced)"
proof -
  let ?sv = "sample_server\<lparr>sv_kv := sample_wal\<rparr>"
  have c: "effective_collection (sv_config ?sv) ''c'' = ''c''" by (simp add: effective_collection_def)
  have u: "usable empty_fs (index_path (sv_index ?sv))"
    by (simp add: sample_server_def usable_def empty_fs_def)
  from reindexing_restores_the_index [of ?sv "''c''" empty_fs plain_pb plain_fp]
  show ?thesis
    unfolding c using sample_wal_pages by (auto simp: sample_server_simps constant_embedder_ok)
qed

end
