(* ===== verification/Server_Lifecycle.thy ===== *)
theory Server_Lifecycle
  imports Server
begin

text \<open>
  The rest of \<open>src/gateway/server.cpp\<close>: the constructor, \<open>Start\<close>, \<open>Stop\<close>, the demo data, the
  health report and the OpenAPI text, and \<open>CreateKvStore\<close> of \<open>src/core/kv_store.cpp\<close> in the
  build without RocksDB (\<open>Rocks_Store\<close> has the other one). What \<open>Start\<close> opens is given by a \<open>factory\<close>, so that the sequence of
  the steps does not depend on the backends. The first \<open>Start\<close> of an object is modelled; the
  workers that it starts take their steps in the theories of their components.
\<close>

subsection \<open>Opening the parts\<close>

definition CreateKvStore :: "pb_api \<Rightarrow> ServerConfig \<Rightarrow> fs \<Rightarrow> wal_store StatusOr outcome \<times> fs" where
  "CreateKvStore pb cfg s =
     (let backend = cfg_storage_backend cfg in
      if backend = ''rocksdb''
      then (Ret (Inl (NotSupported ''rocksdb backend requested but library is not available in this build'')), s)
      else if backend \<noteq> ''wal'' \<and> backend \<noteq> ''auto''
      then (Ret (Inl (InvalidArgument (''unsupported storage backend: '' @ backend))), s)
      else CreateWalStore pb (cfg_wal_path cfg) (cfg_snapshot_path cfg) s)"

record ('k, 'x) factory =
  fc_kv :: "ServerConfig \<Rightarrow> fs \<Rightarrow> 'k StatusOr outcome \<times> fs"
  fc_kv_destroy :: "fs \<times> 'k \<Rightarrow> fs"
  fc_embedder :: "ServerConfig \<Rightarrow> embedder StatusOr"
  fc_index :: "ServerConfig \<Rightarrow> fs \<Rightarrow> 'x StatusOr outcome \<times> fs"

definition local_factory ::
  "pb_api \<Rightarrow> fp_api \<Rightarrow> (string \<Rightarrow> 64 word) \<Rightarrow> f32_api \<Rightarrow> (wal_store, vector_store) factory" where
  "local_factory pb fp hash ar = \<lparr>fc_kv = CreateKvStore pb, fc_kv_destroy = Wal_destroy pb,
     fc_embedder = (\<lambda>cfg. CreateEmbeddingService hash fp ar (cfg_ai_backend cfg) (cfg_embedding_dimensions cfg)),
     fc_index = (\<lambda>cfg. CreateVectorIndex pb fp (cfg_search_backend cfg) (cfg_index_path cfg))\<rparr>"

text \<open>A server as the constructor leaves it; the counter is that of the process.\<close>

record idle_server =
  id_config :: ServerConfig
  id_router :: router
  id_limiter :: rate_limiter
  id_counter :: "64 word"

definition new_server :: "ServerConfig \<Rightarrow> int \<Rightarrow> 64 word \<Rightarrow> idle_server" where
  "new_server cfg now counter = \<lparr>id_config = cfg,
     id_router = new_router (cfg_node_id cfg) 64 (cfg_cluster_slot_count cfg),
     id_limiter = new_rate_limiter (cfg_rate_limit_per_second cfg) now, id_counter = counter\<rparr>"

definition opened_server :: "idle_server \<Rightarrow> 'k \<Rightarrow> embedder \<Rightarrow> 'x \<Rightarrow> outbox \<Rightarrow> ('k, 'x) server" where
  "opened_server idle kv emb x ob = \<lparr>sv_config = id_config idle, sv_kv = kv, sv_embedder = emb, sv_index = x,
     sv_router = id_router idle, sv_metrics = new_metrics, sv_limiter = id_limiter idle, sv_discovery = None,
     sv_migration = None, sv_outbox = Some ob, sv_counter = id_counter idle, sv_started = False\<rparr>"

subsection \<open>Demo data\<close>

definition demo_documents :: "string \<Rightarrow> DocumentRecord list" where
  "demo_documents c =
    [empty_document\<lparr>doc_collection := c, doc_key := ''doc-001'', doc_title := ''Distributed KV Engine'',
       doc_body := ''RocksDB inspired durable key value pipeline with write ahead log recovery and range scan support.'',
       doc_metadata := [(''domain'', ''storage''), (''lang'', ''cpp'')]\<rparr>,
     empty_document\<lparr>doc_collection := c, doc_key := ''doc-002'', doc_title := ''Semantic Retrieval Worker'',
       doc_body := ''Vector search worker converts text into dense embeddings and runs top k retrieval with graceful degradation.'',
       doc_metadata := [(''domain'', ''search''), (''lang'', ''cpp'')]\<rparr>,
     empty_document\<lparr>doc_collection := c, doc_key := ''doc-003'', doc_title := ''Gateway Observability'',
       doc_body := ''Gateway injects trace identifiers, enforces rate limits and exposes health status for production monitoring.'',
       doc_metadata := [(''domain'', ''gateway''), (''lang'', ''cpp'')]\<rparr>]"

fun enqueue_all :: "pb_api \<Rightarrow> DocumentRecord list \<Rightarrow> fs \<times> outbox option \<Rightarrow> Status \<times> fs \<times> outbox option" where
  "enqueue_all pb [] (s, box) = (Ok, s, box)"
| "enqueue_all pb (r # rs) (s, None) = (Unavailable ''vector index outbox is not initialized'', s, None)"
| "enqueue_all pb (r # rs) (s, Some ob) =
     (case Enqueue pb r (s, ob) of (status, s', ob') \<Rightarrow>
        if \<not> ok status then (status, s', Some ob') else enqueue_all pb rs (s', Some ob'))"

definition drain_some ::
  "server_env \<Rightarrow> 'x index_ops \<Rightarrow> fs \<times> ('k, 'x) server \<Rightarrow> Status \<times> fs \<times> ('k, 'x) server" where
  "drain_some env ix = (\<lambda>(s, sv).
     case sv_outbox sv of
       None \<Rightarrow> (Ok, s, sv)
     | Some ob \<Rightarrow> (case DrainOnce (sn_pb env) (sv_embedder sv) (ix_upsert ix) (s, ob, sv_index sv) of
         (status, s', ob', x') \<Rightarrow> (status, s', sv\<lparr>sv_outbox := Some ob', sv_index := x'\<rparr>)))"

definition SeedDemoData ::
  "server_env \<Rightarrow> 'k kv_ops \<Rightarrow> 'x index_ops \<Rightarrow> fs \<times> ('k, 'x) server \<Rightarrow> Status \<times> fs \<times> ('k, 'x) server" where
  "SeedDemoData env kv ix = (\<lambda>(s, sv).
     let cfg = sv_config sv; c = cfg_default_collection cfg in
     if \<not> cfg_enable_demo_data cfg \<or> cfg_read_only_mode cfg then (Ok, s, sv)
     else if (case kv_range kv c [] [] 1 (sv_kv sv) of Inr rs \<Rightarrow> rs \<noteq> [] | Inl _ \<Rightarrow> False) then (Ok, s, sv)
     else case prepare_all (sn_unix_millis env) (cfg_node_id cfg) (demo_documents c, sv_counter sv) of
       (rs, counter) \<Rightarrow>
         (case kv_batch_put kv rs (s, sv_kv sv) of
            (status, s1, st) \<Rightarrow>
              let sv1 = sv\<lparr>sv_counter := counter, sv_kv := st\<rparr> in
              if \<not> ok status then (status, s1, sv1)
              else (case enqueue_all (sn_pb env) rs (s1, sv_outbox sv1) of
                (status, s2, box) \<Rightarrow>
                  let sv2 = sv1\<lparr>sv_outbox := box\<rparr> in
                  if \<not> ok status then (status, s2, sv2)
                  else (case drain_some env ix (s2, sv2) of
                    (status, s3, sv3) \<Rightarrow>
                      if \<not> ok status then (status, s3, sv3)
                      else (case kv_flush kv (s3, sv_kv sv3) of
                        (_, s4, st') \<Rightarrow> (case ix_flush ix (s4, sv_index sv3) of
                          (_, s5, x') \<Rightarrow> (Ok, s5, sv3\<lparr>sv_kv := st', sv_index := x'\<rparr>)))))))"

subsection \<open>Start and Stop\<close>

definition own_node :: "ServerConfig \<Rightarrow> ClusterNode" where
  "own_node cfg = \<lparr>node_id = cfg_node_id cfg,
     node_host = (if cfg_advertise_host cfg = [] then cfg_host cfg else cfg_advertise_host cfg),
     node_port = cfg_port cfg, node_healthy = True, node_weight = cfg_node_weight cfg, node_zone = cfg_node_zone cfg\<rparr>"

text \<open>Discovery registers the node and calls back after every change of the ring.\<close>

definition start_discovery ::
  "etcd_api \<Rightarrow> json_api \<Rightarrow> (string \<Rightarrow> 64 word) \<Rightarrow> ('k, 'x) server \<Rightarrow> unit outcome \<times> ('k, 'x) server" where
  "start_discovery et js hash sv =
     (let cfg = sv_config sv in
      if cfg_discovery_backend cfg \<noteq> ''etcd'' then (Ret (), sv)
      else
        let d = SetRingChangeCallback (map_option TriggerScan)
              (new_discovery (cfg_etcd_endpoints cfg) (cfg_etcd_prefix cfg) (own_node cfg) (cfg_etcd_lease_ttl_s cfg))
        in case Discovery_Start et js hash (d, sv_router sv, sv_migration sv) of
             (status, d', r, mg) \<Rightarrow>
               let sv' = sv\<lparr>sv_router := r, sv_migration := mg, sv_discovery := Some d'\<rparr> in
               (case status of
                  Throw e \<Rightarrow> (Throw e, sv')
                | Ret st \<Rightarrow> (Ret (), if \<not> ok st then sv'\<lparr>sv_discovery := None\<rparr> else sv')))"

definition stop_migration :: "migration \<Rightarrow> migration" where
  "stop_migration mg = (if \<not> mg_running mg then mg else migration_joined (Migration_Stop mg))"

definition stop_outbox :: "outbox \<Rightarrow> outbox" where
  "stop_outbox ob = (if \<not> ob_running ob then ob else outbox_joined (Outbox_Stop ob))"

definition finish_start ::
  "server_env \<Rightarrow> 'k kv_ops \<Rightarrow> 'x index_ops \<Rightarrow> fs \<times> ('k, 'x) server \<Rightarrow> Status \<times> fs \<times> ('k, 'x) server" where
  "finish_start env kv ix x =
     (case SeedDemoData env kv ix x of
        (status, s, sv) \<Rightarrow>
          if \<not> ok status
          then (status, s, sv\<lparr>sv_migration := map_option stop_migration (sv_migration sv),
                  sv_outbox := map_option stop_outbox (sv_outbox sv)\<rparr>)
          else (Ok, s, (TriggerMigrationScan sv)\<lparr>sv_started := True\<rparr>))"

definition start_opened ::
  "server_env \<Rightarrow> migration_env \<Rightarrow> etcd_api \<Rightarrow> 'k kv_ops \<Rightarrow> 'x index_ops \<Rightarrow> fs \<times> ('k, 'x) server \<Rightarrow>
     Status outcome \<times> fs \<times> ('k, 'x) server" where
  "start_opened env me et kv ix = (\<lambda>(s, sv).
     case ParseStaticClusterNodes (cfg_cluster_nodes (sv_config sv)) of
       Throw e \<Rightarrow> (Throw e, s, sv)
     | Ret (Inl e) \<Rightarrow> (Ret e, s, sv)
     | Ret (Inr nodes) \<Rightarrow>
         let sv1 = sv\<lparr>sv_router := Rebuild (sn_hash env) nodes (sv_router sv)\<rparr> in
         (case Migration_Start me s (new_migration (sv_config sv)) of
            (mg, started) \<Rightarrow>
              let sv2 = sv1\<lparr>sv_migration := Some mg\<rparr> in
              (case started of
                 Throw e \<Rightarrow> (Throw e, s, sv2)
               | Ret _ \<Rightarrow>
                   (case start_discovery et (env_json me) (sn_hash env) sv2 of
                      (Throw e, sv3) \<Rightarrow> (Throw e, s, sv3)
                    | (Ret _, sv3) \<Rightarrow>
                        (case finish_start env kv ix (s, sv3) of (status, s', sv4) \<Rightarrow> (Ret status, s', sv4))))))"

text \<open>No server in the result: nothing was stored in the object, what was opened is closed.\<close>

definition Server_Start ::
  "server_env \<Rightarrow> migration_env \<Rightarrow> etcd_api \<Rightarrow> ('k, 'x) factory \<Rightarrow> 'k kv_ops \<Rightarrow> 'x index_ops \<Rightarrow> idle_server \<Rightarrow> fs \<Rightarrow>
     Status outcome \<times> fs \<times> ('k, 'x) server option" where
  "Server_Start env me et fc kv ix idle s =
     (let cfg = id_config idle in
      case fc_kv fc cfg s of
        (Throw e, s1) \<Rightarrow> (Throw e, s1, None)
      | (Ret (Inl e), s1) \<Rightarrow> (Ret e, s1, None)
      | (Ret (Inr st), s1) \<Rightarrow>
          (case fc_embedder fc cfg of
             Inl e \<Rightarrow> (Ret e, fc_kv_destroy fc (s1, st), None)
           | Inr emb \<Rightarrow>
               (case fc_index fc cfg s1 of
                  (Throw e, s2) \<Rightarrow> (Throw e, fc_kv_destroy fc (s2, st), None)
                | (Ret (Inl e), s2) \<Rightarrow> (Ret e, fc_kv_destroy fc (s2, st), None)
                | (Ret (Inr x), s2) \<Rightarrow>
                    (case Outbox_Recover (sn_pb env) s2 (new_outbox (cfg_vector_index_outbox_path cfg)) of
                       (status, ob) \<Rightarrow>
                         if \<not> ok status then (Ret status, s2, Some (opened_server idle st emb x ob))
                         else (case start_opened env me et kv ix (s2, opened_server idle st emb x (Outbox_Start ob)) of
                           (result, s3, sv) \<Rightarrow> (result, s3, Some sv))))))"

definition Server_Stop ::
  "server_env \<Rightarrow> 'k kv_ops \<Rightarrow> 'x index_ops \<Rightarrow> fs \<times> ('k, 'x) server \<Rightarrow> Status \<times> fs \<times> ('k, 'x) server" where
  "Server_Stop env kv ix = (\<lambda>(s, sv).
     if \<not> sv_started sv then (Ok, s, sv)
     else case drain_some env ix (s, sv\<lparr>sv_discovery := None, sv_migration := None\<rparr>) of
       (_, s1, sv1) \<Rightarrow>
         let sv2 = sv1\<lparr>sv_outbox := map_option stop_outbox (sv_outbox sv1)\<rparr> in
         (case kv_flush kv (s1, sv_kv sv2) of
            (status, s2, st) \<Rightarrow>
              let sv3 = sv2\<lparr>sv_kv := st\<rparr> in
              if \<not> ok status then (status, s2, sv3)
              else (case ix_flush ix (s2, sv_index sv3) of
                (status, s3, x) \<Rightarrow>
                  let sv4 = sv3\<lparr>sv_index := x\<rparr> in
                  if \<not> ok status then (status, s3, sv4)
                  else (Ok, s3, sv4\<lparr>sv_outbox := None, sv_started := False\<rparr>))))"

subsection \<open>Reports\<close>

definition bool_text :: "bool \<Rightarrow> string" where
  "bool_text b = (if b then ''true'' else ''false'')"

definition sword_text :: "64 word \<Rightarrow> string" where
  "sword_text w = to_string_int (sint w)"

text \<open>An error of a part: under its name among the details, and among the warnings.\<close>

definition add_error :: "string \<Rightarrow> string \<Rightarrow> health_report \<Rightarrow> health_report" where
  "add_error name what r = (if what = [] then r else add_warning True what (add_details [(name, what)] r))"

definition server_details :: "server_env \<Rightarrow> ('k, 'x) server \<Rightarrow> (string \<times> string) list" where
  "server_details env sv =
     [(''node_id'', cfg_node_id (sv_config sv)),
      (''discovery_backend'', cfg_discovery_backend (sv_config sv)),
      (''cluster_node_count'', to_string (NodeCount (sv_router sv))),
      (''cluster_slot_count'', to_string (SlotCount (sv_router sv))),
      (''read_only_mode'', bool_text (cfg_read_only_mode (sv_config sv))),
      (''tls_mode'', cfg_tls_mode (sv_config sv)),
      (''cpu_utilization_ratio'', sn_cpu env),
      (''disk_utilization_ratio'', sn_disk env),
      (''thread_pool_workers'', to_string (sn_workers env)),
      (''thread_pool_pending_tasks'', to_string (sn_pending_tasks env))]"

definition migration_details :: "migration_status \<Rightarrow> (string \<times> string) list" where
  "migration_details m =
     [(''data_migration_enabled'', bool_text (ms_enabled m)),
      (''data_migration_state'', ms_state m),
      (''data_migration_pending'', to_string (ms_pending m)),
      (''data_migration_inflight'', to_string (ms_inflight m)),
      (''data_migration_succeeded'', to_string (ms_succeeded m)),
      (''data_migration_failed'', to_string (ms_failed m)),
      (''data_migration_delayed_delete'', to_string (ms_delayed_delete m)),
      (''data_migration_last_scan_unix_ms'', sword_text (ms_last_scan m))]"

definition outbox_details :: "outbox_status \<Rightarrow> (string \<times> string) list" where
  "outbox_details w =
     [(''vector_index_outbox_state'', ob_state w),
      (''vector_index_outbox_pending'', to_string (ob_pending w)),
      (''vector_index_outbox_succeeded'', to_string (ob_succeeded w)),
      (''vector_index_outbox_failed'', to_string (ob_failed w))]"

definition discovery_details :: "discovery_status \<Rightarrow> (string \<times> string) list" where
  "discovery_details d =
     [(''etcd_discovery_available'', bool_text (ds_available d)),
      (''etcd_discovery_running'', bool_text (ds_running d)),
      (''etcd_discovery_degraded'', bool_text (ds_degraded d)),
      (''etcd_discovery_state'', ds_state d),
      (''etcd_lease_id'', sword_text (ds_lease_id d)),
      (''etcd_watch_restart_count'', word_text (ds_watch_restart_count d)),
      (''etcd_keepalive_error_count'', word_text (ds_keepalive_error_count d)),
      (''etcd_ring_rebuild_count'', word_text (ds_ring_rebuild_count d)),
      (''etcd_known_node_count'', to_string (ds_known_node_count d)),
      (''etcd_last_success_unix_ms'', sword_text (ds_last_success_unix_ms d))]"

definition HealthCheck :: "server_env \<Rightarrow> string \<Rightarrow> ('k, 'x) server \<Rightarrow> health_report" where
  "HealthCheck env trace_id sv =
     (let cfg = sv_config sv;
          m = MigrationStatus sv;
          w = VectorOutboxStatus sv;
          r1 = add_details (server_details env sv) (ServiceHealthCheck cfg (sv_metrics sv) (EnsureTraceId env trace_id));
          r2 = add_error ''data_migration_last_error'' (ms_last_error m) (add_details (migration_details m) r1);
          r3 = add_error ''vector_index_outbox_last_error'' (ob_last_error w) (add_details (outbox_details w) r2);
          r4 = add_details [(''remote_forwarding_enabled'', ''false'')] r3
      in case sv_discovery sv of
           Some d \<Rightarrow>
             let ds = dc_status d;
                 r5 = add_error ''etcd_last_error'' (ds_last_error ds) (add_details (discovery_details ds) r4)
             in if ds_degraded ds then r5\<lparr>hr_status := ''DEGRADED''\<rparr> else r5
         | None \<Rightarrow> add_details [(''etcd_discovery_state'',
             if cfg_discovery_backend cfg = ''etcd'' then ''not_started'' else ''disabled'')] r4)"

definition DefaultOpenApiSpec :: string where
  "DefaultOpenApiSpec = concat (map (\<lambda>l. l @ [CHR 0x0A])
     [''openapi: 3.0.3'', ''info:'', ''  title: RangeVecKV Gateway'', ''  version: 0.1.0'', ''paths:'',
      ''  /healthz:'', ''    get:'', ''      summary: Health probe'',
      ''  /metrics:'', ''    get:'', ''      summary: Prometheus metrics'',
      ''  /v1/search:'', ''    get:'', ''      summary: Semantic search'', ''    post:'', ''      summary: Semantic search''])"

definition OpenApiSpec :: "fs \<Rightarrow> ServerConfig \<Rightarrow> string" where
  "OpenApiSpec s cfg =
     (case ReadWholeFile [] s (cfg_openapi_path cfg) of
        Inl _ \<Rightarrow> DefaultOpenApiSpec
      | Inr bytes \<Rightarrow>
          let content = concat (map (\<lambda>l. l @ [CHR 0x0A]) (getlines CHR 0x0A bytes))
          in if content = [] then DefaultOpenApiSpec else content)"

end
