(* ===== verification/Json_Api.thy ===== *)
theory Json_Api
  imports Search_Service Migration
begin

text \<open>
  \<open>src/gateway/json_helpers.cpp\<close>: the JSON of the answers, the readers of request bodies, and
  the text of an HTTP response. The readers never throw: a member that is absent or of another
  type leaves the default value.
\<close>

subsection \<open>Answers\<close>

definition health_json :: "health_report \<Rightarrow> json" where
  "health_json r = json_object
     [(''trace_id'', JString (hr_trace_id r)), (''status'', JString (hr_status r)),
      (''version'', JString (hr_version r)), (''warnings'', JArray (map JString (hr_warnings r))),
      (''details'', strings_object (hr_details r))]"

definition hit_json :: "hit \<Rightarrow> json" where
  "hit_json h = json_object
     [(''key'', JString (hit_key h)), (''title'', JString (hit_title h)), (''snippet'', JString (hit_snippet h)),
      (''score'', JFloat (hit_score h)), (''metadata'', strings_object (hit_metadata h))]"

definition result_json :: "search_result \<Rightarrow> json" where
  "result_json a = json_object
     [(''trace_id'', JString (sr_trace_id a)), (''degraded'', JBool (sr_degraded a)),
      (''message'', JString (sr_message a)), (''hits'', JArray (map hit_json (sr_hits a)))]"

definition endpoint_json :: "ClusterNode \<Rightarrow> json" where
  "endpoint_json n = json_object
     [(''id'', JString (node_id n)), (''host'', JString (node_host n)), (''port'', word_json (node_port n)),
      (''weight'', word_json (node_weight n)), (''zone'', JString (node_zone n))]"

definition route_json :: "RouteDecision \<Rightarrow> json" where
  "route_json r = json_object
     [(''has_primary'', JBool (route_has_primary r)), (''local_owner'', JBool (route_local_owner r)),
      (''slot_id'', word_json (route_slot_id r)), (''primary'', endpoint_json (route_primary r)),
      (''replicas'', JArray (map endpoint_json (route_replicas r)))]"

definition record_json :: "DocumentRecord \<Rightarrow> json" where
  "record_json r = json_object
     [(''collection'', JString (doc_collection r)), (''key'', JString (doc_key r)), (''title'', JString (doc_title r)),
      (''body'', JString (doc_body r)), (''value'', JString (doc_body r)), (''metadata'', strings_object (doc_metadata r)),
      (''version'', word_json (doc_version r)), (''updated_at_unix_ms'', sword_json (doc_updated_at r)),
      (''mutation_id'', JString (doc_mutation_id r))]"

definition records_json :: "DocumentRecord list \<Rightarrow> json" where
  "records_json rs = json_object [(''items'', JArray (map record_json rs))]"

subsection \<open>Requests\<close>

definition new_query :: search_query where
  "new_query = \<lparr>sq_trace_id = [], sq_collection = [], sq_query = [], sq_image_reference = [], sq_top_k = 10, sq_filters = []\<rparr>"

text \<open>A string member, or else the value before.\<close>

definition text_or :: "string \<Rightarrow> json \<Rightarrow> string \<Rightarrow> string" where
  "text_or d j k = (case string_member j k of Some v \<Rightarrow> v | None \<Rightarrow> d)"

text \<open>The number under a name, as \<open>get<T>\<close> converts it to a word.\<close>

definition number_member :: "json_api \<Rightarrow> json \<Rightarrow> string \<Rightarrow> 'a::len word option" where
  "number_member js j k =
     (case json_member j k of
        Some (JInt i) \<Rightarrow> Some (word_of_int i)
      | Some (JFloat f) \<Rightarrow> Some (word_of_int (js_trunc js f))
      | _ \<Rightarrow> None)"

definition ParseSearchQuery :: "json_api \<Rightarrow> json \<Rightarrow> bool \<Rightarrow> search_query StatusOr" where
  "ParseSearchQuery js j is_post =
     Inr (if \<not> is_post then new_query
      else new_query\<lparr>
        sq_query := text_or [] j ''query'',
        sq_image_reference :=
          (case string_member j ''image_path'' of Some v \<Rightarrow> v | None \<Rightarrow> text_or [] j ''image_reference''),
        sq_collection := text_or [] j ''collection'',
        sq_top_k := (case number_member js j ''top_k'' of Some w \<Rightarrow> unat (w :: 64 word) | None \<Rightarrow> 10),
        sq_filters := (case json_member j ''filters'' of
            Some (JObject ms) \<Rightarrow> map (\<lambda>(k, v). \<lparr>filter_field = k, filter_value = v\<rparr>) (string_items ms [])
          | _ \<Rightarrow> [])\<rparr>)"

text \<open>Only an integer that is not negative is a version, any integer is a time.\<close>

definition ParseDocumentUpsert :: "json \<Rightarrow> DocumentRecord StatusOr" where
  "ParseDocumentUpsert j =
     Inr \<lparr>doc_collection = text_or [] j ''collection'', doc_key = text_or [] j ''key'', doc_title = text_or [] j ''title'',
       doc_body = (case string_member j ''body'' of Some v \<Rightarrow> v | None \<Rightarrow> text_or [] j ''value''),
       doc_metadata = json_metadata j,
       doc_version = (case json_member j ''version'' of
           Some (JInt i) \<Rightarrow> if 0 \<le> i then word_of_int i else 0
         | _ \<Rightarrow> 0),
       doc_updated_at = (case json_member j ''updated_at_unix_ms'' of Some (JInt i) \<Rightarrow> word_of_int i | _ \<Rightarrow> 0),
       doc_mutation_id = text_or [] j ''mutation_id''\<rparr>"

fun parse_batch_items :: "json list \<Rightarrow> DocumentRecord list \<Rightarrow> DocumentRecord list StatusOr" where
  "parse_batch_items [] rs = Inr rs"
| "parse_batch_items (item # items) rs =
     (if \<not> is_object item then Inl (InvalidArgument ''kv batch records must be objects'')
      else case ParseDocumentUpsert item of
        Inl e \<Rightarrow> Inl e
      | Inr r \<Rightarrow> parse_batch_items items (rs @ [r]))"

definition ParseKvBatchUpsert :: "json \<Rightarrow> DocumentRecord list StatusOr" where
  "ParseKvBatchUpsert j =
     (case json_member j ''records'' of
        Some (JArray items) \<Rightarrow> parse_batch_items items []
      | _ \<Rightarrow> Inl (InvalidArgument ''kv batch request must contain records array''))"

subsection \<open>Responses\<close>

definition BuildHttpResponse :: "nat \<Rightarrow> string \<Rightarrow> string \<Rightarrow> string \<Rightarrow> string" where
  "BuildHttpResponse status_code status_text content_type body =
     ''HTTP/1.1 '' @ to_string status_code @ '' '' @ status_text @ crlf @
     ''Content-Type: '' @ content_type @ crlf @
     ''Content-Length: '' @ to_string (length body) @ crlf @
     ''Connection: close'' @ crlf @ crlf @ body"

subsection \<open>Documents on the wire\<close>

lemma string_items_fold_omap_wf [simp]:
  "omap_wf m \<Longrightarrow> string_items (map (\<lambda>(k, v). (k, JString v)) m) [] = m"
  by (simp add: string_items_fold fold_put_self)

text \<open>A member that no later one of the list renames, read through the accessors.\<close>

lemma json_metadata_object:
  "json_metadata (json_object kvs) =
     (case map_of (rev kvs) ''metadata'' of Some (JObject ms) \<Rightarrow> string_items ms [] | _ \<Rightarrow> [])"
  by (simp add: json_metadata_def json_member_object)

lemma text_or_object:
  "text_or d (json_object kvs) k = (case map_of (rev kvs) k of Some (JString v) \<Rightarrow> v | _ \<Rightarrow> d)"
  by (simp add: text_or_def string_member_def json_member_object split: option.split json.split)

lemma string_member_object:
  "string_member (json_object kvs) k = (case map_of (rev kvs) k of Some (JString v) \<Rightarrow> Some v | _ \<Rightarrow> None)"
  by (simp add: string_member_def json_member_object)

lemmas object_members = json_metadata_object text_or_object string_member_object json_member_object

text \<open>The document of an answer, and that of a migration request, are read back as they were.\<close>

lemma ParseDocumentUpsert_record_json:
  assumes "omap_wf (doc_metadata r)"
  shows "ParseDocumentUpsert (record_json r) = Inr r"
  using assms
  by (simp add: ParseDocumentUpsert_def record_json_def object_members strings_object_def word_json_def sword_json_def)

lemma ParseDocumentUpsert_migration:
  assumes "omap_wf (doc_metadata r)"
  shows "ParseDocumentUpsert (json_object (record_members r @ [(''semantic'', b), (''migration_epoch'', e)])) = Inr r"
    and "json_member (json_object (record_members r @ [(''semantic'', b), (''migration_epoch'', e)])) ''semantic'' = Some b"
  using assms
  by (simp_all add: ParseDocumentUpsert_def record_members_def object_members strings_object_def word_json_def sword_json_def)

lemma parse_batch_items_records:
  assumes "\<forall>r \<in> set rs. omap_wf (doc_metadata r)"
  shows "parse_batch_items (map record_json rs) acc = Inr (acc @ rs)"
  using assms
proof (induction rs arbitrary: acc)
  case (Cons r rs)
  moreover have "is_object (record_json r)" by (simp add: record_json_def)
  ultimately show ?case by (simp add: ParseDocumentUpsert_record_json)
qed simp

lemma ParseKvBatchUpsert_records:
  assumes "\<forall>r \<in> set rs. omap_wf (doc_metadata r)"
  shows "ParseKvBatchUpsert (json_object [(''records'', JArray (map record_json rs))]) = Inr rs"
  using parse_batch_items_records [OF assms] by (simp add: ParseKvBatchUpsert_def json_member_object)

end
