(* ===== verification/Http_Runtime.thy ===== *)
theory Http_Runtime
  imports Server_Lifecycle Json_Api Thread_Pool
begin

text \<open>
  \<open>src/gateway/http_runtime.cpp\<close>: from the bytes that a client sends to the answer. What the
  calls of \<open>recv\<close> yield is a list of chunks, of which an empty one, or the end of the list, is a
  closed or failed connection. The runtime answers a client, closes the connection without an
  answer, or, when an exception leaves \<open>HandleClient\<close>, neither answers nor closes: the task pool
  keeps the exception in a future that nobody reads. An operation whose route does not return
  is \<open>None\<close>.
\<close>

subsection \<open>Texts of a request\<close>

definition hex_digit :: "char \<Rightarrow> nat option" where
  "hex_digit c =
     (let b = byte_of c in
      if 48 \<le> b \<and> b \<le> 57 then Some (b - 48)
      else if 65 \<le> b \<and> b \<le> 70 then Some (b - 55)
      else if 97 \<le> b \<and> b \<le> 102 then Some (b - 87)
      else None)"

definition hex_value :: "string \<Rightarrow> int" where
  "hex_value s = foldl (\<lambda>a c. 16 * a + int (the (hex_digit c))) 0 (takeWhile (\<lambda>c. hex_digit c \<noteq> None) s)"

text \<open>\<open>std::strtol\<close> in base 16; a prefix \<open>0x\<close> is skipped if a digit follows.\<close>

definition skip_0x :: "string \<Rightarrow> string" where
  "skip_0x s =
     (case s of
        a # b # c # _ \<Rightarrow>
          if a = CHR ''0'' \<and> (b = CHR ''x'' \<or> b = CHR ''X'') \<and> hex_digit c \<noteq> None then drop 2 s else s
      | _ \<Rightarrow> s)"

definition strtol16 :: "string \<Rightarrow> int" where
  "strtol16 s =
     (case trim_front s of
        [] \<Rightarrow> 0
      | c # t \<Rightarrow> if c = CHR ''-'' then - hex_value (skip_0x t)
                 else if c = CHR ''+'' then hex_value (skip_0x t)
                 else hex_value (skip_0x (c # t)))"

fun UrlDecode :: "string \<Rightarrow> string" where
  "UrlDecode [] = []"
| "UrlDecode (c # s) =
     (if c = CHR ''+'' then CHR '' '' # UrlDecode s
      else if c = CHR ''%'' \<and> 2 \<le> length s
      then char_of (nat (strtol16 (take 2 s) mod 256)) # UrlDecode (drop 2 s)
      else c # UrlDecode s)"

definition query_pair :: "string \<Rightarrow> (string, string) omap \<Rightarrow> (string, string) omap" where
  "query_pair pair m =
     (case find_char CHR ''='' pair of
        None \<Rightarrow> omap_emplace (UrlDecode pair) [] m
      | Some i \<Rightarrow> omap_emplace (UrlDecode (take i pair)) (UrlDecode (drop (Suc i) pair)) m)"

definition ParseQuery :: "string \<Rightarrow> (string, string) omap" where
  "ParseQuery query_string = fold query_pair (getlines CHR ''&'' query_string) []"

definition strip_cr :: "string \<Rightarrow> string" where
  "strip_cr l = (if l \<noteq> [] \<and> last l = CHR 0x0D then butlast l else l)"

definition header_line :: "string \<Rightarrow> (string, string) omap \<Rightarrow> (string, string) omap" where
  "header_line line m =
     (let l = strip_cr line in
      case find_char CHR '':'' l of
        None \<Rightarrow> m
      | Some i \<Rightarrow> omap_put (map tolower (take i l)) (trim_front (drop (Suc i) l)) m)"

definition ParseHeaders :: "string list \<Rightarrow> (string, string) omap" where
  "ParseHeaders header_lines = fold header_line header_lines []"

definition ExtractFilters :: "(string, string) omap \<Rightarrow> SearchFilter list" where
  "ExtractFilters params =
     map (\<lambda>(k, v). \<lparr>filter_field = drop 7 k, filter_value = v\<rparr>) (filter (\<lambda>(k, _). starts_with ''filter.'' k) params)"

definition ParseLimit :: "(string, string) omap \<Rightarrow> nat \<Rightarrow> nat" where
  "ParseLimit params fallback =
     (case map_of params ''limit'' of
        None \<Rightarrow> fallback
      | Some v \<Rightarrow> if v = [] then fallback
                  else (case cxx_stoul v of Throw _ \<Rightarrow> fallback | Ret n \<Rightarrow> n))"

subsection \<open>Texts of an answer\<close>

fun HttpStatusFor :: "StatusCode \<Rightarrow> nat" where
  "HttpStatusFor kInvalidArgument = 400"
| "HttpStatusFor kNotFound = 404"
| "HttpStatusFor kUnavailable = 503"
| "HttpStatusFor kTimeout = 504"
| "HttpStatusFor kNotSupported = 501"
| "HttpStatusFor kInternal = 500"
| "HttpStatusFor kOk = 200"

definition HttpStatusText :: "nat \<Rightarrow> string" where
  "HttpStatusText n =
     (if n = 200 then ''OK'' else if n = 400 then ''Bad Request'' else if n = 404 then ''Not Found''
      else if n = 405 then ''Method Not Allowed'' else if n = 403 then ''Forbidden''
      else if n = 500 then ''Internal Server Error'' else if n = 501 then ''Not Implemented''
      else if n = 503 then ''Service Unavailable'' else if n = 504 then ''Gateway Timeout'' else ''Error'')"

definition json_response :: "json_api \<Rightarrow> nat \<Rightarrow> string \<Rightarrow> json \<Rightarrow> string outcome" where
  "json_response js status_code status_text j =
     outcome_bind (js_dump js None j) (\<lambda>body. Ret (BuildHttpResponse status_code status_text ''application/json'' body))"

definition text_response :: "json_api \<Rightarrow> nat \<Rightarrow> string \<Rightarrow> string \<Rightarrow> string \<Rightarrow> string outcome" where
  "text_response js status_code status_text name what =
     json_response js status_code status_text (json_object [(name, JString what)])"

definition ErrorResponse :: "json_api \<Rightarrow> Status \<Rightarrow> string outcome" where
  "ErrorResponse js status =
     (let n = HttpStatusFor (code status)
      in text_response js n (HttpStatusText n) ''message'' (Status_ToString status))"

definition done_response :: "json_api \<Rightarrow> string \<Rightarrow> string outcome" where
  "done_response js what = text_response js 200 ''OK'' ''message'' what"

text \<open>The answers of the KV routes name the status, those of the document routes are always 503.\<close>

definition kv_answer :: "json_api \<Rightarrow> string \<Rightarrow> Status \<Rightarrow> string outcome" where
  "kv_answer js what status = (if \<not> ok status then ErrorResponse js status else done_response js what)"

definition document_answer :: "json_api \<Rightarrow> string \<Rightarrow> Status \<Rightarrow> string outcome" where
  "document_answer js what status =
     (if \<not> ok status then text_response js 503 ''Service Unavailable'' ''message'' (Status_ToString status)
      else done_response js what)"

definition wrong_method :: "json_api \<Rightarrow> string \<Rightarrow> string outcome" where
  "wrong_method js route =
     text_response js 405 ''Method Not Allowed'' ''message'' (''unsupported method for '' @ route)"

subsection \<open>Reading a request\<close>

record request =
  rq_method :: string
  rq_path :: string
  rq_query :: string
  rq_headers :: "(string, string) omap"
  rq_body :: string

definition header_end :: string where
  "header_end = crlf @ crlf"

fun read_head :: "string list \<Rightarrow> string \<Rightarrow> (string \<times> string list) option" where
  "read_head [] bytes = (if contains bytes header_end then Some (bytes, []) else None)"
| "read_head (chunk # chunks) bytes =
     (if contains bytes header_end then Some (bytes, chunk # chunks)
      else if chunk = [] then None
      else if length (bytes @ chunk) > 65536 then Some (bytes @ chunk, chunks)
      else read_head chunks (bytes @ chunk))"

fun read_body :: "nat \<Rightarrow> string list \<Rightarrow> string \<Rightarrow> string" where
  "read_body content_length [] body = body"
| "read_body content_length (chunk # chunks) body =
     (if content_length \<le> length body \<or> chunk = [] then body
      else read_body content_length chunks (body @ chunk))"

text \<open>\<open>stream >> word\<close>: the word, and what follows it.\<close>

definition next_word :: "string \<Rightarrow> string \<times> string" where
  "next_word s = (let t = trim_front s in (takeWhile (\<lambda>c. \<not> isspace c) t, dropWhile (\<lambda>c. \<not> isspace c) t))"

definition parse_request :: "string \<Rightarrow> string list \<Rightarrow> request outcome" where
  "parse_request bytes chunks =
     (let end_at = find_str header_end bytes;
          header_block = (case end_at of Some i \<Rightarrow> take i bytes | None \<Rightarrow> bytes);
          block_lines = getlines CHR 0x0A header_block;
          request_line = (case block_lines of [] \<Rightarrow> [] | l # _ \<Rightarrow> strip_cr l);
          (method, rest) = next_word request_line;
          target = fst (next_word rest);
          headers = ParseHeaders (drop 1 block_lines);
          body = (case end_at of Some i \<Rightarrow> drop (i + 4) bytes | None \<Rightarrow> []);
          (path, query) = (case find_char CHR ''?'' target of
              None \<Rightarrow> (target, [])
            | Some i \<Rightarrow> (take i target, drop (Suc i) target))
      in outcome_bind (case map_of headers ''content-length'' of None \<Rightarrow> Ret 0 | Some v \<Rightarrow> cxx_stoul v)
           (\<lambda>content_length. Ret \<lparr>rq_method = method, rq_path = path, rq_query = query, rq_headers = headers,
              rq_body = read_body content_length chunks body\<rparr>))"

subsection \<open>The routes\<close>

record http_env =
  hx_server :: server_env
  hx_json :: json_api
  hx_metrics :: metrics_env
  hx_auth :: authenticator

definition entry_or_empty :: "(string, string) omap \<Rightarrow> string \<Rightarrow> string" where
  "entry_or_empty m k = (case map_of m k of Some v \<Rightarrow> v | None \<Rightarrow> [])"

abbreviation trace_of :: "request \<Rightarrow> string" where
  "trace_of rq \<equiv> entry_or_empty (rq_headers rq) ''x-trace-id''"

text \<open>A search from the parameters of the URL (only \<open>top_k\<close> can throw), and from a body.\<close>

definition url_query :: "request \<Rightarrow> search_query outcome" where
  "url_query rq =
     (let params = ParseQuery (rq_query rq);
          q = new_query\<lparr>sq_trace_id := trace_of rq, sq_query := entry_or_empty params ''q'',
            sq_image_reference := (case map_of params ''image_path'' of
                Some v \<Rightarrow> v
              | None \<Rightarrow> entry_or_empty params ''image_reference''),
            sq_collection := entry_or_empty params ''collection'', sq_filters := ExtractFilters params\<rparr>
      in if entry_or_empty params ''top_k'' = [] then Ret q
         else outcome_bind (cxx_stoul (entry_or_empty params ''top_k'')) (\<lambda>n. Ret (q\<lparr>sq_top_k := n\<rparr>)))"

definition body_query :: "json_api \<Rightarrow> request \<Rightarrow> search_query" where
  "body_query js rq =
     (let q = new_query\<lparr>sq_trace_id := trace_of rq\<rparr> in
      case js_parse js (rq_body rq) of
        None \<Rightarrow> q
      | Some j \<Rightarrow>
          (case ParseSearchQuery js j True of
             Inl _ \<Rightarrow> q
           | Inr p \<Rightarrow> q\<lparr>
               sq_query := (if sq_query p = [] then sq_query q else sq_query p),
               sq_image_reference := (if sq_image_reference p = [] then sq_image_reference q else sq_image_reference p),
               sq_collection := (if sq_collection p = [] then sq_collection q else sq_collection p),
               sq_top_k := (if sq_top_k p \<noteq> 10 then sq_top_k p else sq_top_k q),
               sq_filters := sq_filters p\<rparr>))"

definition search_response :: "json_api \<Rightarrow> search_result StatusOr \<Rightarrow> string outcome" where
  "search_response js out =
     (case out of
        Inl e \<Rightarrow> text_response js 503 ''Service Unavailable'' ''error'' (Status_ToString e)
      | Inr answer \<Rightarrow> json_response js 200 ''OK'' (result_json answer))"

definition handle_search ::
  "http_env \<Rightarrow> 'k kv_ops \<Rightarrow> 'x index_ops \<Rightarrow> request \<Rightarrow> ('k, 'x) server \<Rightarrow> string outcome \<times> ('k, 'x) server" where
  "handle_search hx kv ix rq sv =
     (case (if rq_method rq = ''GET'' then url_query rq else Ret (body_query (hx_json hx) rq)) of
        Throw e \<Rightarrow> (Throw e, sv)
      | Ret q \<Rightarrow> (case Server_Search (hx_server hx) kv ix q sv of
          (out, sv') \<Rightarrow> (search_response (hx_json hx) out, sv')))"

text \<open>
  The document of a body: for the routes \<open>/v1/kv\<close> and \<open>/v1/documents\<close> only some of its members
  are taken over, for a migration all of them.
\<close>

definition posted_record :: "json_api \<Rightarrow> request \<Rightarrow> DocumentRecord" where
  "posted_record js rq =
     (let r = empty_document\<lparr>doc_metadata :=
            (case map_of (rq_headers rq) ''x-trace-id'' of Some v \<Rightarrow> [(''trace_id'', v)] | None \<Rightarrow> [])\<rparr>
      in case js_parse js (rq_body rq) of
           None \<Rightarrow> r
         | Some j \<Rightarrow>
             (case ParseDocumentUpsert j of
                Inl _ \<Rightarrow> r
              | Inr p \<Rightarrow> r\<lparr>doc_collection := (if doc_collection p = [] then doc_collection r else doc_collection p),
                  doc_key := (if doc_key p = [] then doc_key r else doc_key p),
                  doc_title := doc_title p, doc_body := doc_body p,
                  doc_metadata := fold (\<lambda>(k, v). omap_emplace k v) (doc_metadata p) (doc_metadata r)\<rparr>))"

definition migrated_record :: "json_api \<Rightarrow> request \<Rightarrow> DocumentRecord \<times> bool" where
  "migrated_record js rq =
     (case js_parse js (rq_body rq) of
        None \<Rightarrow> (empty_document, False)
      | Some j \<Rightarrow>
          ((case ParseDocumentUpsert j of Inl _ \<Rightarrow> empty_document | Inr p \<Rightarrow> p),
           (case json_member j ''semantic'' of Some (JBool b) \<Rightarrow> b | _ \<Rightarrow> False)))"

definition handle_migration ::
  "http_env \<Rightarrow> 'k kv_ops \<Rightarrow> 'x index_ops \<Rightarrow> request \<Rightarrow> fs \<times> ('k, 'x) server \<Rightarrow> string outcome \<times> fs \<times> ('k, 'x) server" where
  "handle_migration hx kv ix rq = (\<lambda>(s, sv).
     if map_of (rq_headers rq) ''x-kvai-internal-migration'' \<noteq> Some ''1''
     then (text_response (hx_json hx) 403 ''Forbidden'' ''message'' ''missing internal migration header'', s, sv)
     else case migrated_record (hx_json hx) rq of
       (r, semantic) \<Rightarrow>
         (case Server_ApplyMigratedRecord (hx_server hx) kv ix r semantic (trace_of rq) (s, sv) of
            (status, s', sv') \<Rightarrow> (kv_answer (hx_json hx) ''migration record applied'' status, s', sv')))"

definition handle_batch ::
  "http_env \<Rightarrow> 'k kv_ops \<Rightarrow> request \<Rightarrow> fs \<times> ('k, 'x) server \<Rightarrow> (string outcome \<times> fs \<times> ('k, 'x) server) option" where
  "handle_batch hx kv rq = (\<lambda>(s, sv).
     let js = hx_json hx in
     if rq_method rq \<noteq> ''POST'' then Some (wrong_method js ''/v1/kv/batch'', s, sv)
     else case js_parse js (rq_body rq) of
       None \<Rightarrow> Some (ErrorResponse js (InvalidArgument ''malformed kv batch json''), s, sv)
     | Some j \<Rightarrow>
         (case ParseKvBatchUpsert j of
            Inl e \<Rightarrow> Some (ErrorResponse js e, s, sv)
          | Inr rs \<Rightarrow>
              map_option (\<lambda>(status, s', sv').
                (if \<not> ok status then ErrorResponse js status
                 else json_response js 200 ''OK'' (json_object
                   [(''message'', JString ''kv batch stored''), (''record_count'', JInt (int (length rs)))]), s', sv'))
              (PutKvRecords (hx_server hx) kv rs (trace_of rq) (s, sv))))"

definition handle_kv ::
  "http_env \<Rightarrow> 'k kv_ops \<Rightarrow> request \<Rightarrow> fs \<times> ('k, 'x) server \<Rightarrow> (string outcome \<times> fs \<times> ('k, 'x) server) option" where
  "handle_kv hx kv rq = (\<lambda>(s, sv).
     let js = hx_json hx; env = hx_server hx; params = ParseQuery (rq_query rq);
         c = entry_or_empty params ''collection''; k = entry_or_empty params ''key'' in
     if rq_method rq = ''GET'' then
       (if k \<noteq> [] then
          map_option (\<lambda>out. (case out of
              Inr r \<Rightarrow> json_response js 200 ''OK'' (record_json r)
            | Inl e \<Rightarrow> ErrorResponse js e, s, sv))
          (GetKvRecord env kv c k (trace_of rq) sv)
        else Some (case RangeKvRecords kv c (entry_or_empty params ''begin_key'') (entry_or_empty params ''end_key'')
                     (ParseLimit params 100) sv of
              Inr rs \<Rightarrow> json_response js 200 ''OK'' (records_json rs)
            | Inl e \<Rightarrow> ErrorResponse js e, s, sv))
     else if rq_method rq = ''POST'' \<or> rq_method rq = ''PUT'' then
       map_option (\<lambda>(status, x). (kv_answer js ''kv record stored'' status, x))
         (PutKvRecord env kv (posted_record js rq) (trace_of rq) (s, sv))
     else if rq_method rq = ''DELETE'' then
       map_option (\<lambda>(status, x). (kv_answer js ''kv record deleted'' status, x))
         (DeleteKvRecord env kv c k (trace_of rq) (s, sv))
     else Some (wrong_method js ''/v1/kv'', s, sv))"

definition post_document ::
  "http_env \<Rightarrow> 'k kv_ops \<Rightarrow> 'x index_ops \<Rightarrow> request \<Rightarrow> fs \<times> ('k, 'x) server \<Rightarrow>
     (string outcome \<times> fs \<times> ('k, 'x) server) option" where
  "post_document hx kv ix rq x =
     map_option (\<lambda>(status, x). (document_answer (hx_json hx) ''document upserted'' status, x))
       (UpsertDocument (hx_server hx) kv ix (posted_record (hx_json hx) rq) (trace_of rq) x)"

definition delete_document ::
  "http_env \<Rightarrow> 'k kv_ops \<Rightarrow> 'x index_ops \<Rightarrow> request \<Rightarrow> fs \<times> ('k, 'x) server \<Rightarrow>
     (string outcome \<times> fs \<times> ('k, 'x) server) option" where
  "delete_document hx kv ix rq x =
     (let params = ParseQuery (rq_query rq) in
      map_option (\<lambda>(status, x). (document_answer (hx_json hx) ''document deleted'' status, x))
        (DeleteDocument (hx_server hx) kv ix (entry_or_empty params ''collection'') (entry_or_empty params ''key'')
          (trace_of rq) x))"

lemmas document_route_defs = post_document_def delete_document_def

definition handle ::
  "http_env \<Rightarrow> 'k kv_ops \<Rightarrow> 'x index_ops \<Rightarrow> request \<Rightarrow> fs \<times> ('k, 'x) server \<Rightarrow>
     (string outcome \<times> fs \<times> ('k, 'x) server) option" where
  "handle hx kv ix rq = (\<lambda>(s, sv).
     let js = hx_json hx; env = hx_server hx; m = rq_method rq; path = rq_path rq;
         params = ParseQuery (rq_query rq);
         c = entry_or_empty params ''collection''; k = entry_or_empty params ''key'' in
     if m = ''GET'' \<and> path = ''/healthz'' then Some (json_response js 200 ''OK'' (health_json (HealthCheck env [] sv)), s, sv)
     else if m = ''GET'' \<and> path = ''/metrics''
     then Some (Ret (BuildHttpResponse 200 ''OK'' ''text/plain; version=0.0.4'' (RenderPrometheus (hx_metrics hx) (sv_metrics sv))), s, sv)
     else if m = ''GET'' \<and> (path = ''/openapi'' \<or> path = ''/openapi.yaml'')
     then Some (Ret (BuildHttpResponse 200 ''OK'' ''application/yaml'' (OpenApiSpec s (sv_config sv))), s, sv)
     else if (m = ''GET'' \<or> m = ''POST'') \<and> path = ''/v1/search''
     then Some (case handle_search hx kv ix rq sv of (out, sv') \<Rightarrow> (out, s, sv'))
     else if m = ''GET'' \<and> path = ''/v1/router''
     then map_option (\<lambda>route. (json_response js 200 ''OK'' (route_json route), s, sv)) (DescribeRoute env sv c k)
     else if m = ''POST'' \<and> path = ''/internal/migration/records'' then Some (handle_migration hx kv ix rq (s, sv))
     else if path = ''/v1/kv/batch'' then handle_batch hx kv rq (s, sv)
     else if path = ''/v1/kv'' then handle_kv hx kv rq (s, sv)
     else if m = ''POST'' \<and> path = ''/v1/documents''
     then post_document hx kv ix rq (s, sv)
     else if m = ''DELETE'' \<and> path = ''/v1/documents''
     then delete_document hx kv ix rq (s, sv)
     else Some (text_response js 404 ''Not Found'' ''error'' ''route not found'', s, sv))"

subsection \<open>Clients\<close>

datatype client_end =
    Closed_Silently
  | Answered string
  | Left_Open cxx_exception

fun client_end_of :: "string outcome \<Rightarrow> client_end" where
  "client_end_of (Ret answer) = Answered answer"
| "client_end_of (Throw e) = Left_Open e"

definition public_route :: "string \<Rightarrow> bool" where
  "public_route path \<longleftrightarrow> path = ''/healthz'' \<or> path = ''/openapi'' \<or> path = ''/openapi.yaml''"

definition serve_request ::
  "http_env \<Rightarrow> 'k kv_ops \<Rightarrow> 'x index_ops \<Rightarrow> request \<Rightarrow> fs \<times> ('k, 'x) server \<Rightarrow>
     (string outcome \<times> fs \<times> ('k, 'x) server) option" where
  "serve_request hx kv ix rq x =
     (let status = Authenticate (hx_auth hx) (rq_headers rq) in
      if \<not> public_route (rq_path rq) \<and> \<not> ok status
      then Some (text_response (hx_json hx) 401 ''Unauthorized'' ''message'' (Status_ToString status), x)
      else handle hx kv ix rq x)"

definition HandleClient ::
  "http_env \<Rightarrow> 'k kv_ops \<Rightarrow> 'x index_ops \<Rightarrow> string list \<Rightarrow> fs \<times> ('k, 'x) server \<Rightarrow>
     (client_end \<times> fs \<times> ('k, 'x) server) option" where
  "HandleClient hx kv ix chunks x =
     (case read_head chunks [] of
        None \<Rightarrow> Some (Closed_Silently, x)
      | Some (bytes, rest) \<Rightarrow>
          (case parse_request bytes rest of
             Throw e \<Rightarrow> Some (Left_Open e, x)
           | Ret rq \<Rightarrow> map_option (\<lambda>(out, y). (client_end_of out, y)) (serve_request hx kv ix rq x)))"

text \<open>One round of \<open>AcceptLoop\<close> with a new client; a pool that refuses the task tells nobody.\<close>

definition accept_client :: "'t \<Rightarrow> 't pool \<times> ('k, 'x) server \<Rightarrow> 't pool \<times> ('k, 'x) server" where
  "accept_client client = (\<lambda>(p, sv).
     (snd (SubmitTask client p), sv\<lparr>sv_metrics := IncrementHttpRequests (sv_metrics sv)\<rparr>))"

end
