(* ===== verification/Http_Properties.thy ===== *)
theory Http_Properties
  imports Http_Runtime Server_Properties
begin

text \<open>
  What the HTTP runtime promises: a request is read in full however the network splits it, the
  request by which a document migrates is applied to the target as the document it was made
  from, a request without the key changes nothing, and two divergences: a repeated POST is not
  recognised as a retry, and a malformed number leaves the client without an answer.
\<close>

subsection \<open>Request texts\<close>

definition line_ok :: "string \<Rightarrow> bool" where
  "line_ok l \<longleftrightarrow> l \<noteq> [] \<and> CHR 0x0D \<notin> set l \<and> CHR 0x0A \<notin> set l"

definition http_head :: "string list \<Rightarrow> string" where
  "http_head ls = concat (map (\<lambda>l. l @ crlf) ls)"

lemma find_str_skip:
  assumes "c \<notin> set u"
  shows "find_str (c # p) (u @ t) = map_option ((+) (length u)) (find_str (c # p) t)"
  using assms
proof (induction u)
  case Nil
  show ?case by (cases "find_str (c # p) t") simp_all
next
  case (Cons x u)
  then show ?case by (cases "find_str (c # p) t") (auto simp: starts_with_def)
qed

lemma find_header_end_crlf:
  assumes "x \<noteq> CHR 0x0D"
  shows "find_str header_end (crlf @ x # u) = map_option (Suc \<circ> Suc) (find_str header_end (x # u))"
  using assms
  by (cases "find_str header_end (x # u)") (simp_all add: header_end_def crlf_def starts_with_def del: find_str.simps(2) add: find_str.simps(2) [of _ "CHR 0x0D"] find_str.simps(2) [of _ "CHR 0x0A"])

lemma find_str_prefix:
  assumes "p \<noteq> []" and "find_str p s = Some i"
  shows "find_str p (s @ t) = Some i"
  using assms
proof (induction s arbitrary: i)
  case (Cons x s)
  have "length p \<le> length (x # s)" using find_str_Some [OF Cons.prems(2)] by simp
  then have "starts_with p (x # s @ t) = starts_with p (x # s)" by (cases p) (simp_all add: starts_with_def)
  with Cons show ?case by (auto split: if_splits)
qed simp

lemma find_header_end:
  assumes "ls \<noteq> []" and "\<forall>l \<in> set ls. line_ok l"
  shows "find_str header_end (http_head ls @ crlf @ body) = Some (length (http_head ls) - 2)"
  using assms
proof (induction ls)
  case (Cons l ls)
  have l: "CHR 0x0D \<notin> set l" using Cons.prems by (simp add: line_ok_def)
  have skip: "find_str header_end (l @ t) = map_option ((+) (length l)) (find_str header_end t)" for t
    using find_str_skip [OF l, of "[CHR 0x0A, CHR 0x0D, CHR 0x0A]" t] by (simp add: header_end_def crlf_def)
  show ?case
  proof (cases ls)
    case Nil
    have "find_str header_end (crlf @ crlf @ body) = Some 0"
      by (simp add: header_end_def crlf_def starts_with_def)
    with Nil skip [of "crlf @ crlf @ body"] show ?thesis by (simp add: http_head_def crlf_def)
  next
    case (Cons l' ls')
    let ?rest = "http_head ls @ crlf @ body"
    obtain x u where x: "?rest = x # u" "x \<noteq> CHR 0x0D"
      using Cons Cons.prems(2) by (cases l') (auto simp: http_head_def line_ok_def)
    have "find_str header_end (crlf @ ?rest) = map_option (Suc \<circ> Suc) (find_str header_end ?rest)"
      unfolding x(1) using x(2) by (rule find_header_end_crlf)
    also have "find_str header_end ?rest = Some (length (http_head ls) - 2)"
      using Cons.IH Cons Cons.prems(2) by simp
    finally show ?thesis
      using skip [of "crlf @ ?rest"] Cons by (simp add: http_head_def crlf_def)
  qed
qed simp

lemma http_head_block:
  "ls \<noteq> [] \<Longrightarrow> http_head ls = (http_head (butlast ls) @ last ls) @ crlf"
  by (induction ls) (auto simp: http_head_def)

lemma getlines_block:
  assumes "ls \<noteq> []" and "\<forall>l \<in> set ls. line_ok l"
  shows "getlines CHR 0x0A (http_head (butlast ls) @ last ls) = map (\<lambda>l. l @ [CHR 0x0D]) (butlast ls) @ [last ls]"
  using assms
proof (induction ls)
  case (Cons l ls)
  show ?case
  proof (cases ls)
    case Nil
    with Cons.prems show ?thesis by (simp add: http_head_def line_ok_def getlines_no_delim)
  next
    case (Cons l' ls')
    have "getlines CHR 0x0A ((l @ [CHR 0x0D]) @ CHR 0x0A # http_head (butlast ls) @ last ls) =
        (l @ [CHR 0x0D]) # getlines CHR 0x0A (http_head (butlast ls) @ last ls)"
      using Cons.prems(2) by (intro getlines_append) (simp add: line_ok_def)
    with Cons Cons.IH Cons.prems(2) show ?thesis by (simp add: http_head_def crlf_def)
  qed
qed simp

lemma strip_cr_line [simp]: "line_ok l \<Longrightarrow> strip_cr l = l" "strip_cr (l @ [CHR 0x0D]) = l"
proof -
  show "strip_cr l = l" if "line_ok l"
  proof -
    have "last l \<noteq> CHR 0x0D" using that last_in_set [of l] unfolding line_ok_def by metis
    then show ?thesis by (simp add: strip_cr_def)
  qed
qed (simp add: strip_cr_def)

lemma fold_header_lines:
  "\<forall>l \<in> set ls. line_ok l \<Longrightarrow> fold header_line (map (\<lambda>l. l @ [CHR 0x0D]) ls) m = fold header_line ls m"
  by (induction ls arbitrary: m) (simp_all add: header_line_def)

lemma ParseHeaders_block:
  assumes "\<forall>l \<in> set (r # ls). line_ok l"
  shows "ParseHeaders (drop 1 (getlines CHR 0x0A (http_head (butlast (r # ls)) @ last (r # ls)))) = fold header_line ls []"
proof (cases ls rule: rev_cases)
  case Nil
  then show ?thesis using getlines_block [of "[r]"] assms by (simp add: ParseHeaders_def)
next
  case (snoc hs h)
  then have "drop 1 (getlines CHR 0x0A (http_head (butlast (r # ls)) @ last (r # ls))) = map (\<lambda>l. l @ [CHR 0x0D]) hs @ [h]"
    using getlines_block [of "r # ls"] assms by simp
  with snoc assms show ?thesis by (simp add: ParseHeaders_def fold_header_lines)
qed

subsection \<open>A request in pieces\<close>

lemma longer_prefix:
  assumes "bytes @ t = h @ body" and "length h \<le> length bytes"
  obtains b where "bytes = h @ b" and "body = b @ t"
  using assms by (auto simp: append_eq_append_conv2)

lemma contains_header_end:
  assumes "ls \<noteq> []" and "\<forall>l \<in> set ls. line_ok l" and "bytes @ t = http_head ls @ crlf @ body"
  shows "contains bytes header_end \<longleftrightarrow> length (http_head ls) + 2 \<le> length bytes"
proof
  assume "contains bytes header_end"
  then obtain i where i: "find_str header_end bytes = Some i" by (auto simp: contains_def)
  with find_str_prefix [of header_end bytes i t] assms find_header_end [OF assms(1,2), of body]
  have "i = length (http_head ls) - 2" by (simp add: header_end_def crlf_def)
  moreover have "2 \<le> length (http_head ls)" using assms(1) by (cases ls) (simp_all add: http_head_def crlf_def)
  moreover have "i + 4 \<le> length bytes" using find_str_Some [OF i] by (simp add: header_end_def crlf_def)
  ultimately show "length (http_head ls) + 2 \<le> length bytes" by linarith
next
  assume l: "length (http_head ls) + 2 \<le> length bytes"
  obtain b where "bytes = http_head ls @ crlf @ b"
    using longer_prefix [of bytes t "http_head ls @ crlf" body] l assms(3) by (auto simp: crlf_def)
  with find_header_end [OF assms(1,2)] show "contains bytes header_end" by (metis contains_def option.distinct(1))
qed

lemma read_head_pieces:
  assumes "ls \<noteq> []" and "\<forall>l \<in> set ls. line_ok l" and "length (http_head ls) + 2 \<le> 65536"
    and "got @ concat chunks = http_head ls @ crlf @ body" and "\<forall>c \<in> set chunks. c \<noteq> []"
  shows "\<exists>bytes rest. read_head chunks got = Some (bytes, rest) \<and> bytes @ concat rest = http_head ls @ crlf @ body \<and>
    length (http_head ls) + 2 \<le> length bytes \<and> (\<forall>c \<in> set rest. c \<noteq> [])"
  using assms(4,5)
proof (induction chunks arbitrary: got)
  case Nil
  have "contains got header_end"
    using Nil.prems contains_header_end [OF assms(1,2), of got "[]" body] by (simp add: crlf_def)
  with Nil show ?case by (simp add: crlf_def)
next
  case (Cons c chunks)
  note iff = contains_header_end [OF assms(1,2), of got "c @ concat chunks" body]
  show ?case
  proof (cases "contains got header_end")
    case True
    with Cons.prems iff show ?thesis by simp
  next
    case False
    have next_ok: "(got @ c) @ concat chunks = http_head ls @ crlf @ body" "\<forall>c \<in> set chunks. c \<noteq> []"
      using Cons.prems by simp_all
    show ?thesis
    proof (cases "length (got @ c) > 65536")
      case True
      with False Cons.prems next_ok assms(3) show ?thesis by simp
    next
      case short: False
      with False Cons.prems(2) Cons.IH [OF next_ok] show ?thesis by simp
    qed
  qed
qed

lemma read_body_pieces:
  "\<forall>c \<in> set chunks. c \<noteq> [] \<Longrightarrow> read_body (length b + length (concat chunks)) chunks b = b @ concat chunks"
proof (induction chunks arbitrary: b)
  case (Cons c chunks)
  from Cons.IH [of "b @ c"] Cons.prems show ?case by (simp add: add.assoc)
qed simp

text \<open>The words of a request line, and the request that a text denotes.\<close>

definition request_of :: "string list \<Rightarrow> string \<Rightarrow> request" where
  "request_of ls body =
     (let (method, rest) = next_word (hd ls); target = fst (next_word rest);
          (path, query) = (case find_char CHR ''?'' target of
              None \<Rightarrow> (target, []) | Some i \<Rightarrow> (take i target, drop (Suc i) target))
      in \<lparr>rq_method = method, rq_path = path, rq_query = query, rq_headers = fold header_line (tl ls) [], rq_body = body\<rparr>)"

lemma parse_request_head:
  assumes "ls \<noteq> []" and "\<forall>l \<in> set ls. line_ok l"
    and "bytes @ concat rest = http_head ls @ crlf @ body" and "length (http_head ls) + 2 \<le> length bytes"
  shows "\<exists>b. body = b @ concat rest \<and> parse_request bytes rest =
    outcome_bind (case map_of (fold header_line (tl ls) []) ''content-length'' of None \<Rightarrow> Ret 0 | Some v \<Rightarrow> cxx_stoul v)
      (\<lambda>n. Ret (request_of ls (read_body n rest b)))"
proof -
  obtain r hs where ls: "ls = r # hs" using assms(1) by (cases ls) auto
  have two: "2 \<le> length (http_head ls)" by (simp add: ls http_head_def crlf_def)
  obtain b where b: "bytes = http_head ls @ crlf @ b" "body = b @ concat rest"
    using longer_prefix [of bytes "concat rest" "http_head ls @ crlf" body] assms(3,4) by (auto simp: crlf_def)
  have found: "find_str header_end bytes = Some (length (http_head ls) - 2)"
    unfolding b(1) by (rule find_header_end [OF assms(1,2)])
  have "bytes = (http_head (butlast ls) @ last ls) @ crlf @ crlf @ b"
    using b(1) http_head_block [OF assms(1)] by simp
  moreover have "length (http_head ls) - 2 = length (http_head (butlast ls) @ last ls)"
    using http_head_block [OF assms(1)] by (simp add: crlf_def)
  ultimately have block: "take (length (http_head ls) - 2) bytes = http_head (butlast ls) @ last ls" by simp
  have after: "drop (length (http_head ls) - 2 + 4) bytes = b"
    using two b(1) by (simp add: crlf_def)
  have first: "(case getlines CHR 0x0A (http_head (butlast ls) @ last ls) of [] \<Rightarrow> [] | l # _ \<Rightarrow> strip_cr l) = r"
    using getlines_block [OF assms(1,2)] assms(2) by (cases hs) (simp_all add: ls)
  have headers: "ParseHeaders (drop 1 (getlines CHR 0x0A (http_head (butlast ls) @ last ls))) = fold header_line (tl ls) []"
    using ParseHeaders_block [of r hs] assms(2) by (simp add: ls)
  have "parse_request bytes rest =
      outcome_bind (case map_of (fold header_line (tl ls) []) ''content-length'' of None \<Rightarrow> Ret 0 | Some v \<Rightarrow> cxx_stoul v)
        (\<lambda>n. Ret (request_of ls (read_body n rest b)))"
    unfolding parse_request_def Let_def found option.case block after first headers request_of_def
    by (simp add: ls case_prod_beta)
  with b(2) show ?thesis by blast
qed

lemma parse_request_pieces:
  assumes "ls \<noteq> []" and "\<forall>l \<in> set ls. line_ok l"
    and "bytes @ concat rest = http_head ls @ crlf @ body" and "length (http_head ls) + 2 \<le> length bytes"
    and "\<forall>c \<in> set rest. c \<noteq> []" and "length body < 2 ^ 64"
    and "map_of (fold header_line (tl ls) []) ''content-length'' = Some (to_string (length body))"
  shows "parse_request bytes rest = Ret (request_of ls body)"
proof -
  obtain b where b: "body = b @ concat rest" and parsed: "parse_request bytes rest =
      outcome_bind (case map_of (fold header_line (tl ls) []) ''content-length'' of None \<Rightarrow> Ret 0 | Some v \<Rightarrow> cxx_stoul v)
        (\<lambda>n. Ret (request_of ls (read_body n rest b)))"
    using parse_request_head [OF assms(1-4)] by blast
  have "read_body (length body) rest b = body" using read_body_pieces [OF assms(5), of b] b by simp
  with assms(6) show ?thesis unfolding parsed assms(7) option.case by simp
qed

text \<open>The request of a client, if it sends one.\<close>

definition client_request :: "string list \<Rightarrow> request option" where
  "client_request chunks =
     (case read_head chunks [] of
        None \<Rightarrow> None
      | Some (bytes, rest) \<Rightarrow> (case parse_request bytes rest of Throw _ \<Rightarrow> None | Ret rq \<Rightarrow> Some rq))"

lemma HandleClient_request:
  "client_request chunks = Some rq \<Longrightarrow>
   HandleClient hx kv ix chunks x = map_option (\<lambda>(out, y). (client_end_of out, y)) (serve_request hx kv ix rq x)"
  by (auto simp: HandleClient_def client_request_def split: option.splits prod.splits outcome.splits)

lemma client_request_pieces:
  assumes "ls \<noteq> []" and "\<forall>l \<in> set ls. line_ok l" and "length (http_head ls) + 2 \<le> 65536"
    and "map_of (fold header_line (tl ls) []) ''content-length'' = Some (to_string (length body))"
    and "length body < 2 ^ 64"
    and "concat chunks = http_head ls @ crlf @ body" and "\<forall>c \<in> set chunks. c \<noteq> []"
  shows "client_request chunks = Some (request_of ls body)"
proof -
  obtain bytes rest where "read_head chunks [] = Some (bytes, rest)" "bytes @ concat rest = http_head ls @ crlf @ body"
    "length (http_head ls) + 2 \<le> length bytes" "\<forall>c \<in> set rest. c \<noteq> []"
    using read_head_pieces [OF assms(1-3), of "[]" chunks body] assms(6,7) by auto
  moreover from this have "parse_request bytes rest = Ret (request_of ls body)"
    using parse_request_pieces [OF assms(1,2) _ _ _ assms(5,4)] by blast
  ultimately show ?thesis by (simp add: client_request_def)
qed


lemma header_line_named:
  assumes "CHR '':'' \<notin> set n" and "line_ok (n @ CHR '':'' # v)"
  shows "header_line (n @ CHR '':'' # v) m = omap_put (map tolower n) (trim_front v) m"
proof -
  have "find_char CHR '':'' (n @ CHR '':'' # v) = Some (length n)"
    using find_char_None [THEN iffD2, OF assms(1)] by (simp add: find_char_append)
  with assms(2) show ?thesis by (simp add: header_line_def)
qed

lemma to_string_line: "CHR 0x0D \<notin> set (to_string n)" "CHR 0x0A \<notin> set (to_string n)"
  using to_string_digits [of n] by (auto simp: isdigit_def byte_of_def)

lemma trim_front_to_string [simp]: "trim_front (to_string n) = to_string n"
  using to_string_digits [of n] isdigit_not_space by (cases "to_string n") auto

definition health_lines :: "string list" where
  "health_lines = [''GET /healthz HTTP/1.1'', ''Content-Length: 0'']"

lemma health_lines_nonempty: "health_lines \<noteq> []"
  by (simp add: health_lines_def)

lemma health_header: "header_line ''Content-Length: 0'' [] = [(''content-length'', ''0'')]"
proof -
  have "map tolower ''Content-Length'' = ''content-length''" "isspace CHR '' ''" "\<not> isspace CHR ''0''" by code_simp+
  with header_line_named [of "''Content-Length''" "'' 0''" "[]"] show ?thesis by (simp add: line_ok_def)
qed

lemma health_lines_ok:
  "\<forall>l \<in> set health_lines. line_ok l" "length (http_head health_lines) + 2 \<le> 65536"
  "map_of (fold header_line (tl health_lines) []) ''content-length'' = Some (to_string (length []))"
proof -
  have "to_string (length []) = ''0''" by code_simp
  then show "\<forall>l \<in> set health_lines. line_ok l" "length (http_head health_lines) + 2 \<le> 65536"
    "map_of (fold header_line (tl health_lines) []) ''content-length'' = Some (to_string (length []))"
    using health_header by (simp_all add: health_lines_def line_ok_def http_head_def crlf_def)
qed

definition sample_http :: http_env where
  "sample_http = \<lparr>hx_server = sample_server_env, hx_json = plain_json,
     hx_metrics = \<lparr>me_average = (\<lambda>_ _. []), me_uptime_seconds = [], me_cpu = [], me_disk = []\<rparr>,
     hx_auth = \<lparr>api_key = ''k'', auth_required = True\<rparr>\<rparr>"

lemma sample_http_simps [simp]:
  "hx_server sample_http = sample_server_env" "hx_json sample_http = plain_json"
  "api_key (hx_auth sample_http) = ''k''" "auth_required (hx_auth sample_http)"
  by (simp_all add: sample_http_def)

lemma js_dump_plain [simp]: "js_dump plain_json indent j = Ret (js_text j)"
  by (simp add: plain_json_def)


subsection \<open>Answers\<close>

text \<open>What \<open>SendHttpPost\<close> looks for in an answer.\<close>

definition accepting :: "string \<Rightarrow> bool" where
  "accepting answer \<longleftrightarrow> contains (HttpStatusLine answer) '' 200 ''"

lemma HttpStatusLine_response:
  assumes "CHR 0x0D \<notin> set status_text"
  shows "HttpStatusLine (BuildHttpResponse n status_text ct body) = ''HTTP/1.1 '' @ to_string n @ '' '' @ status_text"
proof -
  let ?line = "''HTTP/1.1 '' @ to_string n @ '' '' @ status_text"
  have "CHR 0x0D \<notin> set ?line" using assms to_string_line [of n] by simp
  from find_str_skip [OF this, of "[CHR 0x0A]"]
  have found: "find_str crlf (?line @ crlf @ t) = Some (length ?line)" for t
    by (simp add: crlf_def starts_with_def)
  obtain t where t: "BuildHttpResponse n status_text ct body = ?line @ crlf @ t" by (simp add: BuildHttpResponse_def)
  show ?thesis unfolding HttpStatusLine_def t found by simp
qed

lemma accepting_done: "accepting (BuildHttpResponse 200 ''OK'' ct body)"
proof -
  have "to_string 200 = ''200''" by code_simp
  then have "HttpStatusLine (BuildHttpResponse 200 ''OK'' ct body) = ''HTTP/1.1'' @ '' 200 '' @ ''OK''"
    by (simp add: HttpStatusLine_response)
  then show ?thesis unfolding accepting_def contains_iff by metis
qed

lemma not_accepting_error:
  "c \<noteq> kOk \<Longrightarrow> \<not> accepting (BuildHttpResponse (HttpStatusFor c) (HttpStatusText (HttpStatusFor c)) ct body)"
proof -
  have plain: "CHR 0x0D \<notin> set (HttpStatusText n)" for n by (simp add: HttpStatusText_def)
  have "\<not> contains (''HTTP/1.1 '' @ to_string 400 @ '' '' @ HttpStatusText 400) '' 200 ''"
    "\<not> contains (''HTTP/1.1 '' @ to_string 404 @ '' '' @ HttpStatusText 404) '' 200 ''"
    "\<not> contains (''HTTP/1.1 '' @ to_string 500 @ '' '' @ HttpStatusText 500) '' 200 ''"
    "\<not> contains (''HTTP/1.1 '' @ to_string 501 @ '' '' @ HttpStatusText 501) '' 200 ''"
    "\<not> contains (''HTTP/1.1 '' @ to_string 503 @ '' '' @ HttpStatusText 503) '' 200 ''"
    "\<not> contains (''HTTP/1.1 '' @ to_string 504 @ '' '' @ HttpStatusText 504) '' 200 ''"
    by code_simp+
  moreover assume "c \<noteq> kOk"
  ultimately show ?thesis by (cases c) (simp_all add: accepting_def HttpStatusLine_response [OF plain])
qed

definition ascii_ok :: "(string \<Rightarrow> bool) \<Rightarrow> bool" where
  "ascii_ok utf8 \<longleftrightarrow> (\<forall>t. (\<forall>c \<in> set t. byte_of c < 128) \<longrightarrow> utf8 t)"

lemma done_response_answers:
  assumes "json_laws js utf8" and "ascii_ok utf8" and "\<forall>c \<in> set what. byte_of c < 128"
  shows "\<exists>body. done_response js what = Ret (BuildHttpResponse 200 ''OK'' ''application/json'' body)"
proof -
  have "utf8 ''message''" "utf8 what" using assms(2,3) by (simp_all add: ascii_ok_def byte_of_def)
  then have "json_ok utf8 (json_object [(''message'', JString what)])" by (simp add: json_ok_object)
  with assms(1) obtain body where "js_dump js None (json_object [(''message'', JString what)]) = Ret body"
    unfolding json_laws_def by blast
  then show ?thesis by (simp add: done_response_def text_response_def json_response_def) blast
qed

lemma accepting_kv_answer:
  assumes "json_laws js utf8" and "ascii_ok utf8" and "\<forall>c \<in> set what. byte_of c < 128"
  shows "(\<exists>a. client_end_of (kv_answer js what status) = Answered a \<and> accepting a) \<longleftrightarrow> ok status"
proof (cases "ok status")
  case True
  with done_response_answers [OF assms] accepting_done show ?thesis by (auto simp: kv_answer_def)
next
  case False
  then have "code status \<noteq> kOk" by (simp add: ok_def)
  from not_accepting_error [OF this] False show ?thesis
    by (cases "js_dump js None (json_object [(''message'', JString (Status_ToString status))])")
      (auto simp: kv_answer_def ErrorResponse_def text_response_def json_response_def Let_def)
qed

subsection \<open>A document migrates\<close>

definition migration_json :: "migration_env \<Rightarrow> task \<Rightarrow> json" where
  "migration_json env t = json_object (record_members (task_record t) @
     [(''semantic'', JBool (task_semantic t)),
      (''migration_epoch'', sword_json
         (if task_epoch t = 0 then unix_millis (env_now env (TaskKey (task_record t))) else task_epoch t))])"

definition migration_headers :: "string \<Rightarrow> string list" where
  "migration_headers key = ''x-kvai-internal-migration: 1'' # (if key \<noteq> [] then [''x-api-key: '' @ key] else [])"

definition migration_lines :: "string \<Rightarrow> string \<Rightarrow> string \<Rightarrow> string list" where
  "migration_lines host key body =
     ''POST /internal/migration/records HTTP/1.1'' #
     [''Host'' @ CHR '':'' # CHR '' '' # host, ''Connection'' @ CHR '':'' # '' close'', ''Content-Type'' @ CHR '':'' # '' application/json'',
      ''Content-Length'' @ CHR '':'' # CHR '' '' # to_string (length body)] @ migration_headers key"

lemma post_request_lines:
  "post_request host ''/internal/migration/records'' body (migration_headers key) =
    http_head (migration_lines host key body) @ crlf @ body"
  by (simp add: post_request_def http_head_def migration_lines_def)

lemma migration_lines_ok:
  assumes "CHR 0x0D \<notin> set host \<union> set key" and "CHR 0x0A \<notin> set host \<union> set key"
  shows "\<forall>l \<in> set (migration_lines host key body). line_ok l"
  using assms to_string_line [of "length body"]
  by (auto simp: migration_lines_def migration_headers_def line_ok_def)

lemma migration_header_names:
  "map tolower ''Host'' = ''host''" "map tolower ''Connection'' = ''connection''"
  "map tolower ''Content-Type'' = ''content-type''" "map tolower ''Content-Length'' = ''content-length''"
  "map tolower ''x-kvai-internal-migration'' = ''x-kvai-internal-migration''" "map tolower ''x-api-key'' = ''x-api-key''"
  "isspace CHR '' ''" "\<not> isspace CHR ''1''" "next_word ''POST /internal/migration/records HTTP/1.1'' =
    (''POST'', '' /internal/migration/records HTTP/1.1'')"
  "next_word '' /internal/migration/records HTTP/1.1'' = (''/internal/migration/records'', '' HTTP/1.1'')"
  "find_char CHR ''?'' ''/internal/migration/records'' = None"
  by code_simp+

lemma migration_request_headers:
  fixes host key body
  defines "m \<equiv> fold header_line (tl (migration_lines host key body)) []"
  assumes "CHR 0x0D \<notin> set host \<union> set key" and "CHR 0x0A \<notin> set host \<union> set key"
  shows "map_of m ''content-length'' = Some (to_string (length body))"
    and "map_of m ''x-kvai-internal-migration'' = Some ''1''" and "map_of m ''x-trace-id'' = None"
    and "map_of m ''authorization'' = None" and "map_of m ''x-api-key'' = (if key = [] then None else Some (trim_front key))"
proof -
  have h: "header_line (n @ CHR '':'' # v) m = omap_put (map tolower n) (trim_front v) m"
    if "n @ CHR '':'' # v \<in> set (migration_lines host key body)" "CHR '':'' \<notin> set n" for n v m
    using header_line_named [OF that(2)] migration_lines_ok [OF assms(2,3)] that(1) by blast
  have i: "header_line ''x-kvai-internal-migration: 1'' m = omap_put ''x-kvai-internal-migration'' ''1'' m" for m
    using header_line_named [of "''x-kvai-internal-migration''" "'' 1''" m] migration_header_names
    by (simp add: line_ok_def)
  have k: "header_line (''x-api-key: '' @ key) m = omap_put ''x-api-key'' (trim_front key) m" if "key \<noteq> []" for m
    using header_line_named [of "''x-api-key''" "CHR '' '' # key" m] assms(2,3) migration_header_names
    by (simp add: line_ok_def)
  have ms: "m = (if key = [] then id else omap_put ''x-api-key'' (trim_front key))
      (omap_put ''x-kvai-internal-migration'' ''1'' (omap_put ''content-length'' (to_string (length body))
        (omap_put ''content-type'' (trim_front '' application/json'')
          (omap_put ''connection'' (trim_front '' close'') (omap_put ''host'' (trim_front host) [])))))"
    using h [of "''Host''" "CHR '' '' # host"] h [of "''Connection''" "'' close''"]
      h [of "''Content-Type''" "'' application/json''"] h [of "''Content-Length''" "CHR '' '' # to_string (length body)"] i k
      migration_header_names
    unfolding m_def by (simp add: migration_lines_def migration_headers_def)
  show "map_of m ''content-length'' = Some (to_string (length body))"
    "map_of m ''x-kvai-internal-migration'' = Some ''1''" "map_of m ''x-trace-id'' = None"
    "map_of m ''authorization'' = None" "map_of m ''x-api-key'' = (if key = [] then None else Some (trim_front key))"
    unfolding ms by simp_all
qed

text \<open>The target admits the sender: it asks for no key, or for the one that the sender has.\<close>

definition admits :: "authenticator \<Rightarrow> string \<Rightarrow> bool" where
  "admits a key \<longleftrightarrow> \<not> auth_required a \<or> api_key a = key \<and> key \<noteq> [] \<and> Trim key = key"

lemma admits_Authenticate:
  assumes "admits a key" and "map_of m ''authorization'' = None"
    and "map_of m ''x-api-key'' = (if key = [] then None else Some (trim_front key))"
  shows "ok (Authenticate a m)"
proof (cases "auth_required a")
  case True
  with assms(1) have key: "api_key a = key" "key \<noteq> []" "Trim key = key" by (auto simp: admits_def)
  have "trim_front key = key" using Trim_ends [of key] key by (cases key) simp_all
  with key assms(2,3) have "ExtractPresentedKey m = key" by (simp add: ExtractPresentedKey_def)
  with True key show ?thesis by (simp add: Authenticate_def ConstantTimeEquals_iff Let_def)
qed (simp add: Authenticate_def)

lemma request_of_migration:
  "request_of (migration_lines host key body) body =
    \<lparr>rq_method = ''POST'', rq_path = ''/internal/migration/records'', rq_query = [],
      rq_headers = fold header_line (tl (migration_lines host key body)) [], rq_body = body\<rparr>"
  unfolding request_of_def using migration_header_names by (simp add: migration_lines_def)

lemma length_to_string: "n < 10 ^ Suc k \<Longrightarrow> length (to_string n) \<le> Suc k"
proof (induction k arbitrary: n)
  case (Suc k)
  show ?case
  proof (cases "n < 10")
    case False
    have "length (to_string (n div 10)) \<le> Suc k" using Suc.prems by (intro Suc.IH) simp
    with False show ?thesis by (simp add: to_string.simps [of n])
  qed simp
qed simp

lemma length_migration_head:
  assumes "length host + length key \<le> 65000" and "length body < 2 ^ 64"
  shows "length (http_head (migration_lines host key body)) + 2 \<le> 65536"
proof -
  have "length (to_string (length body)) \<le> Suc 19"
    using assms(2) by (intro length_to_string) simp
  with assms(1) show ?thesis
    by (simp add: http_head_def migration_lines_def migration_headers_def crlf_def)
qed

text \<open>What the network makes of a request that ends so for the target.\<close>

definition carries :: "network \<Rightarrow> string \<Rightarrow> 16 word \<Rightarrow> string \<Rightarrow> client_end \<Rightarrow> bool" where
  "carries net host port rq e \<longleftrightarrow>
     (\<exists>addrs fd. net_getaddrinfo net host (to_string (unat port)) = Inr addrs \<and> connect_first net addrs = Some fd \<and>
        net_send net fd rq = int (length rq) \<and>
        received (net_recv net fd rq) = (case e of Answered a \<Rightarrow> a | _ \<Rightarrow> []))"

lemma carried_SendHttpPost:
  assumes "carries (env_network env) host port (post_request host path body headers) e"
  shows "ok (SendHttpPost env host port path body headers) \<longleftrightarrow> (\<exists>a. e = Answered a \<and> accepting a)"
proof -
  have "\<not> accepting []" unfolding accepting_def by code_simp
  with assms show ?thesis
    by (cases e) (auto simp: carries_def SendHttpPost_def accepting_def Let_def split: if_splits)
qed

lemma PostMigrationRecord_text:
  assumes "env_json env = js" and "js_dump js None (migration_json env t) = Ret body"
  shows "PostMigrationRecord env cfg t = Ret (SendHttpPost env (node_host (task_target t)) (node_port (task_target t))
    ''/internal/migration/records'' body (migration_headers (cfg_api_key cfg)))"
  using assms by (simp add: PostMigrationRecord_def migration_json_def migration_headers_def Let_def)

lemma serve_migration:
  assumes "json_laws (hx_json hx) utf8" and "json_ok utf8 (migration_json env t)" and "omap_wf (doc_metadata (task_record t))"
    and "js_dump (hx_json hx) None (migration_json env t) = Ret body"
    and "CHR 0x0D \<notin> set host \<union> set key" and "CHR 0x0A \<notin> set host \<union> set key" and "admits (hx_auth hx) key"
    and "Server_ApplyMigratedRecord (hx_server hx) kv ix (task_record t) (task_semantic t) [] (s, sv) = (status, s', sv')"
  shows "serve_request hx kv ix (request_of (migration_lines host key body) body) (s, sv) =
    Some (kv_answer (hx_json hx) ''migration record applied'' status, s', sv')"
proof -
  note h = migration_request_headers [OF assms(5,6), of body]
  have auth: "ok (Authenticate (hx_auth hx) (fold header_line (tl (migration_lines host key body)) []))"
    using admits_Authenticate [OF assms(7) h(4,5)] .
  have parsed: "js_parse (hx_json hx) body = Some (migration_json env t)"
    using assms(1,2,4) unfolding json_laws_def by (metis outcome.inject(2))
  have r: "migrated_record (hx_json hx) (request_of (migration_lines host key body) body) = (task_record t, task_semantic t)"
    using ParseDocumentUpsert_migration [OF assms(3)] parsed
    by (simp add: migrated_record_def request_of_migration migration_json_def)
  show ?thesis
    unfolding serve_request_def handle_def handle_migration_def r
    using auth h(2,3) assms(8) by (simp add: request_of_migration entry_or_empty_def public_route_def Let_def)
qed


definition moving_body :: string where
  "moving_body = js_text (migration_json Migration_Properties.sample_env moving_task)"

text \<open>A bound on the length of a printed object that does not depend on the order of its members.\<close>

fun text_bound :: "json \<Rightarrow> nat" where
  "text_bound (JString v) = 2 * length v + 10"
| "text_bound j = length (js_text j)"

definition members_bound :: "(string \<times> json) list \<Rightarrow> nat" where
  "members_bound ms = sum_list (map (\<lambda>(k, v). 2 * length k + 10 + text_bound v) ms)"

lemma js_text_bound: "length (js_text j) \<le> text_bound j"
  by (cases j) simp_all

lemma length_object_put:
  "length (js_text (JObject (omap_put k v ms))) \<le> length (js_text (JObject ms)) + (2 * length k + 10 + text_bound v)"
  using js_text_bound [of v] by (induction k v ms rule: omap_put.induct) auto

lemma length_json_object: "length (js_text (json_object ms)) \<le> 2 + members_bound ms"
proof -
  have "length (js_text (JObject (fold (\<lambda>(k, v). omap_put k v) ms xs))) \<le> length (js_text (JObject xs)) + members_bound ms" for xs
  proof (induction ms arbitrary: xs)
    case (Cons m ms)
    obtain k v where m: "m = (k, v)" by (cases m)
    from Cons.IH [of "omap_put k v xs"] length_object_put [of k v xs] show ?case
      by (simp add: m members_bound_def del: js_text.simps)
  qed (simp add: members_bound_def)
  from this [of "[]"] have "ms \<noteq> [] \<Longrightarrow> ?thesis" by (simp add: json_object_members)
  moreover have "ms = [] \<Longrightarrow> ?thesis" by (simp add: json_object_def)
  ultimately show ?thesis by blast
qed

lemma length_moving_body: "length moving_body < 2 ^ 64"
proof -
  have "text_bound (word_json (doc_version misplaced)) \<le> 100" "text_bound (sword_json (doc_updated_at misplaced)) \<le> 100"
    "text_bound (sword_json (1 :: 64 word)) \<le> 100" "text_bound (strings_object []) \<le> 100"
    by code_simp+
  then show ?thesis
    using length_json_object [of "record_members (task_record moving_task) @ [(''semantic'', JBool (task_semantic moving_task)),
      (''migration_epoch'', sword_json (1 :: 64 word))]"]
    by (simp add: moving_body_def migration_json_def members_bound_def record_members_def moving_task_def due_task_def
        misplaced_def sample_document_def empty_document_def)
qed

lemma moving_json_ok: "json_ok (\<lambda>_. True) (migration_json Migration_Properties.sample_env moving_task)"
  using uint_lt2p [of "doc_version misplaced"]
  by (simp add: migration_json_def record_members_def moving_task_def due_task_def misplaced_def sample_document_def
      strings_object_def word_json_def sword_json_def empty_document_def json_ok_object)


subsection \<open>Clients without the key\<close>

lemma public_requests_change_nothing:
  assumes "public_route (rq_path rq)" and "handle hx kv ix rq x = Some (out, y)"
  shows "y = x"
  using assms by (cases x) (auto simp: handle_def document_route_defs public_route_def Let_def split: if_splits)

lemma starts_with_401: "starts_with ''HTTP/1.1 401 '' (BuildHttpResponse 401 st ct body)"
proof -
  have "to_string 401 = ''401''" by code_simp
  then show ?thesis by (simp add: BuildHttpResponse_def starts_with_def)
qed

lemma refused_request:
  assumes "\<not> ok (Authenticate (hx_auth hx) (rq_headers rq))" and "serve_request hx kv ix rq x = Some (out, y)"
  shows "y = x \<and> (\<not> public_route (rq_path rq) \<longrightarrow> (\<forall>answer. out = Ret answer \<longrightarrow> starts_with ''HTTP/1.1 401 '' answer))"
  using assms public_requests_change_nothing [of rq hx kv ix x out y] starts_with_401
  by (auto simp: serve_request_def text_response_def json_response_def Let_def outcome_bind_Ret_iff split: if_splits)

text \<open>
  C13: where a key is required, a client that does not present it changes nothing: every store,
  index, counter and file is as before, and unless it asks for the health report or the
  OpenAPI text, the only answer it can get is 401.
\<close>

theorem client_without_the_key_changes_nothing:
  assumes "auth_required (hx_auth hx)" and "CHR 0x00 \<notin> set (api_key (hx_auth hx))"
    and "\<And>rq. client_request chunks = Some rq \<Longrightarrow> ExtractPresentedKey (rq_headers rq) \<noteq> api_key (hx_auth hx) \<and>
      CHR 0x00 \<notin> set (ExtractPresentedKey (rq_headers rq))"
    and "HandleClient hx kv ix chunks x = Some (e, y)"
  shows "y = x \<and> (\<forall>answer. e = Answered answer \<longrightarrow> starts_with ''HTTP/1.1 401 '' answer \<or>
    (\<exists>rq. client_request chunks = Some rq \<and> public_route (rq_path rq)))"
proof (cases "client_request chunks")
  case None
  with assms(4) show ?thesis
    by (auto simp: HandleClient_def client_request_def split: option.splits prod.splits outcome.splits)
next
  case (Some rq)
  from assms(3) [OF Some] have refused: "\<not> ok (Authenticate (hx_auth hx) (rq_headers rq))"
    using assms(1,2) by (auto simp: Authenticate_def Let_def ConstantTimeEquals_no_NUL)
  obtain out where served: "serve_request hx kv ix rq x = Some (out, y)" and e: "e = client_end_of out"
    using Some assms(4) by (auto simp: HandleClient_def client_request_def split: option.splits prod.splits outcome.splits)
  have "out = Ret answer" if "e = Answered answer" for answer
    using that e by (cases out) simp_all
  with refused_request [OF refused served] Some show ?thesis by blast
qed

definition metrics_lines :: "string list" where
  "metrics_lines = [''GET /metrics HTTP/1.1'', ''Content-Length: 0'']"

lemma metrics_lines_ok:
  "metrics_lines \<noteq> []" "\<forall>l \<in> set metrics_lines. line_ok l" "length (http_head metrics_lines) + 2 \<le> 65536"
  "fold header_line (tl metrics_lines) [] = [(''content-length'', ''0'')]"
  using health_header by (simp_all add: metrics_lines_def line_ok_def http_head_def crlf_def)

lemma metrics_request:
  "client_request [http_head metrics_lines @ crlf] = Some \<lparr>rq_method = ''GET'', rq_path = ''/metrics'', rq_query = [],
     rq_headers = [(''content-length'', ''0'')], rq_body = []\<rparr>"
proof -
  have "next_word ''GET /metrics HTTP/1.1'' = (''GET'', '' /metrics HTTP/1.1'')"
    "next_word '' /metrics HTTP/1.1'' = (''/metrics'', '' HTTP/1.1'')" "to_string (length []) = ''0''"
    by code_simp+
  then show ?thesis
    using client_request_pieces [OF metrics_lines_ok(1-3), of "[]" "[http_head metrics_lines @ crlf]"] metrics_lines_ok(4)
    by (simp add: request_of_def metrics_lines_def crlf_def)
qed

lemma metrics_refused:
  "\<exists>answer. HandleClient sample_http (wal_ops plain_pb) (brute_ops plain_pb plain_fp) [http_head metrics_lines @ crlf]
      (empty_fs, sample_server) = Some (Answered answer, empty_fs, sample_server)"
proof -
  have "ExtractPresentedKey [(''content-length'', ''0'')] = []" by (simp add: ExtractPresentedKey_def)
  then have "\<not> ok (Authenticate (hx_auth sample_http) [(''content-length'', ''0'')])"
    by (simp add: Authenticate_def)
  then show ?thesis
    by (simp add: HandleClient_request [OF metrics_request] serve_request_def public_route_def text_response_def
        json_response_def Let_def)
qed

theorem client_without_the_key_changes_nothing_witness:
  "\<exists>answer. HandleClient sample_http (wal_ops plain_pb) (brute_ops plain_pb plain_fp) [http_head metrics_lines @ crlf]
      (empty_fs, sample_server) = Some (Answered answer, empty_fs, sample_server) \<and> starts_with ''HTTP/1.1 401 '' answer"
proof -
  obtain answer where run: "HandleClient sample_http (wal_ops plain_pb) (brute_ops plain_pb plain_fp)
      [http_head metrics_lines @ crlf] (empty_fs, sample_server) = Some (Answered answer, empty_fs, sample_server)"
    using metrics_refused by blast
  have "ExtractPresentedKey [(''content-length'', ''0'')] = []" by (simp add: ExtractPresentedKey_def)
  then have "starts_with ''HTTP/1.1 401 '' answer"
    using client_without_the_key_changes_nothing [OF _ _ _ run]
    by (auto simp: metrics_request public_route_def)
  with run show ?thesis by blast
qed

subsection \<open>Retries\<close>

text \<open>
  The version, the time and the mutation identifier that a client puts into the body of a
  POST have no effect: two requests that differ in nothing else have the same result, so a
  retry cannot be recognised by its mutation identifier and a stale write is not refused.
\<close>

lemma mutation_id_of_a_post_is_ignored:
  assumes "rq_path rq = ''/v1/kv'' \<or> rq_path rq = ''/v1/documents''" and "rq_method rq = ''POST''"
    and "js_parse (hx_json hx) b = Some j" and "ParseDocumentUpsert j = Inr r"
    and "js_parse (hx_json hx) b' = Some j'"
    and "ParseDocumentUpsert j' = Inr (r\<lparr>doc_version := v, doc_updated_at := u, doc_mutation_id := m\<rparr>)"
  shows "handle hx kv ix (rq\<lparr>rq_body := b\<rparr>) x = handle hx kv ix (rq\<lparr>rq_body := b'\<rparr>) x"
proof -
  have "posted_record (hx_json hx) (rq\<lparr>rq_body := b\<rparr>) = posted_record (hx_json hx) (rq\<lparr>rq_body := b'\<rparr>)"
    using assms(3-6) by (simp add: posted_record_def Let_def)
  with assms(1,2) show ?thesis
    by (cases x) (auto simp: handle_def document_route_defs handle_kv_def Let_def)
qed

lemma mutation_id_of_a_post_is_ignored_witness:
  "handle sample_http (wal_ops plain_pb) (brute_ops plain_pb plain_fp) \<lparr>rq_method = ''POST'', rq_path = ''/v1/kv'', rq_query = [],
      rq_headers = [], rq_body = js_text (record_json waiting_document)\<rparr> (empty_fs, sample_server) =
   handle sample_http (wal_ops plain_pb) (brute_ops plain_pb plain_fp) \<lparr>rq_method = ''POST'', rq_path = ''/v1/kv'', rq_query = [],
      rq_headers = [], rq_body = js_text (record_json (waiting_document\<lparr>doc_version := 5, doc_updated_at := 5, doc_mutation_id := ''m''\<rparr>))\<rparr>
      (empty_fs, sample_server)"
proof -
  let ?r = "waiting_document\<lparr>doc_version := 5, doc_updated_at := 5, doc_mutation_id := ''m''\<rparr>"
    and ?rq = "\<lparr>rq_method = ''POST'', rq_path = ''/v1/kv'', rq_query = [], rq_headers = [], rq_body = []\<rparr>"
  have wf: "omap_wf (doc_metadata waiting_document)" "omap_wf (doc_metadata ?r)"
    by (simp_all add: waiting_document_def sample_entry_def empty_document_def)
  have parse: "js_parse plain_json (js_text j) = Some j" for j
    using read_json_text [of j _ "[]"] by (simp add: plain_json_def)
  from mutation_id_of_a_post_is_ignored [where rq = ?rq and hx = sample_http and r = waiting_document and v = 5 and u = 5 and m = "''m''"
      and b = "js_text (record_json waiting_document)" and b' = "js_text (record_json ?r)",
      OF _ _ _ ParseDocumentUpsert_record_json [OF wf(1)] _ ParseDocumentUpsert_record_json [OF wf(2)]] parse
  show ?thesis by simp
qed

subsection \<open>Malformed numbers\<close>

text \<open>
  A client whose \<open>Content-Length\<close> is not a number never gets an answer and its connection
  is never closed: the exception of \<open>std::stoul\<close> leaves \<open>HandleClient\<close>.
\<close>

lemma malformed_length_is_never_answered:
  assumes "ls \<noteq> []" and "\<forall>l \<in> set ls. line_ok l" and "length (http_head ls) + 2 \<le> 65536"
    and "map_of (fold header_line (tl ls) []) ''content-length'' = Some v" and "parse_number v = None"
    and "concat chunks = http_head ls @ crlf @ body" and "\<forall>c \<in> set chunks. c \<noteq> []"
  shows "HandleClient hx kv ix chunks x = Some (Left_Open (invalid_argument ''stoul''), x)"
proof -
  obtain bytes rest where head: "read_head chunks [] = Some (bytes, rest)"
    and "bytes @ concat rest = http_head ls @ crlf @ body" "length (http_head ls) + 2 \<le> length bytes"
    using read_head_pieces [OF assms(1-3), of "[]" chunks body] assms(6,7) by auto
  from parse_request_head [OF assms(1,2) this(2,3)]
  have "parse_request bytes rest = Throw (invalid_argument ''stoul'')"
    using assms(4,5) by (auto simp: cxx_stoul_def parse_unsigned_def)
  with head show ?thesis by (simp add: HandleClient_def)
qed

definition broken_lines :: "string list" where
  "broken_lines = [''GET /healthz HTTP/1.1'', ''Content-Length: x'']"

lemma malformed_length_is_never_answered_witness:
  "HandleClient sample_http (wal_ops plain_pb) (brute_ops plain_pb plain_fp) [http_head broken_lines, crlf]
     (empty_fs, sample_server) = Some (Left_Open (invalid_argument ''stoul''), empty_fs, sample_server)"
proof -
  have names: "map tolower ''Content-Length'' = ''content-length''" "trim_front '' x'' = ''x''" "parse_number ''x'' = None" by code_simp+
  have okay: "\<forall>l \<in> set broken_lines. line_ok l" by (simp add: broken_lines_def line_ok_def)
  have h: "map_of (fold header_line (tl broken_lines) []) ''content-length'' = Some ''x''"
    using header_line_named [of "''Content-Length''" "'' x''" "[]"] names(1,2) okay by (simp add: broken_lines_def)
  have "broken_lines \<noteq> []" "length (http_head broken_lines) + 2 \<le> 65536" "concat [http_head broken_lines, crlf] = http_head broken_lines @ crlf @ []"
    "\<forall>c \<in> set [http_head broken_lines, crlf]. c \<noteq> []"
    by (simp_all add: broken_lines_def http_head_def crlf_def)
  with malformed_length_is_never_answered [OF _ okay _ h names(3)] show ?thesis by blast
qed

end
