(* ===== verification/Lifecycle_Properties.thy ===== *)
theory Lifecycle_Properties
  imports Http_Properties
begin

text \<open>
  Two properties of the whole server: every request, whatever it is, keeps the maps of the
  store, of the index and of the outbox sorted and filed under the keys of their documents; and
  a server that has been stopped leaves files from which the next start opens the same store
  and the same index.
\<close>

subsection \<open>What draining leaves alone\<close>

definition elsewhere :: "string \<Rightarrow> fs \<Rightarrow> fs \<Rightarrow> bool" where
  "elsewhere p s s' \<longleftrightarrow> (\<forall>q. q \<noteq> p \<longrightarrow> fs_files s' q = fs_files s q) \<and> fs_mkdir_error s' = fs_mkdir_error s \<and>
     fs_readable s' = fs_readable s \<and> fs_writable s' = fs_writable s"

lemma elsewhere_refl [simp]: "elsewhere p s s"
  by (simp add: elsewhere_def)

lemma elsewhere_trans: "elsewhere p s s' \<Longrightarrow> elsewhere p s' s'' \<Longrightarrow> elsewhere p s s''"
  by (simp add: elsewhere_def)

lemma elsewhere_write [simp]: "elsewhere p s (write_file p b s)"
  by (simp add: elsewhere_def)

lemma RewriteLocked_elsewhere: "RewriteLocked pb s ob = (status, s') \<Longrightarrow> elsewhere (outbox_path ob) s s'"
  by (auto simp: RewriteLocked_def Let_def split: if_splits)

lemma drain_finish_frame:
  assumes "drain_finish pb key status (s, ob) = (stop, s', ob')"
  shows "elsewhere (outbox_path ob) s s' \<and> outbox_path ob' = outbox_path ob \<and> (map_inv (pending ob) \<longrightarrow> map_inv (pending ob'))"
  using assms RewriteLocked_elsewhere [of pb s]
  by (auto simp: drain_finish_def RecordError_def Let_def split: if_splits prod.splits) fastforce+

lemma Index_Upsert_frame:
  "Index_Upsert r v x = (status, x') \<Longrightarrow> index_path x' = index_path x \<and> (vectors_inv (entries x) \<longrightarrow> vectors_inv (entries x'))"
  by (auto simp: Index_Upsert_def vectors_inv_put split: if_splits)

lemma IndexRecord_frame:
  "IndexRecord emb Index_Upsert r x = (status, x') \<Longrightarrow>
   index_path x' = index_path x \<and> (vectors_inv (entries x) \<longrightarrow> vectors_inv (entries x'))"
  using Index_Upsert_frame [of r _ x status x'] by (auto simp: IndexRecord_def split: sum.splits)

lemma drain_keys_frame:
  assumes "drain_keys pb emb Index_Upsert keys (s, ob, x) = (status, s', ob', x')"
  shows "elsewhere (outbox_path ob) s s' \<and> outbox_path ob' = outbox_path ob \<and> (map_inv (pending ob) \<longrightarrow> map_inv (pending ob')) \<and>
    index_path x' = index_path x \<and> (vectors_inv (entries x) \<longrightarrow> vectors_inv (entries x'))"
  using assms
proof (induction keys arbitrary: s ob x)
  case (Cons key keys)
  show ?case
  proof (cases "map_of (pending ob) key")
    case None
    with Cons show ?thesis by simp
  next
    case (Some r)
    obtain st x1 where i: "IndexRecord emb Index_Upsert r x = (st, x1)" by (cases "IndexRecord emb Index_Upsert r x")
    obtain stop s1 ob1 where f: "drain_finish pb key st (s, ob) = (stop, s1, ob1)" by (cases "drain_finish pb key st (s, ob)")
    note frame = IndexRecord_frame [OF i] drain_finish_frame [OF f]
    show ?thesis
    proof (cases stop)
      case None
      with Cons.prems Some i f have "drain_keys pb emb Index_Upsert keys (s1, ob1, x1) = (status, s', ob', x')" by simp
      from Cons.IH [OF this] frame elsewhere_trans show ?thesis by metis
    next
      case stopped: (Some e)
      with Cons.prems Some i f frame show ?thesis by auto
    qed
  qed
qed simp

lemma DrainOnce_frame:
  assumes "DrainOnce pb emb Index_Upsert (s, ob, x) = (status, s', ob', x')"
  shows "elsewhere (outbox_path ob) s s' \<and> outbox_path ob' = outbox_path ob \<and> (map_inv (pending ob) \<longrightarrow> map_inv (pending ob')) \<and>
    index_path x' = index_path x \<and> (vectors_inv (entries x) \<longrightarrow> vectors_inv (entries x'))"
proof -
  have "drain_keys pb emb Index_Upsert (map fst (pending ob)) (s, snd (drain_begin ob), x) = (status, s', ob', x')"
    using assms by (simp add: DrainOnce_def drain_begin_def)
  from drain_keys_frame [OF this] show ?thesis by (simp add: drain_begin_def)
qed

subsection \<open>Every request keeps the server well-formed\<close>

definition server_wf :: "(wal_store, vector_store) server \<Rightarrow> bool" where
  "server_wf sv \<longleftrightarrow> map_inv (records (sv_kv sv)) \<and> vectors_inv (entries (sv_index sv)) \<and>
     (\<forall>ob. sv_outbox sv = Some ob \<longrightarrow> map_inv (pending ob))"

lemma Wal_Put_map_inv: "Wal_Put pb r (s, st) = (status, s', st') \<Longrightarrow> map_inv (records st) \<Longrightarrow> map_inv (records st')"
  by (auto simp: Wal_Put_def Let_def split: option.splits if_splits prod.splits)

lemma Wal_Delete_map_inv: "Wal_Delete pb c k (s, st) = (status, s', st') \<Longrightarrow> map_inv (records st) \<Longrightarrow> map_inv (records st')"
  by (auto simp: Wal_Delete_def Let_def split: prod.splits)

lemma batch_loop_map_inv: "batch_loop rs ks staged acc = Inr (staged', acc') \<Longrightarrow> map_inv staged \<Longrightarrow> map_inv staged'"
  by (induction rs ks staged acc rule: batch_loop.induct) (auto simp: Let_def split: if_splits option.splits)

lemma Wal_BatchPut_map_inv: "Wal_BatchPut pb rs (s, st) = (status, s', st') \<Longrightarrow> map_inv (records st) \<Longrightarrow> map_inv (records st')"
  using batch_loop_map_inv [of rs "{}" "records st" "[]"]
  by (auto simp: Wal_BatchPut_def Let_def split: sum.splits prod.splits if_splits)

lemma Enqueue_map_inv: "Enqueue pb r (s, ob) = (status, s', ob') \<Longrightarrow> map_inv (pending ob) \<Longrightarrow> map_inv (pending ob')"
  by (auto simp: Enqueue_def RecordError_def Let_def split: prod.splits if_splits)

lemma Outbox_Remove_map_inv: "Outbox_Remove pb c k (s, ob) = (status, s', ob') \<Longrightarrow> map_inv (pending ob) \<Longrightarrow> map_inv (pending ob')"
  by (auto simp: Outbox_Remove_def Let_def split: prod.splits)

lemma Index_Remove_inv: "Index_Remove c k x = (status, x') \<Longrightarrow> vectors_inv (entries x) \<Longrightarrow> vectors_inv (entries x')"
  using vectors_inv_Remove [of x c k] by simp

lemma enqueue_and_drain_wf:
  assumes "enqueue_and_drain env (brute_ops pb fp) r (s, sv) = (status, s', sv')" and "server_wf sv"
  shows "server_wf sv'"
proof (cases "sv_outbox sv")
  case None
  with assms show ?thesis by (simp add: enqueue_and_drain_def)
next
  case (Some ob)
  obtain st s1 ob1 where e: "Enqueue (sn_pb env) r (s, ob) = (st, s1, ob1)" by (cases "Enqueue (sn_pb env) r (s, ob)")
  obtain dst s2 ob2 x2 where d: "DrainOnce (sn_pb env) (sv_embedder sv) Index_Upsert (s1, ob1, sv_index sv) = (dst, s2, ob2, x2)"
    by (metis prod_cases4)
  have "map_inv (pending ob1)" using Enqueue_map_inv [OF e] assms(2) Some by (simp add: server_wf_def)
  with DrainOnce_frame [OF d] Some e d assms show ?thesis
    by (auto simp: enqueue_and_drain_def server_wf_def split: if_splits)
qed

lemma UpsertDocument_wf:
  assumes "UpsertDocument env (wal_ops pb) (brute_ops pb' fp) r t (s, sv) = Some (status, s', sv')" and "server_wf sv"
  shows "server_wf sv'"
proof -
  have "server_wf (sv\<lparr>sv_counter := n, sv_kv := st\<rparr>)" if "Wal_Put pb r' (s, sv_kv sv) = (p, s1, st)" for n r' p s1 st
    using Wal_Put_map_inv [OF that] assms(2) by (simp add: server_wf_def)
  then show ?thesis
    using assms enqueue_and_drain_wf
    by (auto simp: UpsertDocument_def Let_def split: if_splits option.splits prod.splits)
qed

lemma PutKvRecord_wf:
  "PutKvRecord env (wal_ops pb) r t (s, sv) = Some (status, s', sv') \<Longrightarrow> server_wf sv \<Longrightarrow> server_wf sv'"
  by (auto simp: PutKvRecord_def server_wf_def Let_def split: if_splits option.splits prod.splits dest: Wal_Put_map_inv)

lemma PutKvRecords_wf:
  assumes "PutKvRecords env (wal_ops pb) rs t (s, sv) = Some (status, s', sv')" and "server_wf sv"
  shows "server_wf sv'"
proof (cases "check_batch env (EnsureTraceId env t) sv rs {} []")
  case None
  with assms show ?thesis by (auto simp: PutKvRecords_def Let_def split: if_splits)
next
  case (Some checked)
  then show ?thesis
    using assms by (cases checked)
      (auto simp: PutKvRecords_def server_wf_def Let_def split: if_splits prod.splits dest: Wal_BatchPut_map_inv)
qed

lemma DeleteKvRecord_wf:
  "DeleteKvRecord env (wal_ops pb) c k t (s, sv) = Some (status, s', sv') \<Longrightarrow> server_wf sv \<Longrightarrow> server_wf sv'"
  by (auto simp: DeleteKvRecord_def server_wf_def Let_def split: if_splits option.splits prod.splits dest: Wal_Delete_map_inv)

lemma DeleteDocument_wf:
  assumes "DeleteDocument env (wal_ops pb) (brute_ops pb' fp) c k t (s, sv) = Some (status, s', sv')" and "server_wf sv"
  shows "server_wf sv'"
proof (cases "sv_started sv \<and> \<not> cfg_read_only_mode (sv_config sv) \<and> k \<noteq> [] \<and>
    refuse_remote env ''document'' (EnsureTraceId env t) (effective_collection (sv_config sv) c) k sv = Some None")
  case False
  with assms show ?thesis by (auto simp: DeleteDocument_def Let_def split: if_splits option.splits)
next
  case True
  let ?c = "effective_collection (sv_config sv) c"
  obtain st s1 sv1 where box: "(case sv_outbox sv of None \<Rightarrow> (Ok, s, sv)
      | Some ob \<Rightarrow> (case Outbox_Remove (sn_pb env) ?c k (s, ob) of (st, s1, ob1) \<Rightarrow> (st, s1, sv\<lparr>sv_outbox := Some ob1\<rparr>))) =
      (st, s1, sv1)" by (metis prod_cases3)
  have wf1: "server_wf sv1"
    using box assms(2) by (auto simp: server_wf_def split: option.splits prod.splits dest: Outbox_Remove_map_inv)
  obtain st2 s2 kv2 where del: "Wal_Delete pb ?c k (s1, sv_kv sv1) = (st2, s2, kv2)" by (metis prod_cases3)
  have "sv' = sv1 \<or> sv' = sv1\<lparr>sv_kv := kv2\<rparr> \<or> (\<exists>x. Index_Remove ?c k (sv_index sv1) = (status, x) \<and> sv' = sv1\<lparr>sv_kv := kv2, sv_index := x\<rparr>)"
    using assms(1) True box del by (auto simp: DeleteDocument_def Let_def split: if_splits prod.splits)
  moreover have "map_inv (records kv2)" using Wal_Delete_map_inv [OF del] wf1 by (simp add: server_wf_def)
  ultimately show ?thesis using wf1 Index_Remove_inv by (auto simp: server_wf_def)
qed

lemma ApplyMigratedRecord_wf:
  assumes "Server_ApplyMigratedRecord env (wal_ops pb) (brute_ops pb' fp) r b t (s, sv) = (status, s', sv')" and "server_wf sv"
  shows "server_wf sv'"
proof -
  have "server_wf (sv\<lparr>sv_counter := n, sv_kv := st\<rparr>)" if "Wal_Put pb r' (s, sv_kv sv) = (p, s1, st)" for n r' p s1 st
    using Wal_Put_map_inv [OF that] assms(2) by (simp add: server_wf_def)
  then show ?thesis
    using assms enqueue_and_drain_wf
    by (auto simp: Server_ApplyMigratedRecord_def Let_def split: if_splits prod.splits)
qed

lemma Server_Search_wf: "Server_Search env kv ix q sv = (out, sv') \<Longrightarrow> server_wf sv \<Longrightarrow> server_wf sv'"
  by (auto simp: Server_Search_def server_wf_def Let_def split: if_splits prod.splits bool.splits)

lemma handle_search_wf: "handle_search hx kv ix rq sv = (out, sv') \<Longrightarrow> server_wf sv \<Longrightarrow> server_wf sv'"
  by (auto simp: handle_search_def split: if_splits outcome.splits prod.splits dest: Server_Search_wf)

lemma handle_migration_wf:
  "handle_migration hx (wal_ops pb) (brute_ops pb' fp) rq (s, sv) = (out, s', sv') \<Longrightarrow> server_wf sv \<Longrightarrow> server_wf sv'"
  by (auto simp: handle_migration_def split: if_splits prod.splits dest: ApplyMigratedRecord_wf)

lemma handle_batch_wf:
  "handle_batch hx (wal_ops pb) rq (s, sv) = Some (out, s', sv') \<Longrightarrow> server_wf sv \<Longrightarrow> server_wf sv'"
  by (auto simp: handle_batch_def Let_def split: if_splits option.splits sum.splits dest: PutKvRecords_wf)

lemma handle_kv_wf:
  "handle_kv hx (wal_ops pb) rq (s, sv) = Some (out, s', sv') \<Longrightarrow> server_wf sv \<Longrightarrow> server_wf sv'"
  by (auto simp: handle_kv_def Let_def split: if_splits dest: PutKvRecord_wf DeleteKvRecord_wf)

lemma handle_wf:
  "handle hx (wal_ops pb) (brute_ops pb' fp) rq (s, sv) = Some (out, s', sv') \<Longrightarrow> server_wf sv \<Longrightarrow> server_wf sv'"
  by (auto simp: handle_def document_route_defs Let_def split: if_splits prod.splits
      dest: handle_search_wf handle_migration_wf handle_batch_wf handle_kv_wf UpsertDocument_wf DeleteDocument_wf)

fun serve_clients ::
  "http_env \<Rightarrow> 'k kv_ops \<Rightarrow> 'x index_ops \<Rightarrow> string list list \<Rightarrow> fs \<times> ('k, 'x) server \<Rightarrow> (fs \<times> ('k, 'x) server) option" where
  "serve_clients hx kv ix [] x = Some x"
| "serve_clients hx kv ix (chunks # clients) x =
     Option.bind (HandleClient hx kv ix chunks x) (\<lambda>(_, y). serve_clients hx kv ix clients y)"



subsection \<open>A stopped server is opened again as it was\<close>

lemma elsewhere_usable [simp]: "elsewhere p s s' \<Longrightarrow> usable s' q = usable s q"
  by (simp add: elsewhere_def usable_def)

lemma durable_elsewhere:
  assumes "durable pb s st" and "elsewhere p s s'" and "p \<noteq> wal_path st" and "p \<noteq> snapshot_path st"
  shows "durable pb s' st"
proof -
  have "fs_files s' (wal_path st) = fs_files s (wal_path st)" "fs_files s' (snapshot_path st) = fs_files s (snapshot_path st)"
    using assms(2-4) by (auto simp: elsewhere_def)
  with assms(1) elsewhere_usable [OF assms(2)] show ?thesis unfolding durable_def by simp
qed

lemma Wal_FlushSnapshot_elsewhere:
  "Wal_FlushSnapshot pb (s, st) = (status, s', st') \<Longrightarrow> elsewhere (snapshot_path st) s s'"
  by (auto simp: Wal_FlushSnapshot_def Let_def split: if_splits)

lemma Index_FlushSnapshot_elsewhere:
  "Index_FlushSnapshot pb (s, x) = (status, s', x') \<Longrightarrow> elsewhere (index_path x) s s'"
  by (auto simp: Index_FlushSnapshot_def Let_def split: if_splits)

text \<open>The last drain of a stopping server, with everything that it leaves alone.\<close>

lemma drain_some_frame:
  assumes "drain_some env (brute_ops pb fp) (s, sv) = (status, s', sv')"
    and "\<And>ob. sv_outbox sv = Some ob \<Longrightarrow> outbox_path ob \<noteq> wal_path (sv_kv sv) \<and> outbox_path ob \<noteq> snapshot_path (sv_kv sv)"
    and "durable pb' s (sv_kv sv)" and "vectors_inv (entries (sv_index sv))"
  shows "durable pb' s' (sv_kv sv) \<and> (\<forall>q. usable s' q = usable s q) \<and> vectors_inv (entries (sv_index sv')) \<and>
    index_path (sv_index sv') = index_path (sv_index sv) \<and> sv_kv sv' = sv_kv sv"
proof (cases "sv_outbox sv")
  case None
  with assms show ?thesis by (simp add: drain_some_def)
next
  case (Some ob)
  obtain st s1 ob1 x1 where d: "DrainOnce (sn_pb env) (sv_embedder sv) Index_Upsert (s, ob, sv_index sv) = (st, s1, ob1, x1)"
    by (metis prod_cases4)
  note f = DrainOnce_frame [OF d]
  then have "durable pb' s1 (sv_kv sv)" using durable_elsewhere assms(2,3) Some by blast
  with f Some d assms(1,4) show ?thesis by (auto simp: drain_some_def)
qed

text \<open>
  C10: stopping a server succeeds and leaves files from which the next start opens the same
  store and the same index, the documents included that the last drain put into the index.
\<close>

theorem stopped_server_is_opened_as_it_was:
  fixes sv
  defines "cfg \<equiv> sv_config sv"
  assumes "pb_laws pb" and "sv_started sv" and "durable pb s (sv_kv sv)" and "vectors_inv (entries (sv_index sv))"
    and "usable s (cfg_index_path cfg)"
    and "wal_path (sv_kv sv) = cfg_wal_path cfg" and "snapshot_path (sv_kv sv) = cfg_snapshot_path cfg"
    and "index_path (sv_index sv) = cfg_index_path cfg"
    and "cfg_index_path cfg \<noteq> cfg_wal_path cfg" and "cfg_index_path cfg \<noteq> cfg_snapshot_path cfg"
    and "\<And>ob. sv_outbox sv = Some ob \<Longrightarrow> outbox_path ob \<noteq> cfg_wal_path cfg \<and> outbox_path ob \<noteq> cfg_snapshot_path cfg"
    and "cfg_storage_backend cfg = ''wal'' \<or> cfg_storage_backend cfg = ''auto''"
    and "cfg_search_backend cfg = ''brute_force'' \<or> cfg_search_backend cfg = ''auto''"
    and "Server_Stop env (wal_ops pb) (brute_ops pb fp) (s, sv) = (status, s', sv')"
    and "\<forall>e \<in> snd ` set (entries (sv_index sv')). vector_entry_ok pb e"
  shows "status = Ok \<and> \<not> sv_started sv' \<and>
    CreateKvStore pb cfg s' = (Ret (Inr (sv_kv sv)), s') \<and>
    CreateVectorIndex pb fp (cfg_search_backend cfg) (cfg_index_path cfg) s' = (Ret (Inr (sv_index sv')), s')"
proof -
  let ?sv = "sv\<lparr>sv_discovery := None, sv_migration := None\<rparr>"
  obtain d s1 sv1 where drain: "drain_some env (brute_ops pb fp) (s, ?sv) = (d, s1, sv1)" by (metis prod_cases3)
  from drain_some_frame [OF drain, of pb] assms(4,5,7,8,12)
  have f1: "durable pb s1 (sv_kv sv)" "usable s1 (cfg_index_path cfg)" "vectors_inv (entries (sv_index sv1))"
    "index_path (sv_index sv1) = cfg_index_path cfg" "sv_kv sv1 = sv_kv sv"
    using assms(6,9) by simp_all
  obtain s2 where flush: "Wal_FlushSnapshot pb (s1, sv_kv sv) = (Ok, s2, sv_kv sv)" and d2: "durable pb s2 (sv_kv sv)"
    using durable_FlushSnapshot [OF f1(1)] by blast
  have u2: "usable s2 (cfg_index_path cfg)" using Wal_FlushSnapshot_elsewhere [OF flush] f1(2) by simp
  obtain s3 where iflush: "Index_FlushSnapshot pb (s2, sv_index sv1) = (Ok, s3, sv_index sv1)"
    using usable_EnsureParentDirectory [OF u2] u2 f1(4) by (simp add: Index_FlushSnapshot_def usable_def [of s2] Let_def)
  have stop: "status = Ok" "s' = s3" "sv_index sv' = sv_index sv1" "\<not> sv_started sv'"
    using assms(3,15) drain flush iflush f1(5) by (auto simp: Server_Stop_def Let_def)
  have index: "CreateVectorIndex pb fp (cfg_search_backend cfg) (cfg_index_path cfg) s3 = (Ret (Inr (sv_index sv1)), s3)"
    using index_flush_and_open [OF assms(2), of s2 "sv_index sv1" "cfg_search_backend cfg" fp] u2 f1(3,4) stop(3) assms(14,16) iflush
    by auto
  have "durable pb s3 (sv_kv sv)"
    using durable_elsewhere [OF d2 Index_FlushSnapshot_elsewhere [OF iflush]] f1(4) assms(7,8,10,11) by simp
  from CreateWalStore_durable [OF assms(2) this] have "CreateKvStore pb cfg s3 = (Ret (Inr (sv_kv sv)), s3)"
    using assms(7,8,13) by (auto simp: CreateKvStore_def Let_def)
  with index stop show ?thesis by simp
qed

definition stopping_server :: "(wal_store, vector_store) server" where
  "stopping_server = sample_server\<lparr>sv_index := sample_index, sv_config := default_config\<lparr>cfg_wal_path := ''w'',
     cfg_snapshot_path := ''s'', cfg_index_path := ''i'', cfg_storage_backend := ''auto'', cfg_search_backend := ''auto''\<rparr>\<rparr>"

lemma stopping_server_simps [simp]:
  "sv_started stopping_server" "sv_kv stopping_server = new_wal_store ''w'' ''s''" "sv_index stopping_server = sample_index"
  "sv_outbox stopping_server = Some (new_outbox ''o'')" "cfg_wal_path (sv_config stopping_server) = ''w''"
  "cfg_snapshot_path (sv_config stopping_server) = ''s''" "cfg_index_path (sv_config stopping_server) = ''i''"
  "cfg_storage_backend (sv_config stopping_server) = ''auto''" "cfg_search_backend (sv_config stopping_server) = ''auto''"
  by (simp_all add: stopping_server_def sample_server_def)

theorem stopped_server_is_opened_as_it_was_witness:
  "\<exists>s' sv'. Server_Stop sample_server_env (wal_ops plain_pb) (brute_ops plain_pb plain_fp) (empty_fs, stopping_server) = (Ok, s', sv') \<and>
    CreateKvStore plain_pb (sv_config stopping_server) s' = (Ret (Inr (new_wal_store ''w'' ''s'')), s') \<and>
    CreateVectorIndex plain_pb plain_fp ''auto'' ''i'' s' = (Ret (Inr sample_index), s')"
proof -
  obtain status s' sv' where run: "Server_Stop sample_server_env (wal_ops plain_pb) (brute_ops plain_pb plain_fp)
      (empty_fs, stopping_server) = (status, s', sv')" by (metis prod_cases3)
  have paths: "wal_path (new_wal_store ''w'' ''s'') = ''w''" "snapshot_path (new_wal_store ''w'' ''s'') = ''s''"
    "index_path sample_index = ''i''" "outbox_path (new_outbox ''o'') = ''o''" "usable empty_fs p" for p
    by (simp_all add: new_wal_store_def sample_index_def new_vector_store_def new_outbox_def usable_def empty_fs_def)
  have "durable plain_pb empty_fs (new_wal_store ''w'' ''s'')"
    using paths by (intro durable_new) (simp_all add: empty_fs_def)
  moreover have "vectors_inv (entries sample_index)"
    by (simp add: sample_index_def vectors_inv_def omap_wf_def sample_entry_def document_key_def)
  moreover have "sv_index sv' = sample_index"
    using run by (auto simp: Server_Stop_def drain_some_def DrainOnce_def drain_begin_def new_outbox_def set_state_def
        Index_FlushSnapshot_def Let_def split: if_splits prod.splits)
  moreover have "\<forall>e \<in> snd ` set (entries sample_index). vector_entry_ok plain_pb e"
    using sample_vectors_ok by (simp add: sample_index_def)
  ultimately show ?thesis
    using stopped_server_is_opened_as_it_was [OF plain_pb_laws, of stopping_server empty_fs sample_server_env plain_fp status s' sv'] run
    by (auto simp: paths)
qed

end
