(* ===== verification/Brpc_Service.thy ===== *)
theory Brpc_Service
  imports Http_Runtime
begin

text \<open>
  The gateway over BRPC: \<open>src/gateway/brpc_http_service.cpp\<close>, which answers the routes of the HTTP
  gateway, \<open>brpc_kv_write_service.cpp\<close>, the writes of internal callers, \<open>brpc_runtime.cpp\<close>, which maps
  paths to the methods of the first, and \<open>brpc_service_stub.cpp\<close>. BRPC has parsed the request
  when a method sees it; its fields are those of \<open>brpc_request\<close>, and the controller that a method
  fills in is the reply. The methods are written apart from those of the HTTP gateway in the
  source, and so they are here; \<open>Brpc_Properties\<close> compares the two.
\<close>

subsection \<open>Requests and replies\<close>

datatype http_method = HTTP_METHOD_GET | HTTP_METHOD_POST | HTTP_METHOD_PUT | HTTP_METHOD_DELETE | HTTP_METHOD_OTHER string

record brpc_request =
  bq_method :: http_method
  bq_path :: string
  bq_headers :: "(string \<times> string) list"
  bq_query :: "(string \<times> string) list"
  bq_body :: string

record reply =
  ry_code :: nat
  ry_type :: string
  ry_body :: string

definition HeadersFromController :: "brpc_request \<Rightarrow> (string, string) omap" where
  "HeadersFromController rq = fold (\<lambda>(k, v). omap_put (map tolower k) v) (bq_headers rq) []"

definition QueryParamsFromController :: "brpc_request \<Rightarrow> (string, string) omap" where
  "QueryParamsFromController rq = fold (\<lambda>(k, v). omap_put k v) (bq_query rq) []"

definition ReplyJson :: "nat \<Rightarrow> string \<Rightarrow> reply" where
  "ReplyJson status_code body = \<lparr>ry_code = status_code, ry_type = ''application/json'', ry_body = body\<rparr>"

definition ReplyText :: "nat \<Rightarrow> string \<Rightarrow> string \<Rightarrow> reply" where
  "ReplyText status_code content_type body = \<lparr>ry_code = status_code, ry_type = content_type, ry_body = body\<rparr>"

text \<open>A reply with the dump of a JSON value, which may throw.\<close>

definition reply_json :: "json_api \<Rightarrow> nat \<Rightarrow> json \<Rightarrow> reply outcome" where
  "reply_json js status_code j = outcome_bind (js_dump js None j) (\<lambda>body. Ret (ReplyJson status_code body))"

definition reply_message :: "json_api \<Rightarrow> nat \<Rightarrow> string \<Rightarrow> reply outcome" where
  "reply_message js status_code what = reply_json js status_code (json_object [(''message'', JString what)])"

fun Brpc_HttpStatusFor :: "StatusCode \<Rightarrow> nat" where
  "Brpc_HttpStatusFor kInvalidArgument = 400"
| "Brpc_HttpStatusFor kNotFound = 404"
| "Brpc_HttpStatusFor kUnavailable = 503"
| "Brpc_HttpStatusFor kTimeout = 504"
| "Brpc_HttpStatusFor kNotSupported = 501"
| "Brpc_HttpStatusFor kInternal = 500"
| "Brpc_HttpStatusFor kOk = 200"

definition ReplyStatus :: "json_api \<Rightarrow> Status \<Rightarrow> reply outcome" where
  "ReplyStatus js status = reply_message js (Brpc_HttpStatusFor (code status)) (Status_ToString status)"

definition Brpc_ParseLimit :: "(string, string) omap \<Rightarrow> nat \<Rightarrow> nat" where
  "Brpc_ParseLimit params fallback =
     (case map_of params ''limit'' of
        None \<Rightarrow> fallback
      | Some v \<Rightarrow> if v = [] then fallback
                  else (case cxx_stoul v of Throw _ \<Rightarrow> fallback | Ret n \<Rightarrow> n))"

text \<open>The check with which the methods begin; \<open>rest\<close> is the rest of the method.\<close>

definition authenticated ::
  "http_env \<Rightarrow> brpc_request \<Rightarrow> 'y \<Rightarrow> (reply outcome \<times> 'y) option \<Rightarrow> (reply outcome \<times> 'y) option" where
  "authenticated hx rq x rest =
     (let auth_status = Authenticate (hx_auth hx) (HeadersFromController rq) in
      if \<not> ok auth_status then Some (reply_message (hx_json hx) 401 (Status_ToString auth_status), x) else rest)"

abbreviation brpc_trace :: "brpc_request \<Rightarrow> string" where
  "brpc_trace rq \<equiv> entry_or_empty (HeadersFromController rq) ''x-trace-id''"

subsection \<open>Searching\<close>

definition brpc_url_query :: "brpc_request \<Rightarrow> search_query \<Rightarrow> search_query outcome" where
  "brpc_url_query rq q =
     (let params = QueryParamsFromController rq;
          q1 = (case map_of params ''q'' of Some v \<Rightarrow> q\<lparr>sq_query := v\<rparr> | None \<Rightarrow> q);
          q2 = (case map_of params ''image_path'' of
                  Some v \<Rightarrow> q1\<lparr>sq_image_reference := v\<rparr>
                | None \<Rightarrow> (case map_of params ''image_reference'' of Some v \<Rightarrow> q1\<lparr>sq_image_reference := v\<rparr> | None \<Rightarrow> q1));
          q3 = (case map_of params ''collection'' of Some v \<Rightarrow> q2\<lparr>sq_collection := v\<rparr> | None \<Rightarrow> q2);
          add_filters = (\<lambda>q. q\<lparr>sq_filters := sq_filters q @
             map (\<lambda>(k, v). \<lparr>filter_field = drop 7 k, filter_value = v\<rparr>)
               (filter (\<lambda>(k, _). starts_with ''filter.'' k) params)\<rparr>)
      in case map_of params ''top_k'' of
           None \<Rightarrow> Ret (add_filters q3)
         | Some v \<Rightarrow>
             if v = [] then Ret (add_filters q3)
             else outcome_bind (cxx_stoul v) (\<lambda>n. Ret (add_filters (q3\<lparr>sq_top_k := n\<rparr>))))"

definition brpc_body_query :: "json_api \<Rightarrow> brpc_request \<Rightarrow> search_query \<Rightarrow> search_query" where
  "brpc_body_query js rq q =
     (case js_parse js (bq_body rq) of
        None \<Rightarrow> q
      | Some j \<Rightarrow>
          (case ParseSearchQuery js j True of
             Inl _ \<Rightarrow> q
           | Inr p \<Rightarrow> q\<lparr>
               sq_query := (if sq_query p = [] then sq_query q else sq_query p),
               sq_image_reference := (if sq_image_reference p = [] then sq_image_reference q else sq_image_reference p),
               sq_collection := (if sq_collection p = [] then sq_collection q else sq_collection p),
               sq_top_k := (if sq_top_k p \<noteq> 10 then sq_top_k p else sq_top_k q),
               sq_filters := sq_filters p\<rparr>))"

definition Brpc_Search ::
  "http_env \<Rightarrow> 'k kv_ops \<Rightarrow> 'x index_ops \<Rightarrow> brpc_request \<Rightarrow> fs \<times> ('k, 'x) server \<Rightarrow>
     (reply outcome \<times> fs \<times> ('k, 'x) server) option" where
  "Brpc_Search hx kv ix rq = (\<lambda>(s, sv).
     let js = hx_json hx in
     authenticated hx rq (s, sv)
       (let headers = HeadersFromController rq;
            q = (case map_of headers ''x-trace-id'' of
                   Some v \<Rightarrow> new_query\<lparr>sq_trace_id := v\<rparr> | None \<Rightarrow> new_query)
        in case (if bq_method rq = HTTP_METHOD_GET then brpc_url_query rq q
                 else if bq_method rq = HTTP_METHOD_POST then Ret (brpc_body_query js rq q)
                 else Ret q) of
             Throw e \<Rightarrow> Some (Throw e, s, sv)
           | Ret q' \<Rightarrow>
               (case Server_Search (hx_server hx) kv ix q' sv of
                  (Inl e, sv') \<Rightarrow>
                    Some (reply_json js 503 (json_object [(''error'', JString (Status_ToString e))]), s, sv')
                | (Inr answer, sv') \<Rightarrow> Some (reply_json js 200 (result_json answer), s, sv'))))"

subsection \<open>Routing\<close>

definition Brpc_Router ::
  "http_env \<Rightarrow> brpc_request \<Rightarrow> fs \<times> ('k, 'x) server \<Rightarrow> (reply outcome \<times> fs \<times> ('k, 'x) server) option" where
  "Brpc_Router hx rq = (\<lambda>(s, sv).
     authenticated hx rq (s, sv)
       (let params = QueryParamsFromController rq;
            c = entry_or_empty params ''collection'';
            k = entry_or_empty params ''key''
        in map_option (\<lambda>route. (reply_json (hx_json hx) 200 (route_json route), s, sv))
             (DescribeRoute (hx_server hx) sv c k)))"

subsection \<open>Records\<close>

text \<open>The record of a body, in \<open>Kv\<close> and in \<open>UpsertDocument\<close>.\<close>

definition brpc_posted_record :: "json_api \<Rightarrow> brpc_request \<Rightarrow> DocumentRecord" where
  "brpc_posted_record js rq =
     (let r = (case map_of (HeadersFromController rq) ''x-trace-id'' of
                 Some v \<Rightarrow> empty_document\<lparr>doc_metadata := omap_put ''trace_id'' v []\<rparr>
               | None \<Rightarrow> empty_document)
      in case js_parse js (bq_body rq) of
           None \<Rightarrow> r
         | Some j \<Rightarrow>
             (case ParseDocumentUpsert j of
                Inl _ \<Rightarrow> r
              | Inr p \<Rightarrow> r\<lparr>doc_collection := (if doc_collection p = [] then doc_collection r else doc_collection p),
                  doc_key := (if doc_key p = [] then doc_key r else doc_key p),
                  doc_title := doc_title p, doc_body := doc_body p,
                  doc_metadata := fold (\<lambda>(k, v). omap_emplace k v) (doc_metadata p) (doc_metadata r)\<rparr>))"

definition brpc_kv_batch ::
  "http_env \<Rightarrow> 'k kv_ops \<Rightarrow> brpc_request \<Rightarrow> fs \<times> ('k, 'x) server \<Rightarrow>
     (reply outcome \<times> fs \<times> ('k, 'x) server) option" where
  "brpc_kv_batch hx kv rq = (\<lambda>(s, sv).
     let js = hx_json hx in
     if bq_method rq \<noteq> HTTP_METHOD_POST then Some (reply_message js 405 ''unsupported method for /v1/kv/batch'', s, sv)
     else case js_parse js (bq_body rq) of
       None \<Rightarrow> Some (ReplyStatus js (InvalidArgument ''malformed kv batch json''), s, sv)
     | Some j \<Rightarrow>
         (case ParseKvBatchUpsert j of
            Inl e \<Rightarrow> Some (ReplyStatus js e, s, sv)
          | Inr rs \<Rightarrow>
              map_option (\<lambda>(status, y).
                (if \<not> ok status then ReplyStatus js status
                 else reply_json js 200 (json_object
                   [(''message'', JString ''kv batch stored''), (''record_count'', JInt (int (length rs)))]), y))
              (PutKvRecords (hx_server hx) kv rs (brpc_trace rq) (s, sv))))"

definition status_or_done :: "json_api \<Rightarrow> string \<Rightarrow> Status \<Rightarrow> reply outcome" where
  "status_or_done js what status =
     (if \<not> ok status then ReplyStatus js status else reply_message js 200 what)"

definition Brpc_Kv ::
  "http_env \<Rightarrow> 'k kv_ops \<Rightarrow> brpc_request \<Rightarrow> fs \<times> ('k, 'x) server \<Rightarrow>
     (reply outcome \<times> fs \<times> ('k, 'x) server) option" where
  "Brpc_Kv hx kv rq = (\<lambda>(s, sv).
     let js = hx_json hx; env = hx_server hx; trace_id = brpc_trace rq;
         params = QueryParamsFromController rq;
         c = entry_or_empty params ''collection''; k = entry_or_empty params ''key'' in
     authenticated hx rq (s, sv)
       (if bq_path rq = ''/v1/kv/batch'' then brpc_kv_batch hx kv rq (s, sv)
        else if bq_method rq = HTTP_METHOD_GET then
          (if k \<noteq> [] then
             map_option (\<lambda>out. (case out of
                 Inl e \<Rightarrow> ReplyStatus js e
               | Inr r \<Rightarrow> reply_json js 200 (record_json r), s, sv))
             (GetKvRecord env kv c k trace_id sv)
           else Some (case RangeKvRecords kv c (entry_or_empty params ''begin_key'') (entry_or_empty params ''end_key'')
                        (Brpc_ParseLimit params 100) sv of
                 Inl e \<Rightarrow> ReplyStatus js e
               | Inr rs \<Rightarrow> reply_json js 200 (records_json rs), s, sv))
        else if bq_method rq = HTTP_METHOD_POST \<or> bq_method rq = HTTP_METHOD_PUT then
          map_option (\<lambda>(status, y). (status_or_done js ''kv record stored'' status, y))
            (PutKvRecord env kv (brpc_posted_record js rq) trace_id (s, sv))
        else if bq_method rq = HTTP_METHOD_DELETE then
          map_option (\<lambda>(status, y). (status_or_done js ''kv record deleted'' status, y))
            (DeleteKvRecord env kv c k trace_id (s, sv))
        else Some (reply_message js 405 ''unsupported method for /v1/kv'', s, sv)))"

subsection \<open>Documents\<close>

definition unavailable_or_done :: "json_api \<Rightarrow> string \<Rightarrow> Status \<Rightarrow> reply outcome" where
  "unavailable_or_done js what status =
     (if \<not> ok status then reply_message js 503 (Status_ToString status) else reply_message js 200 what)"

definition Brpc_UpsertDocument ::
  "http_env \<Rightarrow> 'k kv_ops \<Rightarrow> 'x index_ops \<Rightarrow> brpc_request \<Rightarrow> fs \<times> ('k, 'x) server \<Rightarrow>
     (reply outcome \<times> fs \<times> ('k, 'x) server) option" where
  "Brpc_UpsertDocument hx kv ix rq x =
     authenticated hx rq x
       (map_option (\<lambda>(status, y). (unavailable_or_done (hx_json hx) ''document upserted'' status, y))
         (UpsertDocument (hx_server hx) kv ix (brpc_posted_record (hx_json hx) rq) (brpc_trace rq) x))"

definition Brpc_DeleteDocument ::
  "http_env \<Rightarrow> 'k kv_ops \<Rightarrow> 'x index_ops \<Rightarrow> brpc_request \<Rightarrow> fs \<times> ('k, 'x) server \<Rightarrow>
     (reply outcome \<times> fs \<times> ('k, 'x) server) option" where
  "Brpc_DeleteDocument hx kv ix rq x =
     authenticated hx rq x
       (let params = QueryParamsFromController rq;
            c = entry_or_empty params ''collection'';
            k = entry_or_empty params ''key''
        in map_option (\<lambda>(status, y). (unavailable_or_done (hx_json hx) ''document deleted'' status, y))
             (DeleteDocument (hx_server hx) kv ix c k (brpc_trace rq) x))"

definition brpc_migrated_record :: "json_api \<Rightarrow> brpc_request \<Rightarrow> DocumentRecord \<times> bool" where
  "brpc_migrated_record js rq =
     (case js_parse js (bq_body rq) of
        None \<Rightarrow> (empty_document, False)
      | Some j \<Rightarrow>
          ((case ParseDocumentUpsert j of Inl _ \<Rightarrow> empty_document | Inr p \<Rightarrow> p),
           (case json_member j ''semantic'' of Some (JBool b) \<Rightarrow> b | _ \<Rightarrow> False)))"

definition Brpc_MigrateRecord ::
  "http_env \<Rightarrow> 'k kv_ops \<Rightarrow> 'x index_ops \<Rightarrow> brpc_request \<Rightarrow> fs \<times> ('k, 'x) server \<Rightarrow>
     (reply outcome \<times> fs \<times> ('k, 'x) server) option" where
  "Brpc_MigrateRecord hx kv ix rq x =
     authenticated hx rq x
       (case map_of (HeadersFromController rq) ''x-kvai-internal-migration'' of
          None \<Rightarrow> Some (reply_message (hx_json hx) 403 ''missing internal migration header'', x)
        | Some internal \<Rightarrow>
            if internal \<noteq> ''1'' then Some (reply_message (hx_json hx) 403 ''missing internal migration header'', x)
            else case brpc_migrated_record (hx_json hx) rq of
              (r, semantic) \<Rightarrow>
                (case Server_ApplyMigratedRecord (hx_server hx) kv ix r semantic (brpc_trace rq) x of
                   (status, y) \<Rightarrow> Some (status_or_done (hx_json hx) ''migration record applied'' status, y)))"

subsection \<open>The state of the server\<close>

definition Brpc_Healthz ::
  "http_env \<Rightarrow> fs \<times> ('k, 'x) server \<Rightarrow> (reply outcome \<times> fs \<times> ('k, 'x) server) option" where
  "Brpc_Healthz hx x =
     Some (reply_json (hx_json hx) 200 (health_json (HealthCheck (hx_server hx) [] (snd x))), x)"

definition Brpc_Metrics ::
  "http_env \<Rightarrow> brpc_request \<Rightarrow> fs \<times> ('k, 'x) server \<Rightarrow> (reply outcome \<times> fs \<times> ('k, 'x) server) option" where
  "Brpc_Metrics hx rq x =
     authenticated hx rq x
       (Some (Ret (ReplyText 200 ''text/plain; version=0.0.4''
          (RenderPrometheus (hx_metrics hx) (sv_metrics (snd x)))), x))"

definition Brpc_OpenApi ::
  "fs \<times> ('k, 'x) server \<Rightarrow> (reply outcome \<times> fs \<times> ('k, 'x) server) option" where
  "Brpc_OpenApi x =
     Some (Ret (ReplyText 200 ''application/yaml'' (OpenApiSpec (fst x) (sv_config (snd x)))), x)"

subsection \<open>The mapping of paths\<close>

datatype brpc_method =
    M_Healthz | M_Metrics | M_OpenApi | M_Search | M_Router | M_Kv | M_UpsertDocument | M_DeleteDocument | M_MigrateRecord

definition brpc_mappings :: "(string \<times> brpc_method) list" where
  "brpc_mappings =
     [(''/healthz'', M_Healthz), (''/metrics'', M_Metrics), (''/openapi.yaml'', M_OpenApi), (''/v1/search'', M_Search),
      (''/v1/router'', M_Router), (''/v1/kv'', M_Kv), (''/v1/kv/batch'', M_Kv), (''/v1/documents'', M_UpsertDocument),
      (''/v1/documents/delete'', M_DeleteDocument), (''/internal/migration/records'', M_MigrateRecord)]"

fun brpc_call ::
  "brpc_method \<Rightarrow> http_env \<Rightarrow> 'k kv_ops \<Rightarrow> 'x index_ops \<Rightarrow> brpc_request \<Rightarrow> fs \<times> ('k, 'x) server \<Rightarrow>
     (reply outcome \<times> fs \<times> ('k, 'x) server) option" where
  "brpc_call M_Healthz hx kv ix rq x = Brpc_Healthz hx x"
| "brpc_call M_Metrics hx kv ix rq x = Brpc_Metrics hx rq x"
| "brpc_call M_OpenApi hx kv ix rq x = Brpc_OpenApi x"
| "brpc_call M_Search hx kv ix rq x = Brpc_Search hx kv ix rq x"
| "brpc_call M_Router hx kv ix rq x = Brpc_Router hx rq x"
| "brpc_call M_Kv hx kv ix rq x = Brpc_Kv hx kv rq x"
| "brpc_call M_UpsertDocument hx kv ix rq x = Brpc_UpsertDocument hx kv ix rq x"
| "brpc_call M_DeleteDocument hx kv ix rq x = Brpc_DeleteDocument hx kv ix rq x"
| "brpc_call M_MigrateRecord hx kv ix rq x = Brpc_MigrateRecord hx kv ix rq x"

subsection \<open>The runtime\<close>

text \<open>
  \<open>BrpcGatewayRuntime\<close> around a server that is started and stopped by \<open>start\<close> and \<open>stop\<close>. What
  BRPC answers to adding the two services and to starting is given by \<open>brpc_host\<close>.
\<close>

record brpc_host =
  bh_add_http :: bool
  bh_add_write :: bool
  bh_start :: bool

record 'sv brpc_runtime =
  br_endpoint :: string
  br_server :: 'sv
  br_serving :: bool
  br_started :: bool

definition Brpc_Start :: "('sv \<Rightarrow> Status \<times> 'sv) \<Rightarrow> brpc_host \<Rightarrow> 'sv brpc_runtime \<Rightarrow> Status \<times> 'sv brpc_runtime" where
  "Brpc_Start start host rt =
     (if br_started rt then (Ok, rt)
      else case start (br_server rt) of
        (status, sv) \<Rightarrow>
          let rt1 = rt\<lparr>br_server := sv\<rparr> in
          if \<not> ok status then (status, rt1)
          else if \<not> bh_add_http host then (Internal ''failed to add BRPC HTTP service'', rt1\<lparr>br_serving := False\<rparr>)
          else if \<not> bh_add_write host then (Internal ''failed to add BRPC KV write service'', rt1\<lparr>br_serving := False\<rparr>)
          else if \<not> bh_start host
          then (Internal (''failed to start BRPC server on '' @ br_endpoint rt), rt1\<lparr>br_serving := False\<rparr>)
          else (Ok, rt1\<lparr>br_serving := True, br_started := True\<rparr>))"

definition Brpc_Stop :: "('sv \<Rightarrow> Status \<times> 'sv) \<Rightarrow> 'sv brpc_runtime \<Rightarrow> Status \<times> 'sv brpc_runtime" where
  "Brpc_Stop stop rt =
     (if \<not> br_started rt then (Ok, rt)
      else case stop (br_server rt) of
        (status, sv) \<Rightarrow> (status, rt\<lparr>br_server := sv, br_serving := False, br_started := False\<rparr>))"

text \<open>The adapter of a build without BRPC.\<close>

definition Adapter_Start :: "string \<Rightarrow> Status" where
  "Adapter_Start endpoint = NotSupported (''BRPC adapter is not compiled in for endpoint: '' @ endpoint)"

definition Adapter_Stop :: Status where
  "Adapter_Stop = Ok"

subsection \<open>Writes of internal callers\<close>

record request_context =
  rc_trace_id :: string
  rc_api_key :: string
  rc_authorization :: string

record kv_write_response =
  kw_trace_id :: string
  kw_message :: string
  kw_record_count :: "32 word"

datatype rpc_end = rpc_failed string | rpc_answered kv_write_response

definition HeadersFromContext :: "request_context \<Rightarrow> (string, string) omap" where
  "HeadersFromContext ctx =
     (let h1 = (if rc_api_key ctx \<noteq> [] then omap_put ''x-api-key'' (rc_api_key ctx) [] else []);
          h2 = (if rc_authorization ctx \<noteq> [] then omap_put ''authorization'' (rc_authorization ctx) h1 else h1)
      in if rc_trace_id ctx \<noteq> [] then omap_put ''x-trace-id'' (rc_trace_id ctx) h2 else h2)"

definition record_of_message :: "pb_document \<Rightarrow> DocumentRecord" where
  "record_of_message m = empty_document\<lparr>doc_collection := pb_collection m, doc_key := pb_key m, doc_title := pb_title m,
     doc_body := pb_body m, doc_version := pb_version m, doc_updated_at := pb_updated_at m,
     doc_mutation_id := pb_mutation_id m,
     doc_metadata := fold (\<lambda>(k, v). omap_put k v) (pb_metadata m) []\<rparr>"

definition rpc_reply :: "request_context \<Rightarrow> string \<Rightarrow> nat \<Rightarrow> Status \<Rightarrow> rpc_end" where
  "rpc_reply ctx what n status =
     (if \<not> ok status then rpc_failed (Status_ToString status)
      else rpc_answered \<lparr>kw_trace_id = rc_trace_id ctx, kw_message = what, kw_record_count = word_of_nat n\<rparr>)"

definition rpc_authenticated ::
  "authenticator \<Rightarrow> request_context \<Rightarrow> 'y \<Rightarrow> (rpc_end \<times> 'y) option \<Rightarrow> (rpc_end \<times> 'y) option" where
  "rpc_authenticated auth ctx x rest =
     (let auth_status = Authenticate auth (HeadersFromContext ctx) in
      if \<not> ok auth_status then Some (rpc_failed (Status_ToString auth_status), x) else rest)"

definition Rpc_PutKv ::
  "server_env \<Rightarrow> authenticator \<Rightarrow> 'k kv_ops \<Rightarrow> request_context \<Rightarrow> pb_document \<Rightarrow> fs \<times> ('k, 'x) server \<Rightarrow>
     (rpc_end \<times> fs \<times> ('k, 'x) server) option" where
  "Rpc_PutKv env auth kv ctx m x =
     rpc_authenticated auth ctx x
       (map_option (\<lambda>(status, y). (rpc_reply ctx ''kv record stored'' 1 status, y))
         (PutKvRecord env kv (record_of_message m) (rc_trace_id ctx) x))"

definition Rpc_BatchPutKv ::
  "server_env \<Rightarrow> authenticator \<Rightarrow> 'k kv_ops \<Rightarrow> request_context \<Rightarrow> pb_document list \<Rightarrow> fs \<times> ('k, 'x) server \<Rightarrow>
     (rpc_end \<times> fs \<times> ('k, 'x) server) option" where
  "Rpc_BatchPutKv env auth kv ctx ms x =
     rpc_authenticated auth ctx x
       (map_option (\<lambda>(status, y). (rpc_reply ctx ''kv batch stored'' (length ms) status, y))
         (PutKvRecords env kv (map record_of_message ms) (rc_trace_id ctx) x))"

definition Rpc_UpsertDocument ::
  "server_env \<Rightarrow> authenticator \<Rightarrow> 'k kv_ops \<Rightarrow> 'x index_ops \<Rightarrow> request_context \<Rightarrow> pb_document \<Rightarrow>
     fs \<times> ('k, 'x) server \<Rightarrow> (rpc_end \<times> fs \<times> ('k, 'x) server) option" where
  "Rpc_UpsertDocument env auth kv ix ctx m x =
     rpc_authenticated auth ctx x
       (map_option (\<lambda>(status, y). (rpc_reply ctx ''document upserted'' 1 status, y))
         (UpsertDocument env kv ix (record_of_message m) (rc_trace_id ctx) x))"

end
