(* ===== verification/Brpc_Properties.thy ===== *)
theory Brpc_Properties
  imports Brpc_Service Http_Properties
begin

text \<open>
  The gateway over BRPC beside the one over HTTP: the routes on which they answer alike, the
  deletion on which they do not, what an internal caller can rely on when it repeats a write,
  and the state of the runtime after a start that failed.
\<close>

subsection \<open>The same request\<close>

fun method_name :: "http_method \<Rightarrow> string" where
  "method_name HTTP_METHOD_GET = ''GET''"
| "method_name HTTP_METHOD_POST = ''POST''"
| "method_name HTTP_METHOD_PUT = ''PUT''"
| "method_name HTTP_METHOD_DELETE = ''DELETE''"
| "method_name (HTTP_METHOD_OTHER m) = m"

definition known_method :: "http_method \<Rightarrow> bool" where
  "known_method m \<longleftrightarrow> (\<forall>n. m = HTTP_METHOD_OTHER n \<longrightarrow> n \<notin> {''GET'', ''POST'', ''PUT'', ''DELETE''})"

text \<open>
  The two parsers read the same request: its method, path and body, and the same headers and
  parameters of the query.
\<close>

definition same_request :: "request \<Rightarrow> brpc_request \<Rightarrow> bool" where
  "same_request rq bq \<longleftrightarrow> known_method (bq_method bq) \<and> rq_method rq = method_name (bq_method bq) \<and>
     rq_path rq = bq_path bq \<and> rq_body rq = bq_body bq \<and> rq_headers rq = HeadersFromController bq \<and>
     ParseQuery (rq_query rq) = QueryParamsFromController bq"

text \<open>The routes that the HTTP gateway has too, with their methods.\<close>

definition shared_route :: "brpc_request \<Rightarrow> bool" where
  "shared_route bq \<longleftrightarrow>
     bq_method bq = HTTP_METHOD_GET \<and> bq_path bq \<in> {''/healthz'', ''/metrics'', ''/openapi.yaml'', ''/v1/search'', ''/v1/router''} \<or>
     bq_method bq = HTTP_METHOD_POST \<and> bq_path bq \<in> {''/v1/search'', ''/internal/migration/records'', ''/v1/documents''} \<or>
     bq_path bq \<in> {''/v1/kv'', ''/v1/kv/batch''}"

text \<open>The bytes with which the HTTP gateway would send a reply.\<close>

definition reason :: "nat \<Rightarrow> string" where
  "reason n = (if n = 401 then ''Unauthorized'' else HttpStatusText n)"

definition render :: "reply \<Rightarrow> string" where
  "render ry = BuildHttpResponse (ry_code ry) (reason (ry_code ry)) (ry_type ry) (ry_body ry)"

fun render_outcome :: "reply outcome \<Rightarrow> string outcome" where
  "render_outcome (Throw e) = Throw e"
| "render_outcome (Ret ry) = Ret (render ry)"

abbreviation rendered :: "(reply outcome \<times> 'y) option \<Rightarrow> (string outcome \<times> 'y) option" where
  "rendered \<equiv> map_option (\<lambda>(out, y). (render_outcome out, y))"

lemma method_name_iff:
  assumes "known_method m"
  shows "method_name m = ''GET'' \<longleftrightarrow> m = HTTP_METHOD_GET" "method_name m = ''POST'' \<longleftrightarrow> m = HTTP_METHOD_POST"
    "method_name m = ''PUT'' \<longleftrightarrow> m = HTTP_METHOD_PUT" "method_name m = ''DELETE'' \<longleftrightarrow> m = HTTP_METHOD_DELETE"
  using assms by (cases m; simp add: known_method_def)+

lemma Brpc_HttpStatusFor [simp]: "Brpc_HttpStatusFor c = HttpStatusFor c"
  by (cases c) simp_all

lemma Brpc_ParseLimit [simp]: "Brpc_ParseLimit ps d = ParseLimit ps d"
  by (simp add: Brpc_ParseLimit_def ParseLimit_def)

lemma render_json: "render_outcome (reply_json js n j) = json_response js n (reason n) j"
  by (cases "js_dump js None j") (simp_all add: reply_json_def json_response_def render_def ReplyJson_def)

lemma render_message: "render_outcome (reply_message js n what) = text_response js n (reason n) ''message'' what"
  by (simp add: reply_message_def text_response_def render_json)

lemma reason_texts [simp]:
  "reason 200 = ''OK''" "reason 401 = ''Unauthorized''" "reason 403 = ''Forbidden''"
  "reason 405 = ''Method Not Allowed''" "reason 503 = ''Service Unavailable''"
  by (simp_all add: reason_def HttpStatusText_def)

lemma reason_status [simp]: "reason (HttpStatusFor c) = HttpStatusText (HttpStatusFor c)"
  by (cases c) (simp_all add: reason_def)

lemma render_status: "render_outcome (ReplyStatus js e) = ErrorResponse js e"
  by (simp add: ReplyStatus_def ErrorResponse_def render_message Let_def)

lemma render_text: "render (ReplyText 200 ct body) = BuildHttpResponse 200 ''OK'' ct body"
  by (simp add: render_def ReplyText_def)

lemma render_done:
  "render_outcome (status_or_done js what status) = kv_answer js what status"
  "render_outcome (unavailable_or_done js what status) = document_answer js what status"
  by (simp_all add: status_or_done_def unavailable_or_done_def kv_answer_def document_answer_def done_response_def
      render_status render_message)

lemmas renders = render_json render_message render_status render_text render_done

lemma rendered_authenticated:
  "rendered (authenticated hx bq x rest) =
     (let status = Authenticate (hx_auth hx) (HeadersFromController bq) in
      if \<not> ok status then Some (text_response (hx_json hx) 401 ''Unauthorized'' ''message'' (Status_ToString status), x)
      else rendered rest)"
  by (simp add: authenticated_def Let_def renders)

lemma same_queries:
  assumes "same_request rq bq"
  shows "url_query rq = brpc_url_query bq (new_query\<lparr>sq_trace_id := trace_of rq\<rparr>)"
    and "body_query js rq = brpc_body_query js bq (new_query\<lparr>sq_trace_id := trace_of rq\<rparr>)"
    and "posted_record js rq = brpc_posted_record js bq"
    and "migrated_record js rq = brpc_migrated_record js bq"
proof -
  have eq: "ParseQuery (rq_query rq) = QueryParamsFromController bq" "rq_body rq = bq_body bq"
    "rq_headers rq = HeadersFromController bq"
    using assms by (simp_all add: same_request_def)
  show "url_query rq = brpc_url_query bq (new_query\<lparr>sq_trace_id := trace_of rq\<rparr>)"
    unfolding url_query_def brpc_url_query_def Let_def eq
    by (simp add: entry_or_empty_def ExtractFilters_def new_query_def split: option.split)
  show "body_query js rq = brpc_body_query js bq (new_query\<lparr>sq_trace_id := trace_of rq\<rparr>)"
    by (simp add: body_query_def brpc_body_query_def Let_def eq)
  have "(case map_of (HeadersFromController bq) ''x-trace-id'' of
        Some v \<Rightarrow> empty_document\<lparr>doc_metadata := omap_put ''trace_id'' v []\<rparr> | None \<Rightarrow> empty_document) =
      empty_document\<lparr>doc_metadata :=
        (case map_of (HeadersFromController bq) ''x-trace-id'' of Some v \<Rightarrow> [(''trace_id'', v)] | None \<Rightarrow> [])\<rparr>"
    by (simp add: empty_document_def split: option.split)
  then show "posted_record js rq = brpc_posted_record js bq"
    unfolding posted_record_def brpc_posted_record_def Let_def eq by (simp only:)
  show "migrated_record js rq = brpc_migrated_record js bq"
    by (simp add: migrated_record_def brpc_migrated_record_def eq)
qed

subsection \<open>Routes\<close>

lemma rendered_search:
  assumes "same_request rq bq" and "bq_method bq = HTTP_METHOD_GET \<or> bq_method bq = HTTP_METHOD_POST"
  shows "rendered (Brpc_Search hx kv ix bq (s, sv)) =
     (let status = Authenticate (hx_auth hx) (rq_headers rq) in
      if \<not> ok status
      then Some (text_response (hx_json hx) 401 ''Unauthorized'' ''message'' (Status_ToString status), s, sv)
      else Some (case handle_search hx kv ix rq sv of (out, sv') \<Rightarrow> (out, s, sv')))"
proof -
  have m: "(rq_method rq = ''GET'') = (bq_method bq = HTTP_METHOD_GET)"
    and h: "rq_headers rq = HeadersFromController bq"
    using assms(1) method_name_iff(1) by (simp_all add: same_request_def)
  have q: "(case map_of (HeadersFromController bq) ''x-trace-id'' of
      Some v \<Rightarrow> new_query\<lparr>sq_trace_id := v\<rparr> | None \<Rightarrow> new_query) = new_query\<lparr>sq_trace_id := trace_of rq\<rparr>"
    by (simp add: h entry_or_empty_def new_query_def split: option.split)
  show ?thesis
    unfolding Brpc_Search_def handle_search_def Let_def prod.case rendered_authenticated q m h
      same_queries(1,2) [OF assms(1)]
    using assms(2)
    by (auto simp: renders search_response_def text_response_def split: outcome.split sum.split prod.split)
qed

lemma rendered_kv:
  assumes "same_request rq bq" and "bq_path bq = ''/v1/kv'' \<or> bq_path bq = ''/v1/kv/batch''"
  shows "rendered (Brpc_Kv hx kv bq (s, sv)) =
     (let status = Authenticate (hx_auth hx) (rq_headers rq) in
      if \<not> ok status
      then Some (text_response (hx_json hx) 401 ''Unauthorized'' ''message'' (Status_ToString status), s, sv)
      else if bq_path bq = ''/v1/kv/batch'' then handle_batch hx kv rq (s, sv) else handle_kv hx kv rq (s, sv))"
proof -
  have m: "rq_method rq = method_name (bq_method bq)" "known_method (bq_method bq)"
    and eq: "rq_headers rq = HeadersFromController bq" "rq_body rq = bq_body bq"
      "ParseQuery (rq_query rq) = QueryParamsFromController bq"
    using assms(1) by (simp_all add: same_request_def)
  note names = method_name_iff [OF m(2)]
  have batch: "rendered (brpc_kv_batch hx kv bq (s, sv)) = handle_batch hx kv rq (s, sv)"
    unfolding brpc_kv_batch_def handle_batch_def Let_def prod.case m(1) names eq
    by (auto simp: renders wrong_method_def option.map_comp comp_def split: option.split sum.split
        intro!: option.map_cong0)
  have other: "rendered (Brpc_Kv hx kv bq (s, sv)) = (let status = Authenticate (hx_auth hx) (rq_headers rq) in
      if \<not> ok status
      then Some (text_response (hx_json hx) 401 ''Unauthorized'' ''message'' (Status_ToString status), s, sv)
      else handle_kv hx kv rq (s, sv))" if "bq_path bq \<noteq> ''/v1/kv/batch''"
    unfolding Brpc_Kv_def handle_kv_def Let_def prod.case rendered_authenticated m(1) names eq
      same_queries(3) [OF assms(1)]
    using that
    by (auto simp: renders wrong_method_def option.map_comp comp_def split: sum.split
        intro!: option.map_cong0)
  show ?thesis
  proof (cases "bq_path bq = ''/v1/kv/batch''")
    case True
    then show ?thesis
      unfolding Brpc_Kv_def Let_def prod.case rendered_authenticated eq using batch by simp
  qed (use other in simp)
qed

lemma rendered_migration:
  assumes "same_request rq bq"
  shows "rendered (Brpc_MigrateRecord hx kv ix bq (s, sv)) =
     (let status = Authenticate (hx_auth hx) (rq_headers rq) in
      if \<not> ok status
      then Some (text_response (hx_json hx) 401 ''Unauthorized'' ''message'' (Status_ToString status), s, sv)
      else Some (handle_migration hx kv ix rq (s, sv)))"
proof -
  have h: "rq_headers rq = HeadersFromController bq" using assms by (simp add: same_request_def)
  show ?thesis
    unfolding Brpc_MigrateRecord_def handle_migration_def Let_def prod.case rendered_authenticated h
      same_queries(4) [OF assms]
    by (auto simp: renders split: option.split prod.split)
qed


definition ping_request :: brpc_request where
  "ping_request = \<lparr>bq_method = HTTP_METHOD_POST, bq_path = ''/v1/kv'', bq_headers = [(''X-Api-Key'', ''k'')],
     bq_query = [], bq_body = []\<rparr>"

lemma ping_headers: "HeadersFromController ping_request = [(''x-api-key'', ''k'')]"
  by code_simp


subsection \<open>Deleting a document\<close>

text \<open>
  The path \<open>/v1/documents\<close> is mapped to \<open>UpsertDocument\<close> whatever the method. A \<open>DELETE\<close> that names
  its document in the query, as the HTTP gateway expects it, and has no body, deletes nothing:
  BRPC treats it as an upsert of a document without a key and refuses it.
\<close>

lemma delete_over_brpc_deletes_nothing:
  assumes "bq_path bq = ''/v1/documents''" and "map_of brpc_mappings (bq_path bq) = Some m"
    and "js_parse (hx_json hx) (bq_body bq) = None"
  shows "\<exists>out. brpc_call m hx kv ix bq x = Some (out, x)"
proof -
  obtain s sv where x: "x = (s, sv)" by (cases x)
  have "doc_key (brpc_posted_record (hx_json hx) bq) = []"
    using assms(3) by (simp add: brpc_posted_record_def Let_def empty_document_def split: option.split)
  moreover have "m = M_UpsertDocument" using assms(1,2) by (simp add: brpc_mappings_def)
  ultimately show ?thesis
    by (simp add: x Brpc_UpsertDocument_def authenticated_def UpsertDocument_def Let_def)
qed

subsection \<open>Repeated writes\<close>

lemma PutKvRecord_done:
  assumes "PutKvRecord env kv r t (s, sv) = Some (status, s', sv')" and "ok status"
  shows "\<exists>r2 counter st. sv_started sv \<and> \<not> cfg_read_only_mode (sv_config sv) \<and> doc_key r \<noteq> [] \<and>
    refuse_remote env ''kv record'' (EnsureTraceId env t) (effective_collection (sv_config sv) (doc_collection r)) (doc_key r) sv
      = Some None \<and>
    PrepareMutation (sn_unix_millis env) (cfg_node_id (sv_config sv))
      (r\<lparr>doc_collection := effective_collection (sv_config sv) (doc_collection r)\<rparr>, sv_counter sv) = (r2, counter) \<and>
    kv_put kv r2 (s, sv_kv sv) = (status, s', st) \<and> sv' = sv\<lparr>sv_counter := counter, sv_kv := st\<rparr>"
proof -
  let ?refusal = "refuse_remote env ''kv record'' (EnsureTraceId env t)
    (effective_collection (sv_config sv) (doc_collection r)) (doc_key r) sv"
  from assms have "sv_started sv" "\<not> cfg_read_only_mode (sv_config sv)" "doc_key r \<noteq> []"
    by (auto simp: PutKvRecord_def Let_def not_started_def read_only_def split: if_splits)
  moreover from this assms obtain refusal where refusal: "?refusal = Some refusal"
    by (auto simp: PutKvRecord_def Let_def)
  moreover have "refusal = None"
  proof (rule ccontr)
    assume "refusal \<noteq> None"
    then obtain e where e: "refusal = Some e" by blast
    with refusal have "?refusal = Some (Some e)" by simp
    then have "\<not> ok e" by (rule refuse_remote_not_ok)
    with e refusal calculation assms show False
      by (auto simp: PutKvRecord_def Let_def)
  qed
  ultimately show ?thesis
    using assms(1) by (auto simp: PutKvRecord_def Let_def split: prod.splits)
qed

text \<open>Completing a record that has an identifier keeps its names, and the counter.\<close>

lemma PrepareMutation_named:
  assumes "doc_mutation_id r \<noteq> []"
  shows "\<exists>r2. PrepareMutation now i (r, counter) = (r2, counter) \<and> doc_mutation_id r2 = doc_mutation_id r \<and>
    document_key r2 = document_key r"
  using assms by (simp add: PrepareMutation_def Let_def document_key_def)

lemma refuse_remote_same:
  assumes "refuse_remote env subject t c k sv = Some None" and "sn_hash env' = sn_hash env"
    and "sv_config sv' = sv_config sv" and "sv_router sv' = sv_router sv"
  shows "refuse_remote env' subject t' c k sv' = Some None"
  using assms by (auto simp: refuse_remote_def DescribeRoute_def split: if_splits)

text \<open>
  A mutation that the server holds: it runs, owns the key, and the document stored under the key
  carries the identifier. Two messages are the same mutation if they name the same document and
  the same identifier.
\<close>

definition same_mutation :: "pb_document \<Rightarrow> pb_document \<Rightarrow> bool" where
  "same_mutation m m' \<longleftrightarrow> pb_collection m' = pb_collection m \<and> pb_key m' = pb_key m \<and> pb_mutation_id m' = pb_mutation_id m"

definition message_key :: "(wal_store, 'x) server \<Rightarrow> pb_document \<Rightarrow> string" where
  "message_key sv m = BuildCompositeKey (effective_collection (sv_config sv) (pb_collection m)) (pb_key m)"

definition holds_mutation :: "server_env \<Rightarrow> pb_document \<Rightarrow> fs \<times> (wal_store, 'x) server \<Rightarrow> bool" where
  "holds_mutation env m = (\<lambda>(s, sv).
     sv_started sv \<and> \<not> cfg_read_only_mode (sv_config sv) \<and> pb_key m \<noteq> [] \<and>
     refuse_remote env ''kv record'' [] (effective_collection (sv_config sv) (pb_collection m)) (pb_key m) sv = Some None \<and>
     (\<exists>e. wal_lookup (s, sv_kv sv) (message_key sv m) = Some e \<and> doc_mutation_id e = pb_mutation_id m))"

lemma Rpc_PutKv_acknowledged:
  assumes "Rpc_PutKv env auth (wal_ops pb) ctx m (s, sv) = Some (rpc_answered resp, s', sv')" and "pb_mutation_id m \<noteq> []"
  shows "ok (Authenticate auth (HeadersFromContext ctx)) \<and>
    resp = \<lparr>kw_trace_id = rc_trace_id ctx, kw_message = ''kv record stored'', kw_record_count = 1\<rparr> \<and>
    sv_started sv \<and> \<not> cfg_read_only_mode (sv_config sv) \<and> pb_key m \<noteq> [] \<and>
    refuse_remote env ''kv record'' [] (effective_collection (sv_config sv) (pb_collection m)) (pb_key m) sv = Some None \<and>
    (\<exists>r st status. Wal_Put pb r (s, sv_kv sv) = (status, s', st) \<and> ok status \<and> sv' = sv\<lparr>sv_kv := st\<rparr> \<and>
       doc_mutation_id r = pb_mutation_id m \<and> document_key r = message_key sv m)"
proof -
  let ?r = "record_of_message m"
  let ?r1 = "?r\<lparr>doc_collection := effective_collection (sv_config sv) (doc_collection ?r)\<rparr>"
  have auth: "ok (Authenticate auth (HeadersFromContext ctx))"
    using assms(1) by (auto simp: Rpc_PutKv_def rpc_authenticated_def Let_def split: if_splits)
  then obtain status where put: "PutKvRecord env (wal_ops pb) ?r (rc_trace_id ctx) (s, sv) = Some (status, s', sv')"
    and reply: "rpc_reply ctx ''kv record stored'' 1 status = rpc_answered resp"
    using assms(1) by (auto simp: Rpc_PutKv_def rpc_authenticated_def Let_def)
  then have ok: "ok status" by (auto simp: rpc_reply_def split: if_splits)
  have r1: "doc_mutation_id ?r1 = pb_mutation_id m" "document_key ?r1 = message_key sv m"
    "doc_collection ?r = pb_collection m" "doc_key ?r = pb_key m"
    by (simp_all add: record_of_message_def message_key_def document_key_def)
  with assms(2) have id: "doc_mutation_id ?r1 \<noteq> []" by simp
  obtain r2 where r2: "PrepareMutation (sn_unix_millis env) (cfg_node_id (sv_config sv)) (?r1, sv_counter sv) = (r2, sv_counter sv)"
    "doc_mutation_id r2 = pb_mutation_id m" "document_key r2 = message_key sv m"
    using PrepareMutation_named [OF id] r1(1,2) by metis
  from PutKvRecord_done [OF put ok] r2(1) obtain st where acked: "sv_started sv" "\<not> cfg_read_only_mode (sv_config sv)" "pb_key m \<noteq> []"
    "refuse_remote env ''kv record'' (EnsureTraceId env (rc_trace_id ctx))
       (effective_collection (sv_config sv) (pb_collection m)) (pb_key m) sv = Some None"
    "Wal_Put pb r2 (s, sv_kv sv) = (status, s', st)" "sv' = sv\<lparr>sv_kv := st\<rparr>"
    by (auto simp: r1(3,4))
  have "refuse_remote env ''kv record'' [] (effective_collection (sv_config sv) (pb_collection m)) (pb_key m) sv = Some None"
    by (rule refuse_remote_same [OF acked(4)]) simp_all
  moreover have "resp = \<lparr>kw_trace_id = rc_trace_id ctx, kw_message = ''kv record stored'', kw_record_count = 1\<rparr>"
    using reply ok by (simp add: rpc_reply_def)
  ultimately show ?thesis using auth acked r2 ok by blast
qed

lemma message_key_kv [simp]: "message_key (sv\<lparr>sv_kv := st\<rparr>) m = message_key sv m"
  by (simp add: message_key_def)

lemma refuse_remote_kv [simp]:
  "refuse_remote env subject t c k (sv\<lparr>sv_kv := st\<rparr>) = refuse_remote env subject t c k sv"
  by (simp add: refuse_remote_def DescribeRoute_def)

lemma settle_mutation_id:
  "doc_mutation_id r \<noteq> [] \<Longrightarrow> doc_mutation_id (settle old r) = doc_mutation_id r"
  by (auto simp: settle_def IsDuplicateMutation_def split: option.split)

text \<open>What was acknowledged is held, what is held stays held under further acknowledged writes.\<close>

lemma acknowledged_is_held:
  assumes "Rpc_PutKv env auth (wal_ops pb) ctx m x = Some (rpc_answered resp, y)" and "pb_mutation_id m \<noteq> []"
  shows "holds_mutation env m y"
proof -
  obtain s sv s' sv' where x: "x = (s, sv)" and y: "y = (s', sv')" by (cases x; cases y)
  from Rpc_PutKv_acknowledged [OF assms(1) [unfolded x y] assms(2)] obtain r st status where a:
    "sv_started sv" "\<not> cfg_read_only_mode (sv_config sv)" "pb_key m \<noteq> []"
    "refuse_remote env ''kv record'' [] (effective_collection (sv_config sv) (pb_collection m)) (pb_key m) sv = Some None"
    "Wal_Put pb r (s, sv_kv sv) = (status, s', st)" "ok status" "sv' = sv\<lparr>sv_kv := st\<rparr>"
    "doc_mutation_id r = pb_mutation_id m" "document_key r = message_key sv m"
    by blast
  from wal_kv.put_ok [OF TrueI TrueI a(5,6)] a(8,9) assms(2) show ?thesis
    using a(1-4) by (simp add: holds_mutation_def y a(7) settle_mutation_id)
qed

lemma held_stays_held:
  assumes "holds_mutation env m x" and "Rpc_PutKv env' auth (wal_ops pb) ctx m' x = Some (rpc_answered resp, y)"
    and "pb_mutation_id m' \<noteq> []" and "pb_collection m' = pb_collection m"
    and "pb_key m' = pb_key m \<longrightarrow> pb_mutation_id m' = pb_mutation_id m"
  shows "holds_mutation env m y"
proof -
  obtain s sv s' sv' where x: "x = (s, sv)" and y: "y = (s', sv')" by (cases x; cases y)
  from Rpc_PutKv_acknowledged [OF assms(2) [unfolded x y] assms(3)] obtain r st status where a:
    "Wal_Put pb r (s, sv_kv sv) = (status, s', st)" "ok status" "sv' = sv\<lparr>sv_kv := st\<rparr>"
    "doc_mutation_id r = pb_mutation_id m'" "document_key r = message_key sv m'"
    by blast
  have key: "message_key sv m' = message_key sv m \<longleftrightarrow> pb_key m' = pb_key m"
    by (simp add: message_key_def assms(4))
  from assms(1) x obtain e where e: "wal_lookup (s, sv_kv sv) (message_key sv m) = Some e" "doc_mutation_id e = pb_mutation_id m"
    and rest: "sv_started sv" "\<not> cfg_read_only_mode (sv_config sv)" "pb_key m \<noteq> []"
      "refuse_remote env ''kv record'' [] (effective_collection (sv_config sv) (pb_collection m)) (pb_key m) sv = Some None"
    by (auto simp: holds_mutation_def)
  from wal_kv.put_ok [OF TrueI TrueI a(1,2)] have
    "wal_lookup (s', st) = (wal_lookup (s, sv_kv sv))(message_key sv m' \<mapsto> settle (wal_lookup (s, sv_kv sv) (document_key r)) r)"
    unfolding a(5) by blast
  moreover have "doc_mutation_id (settle (wal_lookup (s, sv_kv sv) (document_key r)) r) = pb_mutation_id m'"
    using settle_mutation_id [of r] assms(3) a(4) by simp
  ultimately have "\<exists>e. wal_lookup (s', st) (message_key sv m) = Some e \<and> doc_mutation_id e = pb_mutation_id m"
    using e key assms(5) by auto
  then show ?thesis
    using rest by (simp add: holds_mutation_def y a(3))
qed

lemma held_is_acknowledged:
  assumes "holds_mutation env m x" and "ok (Authenticate auth (HeadersFromContext ctx))" and "same_mutation m m'"
    and "pb_mutation_id m \<noteq> []" and "sn_hash env' = sn_hash env"
  shows "Rpc_PutKv env' auth (wal_ops pb) ctx m' x =
    Some (rpc_answered \<lparr>kw_trace_id = rc_trace_id ctx, kw_message = ''kv record stored'', kw_record_count = 1\<rparr>, x)"
proof -
  obtain s sv where x: "x = (s, sv)" by (cases x)
  let ?r = "record_of_message m'"
  let ?r1 = "?r\<lparr>doc_collection := effective_collection (sv_config sv) (doc_collection ?r)\<rparr>"
  from assms(3) have r1: "doc_mutation_id ?r1 = pb_mutation_id m" "document_key ?r1 = message_key sv m"
    "doc_collection ?r = pb_collection m" "doc_key ?r = pb_key m"
    by (simp_all add: same_mutation_def record_of_message_def message_key_def document_key_def)
  with assms(4) have id: "doc_mutation_id ?r1 \<noteq> []" by simp
  obtain r2 where r2: "PrepareMutation (sn_unix_millis env') (cfg_node_id (sv_config sv)) (?r1, sv_counter sv) = (r2, sv_counter sv)"
    "doc_mutation_id r2 = pb_mutation_id m" "document_key r2 = message_key sv m"
    using PrepareMutation_named [OF id] r1(1,2) by metis
  from assms(1) x obtain e where e: "wal_lookup (s, sv_kv sv) (message_key sv m) = Some e" "doc_mutation_id e = pb_mutation_id m"
    and rest: "sv_started sv" "\<not> cfg_read_only_mode (sv_config sv)" "pb_key m \<noteq> []"
      "refuse_remote env ''kv record'' [] (effective_collection (sv_config sv) (pb_collection m)) (pb_key m) sv = Some None"
    by (auto simp: holds_mutation_def)
  have "IsDuplicateMutation e r2" using e(2) r2(2) assms(4) by (simp add: IsDuplicateMutation_def)
  with e(1) r2(3) have again: "Wal_Put pb r2 (s, sv_kv sv) = (Ok, s, sv_kv sv)"
    by (intro wal_kv.put_retry [OF TrueI TrueI]) simp_all
  have "refuse_remote env' ''kv record'' (EnsureTraceId env' (rc_trace_id ctx))
       (effective_collection (sv_config sv) (pb_collection m)) (pb_key m) sv = Some None"
    by (rule refuse_remote_same [OF rest(4) assms(5)]) simp_all
  then have "PutKvRecord env' (wal_ops pb) ?r (rc_trace_id ctx) (s, sv) = Some (Ok, s, sv)"
    using rest(1-3) r2(1) again by (simp add: PutKvRecord_def Let_def r1(3,4))
  with assms(2) show ?thesis
    by (simp add: x Rpc_PutKv_def rpc_authenticated_def rpc_reply_def)
qed


definition ping_message :: pb_document where
  "ping_message = default_pb_document\<lparr>pb_collection := ''c'', pb_key := ''k'', pb_mutation_id := ''m''\<rparr>"


subsection \<open>A start that fails\<close>

text \<open>
  When BRPC does not start, the server that was started for it keeps running: \<open>Stop\<close> does
  nothing, as the runtime does not count as started.
\<close>

lemma failed_start_leaves_the_server_running:
  assumes "\<not> br_started rt" and "start (br_server rt) = (Ok, sv)" and "\<not> bh_start host"
    and "Brpc_Start start host rt = (status, rt')"
  shows "\<not> ok status \<and> br_server rt' = sv \<and> Brpc_Stop stop rt' = (Ok, rt')"
  using assms by (auto simp: Brpc_Start_def Brpc_Stop_def Let_def split: if_splits)

end
