(* ===== verification/Benchmark_Client.thy ===== *)
theory Benchmark_Client
  imports Brpc_Properties
begin

text \<open>
  \<open>src/gateway/brpc_kv_benchmark.cpp\<close>: the program that measures the writes of internal callers.
  Its workers draw numbers from one counter, send a request for each, and add up what they saw.
  The workers are a step relation; what a request ends with, the clock and the measured times
  are chosen by the environment. Double precision is the parameter \<open>bench_num\<close>.
\<close>

subsection \<open>Options\<close>

record bench_options =
  bo_server :: string
  bo_api_key :: string
  bo_mode :: string
  bo_output :: string
  bo_threads :: int
  bo_duration_seconds :: int
  bo_warmup_seconds :: int
  bo_timeout_ms :: int
  bo_batch_size :: int

definition default_bench_options :: bench_options where
  "default_bench_options = \<lparr>bo_server = ''127.0.0.1:8080'', bo_api_key = [], bo_mode = ''kv'', bo_output = [],
     bo_threads = 16, bo_duration_seconds = 30, bo_warmup_seconds = 5, bo_timeout_ms = 10000, bo_batch_size = 100\<rparr>"

definition bench_option :: "string \<Rightarrow> (string \<Rightarrow> bench_options \<Rightarrow> bench_options outcome) option" where
  "bench_option arg =
     (let stoi_into = (\<lambda>set_field v opts. outcome_bind (cxx_stoi v) (\<lambda>n. Ret (set_field n opts))) in
      if arg = ''--server'' then Some (\<lambda>v opts. Ret (opts\<lparr>bo_server := v\<rparr>))
      else if arg = ''--api-key'' then Some (\<lambda>v opts. Ret (opts\<lparr>bo_api_key := v\<rparr>))
      else if arg = ''--mode'' then Some (\<lambda>v opts. Ret (opts\<lparr>bo_mode := v\<rparr>))
      else if arg = ''--threads'' then Some (stoi_into (\<lambda>n opts. opts\<lparr>bo_threads := n\<rparr>))
      else if arg = ''--duration-seconds'' then Some (stoi_into (\<lambda>n opts. opts\<lparr>bo_duration_seconds := n\<rparr>))
      else if arg = ''--warmup-seconds'' then Some (stoi_into (\<lambda>n opts. opts\<lparr>bo_warmup_seconds := n\<rparr>))
      else if arg = ''--timeout-ms'' then Some (stoi_into (\<lambda>n opts. opts\<lparr>bo_timeout_ms := n\<rparr>))
      else if arg = ''--batch-size'' then Some (stoi_into (\<lambda>n opts. opts\<lparr>bo_batch_size := n\<rparr>))
      else if arg = ''--output'' then Some (\<lambda>v opts. Ret (opts\<lparr>bo_output := v\<rparr>))
      else None)"

text \<open>\<open>Inl\<close> is the message with which the program exits.\<close>

fun bench_arguments :: "string list \<Rightarrow> bench_options \<Rightarrow> (string + bench_options) outcome" where
  "bench_arguments [] opts = Ret (Inr opts)"
| "bench_arguments [arg] opts =
     Ret (Inl (case bench_option arg of
                 None \<Rightarrow> ''unknown argument: '' @ arg
               | Some _ \<Rightarrow> ''missing value for '' @ arg))"
| "bench_arguments (arg # v # args) opts =
     (case bench_option arg of
        None \<Rightarrow> Ret (Inl (''unknown argument: '' @ arg))
      | Some put_value \<Rightarrow> outcome_bind (put_value v opts) (bench_arguments args))"

definition ParseArgs :: "string list \<Rightarrow> (string + bench_options) outcome" where
  "ParseArgs args =
     outcome_bind (bench_arguments args default_bench_options) (\<lambda>parsed.
       Ret (case parsed of
              Inl e \<Rightarrow> Inl e
            | Inr opts \<Rightarrow>
                if bo_mode opts \<noteq> ''kv'' \<and> bo_mode opts \<noteq> ''kv_batch'' \<and> bo_mode opts \<noteq> ''vector''
                then Inl ''--mode must be kv, kv_batch, or vector''
                else Inr (opts\<lparr>bo_threads := max 1 (bo_threads opts), bo_duration_seconds := max 1 (bo_duration_seconds opts),
                       bo_warmup_seconds := max 0 (bo_warmup_seconds opts), bo_batch_size := max 1 (bo_batch_size opts)\<rparr>)))"

lemma ParseArgs_in_range:
  assumes "ParseArgs args = Ret (Inr opts)"
  shows "1 \<le> bo_threads opts \<and> 1 \<le> bo_duration_seconds opts \<and> 0 \<le> bo_warmup_seconds opts \<and> 1 \<le> bo_batch_size opts \<and>
    bo_mode opts \<in> {''kv'', ''kv_batch'', ''vector''}"
proof -
  from assms obtain parsed where parsed: "bench_arguments args default_bench_options = Ret parsed"
    by (auto simp: ParseArgs_def outcome_bind_Ret_iff)
  with assms show ?thesis by (cases parsed) (auto simp: ParseArgs_def split: if_splits)
qed

subsection \<open>Requests\<close>

definition FillContext :: "bench_options \<Rightarrow> 64 word \<Rightarrow> request_context" where
  "FillContext opts sequence = \<lparr>rc_trace_id = ''brpc-bench-'' @ to_string (unat sequence), rc_api_key = bo_api_key opts,
     rc_authorization = []\<rparr>"

definition FillRecord :: "int \<Rightarrow> string \<Rightarrow> string \<Rightarrow> string \<Rightarrow> pb_document" where
  "FillRecord now collection key body = default_pb_document\<lparr>pb_collection := collection, pb_key := key, pb_body := body,
     pb_version := word_of_int now, pb_updated_at := word_of_int now, pb_mutation_id := ''brpc-bench-'' @ key,
     pb_metadata := [(''kind'', ''benchmark'')]\<rparr>"

datatype bench_request =
    Bench_PutKv request_context pb_document
  | Bench_BatchPutKv request_context "pb_document list"
  | Bench_UpsertDocument request_context pb_document

text \<open>The request of \<open>RequestOnce\<close>; \<open>clock i\<close> is the reading for its \<open>i\<close>-th record.\<close>

definition bench_kv_record :: "int \<Rightarrow> 64 word \<Rightarrow> pb_document" where
  "bench_kv_record now sequence = FillRecord now ''bench_kv'' (''brpc-kv-'' @ to_string (unat sequence))
     (''pure kv protobuf benchmark payload '' @ to_string (unat sequence))"

definition bench_batch_records :: "bench_options \<Rightarrow> (nat \<Rightarrow> int) \<Rightarrow> 64 word \<Rightarrow> pb_document list" where
  "bench_batch_records opts clock sequence =
     (let base = sequence * word_of_int (bo_batch_size opts) in
      map (\<lambda>offset. let item = base + word_of_nat offset in
             FillRecord (clock offset) ''bench_kv'' (''brpc-kv-batch-'' @ to_string (unat item))
               (''pure kv protobuf batch benchmark payload '' @ to_string (unat item)))
        [0..<nat (bo_batch_size opts)])"

definition bench_request :: "bench_options \<Rightarrow> (nat \<Rightarrow> int) \<Rightarrow> 64 word \<Rightarrow> bench_request" where
  "bench_request opts clock sequence =
     (let ctx = FillContext opts sequence; n = to_string (unat sequence) in
      if bo_mode opts = ''kv'' then Bench_PutKv ctx (bench_kv_record (clock 0) sequence)
      else if bo_mode opts = ''kv_batch'' then Bench_BatchPutKv ctx (bench_batch_records opts clock sequence)
      else Bench_UpsertDocument ctx
        ((FillRecord (clock 0) ''bench_documents'' (''brpc-doc-'' @ n)
            (''RangeVecKV protobuf benchmark document with semantic vector indexing '' @ n))
          \<lparr>pb_title := ''Protobuf Vector Benchmark '' @ n\<rparr>))"

text \<open>What \<open>RequestOnce\<close> reports: nothing, or the text of the failure.\<close>

fun request_error :: "rpc_end \<Rightarrow> string option" where
  "request_error (rpc_failed e) = Some (if e = [] then ''rpc_failed'' else e)"
| "request_error (rpc_answered _) = None"

text \<open>The service at the other end.\<close>

fun bench_serve ::
  "server_env \<Rightarrow> authenticator \<Rightarrow> 'k kv_ops \<Rightarrow> 'x index_ops \<Rightarrow> bench_request \<Rightarrow> fs \<times> ('k, 'x) server \<Rightarrow>
     (rpc_end \<times> fs \<times> ('k, 'x) server) option" where
  "bench_serve env auth kv ix (Bench_PutKv ctx m) x = Rpc_PutKv env auth kv ctx m x"
| "bench_serve env auth kv ix (Bench_BatchPutKv ctx ms) x = Rpc_BatchPutKv env auth kv ctx ms x"
| "bench_serve env auth kv ix (Bench_UpsertDocument ctx m) x = Rpc_UpsertDocument env auth kv ix ctx m x"

subsection \<open>The workers\<close>

text \<open>
  What a worker has counted, and where it is: before its channel is open, between two requests,
  waiting for the answer to one, and in the three updates of the totals at its end.
\<close>

record bench_counts =
  bc_successes :: nat
  bc_latencies :: "float64 list"
  bc_errors :: "(string, nat) omap"

datatype bench_worker =
    Opening
  | Between bench_counts
  | Awaiting "64 word" bench_counts
  | Adding_Successes bench_counts
  | Adding_Latencies bench_counts
  | Adding_Errors bench_counts
  | Gone

record bench_run =
  br_sequence :: "64 word"
  br_successes :: nat
  br_latencies :: "float64 list"
  br_errors :: "(string, nat) omap"
  br_workers :: "bench_worker list"
  br_sent :: "64 word list"
  br_unopened :: nat

text \<open>\<open>br_sent\<close> and \<open>br_unopened\<close>, the number of channels that failed, are history variables.\<close>

definition new_bench_run :: "bench_options \<Rightarrow> bench_run" where
  "new_bench_run opts = \<lparr>br_sequence = 0, br_successes = 0, br_latencies = [], br_errors = [],
     br_workers = replicate (nat (bo_threads opts)) Opening, br_sent = [], br_unopened = 0\<rparr>"

definition no_counts :: bench_counts where
  "no_counts = \<lparr>bc_successes = 0, bc_latencies = [], bc_errors = []\<rparr>"

definition add_error_count :: "string \<Rightarrow> nat \<Rightarrow> (string, nat) omap \<Rightarrow> (string, nat) omap" where
  "add_error_count e n m = omap_put e ((case map_of m e of None \<Rightarrow> 0 | Some k \<Rightarrow> k) + n) m"

definition at_worker :: "nat \<Rightarrow> bench_worker \<Rightarrow> bench_run \<Rightarrow> bench_run" where
  "at_worker i w b = b\<lparr>br_workers := (br_workers b)[i := w]\<rparr>"

definition worker_draws :: "nat \<Rightarrow> bench_counts \<Rightarrow> bench_run \<Rightarrow> bench_run" where
  "worker_draws i lo b =
     (let item = br_sequence b + 1 in
      at_worker i (Awaiting item lo) (b\<lparr>br_sequence := item, br_sent := br_sent b @ [item]\<rparr>))"

definition count_answer :: "string option \<Rightarrow> float64 \<Rightarrow> bench_counts \<Rightarrow> bench_counts" where
  "count_answer err latency lo =
     (case err of
        None \<Rightarrow> lo\<lparr>bc_successes := bc_successes lo + 1, bc_latencies := bc_latencies lo @ [latency]\<rparr>
      | Some e \<Rightarrow> lo\<lparr>bc_errors := add_error_count e 1 (bc_errors lo)\<rparr>)"

definition add_successes :: "bench_counts \<Rightarrow> bench_run \<Rightarrow> bench_run" where
  "add_successes lo b = b\<lparr>br_successes := br_successes b + bc_successes lo\<rparr>"

definition add_latencies :: "bench_counts \<Rightarrow> bench_run \<Rightarrow> bench_run" where
  "add_latencies lo b = b\<lparr>br_latencies := br_latencies b @ bc_latencies lo\<rparr>"

definition add_errors :: "bench_counts \<Rightarrow> bench_run \<Rightarrow> bench_run" where
  "add_errors lo b = b\<lparr>br_errors := fold (\<lambda>(e, n). add_error_count e n) (bc_errors lo) (br_errors b)\<rparr>"

definition channel_failed :: "bench_run \<Rightarrow> bench_run" where
  "channel_failed b = b\<lparr>br_errors := add_error_count ''channel_init_failed'' 1 (br_errors b), br_unopened := br_unopened b + 1\<rparr>"

inductive bench_step :: "bench_run \<Rightarrow> bench_run \<Rightarrow> bool" where
  unopened: "i < length (br_workers b) \<Longrightarrow> br_workers b ! i = Opening \<Longrightarrow> bench_step b (at_worker i Gone (channel_failed b))"
| opened: "i < length (br_workers b) \<Longrightarrow> br_workers b ! i = Opening \<Longrightarrow> bench_step b (at_worker i (Between no_counts) b)"
| draws: "i < length (br_workers b) \<Longrightarrow> br_workers b ! i = Between lo \<Longrightarrow> bench_step b (worker_draws i lo b)"
| answered: "i < length (br_workers b) \<Longrightarrow> br_workers b ! i = Awaiting item lo \<Longrightarrow>
    bench_step b (at_worker i (Between (count_answer (request_error end_of_call) latency lo)) b)"
| time_over: "i < length (br_workers b) \<Longrightarrow> br_workers b ! i = Between lo \<Longrightarrow> bench_step b (at_worker i (Adding_Successes lo) b)"
| successes: "i < length (br_workers b) \<Longrightarrow> br_workers b ! i = Adding_Successes lo \<Longrightarrow>
    bench_step b (at_worker i (Adding_Latencies lo) (add_successes lo b))"
| latencies: "i < length (br_workers b) \<Longrightarrow> br_workers b ! i = Adding_Latencies lo \<Longrightarrow>
    bench_step b (at_worker i (Adding_Errors lo) (add_latencies lo b))"
| errors: "i < length (br_workers b) \<Longrightarrow> br_workers b ! i = Adding_Errors lo \<Longrightarrow>
    bench_step b (at_worker i Gone (add_errors lo b))"

definition all_gone :: "bench_run \<Rightarrow> bool" where
  "all_gone b \<longleftrightarrow> set (br_workers b) \<subseteq> {Gone}"

subsection \<open>The result\<close>

record bench_num =
  bn_of_nat :: "nat \<Rightarrow> float64"
  bn_add :: "float64 \<Rightarrow> float64 \<Rightarrow> float64"
  bn_mul :: "float64 \<Rightarrow> float64 \<Rightarrow> float64"
  bn_div :: "float64 \<Rightarrow> float64 \<Rightarrow> float64"
  bn_less :: "float64 \<Rightarrow> float64 \<Rightarrow> bool"
  bn_trunc :: "float64 \<Rightarrow> nat"
  bn_sort :: "float64 list \<Rightarrow> float64 list"
  bn_text :: "float64 \<Rightarrow> string"

record bench_result =
  rs_successes :: nat
  rs_record_successes :: nat
  rs_elapsed_seconds :: float64
  rs_latencies_ms :: "float64 list"
  rs_errors :: "(string, nat) omap"

definition records_per_success :: "bench_options \<Rightarrow> nat" where
  "records_per_success opts = (if bo_mode opts = ''kv_batch'' then nat (bo_batch_size opts) else 1)"

definition bench_result_of :: "bench_num \<Rightarrow> bench_options \<Rightarrow> float64 \<Rightarrow> bench_run \<Rightarrow> bench_result" where
  "bench_result_of bn opts elapsed b = \<lparr>rs_successes = br_successes b,
     rs_record_successes = br_successes b * records_per_success opts, rs_elapsed_seconds = elapsed,
     rs_latencies_ms = bn_sort bn (br_latencies b), rs_errors = br_errors b\<rparr>"

text \<open>\<open>std::min\<close> and \<open>std::max\<close> of doubles, as the standard defines them by the comparison.\<close>

definition Percentile :: "bench_num \<Rightarrow> float64 list \<Rightarrow> nat \<Rightarrow> float64" where
  "Percentile bn vs percentile =
     (if vs = [] then d_zero
      else
        let top = bn_of_nat bn (length vs - 1);
            wanted = bn_mul bn (bn_div bn (bn_of_nat bn percentile) (bn_of_nat bn 100)) top;
            low = (if bn_less bn wanted top then wanted else top)
        in vs ! bn_trunc bn (if bn_less bn d_zero low then low else d_zero))"

fun JsonEscape :: "string \<Rightarrow> string" where
  "JsonEscape [] = []"
| "JsonEscape (c # s) =
     (if c = CHR 0x5C then [CHR 0x5C, CHR 0x5C] @ JsonEscape s
      else if c = CHR 0x22 then [CHR 0x5C, CHR 0x22] @ JsonEscape s
      else if c = CHR 0x0A then [CHR 0x5C, CHR ''n''] @ JsonEscape s
      else c # JsonEscape s)"

definition json_member :: "nat \<Rightarrow> string \<Rightarrow> string \<Rightarrow> string" where
  "json_member indent name v = replicate indent CHR '' '' @ [CHR 0x22] @ name @ [CHR 0x22] @ '': '' @ v"

definition json_quoted :: "string \<Rightarrow> string" where
  "json_quoted s = CHR 0x22 # JsonEscape s @ [CHR 0x22]"

definition error_lines :: "(string, nat) omap \<Rightarrow> string" where
  "error_lines errs = concat (map (\<lambda>(i, e, n). (if i = 0 then [] else '','') @ [CHR 0x0A] @
     json_member 4 (JsonEscape e) (to_string n)) (enumerate 0 errs))"

definition PrintResult :: "bench_num \<Rightarrow> bench_options \<Rightarrow> bench_result \<Rightarrow> string" where
  "PrintResult bn opts r =
     (let rate = (\<lambda>n. if bn_less bn d_zero (rs_elapsed_seconds r) then bn_div bn (bn_of_nat bn n) (rs_elapsed_seconds r) else d_zero);
          ls = rs_latencies_ms r;
          average = (if ls = [] then d_zero else bn_div bn (foldl (bn_add bn) d_zero ls) (bn_of_nat bn (length ls)));
          line = (\<lambda>s. s @ [CHR 0x0A]); comma = (\<lambda>s. s @ '','' @ [CHR 0x0A]);
          p = (\<lambda>n. bn_text bn (Percentile bn ls n))
      in line ''{''
        @ comma (json_member 2 ''wire'' (CHR 0x22 # ''protobuf_brpc'' @ [CHR 0x22]))
        @ comma (json_member 2 ''mode'' (json_quoted (bo_mode opts)))
        @ comma (json_member 2 ''server'' (json_quoted (bo_server opts)))
        @ comma (json_member 2 ''threads'' (to_string_int (bo_threads opts)))
        @ comma (json_member 2 ''duration_seconds'' (bn_text bn (rs_elapsed_seconds r)))
        @ comma (json_member 2 ''successes'' (to_string (rs_successes r)))
        @ comma (json_member 2 ''records_per_success'' (to_string (records_per_success opts)))
        @ comma (json_member 2 ''record_successes'' (to_string (rs_record_successes r)))
        @ comma (json_member 2 ''qps'' (bn_text bn (rate (rs_successes r))))
        @ comma (json_member 2 ''records_per_second'' (bn_text bn (rate (rs_record_successes r))))
        @ line (json_member 2 ''latency_ms'' ''{'')
        @ comma (json_member 4 ''avg'' (bn_text bn average))
        @ comma (json_member 4 ''p50'' (p 50)) @ comma (json_member 4 ''p95'' (p 95)) @ comma (json_member 4 ''p99'' (p 99))
        @ line (json_member 4 ''max'' (bn_text bn (if ls = [] then d_zero else last ls)))
        @ comma (''  }'')
        @ json_member 2 ''errors'' ''{'' @ error_lines (rs_errors r)
        @ (if rs_errors r = [] then [] else [CHR 0x0A] @ ''  '') @ line ''}'' @ line ''}'')"

text \<open>The end of the program after the measured run: the exit code, the outputs and the files.\<close>

definition bench_main_end ::
  "bench_num \<Rightarrow> bench_options \<Rightarrow> bench_result \<Rightarrow> fs \<Rightarrow> nat \<times> string \<times> string \<times> fs" where
  "bench_main_end bn opts r s =
     (let report = PrintResult bn opts r; code = (if rs_errors r = [] then 0 else 1) in
      if bo_output opts = [] then (code, report, [], s)
      else if \<not> fs_writable s (bo_output opts)
      then (1, report, ''failed to open output file: '' @ bo_output opts @ [CHR 0x0A], s)
      else (code, report, [], write_file (bo_output opts) report s))"

end
