(* ===== verification/Benchmark_Properties.thy ===== *)
theory Benchmark_Properties
  imports Benchmark_Client
begin

text \<open>
  What the benchmark measures: its totals account for every request, no two requests of a run
  write the same document, and the measured run repeats the mutations of the run that warms up,
  which the server recognises and does not apply.
\<close>

subsection \<open>Counting\<close>

definition error_total :: "(string, nat) omap \<Rightarrow> nat" where
  "error_total m = sum_list (map snd m)"

lemma error_total_simps [simp]: "error_total [] = 0" "error_total (x # m) = snd x + error_total m"
  by (simp_all add: error_total_def)

lemma error_total_put:
  "omap_wf m \<Longrightarrow> error_total (omap_put e n m) + (case map_of m e of None \<Rightarrow> 0 | Some k \<Rightarrow> k) = error_total m + n"
proof (induction e n m rule: omap_put.induct)
  case (2 k v a b m)
  have "map_of m k = None" if "k \<le> a"
    using 2(2) that by (fastforce simp: omap_wf_def map_of_eq_None_iff)
  with 2 show ?case by (auto simp: error_total_def omap_wf_def split: option.splits)
qed (simp add: error_total_def)

lemma error_total_add [simp]: "omap_wf m \<Longrightarrow> error_total (add_error_count e n m) = error_total m + n"
  using error_total_put [of m e "(case map_of m e of None \<Rightarrow> 0 | Some k \<Rightarrow> k) + n"]
  by (simp add: add_error_count_def)

lemma add_error_count_wf [simp]: "omap_wf m \<Longrightarrow> omap_wf (add_error_count e n m)"
  by (simp add: add_error_count_def)

lemma omap_put_not_empty: "omap_put k v m \<noteq> []"
  by (induction k v m rule: omap_put.induct) auto

lemma add_error_count_not_empty [simp]: "add_error_count e n m \<noteq> []"
  by (simp add: add_error_count_def omap_put_not_empty)

lemma add_errors_fold:
  "omap_wf m \<Longrightarrow> omap_wf (fold (\<lambda>(e, n). add_error_count e n) es m) \<and>
    error_total (fold (\<lambda>(e, n). add_error_count e n) es m) = error_total m + error_total es \<and>
    (m \<noteq> [] \<longrightarrow> fold (\<lambda>(e, n). add_error_count e n) es m \<noteq> [])"
  by (induction es arbitrary: m) (auto split: prod.split)

lemma sum_list_at:
  "i < length ws \<Longrightarrow> sum_list (map f (ws[i := w])) + f (ws ! i) = sum_list (map f ws) + (f w :: nat)"
proof (induction ws arbitrary: i)
  case (Cons a ws)
  then show ?case by (cases i) auto
qed simp

text \<open>What a worker has not yet added to the totals.\<close>

fun unsettled :: "bench_worker \<Rightarrow> nat" where
  "unsettled Opening = 0"
| "unsettled (Between lo) = bc_successes lo + error_total (bc_errors lo)"
| "unsettled (Awaiting item lo) = bc_successes lo + error_total (bc_errors lo) + 1"
| "unsettled (Adding_Successes lo) = bc_successes lo + error_total (bc_errors lo)"
| "unsettled (Adding_Latencies lo) = error_total (bc_errors lo)"
| "unsettled (Adding_Errors lo) = error_total (bc_errors lo)"
| "unsettled Gone = 0"

fun held_successes :: "bench_worker \<Rightarrow> nat" where
  "held_successes (Between lo) = bc_successes lo"
| "held_successes (Awaiting item lo) = bc_successes lo"
| "held_successes (Adding_Successes lo) = bc_successes lo"
| "held_successes _ = 0"

fun held_latencies :: "bench_worker \<Rightarrow> nat" where
  "held_latencies (Between lo) = length (bc_latencies lo)"
| "held_latencies (Awaiting item lo) = length (bc_latencies lo)"
| "held_latencies (Adding_Successes lo) = length (bc_latencies lo)"
| "held_latencies (Adding_Latencies lo) = length (bc_latencies lo)"
| "held_latencies _ = 0"

fun worker_wf :: "bench_worker \<Rightarrow> bool" where
  "worker_wf (Between lo) = omap_wf (bc_errors lo)"
| "worker_wf (Awaiting item lo) = omap_wf (bc_errors lo)"
| "worker_wf _ = True"

definition workers_wf :: "bench_worker list \<Rightarrow> bool" where
  "workers_wf ws \<longleftrightarrow> (\<forall>w \<in> set ws. worker_wf w)"

lemma workers_wf_at: "workers_wf ws \<Longrightarrow> worker_wf w \<Longrightarrow> workers_wf (ws[i := w])"
  using set_update_subset_insert [of ws i w] by (auto simp: workers_wf_def)

lemma workers_wf_nth: "workers_wf ws \<Longrightarrow> i < length ws \<Longrightarrow> ws ! i = w \<Longrightarrow> worker_wf w"
  by (auto simp: workers_wf_def)

text \<open>The numbers that were drawn are those from one upwards.\<close>

definition numbered :: "64 word list \<Rightarrow> bool" where
  "numbered items \<longleftrightarrow> items = map of_nat [1..<Suc (length items)]"

lemma numbered_snoc: "numbered items \<Longrightarrow> item = of_nat (length items) + 1 \<Longrightarrow> numbered (items @ [item])"
  by (simp add: numbered_def)

definition bench_inv :: "bench_run \<Rightarrow> bool" where
  "bench_inv b \<longleftrightarrow> omap_wf (br_errors b) \<and> workers_wf (br_workers b) \<and>
     length (br_sent b) + br_unopened b =
       br_successes b + error_total (br_errors b) + sum_list (map unsettled (br_workers b)) \<and>
     length (br_latencies b) + sum_list (map held_latencies (br_workers b)) =
       br_successes b + sum_list (map held_successes (br_workers b)) \<and>
     br_sequence b = of_nat (length (br_sent b)) \<and>
     numbered (br_sent b) \<and>
     (0 < br_unopened b \<longrightarrow> br_errors b \<noteq> [])"

lemma bench_inv_new: "bench_inv (new_bench_run opts)"
  by (simp add: bench_inv_def new_bench_run_def error_total_def sum_list_replicate numbered_def workers_wf_def)

lemma bench_inv_step:
  assumes "bench_step b b'" and "bench_inv b"
  shows "bench_inv b'"
  using assms
proof (induction rule: bench_step.induct)
  case (unopened i b)
  with sum_list_at [OF unopened(1), of unsettled Gone] sum_list_at [OF unopened(1), of held_latencies Gone]
    sum_list_at [OF unopened(1), of held_successes Gone]
  show ?case by (auto simp: bench_inv_def at_worker_def channel_failed_def simp: workers_wf_at)
next
  case (opened i b)
  with sum_list_at [OF opened(1), of unsettled "Between no_counts"] sum_list_at [OF opened(1), of held_latencies "Between no_counts"]
    sum_list_at [OF opened(1), of held_successes "Between no_counts"]
  show ?case by (auto simp: bench_inv_def at_worker_def no_counts_def error_total_def simp: workers_wf_at)
next
  case (draws i b lo)
  let ?w = "Awaiting (br_sequence b + 1) lo"
  from draws have wf: "omap_wf (bc_errors lo)"
    by (auto simp: bench_inv_def dest: workers_wf_nth)
  from draws wf sum_list_at [OF draws(1), of unsettled ?w] sum_list_at [OF draws(1), of held_latencies ?w]
    sum_list_at [OF draws(1), of held_successes ?w]
  show ?case by (auto simp: bench_inv_def at_worker_def worker_draws_def Let_def numbered_snoc simp: workers_wf_at)
next
  case (answered i b item lo end_of_call latency)
  let ?w = "Between (count_answer (request_error end_of_call) latency lo)"
  from answered have wf: "omap_wf (bc_errors lo)"
    by (auto simp: bench_inv_def dest: workers_wf_nth)
  from answered wf sum_list_at [OF answered(1), of unsettled ?w] sum_list_at [OF answered(1), of held_latencies ?w]
    sum_list_at [OF answered(1), of held_successes ?w]
  show ?case
    by (cases "request_error end_of_call")
      (auto simp: bench_inv_def at_worker_def count_answer_def simp: workers_wf_at)
next
  case (time_over i b lo)
  let ?w = "Adding_Successes lo"
  from time_over sum_list_at [OF time_over(1), of unsettled ?w] sum_list_at [OF time_over(1), of held_latencies ?w]
    sum_list_at [OF time_over(1), of held_successes ?w]
  show ?case by (auto simp: bench_inv_def at_worker_def simp: workers_wf_at)
next
  case (successes i b lo)
  let ?w = "Adding_Latencies lo"
  from successes sum_list_at [OF successes(1), of unsettled ?w] sum_list_at [OF successes(1), of held_latencies ?w]
    sum_list_at [OF successes(1), of held_successes ?w]
  show ?case by (auto simp: bench_inv_def at_worker_def add_successes_def simp: workers_wf_at)
next
  case (latencies i b lo)
  let ?w = "Adding_Errors lo"
  from latencies sum_list_at [OF latencies(1), of unsettled ?w] sum_list_at [OF latencies(1), of held_latencies ?w]
    sum_list_at [OF latencies(1), of held_successes ?w]
  show ?case by (auto simp: bench_inv_def at_worker_def add_latencies_def simp: workers_wf_at)
next
  case (errors i b lo)
  from errors add_errors_fold [of "br_errors b" "bc_errors lo"] sum_list_at [OF errors(1), of unsettled Gone]
    sum_list_at [OF errors(1), of held_latencies Gone] sum_list_at [OF errors(1), of held_successes Gone]
  show ?case by (auto simp: bench_inv_def at_worker_def add_errors_def simp: workers_wf_at)
qed

lemma bench_inv_run: "bench_step\<^sup>*\<^sup>* b b' \<Longrightarrow> bench_inv b \<Longrightarrow> bench_inv b'"
  by (induction rule: rtranclp_induct) (auto intro: bench_inv_step)

lemma numbered_distinct:
  assumes "numbered items" and "length items < 2 ^ 64"
  shows "distinct items"
proof -
  have "inj_on (of_nat :: nat \<Rightarrow> 64 word) {1..<Suc (length items)}"
  proof (rule inj_onI)
    fix i j :: nat
    assume "i \<in> {1..<Suc (length items)}" "j \<in> {1..<Suc (length items)}" and e: "(of_nat i :: 64 word) = of_nat j"
    with assms(2) have "i < 2 ^ 64" "j < 2 ^ 64" by auto
    moreover from e have "unat (of_nat i :: 64 word) = unat (of_nat j :: 64 word)" by simp
    ultimately show "i = j" by (simp add: unat_of_nat take_bit_nat_eq_self)
  qed
  then show ?thesis
    using assms(1) unfolding numbered_def by (metis distinct_map distinct_upt set_upt)
qed

lemma all_gone_sum: "all_gone b \<Longrightarrow> f Gone = 0 \<Longrightarrow> sum_list (map f (br_workers b)) = (0 :: nat)"
  by (auto simp: all_gone_def sum_list_eq_0_iff)

lemma bench_kv_record_fields:
  "pb_collection (bench_kv_record now n) = ''bench_kv''" "pb_key (bench_kv_record now n) = ''brpc-kv-'' @ to_string (unat n)"
  "pb_mutation_id (bench_kv_record now n) = ''brpc-bench-'' @ pb_key (bench_kv_record now n)"
  by (simp_all add: bench_kv_record_def FillRecord_def default_pb_document_def)

lemma bench_key_inject: "pb_key (bench_kv_record now n) = pb_key (bench_kv_record now' n') \<longleftrightarrow> n = n'"
  by (simp add: bench_kv_record_fields word_unat_eq_iff)


text \<open>One worker that sends one request, which is refused.\<close>

definition one_request_run :: bench_run where
  "one_request_run =
     (let b1 = at_worker 0 (Between no_counts) (new_bench_run (default_bench_options\<lparr>bo_threads := 1\<rparr>));
          b2 = worker_draws 0 no_counts b1;
          lo = count_answer (request_error (rpc_failed [])) 0 no_counts;
          b3 = at_worker 0 (Between lo) b2; b4 = at_worker 0 (Adding_Successes lo) b3;
          b5 = at_worker 0 (Adding_Latencies lo) (add_successes lo b4);
          b6 = at_worker 0 (Adding_Errors lo) (add_latencies lo b5)
      in at_worker 0 Gone (add_errors lo b6))"

lemma bench_step_to:
  "bench_step\<^sup>*\<^sup>* b0 b \<Longrightarrow> bench_step b b' \<Longrightarrow> b'' = b' \<Longrightarrow> bench_step\<^sup>*\<^sup>* b0 b''"
  by (simp add: rtranclp.rtrancl_into_rtrancl)


text \<open>A batch never repeats a key, so the server's check for repeated keys lets it through.\<close>

lemma bench_batch_keys_distinct:
  assumes "bo_batch_size opts < 2 ^ 64"
  shows "distinct (map pb_key (bench_batch_records opts clock n))"
proof -
  have "i = j" if "i < nat (bo_batch_size opts)" "j < nat (bo_batch_size opts)" "(word_of_nat i :: 64 word) = word_of_nat j" for i j
  proof -
    from assms have "nat (bo_batch_size opts) < 2 ^ 64" by simp
    with that(1,2) have "i < 2 ^ 64" "j < 2 ^ 64" by (blast intro: less_trans)+
    moreover from that(3) have "unat (word_of_nat i :: 64 word) = unat (word_of_nat j :: 64 word)" by simp
    ultimately show ?thesis by (simp add: unat_of_nat take_bit_nat_eq_self)
  qed
  then show ?thesis
    by (auto simp: bench_batch_records_def Let_def distinct_map inj_on_def FillRecord_def default_pb_document_def
        word_unat_eq_iff [symmetric])
qed

subsection \<open>The measured run after the one that warms up\<close>

text \<open>Requests of a run one after the other, each with its environment and its clock.\<close>

fun bench_puts ::
  "authenticator \<Rightarrow> pb_api \<Rightarrow> 'x index_ops \<Rightarrow> bench_options \<Rightarrow> (server_env \<times> int \<times> 64 word) list \<Rightarrow>
     fs \<times> (wal_store, 'x) server \<Rightarrow> (rpc_end list \<times> fs \<times> (wal_store, 'x) server) option" where
  "bench_puts auth pb ix opts [] x = Some ([], x)"
| "bench_puts auth pb ix opts ((env, now, n) # calls) x =
     Option.bind (bench_serve env auth (wal_ops pb) ix (bench_request opts (\<lambda>_. now) n) x) (\<lambda>(reply, y).
     Option.bind (bench_puts auth pb ix opts calls y) (\<lambda>(replies, z). Some (reply # replies, z)))"

lemma bench_serve_kv:
  assumes "bo_mode opts = ''kv''"
  shows "bench_serve env auth kv ix (bench_request opts (\<lambda>_. now) n) x =
    Rpc_PutKv env auth kv (FillContext opts n) (bench_kv_record now n) x"
  using assms by (simp add: bench_request_def)

lemma bench_record_mutation: "pb_mutation_id (bench_kv_record now n) \<noteq> []"
  by (simp add: bench_kv_record_fields)

lemma request_error_None: "request_error reply = None \<longleftrightarrow> (\<exists>resp. reply = rpc_answered resp)"
  by (cases reply) simp_all

lemma bench_put_keeps:
  assumes "holds_mutation env (bench_kv_record t n) x"
    and "Rpc_PutKv env' auth (wal_ops pb) (FillContext opts n') (bench_kv_record t' n') x = Some (rpc_answered resp, y)"
  shows "holds_mutation env (bench_kv_record t n) y"
  by (rule held_stays_held [OF assms bench_record_mutation]) (simp_all add: bench_kv_record_fields)

lemma bench_puts_keep:
  assumes "bo_mode opts = ''kv''" and "bench_puts auth pb ix opts calls x = Some (replies, y)"
    and "\<forall>reply \<in> set replies. request_error reply = None" and "holds_mutation env (bench_kv_record t n) x"
  shows "holds_mutation env (bench_kv_record t n) y"
  using assms(2-4)
proof (induction calls arbitrary: x replies)
  case (Cons call calls)
  obtain env' t' n' where call: "call = (env', t', n')" by (cases call)
  from Cons.prems(1) obtain reply x' replies' where
    put: "Rpc_PutKv env' auth (wal_ops pb) (FillContext opts n') (bench_kv_record t' n') x = Some (reply, x')"
    and rest: "bench_puts auth pb ix opts calls x' = Some (replies', y)" "replies = reply # replies'"
    by (auto simp: call bench_serve_kv [OF assms(1)] bind_eq_Some_conv)
  from Cons.prems(2) rest(2) obtain resp where "reply = rpc_answered resp" by (auto simp: request_error_None)
  with put bench_put_keeps [OF Cons.prems(3)] have "holds_mutation env (bench_kv_record t n) x'" by simp
  with Cons.IH [OF rest(1)] Cons.prems(2) rest(2) show ?case by simp
qed simp

lemma bench_puts_hold:
  assumes "bo_mode opts = ''kv''" and "bench_puts auth pb ix opts calls x = Some (replies, y)"
    and "\<forall>reply \<in> set replies. request_error reply = None" and "(env, t, n) \<in> set calls"
  shows "ok (Authenticate auth (HeadersFromContext (FillContext opts n))) \<and> holds_mutation env (bench_kv_record t n) y"
  using assms(2-4)
proof (induction calls arbitrary: x replies)
  case (Cons call calls)
  obtain env' t' n' where call: "call = (env', t', n')" by (cases call)
  from Cons.prems(1) obtain reply x' replies' where
    put: "Rpc_PutKv env' auth (wal_ops pb) (FillContext opts n') (bench_kv_record t' n') x = Some (reply, x')"
    and rest: "bench_puts auth pb ix opts calls x' = Some (replies', y)" "replies = reply # replies'"
    by (auto simp: call bench_serve_kv [OF assms(1)] bind_eq_Some_conv)
  from Cons.prems(2) rest(2) obtain resp where reply: "reply = rpc_answered resp" by (auto simp: request_error_None)
  show ?case
  proof (cases "(env, t, n) = call")
    case True
    with call put reply have put': "Rpc_PutKv env auth (wal_ops pb) (FillContext opts n) (bench_kv_record t n) x = Some (rpc_answered resp, x')"
      by simp
    have "ok (Authenticate auth (HeadersFromContext (FillContext opts n)))"
      using Rpc_PutKv_acknowledged [OF _ bench_record_mutation] put' by (cases x; cases x') blast
    moreover have "holds_mutation env (bench_kv_record t n) y"
      by (rule bench_puts_keep [OF assms(1) rest(1) _ acknowledged_is_held [OF put' bench_record_mutation]])
        (use Cons.prems(2) rest(2) in simp)
    ultimately show ?thesis ..
  next
    case False
    with Cons.prems(3) have "(env, t, n) \<in> set calls" by simp
    with Cons.IH [OF rest(1)] Cons.prems(2) rest(2) show ?thesis by simp
  qed
qed simp

text \<open>
  The benchmark measures retries. When every put of the run that warms up was acknowledged,
  each put of the measured run whose number occurred in it is acknowledged without being
  applied: its mutation identifier is the same, so the server recognises it, and neither a file
  nor a document nor the server changes, at whatever time it arrives and whatever version it
  carries.
\<close>

lemma measured_run_repeats_the_warm_up:
  assumes "bo_mode opts = ''kv''" and "bench_puts auth pb ix opts warm_up x = Some (replies, y)"
    and "\<forall>reply \<in> set replies. request_error reply = None"
    and "\<forall>(env, t, n) \<in> set measured. \<exists>env' t'. (env', t', n) \<in> set warm_up \<and> sn_hash env = sn_hash env'"
  shows "\<exists>replies'. bench_puts auth pb ix opts measured y = Some (replies', y) \<and>
    length replies' = length measured \<and> (\<forall>reply \<in> set replies'. request_error reply = None)"
  using assms(4)
proof (induction measured)
  case (Cons call measured)
  obtain env t n where call: "call = (env, t, n)" by (cases call)
  from Cons.prems call obtain env' t' where w: "(env', t', n) \<in> set warm_up" "sn_hash env = sn_hash env'" by auto
  from bench_puts_hold [OF assms(1-3) w(1)]
  have "ok (Authenticate auth (HeadersFromContext (FillContext opts n)))" "holds_mutation env' (bench_kv_record t' n) y" by simp_all
  moreover have "same_mutation (bench_kv_record t' n) (bench_kv_record t n)"
    by (simp add: same_mutation_def bench_kv_record_fields)
  ultimately have "\<exists>resp. Rpc_PutKv env auth (wal_ops pb) (FillContext opts n) (bench_kv_record t n) y = Some (rpc_answered resp, y)"
    using held_is_acknowledged [OF _ _ _ bench_record_mutation w(2)] by blast
  with Cons show ?case by (auto simp: call bench_serve_kv [OF assms(1)])
qed simp

lemma measured_run_repeats_the_warm_up_witness:
  "let auth = \<lparr>api_key = [], auth_required = False\<rparr>; later = sample_server_env\<lparr>sn_unix_millis := 99\<rparr>;
       ix = brute_ops plain_pb plain_fp
   in case bench_puts auth plain_pb ix default_bench_options [(sample_server_env, 10, 1)] (empty_fs, sample_server) of
        Some (replies, y) \<Rightarrow>
          (\<exists>replies'. bench_puts auth plain_pb ix default_bench_options [(later, 99, 1)] y = Some (replies', y) \<and>
             length replies' = 1 \<and> (\<forall>reply \<in> set replies'. request_error reply = None))
      | None \<Rightarrow> False"
proof -
  let ?auth = "\<lparr>api_key = [], auth_required = False\<rparr>" and ?opts = "default_bench_options"
    and ?ix = "brute_ops plain_pb plain_fp"
  have kv: "bo_mode ?opts = ''kv''" by (simp add: default_bench_options_def)
  obtain resp s' sv' where put: "Rpc_PutKv sample_server_env ?auth (wal_ops plain_pb) (FillContext ?opts 1) (bench_kv_record 10 1)
      (empty_fs, sample_server) = Some (rpc_answered resp, s', sv')"
    using usable_EnsureParentDirectory [OF usable_empty_fs]
    by (auto simp: Rpc_PutKv_def rpc_authenticated_def rpc_reply_def Authenticate_def PutKvRecord_def Let_def
        home_refusal sample_server_simps bench_kv_record_def FillRecord_def record_of_message_def default_pb_document_def
        empty_document_def PrepareMutation_def Wal_Put_def AppendWalLocked_def append_entries_def
        new_wal_store_def split: prod.splits)
  then have run: "bench_puts ?auth plain_pb ?ix ?opts [(sample_server_env, 10, 1)] (empty_fs, sample_server) =
      Some ([rpc_answered resp], s', sv')"
    by (simp add: bench_serve_kv [OF kv])
  from measured_run_repeats_the_warm_up [OF kv run, of "[(sample_server_env\<lparr>sn_unix_millis := 99\<rparr>, 99, 1)]"]
  have "\<exists>replies'. bench_puts ?auth plain_pb ?ix ?opts [(sample_server_env\<lparr>sn_unix_millis := 99\<rparr>, 99, 1)] (s', sv') = Some (replies', s', sv') \<and>
      length replies' = 1 \<and> (\<forall>reply \<in> set replies'. request_error reply = None)"
    by simp
  then show ?thesis unfolding Let_def run by simp
qed

subsection \<open>The report\<close>

text \<open>A text is written so that it can be read back, and on one line.\<close>

fun json_unescape :: "string \<Rightarrow> string" where
  "json_unescape [] = []"
| "json_unescape [c] = [c]"
| "json_unescape (c # d # s) =
     (if c = CHR 0x5C then (if d = CHR ''n'' then CHR 0x0A else d) # json_unescape s else c # json_unescape (d # s))"

lemma json_unescape_Cons: "c \<noteq> CHR 0x5C \<Longrightarrow> json_unescape (c # s) = c # json_unescape s"
  by (cases s) simp_all

lemma JsonEscape_read_back: "json_unescape (JsonEscape s) = s"
  by (induction s) (simp_all add: json_unescape_Cons)

lemma JsonEscape_one_line: "CHR 0x0A \<notin> set (JsonEscape s)"
  by (induction s) auto

text \<open>
  A percentile is one of the measured times, when the truncation of a number below that of the
  last position is at most this position.
\<close>

lemma Percentile_is_measured:
  assumes "vs \<noteq> []" and "\<forall>n d. bn_less bn d (bn_of_nat bn n) \<longrightarrow> bn_trunc bn d \<le> n"
    and "\<forall>n. bn_trunc bn (bn_of_nat bn n) = n" and "bn_of_nat bn 0 = d_zero"
  shows "Percentile bn vs p \<in> set vs"
proof -
  have "bn_trunc bn d_zero = 0" using assms(3,4) by metis
  moreover have "length vs - 1 < length vs" using assms(1) by simp
  moreover have "bn_trunc bn d < length vs" if "bn_less bn d (bn_of_nat bn (length vs - 1))" for d
    using assms(2) that calculation(2) by (meson le_less_trans)
  ultimately show ?thesis
    using assms(1,3) by (auto simp: Percentile_def Let_def intro!: nth_mem)
qed

end
