(* ===== verification/Http_Listener.thy ===== *)
theory Http_Listener
  imports Http_Runtime
begin

text \<open>
  The rest of \<open>src/gateway/http_runtime.cpp\<close>: \<open>Start\<close>, \<open>Stop\<close> and the rounds of \<open>AcceptLoop\<close>. The
  results of the socket calls are given by \<open>socket_host\<close>, and starting and stopping the server
  inside by functions. A descriptor that the process has opened and not closed is counted.
\<close>

record socket_host =
  so_socket :: bool
  so_reuse :: bool
  so_address :: bool
  so_bind :: "string option"
  so_listen :: "string option"

text \<open>\<open>so_bind\<close> and \<open>so_listen\<close> are the texts of the errors, if there are any.\<close>

record ('sv, 't) http_runtime =
  hr_server :: 'sv
  hr_pool :: "'t pool"
  hr_listening :: bool
  hr_open_sockets :: nat
  hr_accepting :: bool
  hr_stopping :: bool
  hr_started :: bool

definition new_http_runtime :: "'sv \<Rightarrow> nat \<Rightarrow> ('sv, 't) http_runtime" where
  "new_http_runtime sv worker_threads = \<lparr>hr_server = sv, hr_pool = new_pool (max 2 worker_threads) 0,
     hr_listening = False, hr_open_sockets = 0, hr_accepting = False, hr_stopping = False, hr_started = False\<rparr>"

definition Http_Start ::
  "('sv \<Rightarrow> Status \<times> 'sv) \<Rightarrow> socket_host \<Rightarrow> ('sv, 't) http_runtime \<Rightarrow> Status \<times> ('sv, 't) http_runtime" where
  "Http_Start start host rt =
     (if hr_started rt then (Ok, rt)
      else case start (hr_server rt) of
        (status, sv) \<Rightarrow>
          let rt1 = rt\<lparr>hr_server := sv\<rparr>;
              rt2 = rt1\<lparr>hr_listening := True, hr_open_sockets := hr_open_sockets rt1 + 1\<rparr>
          in if \<not> ok status then (status, rt1)
             else if \<not> so_socket host then (Internal ''failed to create listen socket'', rt1\<lparr>hr_listening := False\<rparr>)
             else if \<not> so_reuse host then (Internal ''failed to enable SO_REUSEADDR'', rt2)
             else if \<not> so_address host then (InvalidArgument ''server.host must be a valid IPv4 address'', rt2)
             else case so_bind host of
               Some e \<Rightarrow> (Internal (''failed to bind listen socket: '' @ e), rt2)
             | None \<Rightarrow>
                 (case so_listen host of
                    Some e \<Rightarrow> (Internal (''failed to listen on socket: '' @ e), rt2)
                  | None \<Rightarrow> (Ok, rt2\<lparr>hr_accepting := \<not> hr_stopping rt2, hr_started := True\<rparr>)))"

text \<open>
  The accept thread leaves its loop when it sees \<open>stopping_\<close>, at its start too; \<open>Stop\<close> joins it
  and then the pool, whose workers finish what was accepted.
\<close>

definition Http_Stop ::
  "('sv \<Rightarrow> Status \<times> 'sv) \<Rightarrow> ('t pool \<Rightarrow> 't pool) \<Rightarrow> ('sv, 't) http_runtime \<Rightarrow> Status \<times> ('sv, 't) http_runtime" where
  "Http_Stop stop finish_pool rt =
     (if \<not> hr_started rt then (Ok, rt)
      else
        let rt1 = rt\<lparr>hr_stopping := True\<rparr>;
            rt2 = (if hr_listening rt1 then rt1\<lparr>hr_listening := False, hr_open_sockets := hr_open_sockets rt1 - 1\<rparr> else rt1);
            rt3 = rt2\<lparr>hr_accepting := False, hr_pool := finish_pool (request_stop (hr_pool rt2))\<rparr>
        in case stop (hr_server rt3) of
             (status, sv) \<Rightarrow> (status, rt3\<lparr>hr_server := sv, hr_started := False\<rparr>))"

text \<open>One round of \<open>AcceptLoop\<close> for what \<open>accept\<close> gives.\<close>

datatype 't accepted_client = Interrupted | Failed_Accept | Client 't

definition accept_round ::
  "('sv \<Rightarrow> 'sv) \<Rightarrow> 't accepted_client \<Rightarrow> ('sv, 't) http_runtime \<Rightarrow> ('sv, 't) http_runtime" where
  "accept_round count_request given rt =
     (if hr_stopping rt then rt\<lparr>hr_accepting := False\<rparr>
      else case given of
        Interrupted \<Rightarrow> rt
      | Failed_Accept \<Rightarrow> rt
      | Client client \<Rightarrow> rt\<lparr>hr_server := count_request (hr_server rt), hr_pool := snd (SubmitTask client (hr_pool rt))\<rparr>)"

text \<open>For the server of \<open>Http_Runtime\<close> a round with a client is \<open>accept_client\<close>.\<close>

lemma accept_round_client:
  assumes "\<not> hr_stopping rt"
  shows "accept_round (\<lambda>sv. sv\<lparr>sv_metrics := IncrementHttpRequests (sv_metrics sv)\<rparr>) (Client client) rt =
    (case accept_client client (hr_pool rt, hr_server rt) of (p, sv) \<Rightarrow> rt\<lparr>hr_server := sv, hr_pool := p\<rparr>)"
  using assms by (simp add: accept_round_def accept_client_def)

subsection \<open>Facts\<close>

text \<open>The threads of the pool are at least two, whatever the configuration says.\<close>

lemma runtime_has_workers: "2 \<le> WorkerCount (hr_pool (new_http_runtime sv n))"
  by (simp add: new_http_runtime_def WorkerCount_def new_pool_def EffectiveWorkerCount_def)

text \<open>
  A runtime that was stopped can be started again, and says that it is; but it never accepts a
  client again, and its pool would refuse it: neither the flag nor the pool is renewed.
\<close>

lemma restarted_runtime_serves_nobody:
  assumes "hr_started rt" and "Http_Stop stop finish_pool rt = (status, rt1)" and "start (hr_server rt1) = (Ok, sv)"
    and "so_socket host" and "so_reuse host" and "so_address host" and "so_bind host = None" and "so_listen host = None"
    and "\<forall>p. stopping (finish_pool p) = stopping p"
  shows "\<exists>rt2. Http_Start start host rt1 = (Ok, rt2) \<and> hr_started rt2 \<and> \<not> hr_accepting rt2 \<and>
    (\<forall>client. fst (SubmitTask client (hr_pool rt2)) \<noteq> None)"
proof -
  from assms(1,2) have rt1: "\<not> hr_started rt1" "hr_stopping rt1"
    "hr_pool rt1 = finish_pool (request_stop (hr_pool rt))"
    by (auto simp: Http_Stop_def Let_def split: if_splits prod.splits)
  have "stopping (hr_pool rt1)" unfolding rt1(3) using assms(9) by (simp add: request_stop_def)
  with rt1(1,2) assms(3-8) show ?thesis
    by (simp add: Http_Start_def Let_def SubmitTask_def)
qed

text \<open>
  A start that fails after the socket was made leaves it open, and leaves the server inside
  running: \<open>Stop\<close> does nothing, since the runtime does not count as started.
\<close>

lemma failed_start_leaks:
  assumes "\<not> hr_started rt" and "start (hr_server rt) = (Ok, sv)" and "so_socket host"
    and "Http_Start start host rt = (status, rt1)" and "\<not> ok status"
  shows "hr_open_sockets rt1 = hr_open_sockets rt + 1 \<and> hr_server rt1 = sv \<and> Http_Stop stop finish_pool rt1 = (Ok, rt1)"
  using assms by (auto simp: Http_Start_def Http_Stop_def Let_def split: if_splits option.splits)

end
