(* ===== verification/Main_Program.thy ===== *)
theory Main_Program
  imports Http_Listener Config_Loader Server_Lifecycle
begin

text \<open>
  \<open>src/gateway/main.cpp\<close> in the build without BRPC: the arguments of the program, the action they
  choose, the actions other than serving, which run on a started server and stop it, and the
  serving program. A signal is the moment at which the accepting ends; what \<open>accept\<close> gives until
  then is a list.
\<close>

subsection \<open>Arguments\<close>

record main_options =
  mo_config_path :: string
  mo_query_text :: string
  mo_collection :: string
  mo_top_k :: nat
  mo_healthcheck :: bool
  mo_dump_openapi :: bool
  mo_reindex :: bool
  mo_serve :: bool

definition default_options :: main_options where
  "default_options = \<lparr>mo_config_path = ''config/server.yaml'', mo_query_text = [], mo_collection = [], mo_top_k = 5,
     mo_healthcheck = False, mo_dump_openapi = False, mo_reindex = False, mo_serve = False\<rparr>"

definition option_flag :: "string \<Rightarrow> main_options \<Rightarrow> main_options option" where
  "option_flag a opts =
     (if a = ''--healthcheck'' then Some (opts\<lparr>mo_healthcheck := True\<rparr>)
      else if a = ''--dump-openapi'' then Some (opts\<lparr>mo_dump_openapi := True\<rparr>)
      else if a = ''--reindex'' then Some (opts\<lparr>mo_reindex := True\<rparr>)
      else if a = ''--serve'' then Some (opts\<lparr>mo_serve := True\<rparr>)
      else None)"

text \<open>\<open>None\<close> is the usage message; a number that \<open>std::stoul\<close> refuses ends the program.\<close>

fun parse_arguments :: "string list \<Rightarrow> main_options \<Rightarrow> main_options option outcome" where
  "parse_arguments [] opts = Ret (Some opts)"
| "parse_arguments [a] opts = Ret (option_flag a opts)"
| "parse_arguments (a # b # args) opts =
     (if a = ''--config'' then parse_arguments args (opts\<lparr>mo_config_path := b\<rparr>)
      else if a = ''--query'' then parse_arguments args (opts\<lparr>mo_query_text := b\<rparr>)
      else if a = ''--collection'' then parse_arguments args (opts\<lparr>mo_collection := b\<rparr>)
      else if a = ''--top-k''
      then outcome_bind (cxx_stoul b) (\<lambda>n. parse_arguments args (opts\<lparr>mo_top_k := n\<rparr>))
      else case option_flag a opts of
        None \<Rightarrow> Ret None
      | Some opts' \<Rightarrow> parse_arguments (b # args) opts')"

datatype main_action = Do_Healthcheck | Do_Dump_OpenApi | Do_Reindex | Do_Query

definition one_shot_wanted :: "main_options \<Rightarrow> bool" where
  "one_shot_wanted opts \<longleftrightarrow> mo_healthcheck opts \<or> mo_dump_openapi opts \<or> mo_reindex opts \<or> mo_query_text opts \<noteq> []"

text \<open>\<open>None\<close> is serving.\<close>

definition chosen_action :: "main_options \<Rightarrow> main_action option" where
  "chosen_action opts =
     (let serve = (if \<not> mo_serve opts \<and> \<not> one_shot_wanted opts then True else mo_serve opts) in
      if serve \<and> \<not> one_shot_wanted opts then None
      else Some (if mo_healthcheck opts then Do_Healthcheck
        else if mo_dump_openapi opts then Do_Dump_OpenApi
        else if mo_reindex opts then Do_Reindex
        else Do_Query))"

subsection \<open>Actions on a started server\<close>

record program_end =
  pe_success :: bool
  pe_stdout :: string
  pe_stderr :: string

definition text_line :: "string \<Rightarrow> string" where
  "text_line s = s @ [CHR 0x0A]"

definition finished :: "bool \<Rightarrow> string \<Rightarrow> string \<Rightarrow> program_end" where
  "finished success out err = \<lparr>pe_success = success, pe_stdout = out, pe_stderr = err\<rparr>"

text \<open>What the program writes and how it ends, when the action returns (\<open>None\<close> when it does not).\<close>

definition perform ::
  "http_env \<Rightarrow> 'k kv_ops \<Rightarrow> 'x index_ops \<Rightarrow> main_options \<Rightarrow> main_action \<Rightarrow> fs \<times> ('k, 'x) server \<Rightarrow>
     (program_end outcome \<times> fs \<times> ('k, 'x) server) option" where
  "perform hx kv ix opts action = (\<lambda>(s, sv).
     let env = hx_server hx; js = hx_json hx;
         stop = (\<lambda>e y. Some (Ret e, snd (Server_Stop env kv ix y)))
     in case action of
          Do_Healthcheck \<Rightarrow>
            (case js_dump js (Some 2) (health_json (HealthCheck env [] sv)) of
               Throw e \<Rightarrow> Some (Throw e, s, sv)
             | Ret t \<Rightarrow> stop (finished True (text_line t) []) (s, sv))
        | Do_Dump_OpenApi \<Rightarrow> stop (finished True (OpenApiSpec s (sv_config sv)) []) (s, sv)
        | Do_Reindex \<Rightarrow>
            Option.bind (ReindexDocuments kv ix (mo_collection opts) (s, sv)) (\<lambda>(status, y).
              if \<not> ok status then stop (finished False [] (text_line (Status_ToString status))) y
              else stop (finished True (text_line ''reindex completed'') []) y)
        | Do_Query \<Rightarrow>
            (let q = new_query\<lparr>sq_collection := mo_collection opts, sq_query := mo_query_text opts, sq_top_k := mo_top_k opts\<rparr>
             in case Server_Search env kv ix q sv of
                  (Inl e, sv') \<Rightarrow> stop (finished False [] (text_line (Status_ToString e))) (s, sv')
                | (Inr answer, sv') \<Rightarrow>
                    (case js_dump js (Some 2) (result_json answer) of
                       Throw e \<Rightarrow> Some (Throw e, s, sv')
                     | Ret t \<Rightarrow> stop (finished True (text_line t) []) (s, sv'))))"

text \<open>Serving: the runtime is started, accepts until a signal arrives, and is stopped.\<close>

definition serve_program ::
  "('sv \<Rightarrow> Status \<times> 'sv) \<Rightarrow> ('sv \<Rightarrow> Status \<times> 'sv) \<Rightarrow> ('t pool \<Rightarrow> 't pool) \<Rightarrow> ('sv \<Rightarrow> 'sv) \<Rightarrow> socket_host \<Rightarrow>
     ServerConfig \<Rightarrow> 't accepted_client list \<Rightarrow> 'sv \<Rightarrow> program_end \<times> ('sv, 't) http_runtime" where
  "serve_program start stop finish_pool count_request host cfg given sv =
     (case Http_Start start host (new_http_runtime sv (cfg_worker_threads cfg)) of
        (status, rt) \<Rightarrow>
          if \<not> ok status then (finished False [] (text_line (Status_ToString status)), rt)
          else (finished True (text_line (''kvai_server serving on http://'' @ cfg_host cfg @ '':'' @
                  to_string_int (uint (cfg_port cfg)))) [],
                snd (Http_Stop stop finish_pool (fold (accept_round count_request) given rt))))"

text \<open>
  The program up to the choice: the arguments, then the configuration file. The result is the end
  of the program, or the options and the configuration with which it goes on.
\<close>

definition usage_text :: string where
  "usage_text = text_line (''Usage: kvai_server --config <path> [--query <text>] [--top-k <n>] [--collection <name>] '' @
     ''[--healthcheck] [--dump-openapi] [--reindex] [--serve]'')"

definition main_prepare ::
  "yaml_api option \<Rightarrow> (string \<Rightarrow> string option) \<Rightarrow> fs \<Rightarrow> string list \<Rightarrow> (program_end + main_options \<times> ServerConfig) outcome" where
  "main_prepare yl environment s args =
     outcome_bind (parse_arguments args default_options) (\<lambda>parsed.
       case parsed of
         None \<Rightarrow> Ret (Inl (finished False usage_text []))
       | Some opts \<Rightarrow>
           outcome_bind (LoadFromFile yl environment s (mo_config_path opts)) (\<lambda>loaded.
             Ret (case loaded of
                    Inl e \<Rightarrow> Inl (finished False [] (text_line (Status_ToString e)))
                  | Inr cfg \<Rightarrow> Inr (opts, cfg))))"

text \<open>
  An action other than serving: what the start of the server gave, then the action. A start that
  succeeds has opened the server (\<open>start_opens_the_server\<close>).
\<close>

definition one_shot_program ::
  "http_env \<Rightarrow> 'k kv_ops \<Rightarrow> 'x index_ops \<Rightarrow> main_options \<Rightarrow> main_action \<Rightarrow>
     Status outcome \<times> fs \<times> ('k, 'x) server option \<Rightarrow> (program_end outcome \<times> fs \<times> ('k, 'x) server option) option" where
  "one_shot_program hx kv ix opts action = (\<lambda>(started, s, opened).
     case started of
       Throw e \<Rightarrow> Some (Throw e, s, opened)
     | Ret status \<Rightarrow>
         if \<not> ok status then Some (Ret (finished False [] (text_line (Status_ToString status))), s, opened)
         else Option.bind opened (\<lambda>sv.
           map_option (\<lambda>(e, s', sv'). (e, s', Some sv')) (perform hx kv ix opts action (s, sv))))"

text \<open>What the program does once it has its arguments and its configuration.\<close>

datatype main_course =
    Main_Ends program_end
  | Main_Serves ServerConfig
  | Main_Acts main_options ServerConfig main_action

definition kvai_main ::
  "yaml_api option \<Rightarrow> (string \<Rightarrow> string option) \<Rightarrow> fs \<Rightarrow> string list \<Rightarrow> main_course outcome" where
  "kvai_main yl environment s args =
     outcome_bind (main_prepare yl environment s args) (\<lambda>prepared.
       Ret (case prepared of
              Inl e \<Rightarrow> Main_Ends e
            | Inr (opts, cfg) \<Rightarrow>
                (case chosen_action opts of
                   None \<Rightarrow> Main_Serves cfg
                 | Some action \<Rightarrow> Main_Acts opts cfg action)))"

subsection \<open>Facts\<close>

text \<open>A start that succeeds has opened the server, when the factory reports failures as such.\<close>

lemma start_opens_the_server:
  assumes "Server_Start env me et fc kv ix idle s = (Ret status, s', opened)" and "ok status"
    and "\<And>e s1. fc_kv fc (id_config idle) s = (Ret (Inl e), s1) \<Longrightarrow> \<not> ok e"
    and "\<And>e. fc_embedder fc (id_config idle) = Inl e \<Longrightarrow> \<not> ok e"
    and "\<And>e s1 s2. fc_index fc (id_config idle) s1 = (Ret (Inl e), s2) \<Longrightarrow> \<not> ok e"
  shows "\<exists>sv. opened = Some sv"
  using assms by (auto simp: Server_Start_def Let_def split: prod.splits outcome.splits sum.splits if_splits)

lemma case_sum_Inl_iff: "(case x of Inl a \<Rightarrow> Inl (g a) | Inr b \<Rightarrow> Inr (h b)) = Inl e \<longleftrightarrow> (\<exists>a. x = Inl a \<and> g a = e)"
  by (cases x) auto

text \<open>A program that cannot read its arguments or its configuration fails, and says why.\<close>

lemma unprepared_program_fails:
  assumes "kvai_main yl environment s args = Ret (Main_Ends e)"
  shows "\<not> pe_success e \<and> (pe_stdout e = usage_text \<or> pe_stderr e \<noteq> [])"
proof -
  obtain x where x: "main_prepare yl environment s args = Ret x"
    using assms unfolding kvai_main_def outcome_bind_Ret_iff by blast
  with assms have p: "main_prepare yl environment s args = Ret (Inl e)"
    by (cases x) (auto simp: kvai_main_def split: option.split_asm)
  obtain parsed where "parse_arguments args default_options = Ret parsed"
    using p unfolding main_prepare_def outcome_bind_Ret_iff by blast
  with p show ?thesis
    by (cases parsed)
      (auto simp: main_prepare_def outcome_bind_Ret_iff finished_def text_line_def case_sum_Inl_iff)
qed

text \<open>Without an action the program serves; \<open>--serve\<close> beside another action is ignored.\<close>

lemma no_action_serves: "chosen_action default_options = None"
  by (simp add: chosen_action_def one_shot_wanted_def default_options_def)

lemma serve_is_ignored:
  "one_shot_wanted opts \<Longrightarrow> chosen_action (opts\<lparr>mo_serve := b\<rparr>) = chosen_action opts"
  by (simp add: chosen_action_def one_shot_wanted_def)

text \<open>
  Every action that ends without an exception has stopped the server, when it failed too: the
  stores are flushed as by \<open>Server_Stop\<close>.
\<close>

lemma actions_stop_the_server:
  assumes "perform hx kv ix opts action x = Some (Ret e, y)"
  shows "\<exists>z. y = snd (Server_Stop (hx_server hx) kv ix z)"
  using assms
  by (cases x; cases action)
    (auto simp: perform_def Let_def bind_eq_Some_conv split: outcome.splits prod.splits sum.splits if_splits)

text \<open>
  The serving program ends with nothing open that it opened, if the start succeeded and there was
  nothing open before, whatever it accepted.
\<close>

lemma accept_round_keeps:
  "hr_open_sockets (accept_round c given rt) = hr_open_sockets rt \<and>
   hr_listening (accept_round c given rt) = hr_listening rt \<and> hr_started (accept_round c given rt) = hr_started rt"
  by (simp add: accept_round_def split: accepted_client.split)

lemma accept_rounds_keep:
  "hr_open_sockets (fold (accept_round c) given rt) = hr_open_sockets rt \<and>
   hr_listening (fold (accept_round c) given rt) = hr_listening rt \<and> hr_started (fold (accept_round c) given rt) = hr_started rt"
  by (induction given arbitrary: rt) (simp_all add: accept_round_keeps)

lemma started_runtime_listens:
  assumes "Http_Start start host (new_http_runtime sv n) = (status, rt)" and "ok status"
  shows "hr_open_sockets rt = 1 \<and> hr_listening rt \<and> hr_started rt"
  using assms by (auto simp: Http_Start_def new_http_runtime_def Let_def split: if_splits option.splits prod.splits)

lemma served_program_closes_its_socket:
  assumes "serve_program start stop finish_pool c host cfg given sv = (e, rt)" and "pe_success e"
  shows "hr_open_sockets rt = 0 \<and> \<not> hr_listening rt \<and> \<not> hr_started rt"
proof (cases "Http_Start start host (new_http_runtime sv (cfg_worker_threads cfg)) :: Status \<times> ('a, 'b) http_runtime")
  case (Pair status rt0)
  let ?rt1 = "fold (accept_round c) given rt0"
  from assms Pair have "ok status" and rt: "rt = snd (Http_Stop stop finish_pool ?rt1)"
    by (auto simp: serve_program_def finished_def split: if_splits)
  with started_runtime_listens [OF Pair]
  have "hr_open_sockets ?rt1 = 1 \<and> hr_listening ?rt1 \<and> hr_started ?rt1"
    by (simp add: accept_rounds_keep)
  then show ?thesis
    unfolding rt by (simp add: Http_Stop_def Let_def split: prod.split)
qed

end
