(* ===== verification/Main_Brpc.thy ===== *)
theory Main_Brpc
  imports Main_Program Brpc_Service
begin

text \<open>
  The serving part of \<open>src/gateway/main.cpp\<close> in the build with BRPC: the runtime is started, the
  main thread waits in \<open>RunUntilAskedToQuit\<close>, and a watcher thread passes a signal on to BRPC. What
  BRPC documents is taken over: that wait ends once somebody has asked to quit, \<open>AskToQuit\<close> or
  BRPC's own handler of an interrupt.
\<close>

subsection \<open>Two threads and a signal\<close>

datatype watcher_pc = Watcher_Polls | Watcher_Decides | Watcher_Left

datatype main_pc = Main_Waits | Main_Returned | Main_Joins | Main_Stops

record quit_state =
  qs_stop_requested :: bool
  qs_wait_finished :: bool
  qs_asked :: bool
  qs_watcher :: watcher_pc
  qs_main :: main_pc

definition new_quit_state :: "bool \<Rightarrow> quit_state" where
  "new_quit_state stop_requested = \<lparr>qs_stop_requested = stop_requested, qs_wait_finished = False, qs_asked = False,
     qs_watcher = Watcher_Polls, qs_main = Main_Waits\<rparr>"

text \<open>The signal handler, and an interrupt that BRPC itself handles.\<close>

definition HandleSignal :: "quit_state \<Rightarrow> quit_state" where
  "HandleSignal q = q\<lparr>qs_stop_requested := True\<rparr>"

definition brpc_asked :: "quit_state \<Rightarrow> quit_state" where
  "brpc_asked q = q\<lparr>qs_asked := True\<rparr>"

text \<open>
  The watcher: the condition of its loop (it sleeps while that holds), and what comes after it. The
  two flags are read together; each of them is only ever set.
\<close>

definition watcher_sleeps :: "quit_state \<Rightarrow> bool" where
  "watcher_sleeps q \<longleftrightarrow> \<not> qs_stop_requested q \<and> \<not> qs_wait_finished q"

definition watcher_decide :: "quit_state \<Rightarrow> quit_state" where
  "watcher_decide q =
     (if qs_stop_requested q \<and> \<not> qs_wait_finished q then q\<lparr>qs_asked := True, qs_watcher := Watcher_Left\<rparr>
      else q\<lparr>qs_watcher := Watcher_Left\<rparr>)"

text \<open>The steps of the two threads. The main thread returns from the wait, stores the flag and joins.\<close>

inductive quit_step :: "quit_state \<Rightarrow> quit_state \<Rightarrow> bool" where
  awake: "qs_watcher q = Watcher_Polls \<Longrightarrow> \<not> watcher_sleeps q \<Longrightarrow> quit_step q (q\<lparr>qs_watcher := Watcher_Decides\<rparr>)"
| decide: "qs_watcher q = Watcher_Decides \<Longrightarrow> quit_step q (watcher_decide q)"
| return: "qs_main q = Main_Waits \<Longrightarrow> qs_asked q \<Longrightarrow> quit_step q (q\<lparr>qs_main := Main_Returned\<rparr>)"
| store: "qs_main q = Main_Returned \<Longrightarrow> quit_step q (q\<lparr>qs_wait_finished := True, qs_main := Main_Joins\<rparr>)"
| join: "qs_main q = Main_Joins \<Longrightarrow> qs_watcher q = Watcher_Left \<Longrightarrow> quit_step q (q\<lparr>qs_main := Main_Stops\<rparr>)"

inductive any_step :: "quit_state \<Rightarrow> quit_state \<Rightarrow> bool" where
  thread: "quit_step q q' \<Longrightarrow> any_step q q'"
| signal: "any_step q (HandleSignal q)"
| interrupt: "any_step q (brpc_asked q)"

inductive_cases quit_stepE: "quit_step q q'"

subsection \<open>The serving program\<close>

text \<open>What the clients do until the wait ends is a function on the server.\<close>

definition brpc_serve_program ::
  "('sv \<Rightarrow> Status \<times> 'sv) \<Rightarrow> ('sv \<Rightarrow> Status \<times> 'sv) \<Rightarrow> brpc_host \<Rightarrow> ServerConfig \<Rightarrow> ('sv \<Rightarrow> 'sv) \<Rightarrow>
     'sv brpc_runtime \<Rightarrow> program_end \<times> 'sv brpc_runtime" where
  "brpc_serve_program start stop host cfg clients rt =
     (case Brpc_Start start host rt of
        (status, rt1) \<Rightarrow>
          if \<not> ok status then (finished False [] (text_line (Status_ToString status)), rt1)
          else (finished True (text_line (''kvai_server serving on http://'' @ cfg_host cfg @ '':'' @
                  to_string_int (uint (cfg_port cfg)))) [],
                snd (Brpc_Stop stop (rt1\<lparr>br_server := clients (br_server rt1)\<rparr>))))"

subsection \<open>A signal ends the program\<close>

definition quit_inv :: "quit_state \<Rightarrow> bool" where
  "quit_inv q \<longleftrightarrow>
     (qs_wait_finished q \<longleftrightarrow> qs_main q \<in> {Main_Joins, Main_Stops}) \<and>
     (qs_main q \<noteq> Main_Waits \<longrightarrow> qs_asked q) \<and>
     (qs_main q = Main_Stops \<longrightarrow> qs_watcher q = Watcher_Left) \<and>
     (qs_watcher q = Watcher_Decides \<longrightarrow> qs_stop_requested q \<or> qs_wait_finished q) \<and>
     (qs_watcher q = Watcher_Left \<longrightarrow> qs_asked q)"

lemma quit_inv_new: "quit_inv (new_quit_state b)"
  by (simp add: quit_inv_def new_quit_state_def)

lemma quit_inv_step: "quit_step q q' \<Longrightarrow> quit_inv q \<Longrightarrow> quit_inv q'"
  by (erule quit_stepE) (auto simp: quit_inv_def watcher_decide_def watcher_sleeps_def)

lemma quit_inv_any: "any_step q q' \<Longrightarrow> quit_inv q \<Longrightarrow> quit_inv q'"
  by (erule any_step.cases) (auto dest: quit_inv_step simp: quit_inv_def HandleSignal_def brpc_asked_def)

lemma quit_inv_run: "any_step\<^sup>*\<^sup>* q q' \<Longrightarrow> quit_inv q \<Longrightarrow> quit_inv q'"
  by (induction rule: rtranclp_induct) (auto dest: quit_inv_any)

fun watcher_rank :: "watcher_pc \<Rightarrow> nat" where
  "watcher_rank Watcher_Polls = 2"
| "watcher_rank Watcher_Decides = 1"
| "watcher_rank Watcher_Left = 0"

fun main_rank :: "main_pc \<Rightarrow> nat" where
  "main_rank Main_Waits = 3"
| "main_rank Main_Returned = 2"
| "main_rank Main_Joins = 1"
| "main_rank Main_Stops = 0"

definition quit_rank :: "quit_state \<Rightarrow> nat" where
  "quit_rank q = watcher_rank (qs_watcher q) + main_rank (qs_main q)"

lemma quit_step_rank: "quit_step q q' \<Longrightarrow> quit_rank q' < quit_rank q"
  by (erule quit_stepE) (auto simp: quit_rank_def watcher_decide_def)

lemma quit_step_requested:
  "quit_step q q' \<Longrightarrow> qs_stop_requested q \<or> qs_asked q \<Longrightarrow> qs_stop_requested q' \<or> qs_asked q'"
  by (erule quit_stepE) (auto simp: watcher_decide_def)

lemma quit_progress:
  assumes "quit_inv q" and "qs_stop_requested q \<or> qs_asked q" and "qs_main q \<noteq> Main_Stops"
  shows "\<exists>q'. quit_step q q'"
proof (cases "qs_watcher q")
  case Watcher_Polls
  show ?thesis
  proof (cases "watcher_sleeps q")
    case True
    with assms have "qs_asked q" "qs_main q \<in> {Main_Waits, Main_Returned}"
      by (cases "qs_main q"; auto simp: watcher_sleeps_def quit_inv_def)+
    then show ?thesis by (auto intro: quit_step.intros)
  qed (use Watcher_Polls in \<open>auto intro: quit_step.intros\<close>)
next
  case Watcher_Left
  with assms show ?thesis by (cases "qs_main q") (auto simp: quit_inv_def intro: quit_step.intros)
qed (auto intro: quit_step.intros)

lemma quit_ends:
  assumes "quit_inv q" and "qs_stop_requested q \<or> qs_asked q"
  shows "\<exists>q'. quit_step\<^sup>*\<^sup>* q q' \<and> qs_main q' = Main_Stops"
  using assms
proof (induction "quit_rank q" arbitrary: q rule: less_induct)
  case less
  show ?case
  proof (cases "qs_main q = Main_Stops")
    case False
    with quit_progress less.prems obtain q1 where s: "quit_step q q1" by blast
    from less.hyps [OF quit_step_rank [OF s] quit_inv_step [OF s less.prems(1)] quit_step_requested [OF s less.prems(2)]]
    show ?thesis using s by (meson converse_rtranclp_into_rtranclp)
  qed auto
qed

text \<open>
  Whenever a signal or an interrupt has come, the program can reach its end, every step of its two
  threads brings that closer, and it never stands still before. Without one, the main thread keeps
  waiting and the watcher keeps polling.
\<close>

lemma a_signal_ends_the_program:
  assumes "any_step\<^sup>*\<^sup>* (new_quit_state b) q"
  shows "qs_stop_requested q \<or> qs_asked q \<Longrightarrow> \<exists>q'. quit_step\<^sup>*\<^sup>* q q' \<and> qs_main q' = Main_Stops"
    and "quit_step q q' \<Longrightarrow> quit_rank q' < quit_rank q"
    and "\<not> qs_stop_requested q \<Longrightarrow> \<not> qs_asked q \<Longrightarrow> qs_main q = Main_Waits \<and> qs_watcher q = Watcher_Polls"
proof -
  have inv: "quit_inv q" using assms quit_inv_new by (rule quit_inv_run)
  show "qs_stop_requested q \<or> qs_asked q \<Longrightarrow> \<exists>q'. quit_step\<^sup>*\<^sup>* q q' \<and> qs_main q' = Main_Stops"
    by (rule quit_ends [OF inv])
  show "quit_step q q' \<Longrightarrow> quit_rank q' < quit_rank q" by (rule quit_step_rank)
  show "\<not> qs_stop_requested q \<Longrightarrow> \<not> qs_asked q \<Longrightarrow> qs_main q = Main_Waits \<and> qs_watcher q = Watcher_Polls"
    using inv by (cases "qs_main q"; cases "qs_watcher q") (auto simp: quit_inv_def)
qed

end
