(* ===== verification/Logging.thy ===== *)
theory Logging
  imports Cxx_Strings Ordered_Map
begin

text \<open>
  \<open>src/infra/logging.cpp\<close> in the build without spdlog: the level, the text of the fields, and the
  line that a call writes. The clock is an argument, the two streams are strings.
\<close>

datatype log_level = kDebug | kInfo | kWarn | kError

record log_state =
  lg_level :: log_level
  lg_cerr :: string
  lg_clog :: string

definition quote_char :: char where
  "quote_char = CHR 0x22"

definition quoted :: "string \<Rightarrow> string" where
  "quoted s = quote_char # s @ [quote_char]"

definition FormatFields :: "(string, string) omap \<Rightarrow> string" where
  "FormatFields fs =
     fold (\<lambda>(k, v) result. (if result = [] then result else result @ '' '') @ k @ ''='' @ quoted v) fs []"

fun level_rank :: "log_level \<Rightarrow> nat" where
  "level_rank kDebug = 0"
| "level_rank kInfo = 1"
| "level_rank kWarn = 2"
| "level_rank kError = 3"

definition ShouldEmit :: "log_level \<Rightarrow> log_state \<Rightarrow> bool" where
  "ShouldEmit incoming st \<longleftrightarrow> level_rank incoming \<ge> level_rank (lg_level st)"

definition ParseFallbackLevel :: "string \<Rightarrow> log_level" where
  "ParseFallbackLevel level =
     (let lowered = map tolower level in
      if lowered = ''debug'' then kDebug
      else if lowered = ''warn'' \<or> lowered = ''warning'' then kWarn
      else if lowered = ''error'' \<or> lowered = ''err'' then kError
      else kInfo)"

fun LevelString :: "log_level \<Rightarrow> string" where
  "LevelString kDebug = ''DEBUG''"
| "LevelString kInfo = ''INFO''"
| "LevelString kWarn = ''WARN''"
| "LevelString kError = ''ERROR''"

definition log_line :: "int \<Rightarrow> log_level \<Rightarrow> string \<Rightarrow> string \<Rightarrow> (string, string) omap \<Rightarrow> string" where
  "log_line seconds level component msg fs =
     ''ts='' @ to_string_int seconds @ '' level='' @ LevelString level @ '' component='' @ component @
     '' msg='' @ quoted msg @
     (if FormatFields fs = [] then [] else '' '' @ FormatFields fs) @ [CHR 0x0A]"

definition FallbackLog ::
  "int \<Rightarrow> log_level \<Rightarrow> string \<Rightarrow> string \<Rightarrow> (string, string) omap \<Rightarrow> log_state \<Rightarrow> log_state" where
  "FallbackLog seconds level component msg fs st =
     (if \<not> ShouldEmit level st then st
      else let line = log_line seconds level component msg fs in
        if level = kError then st\<lparr>lg_cerr := lg_cerr st @ line\<rparr> else st\<lparr>lg_clog := lg_clog st @ line\<rparr>)"

definition SetLevel :: "string \<Rightarrow> log_state \<Rightarrow> log_state" where
  "SetLevel level st = st\<lparr>lg_level := ParseFallbackLevel level\<rparr>"

definition Log_Debug :: "int \<Rightarrow> string \<Rightarrow> string \<Rightarrow> (string, string) omap \<Rightarrow> log_state \<Rightarrow> log_state" where
  "Log_Debug seconds = FallbackLog seconds kDebug"

definition Log_Info :: "int \<Rightarrow> string \<Rightarrow> string \<Rightarrow> (string, string) omap \<Rightarrow> log_state \<Rightarrow> log_state" where
  "Log_Info seconds = FallbackLog seconds kInfo"

definition Log_Warn :: "int \<Rightarrow> string \<Rightarrow> string \<Rightarrow> (string, string) omap \<Rightarrow> log_state \<Rightarrow> log_state" where
  "Log_Warn seconds = FallbackLog seconds kWarn"

definition Log_Error :: "int \<Rightarrow> string \<Rightarrow> string \<Rightarrow> (string, string) omap \<Rightarrow> log_state \<Rightarrow> log_state" where
  "Log_Error seconds = FallbackLog seconds kError"

subsection \<open>Facts\<close>

text \<open>Errors are always written, and a call writes to one stream at most.\<close>

lemma errors_are_written: "lg_cerr (Log_Error s c m fs st) = lg_cerr st @ log_line s kError c m fs"
  by (cases "lg_level st") (simp_all add: Log_Error_def FallbackLog_def ShouldEmit_def Let_def)

lemma other_levels_spare_cerr:
  "level \<noteq> kError \<Longrightarrow> lg_cerr (FallbackLog s level c m fs st) = lg_cerr st"
  by (simp add: FallbackLog_def Let_def)

text \<open>
  A quotation mark or a line feed in a text is written as it is. Whoever chooses the message of
  one call can write what looks like the lines of two.
\<close>

lemma lines_can_be_forged:
  assumes "ShouldEmit kWarn st"
  shows "lg_clog (Log_Warn s c (m @ quote_char # CHR 0x0A # ''ts='' @ to_string_int s @ '' level=WARN component='' @ c @
      '' msg='' @ quote_char # n) [] st) =
    lg_clog (Log_Warn s c n [] (Log_Warn s c m [] st))"
  using assms
  by (simp add: Log_Warn_def FallbackLog_def ShouldEmit_def Let_def log_line_def quoted_def FormatFields_def)

end
