(* ===== verification/Spdlog_Logging.thy ===== *)
theory Spdlog_Logging
  imports Logging Files Server_Config
begin

text \<open>
  \<open>src/infra/logging.cpp\<close> in the build with spdlog. The library is a parameter: what one call of
  it does to the state that it and the file system keep, with the text of the exception when it
  throws one. The code decides which calls are made, with what, and in which order; that is what
  is modelled. \<open>ndebug\<close> tells whether \<open>NDEBUG\<close> is defined.
\<close>

datatype spd_level = spd_debug | spd_info | spd_warn | spd_err

datatype spd_sink = Stdout_sink | Rotating_file_sink string "64 word" nat

datatype spd_call =
    Init_thread_pool nat nat
  | Make_sink spd_sink
  | Create_directories string
  | Make_async_logger string "spd_sink list"
  | Set_pattern string
  | Set_default_logger
  | Set_spd_level spd_level
  | Flush_every nat
  | Write_message spd_level string

type_synonym 'g spd_api = "spd_call \<Rightarrow> 'g \<Rightarrow> string option \<times> 'g"

record 'g spd_state =
  sp_lib :: 'g
  sp_configured :: bool
  sp_cerr :: string

definition ParseSpdlogLevel :: "string \<Rightarrow> spd_level" where
  "ParseSpdlogLevel level =
     (let lowered = map tolower level in
      if lowered = ''debug'' then spd_debug
      else if lowered = ''warn'' \<or> lowered = ''warning'' then spd_warn
      else if lowered = ''error'' \<or> lowered = ''err'' then spd_err
      else spd_info)"

subsection \<open>Configuration\<close>

definition spd_log_path :: "bool \<Rightarrow> ServerConfig \<Rightarrow> string" where
  "spd_log_path ndebug config =
     (if ndebug \<and> cfg_log_file_path config = [] then ''./logs/rangeveckv.log'' else cfg_log_file_path config)"

definition spd_max_size :: "ServerConfig \<Rightarrow> 64 word" where
  "spd_max_size config = of_nat (cfg_log_file_max_size_mb config) * 1024 * 1024"

definition spd_sinks :: "bool \<Rightarrow> ServerConfig \<Rightarrow> spd_sink list" where
  "spd_sinks ndebug config =
     (let path = spd_log_path ndebug config in
      (if ndebug then [] else [Stdout_sink]) @
      (if path = [] then [] else [Rotating_file_sink path (spd_max_size config) (cfg_log_file_max_files config)]))"

text \<open>The calls in the \<open>try\<close> block, in their order.\<close>

definition spd_configuring :: "bool \<Rightarrow> ServerConfig \<Rightarrow> spd_call list" where
  "spd_configuring ndebug config =
     (let path = spd_log_path ndebug config; parent = parent_path path in
      [Init_thread_pool 8192 1] @
      (if ndebug then [] else [Make_sink Stdout_sink]) @
      (if path = [] then []
       else (if parent = [] then [] else [Create_directories parent]) @
            [Make_sink (Rotating_file_sink path (spd_max_size config) (cfg_log_file_max_files config))]) @
      [Make_async_logger ''rangeveckv'' (spd_sinks ndebug config),
       Set_pattern ''[%Y-%m-%d %H:%M:%S.%e] [%^%l%$] [%n] %v'',
       Set_default_logger,
       Set_spd_level (ParseSpdlogLevel (cfg_log_level config)),
       Flush_every 3])"

text \<open>The calls up to the first that throws.\<close>

fun spd_calls :: "'g spd_api \<Rightarrow> spd_call list \<Rightarrow> 'g \<Rightarrow> string option \<times> 'g" where
  "spd_calls spd [] g = (None, g)"
| "spd_calls spd (c # cs) g =
     (case spd c g of (Some e, g') \<Rightarrow> (Some e, g') | (None, g') \<Rightarrow> spd_calls spd cs g')"

definition Spd_ConfigureLogger :: "'g spd_api \<Rightarrow> bool \<Rightarrow> ServerConfig \<Rightarrow> 'g spd_state \<Rightarrow> 'g spd_state" where
  "Spd_ConfigureLogger spd ndebug config st =
     (if sp_configured st then st
      else case spd_calls spd (spd_configuring ndebug config) (sp_lib st) of
        (None, g) \<Rightarrow> st\<lparr>sp_lib := g, sp_configured := True\<rparr>
      | (Some e, g) \<Rightarrow> st\<lparr>sp_lib := g, sp_cerr := sp_cerr st @ ''Failed to configure spdlog: '' @ e @ [CHR 0x0A]\<rparr>)"

text \<open>In the build without spdlog the level is all that is configured.\<close>

definition Fallback_ConfigureLogger :: "ServerConfig \<Rightarrow> log_state \<Rightarrow> log_state" where
  "Fallback_ConfigureLogger config st = st\<lparr>lg_level := ParseFallbackLevel (cfg_log_level config)\<rparr>"

subsection \<open>The calls of the program\<close>

definition Spd_SetLevel :: "'g spd_api \<Rightarrow> string \<Rightarrow> 'g spd_state \<Rightarrow> 'g spd_state" where
  "Spd_SetLevel spd level st = st\<lparr>sp_lib := snd (spd (Set_spd_level (ParseSpdlogLevel level)) (sp_lib st))\<rparr>"

definition spd_text :: "string \<Rightarrow> string \<Rightarrow> (string, string) omap \<Rightarrow> string" where
  "spd_text component msg fs =
     (let formatted = FormatFields fs in
      ''['' @ component @ ''] '' @ msg @ (if formatted = [] then [] else '' '' @ formatted))"

definition spd_write :: "'g spd_api \<Rightarrow> spd_level \<Rightarrow> string \<Rightarrow> string \<Rightarrow> (string, string) omap \<Rightarrow> 'g spd_state \<Rightarrow> 'g spd_state" where
  "spd_write spd level component msg fs st =
     st\<lparr>sp_lib := snd (spd (Write_message level (spd_text component msg fs)) (sp_lib st))\<rparr>"

definition Spd_Debug :: "'g spd_api \<Rightarrow> string \<Rightarrow> string \<Rightarrow> (string, string) omap \<Rightarrow> 'g spd_state \<Rightarrow> 'g spd_state" where
  "Spd_Debug spd = spd_write spd spd_debug"

definition Spd_Info :: "'g spd_api \<Rightarrow> string \<Rightarrow> string \<Rightarrow> (string, string) omap \<Rightarrow> 'g spd_state \<Rightarrow> 'g spd_state" where
  "Spd_Info spd = spd_write spd spd_info"

definition Spd_Warn :: "'g spd_api \<Rightarrow> string \<Rightarrow> string \<Rightarrow> (string, string) omap \<Rightarrow> 'g spd_state \<Rightarrow> 'g spd_state" where
  "Spd_Warn spd = spd_write spd spd_warn"

definition Spd_Error :: "'g spd_api \<Rightarrow> string \<Rightarrow> string \<Rightarrow> (string, string) omap \<Rightarrow> 'g spd_state \<Rightarrow> 'g spd_state" where
  "Spd_Error spd = spd_write spd spd_err"

subsection \<open>Configuring once, and failing\<close>

lemma spd_calls_append:
  "spd_calls spd (cs @ ds) g =
     (case spd_calls spd cs g of (Some e, g') \<Rightarrow> (Some e, g') | (None, g') \<Rightarrow> spd_calls spd ds g')"
  by (induction cs arbitrary: g) (auto split: prod.splits option.splits)

text \<open>
  A logger that has been configured is not touched by a second call, and a call says on
  \<open>std::cerr\<close> exactly when it failed; then the next call tries again.
\<close>

lemma configure_once:
  assumes "sp_configured (Spd_ConfigureLogger spd ndebug config st)"
  shows "Spd_ConfigureLogger spd ndebug' config' (Spd_ConfigureLogger spd ndebug config st) =
    Spd_ConfigureLogger spd ndebug config st"
  using assms by (simp add: Spd_ConfigureLogger_def)

lemma configure_reports:
  "sp_configured (Spd_ConfigureLogger spd ndebug config st) \<longleftrightarrow>
   sp_cerr (Spd_ConfigureLogger spd ndebug config st) = sp_cerr st"
  by (cases "sp_configured st") (auto simp: Spd_ConfigureLogger_def split: prod.splits option.splits)

text \<open>
  When the directory of the log file cannot be made, the configuration ends there: no logger is
  made and the level that the configuration names is never set.
\<close>

lemma failed_directory_leaves_the_level:
  assumes "\<not> sp_configured st" and "spd_log_path True config \<noteq> []" and "parent_path (spd_log_path True config) \<noteq> []"
    and "spd (Init_thread_pool 8192 1) (sp_lib st) = (None, g)"
    and "spd (Create_directories (parent_path (spd_log_path True config))) g = (Some e, g')"
  shows "Spd_ConfigureLogger spd True config st =
    st\<lparr>sp_lib := g', sp_cerr := sp_cerr st @ ''Failed to configure spdlog: '' @ e @ [CHR 0x0A]\<rparr>"
  using assms by (simp add: Spd_ConfigureLogger_def spd_configuring_def Let_def)

text \<open>
  The release build writes to the log file only, whatever the configuration says; the debug build
  writes to the console, and to a file only if one is named.
\<close>

lemma sinks_of_the_builds:
  "\<exists>path size files. spd_sinks True config = [Rotating_file_sink path size files] \<and> path \<noteq> []"
  "Stdout_sink \<in> set (spd_sinks False config)"
  "length (spd_sinks False config) = 2 \<longleftrightarrow> cfg_log_file_path config \<noteq> []"
  by (simp_all add: spd_sinks_def spd_log_path_def Let_def)

text \<open>The size of a file is computed modulo \<open>2 ^ 64\<close>; up to \<open>2 ^ 44 - 1\<close> megabytes it is right.\<close>

lemma spd_max_size_right:
  assumes "cfg_log_file_max_size_mb config < 2 ^ 44"
  shows "unat (spd_max_size config) = cfg_log_file_max_size_mb config * 2 ^ 20"
proof -
  have "spd_max_size config = of_nat (cfg_log_file_max_size_mb config * 2 ^ 20)"
    by (simp add: spd_max_size_def)
  then show ?thesis using assms by (simp only: unat_of_nat) simp
qed

subsection \<open>Both builds listen to the same levels\<close>

fun spd_level_of :: "log_level \<Rightarrow> spd_level" where
  "spd_level_of kDebug = spd_debug"
| "spd_level_of kInfo = spd_info"
| "spd_level_of kWarn = spd_warn"
| "spd_level_of kError = spd_err"

fun spd_rank :: "spd_level \<Rightarrow> nat" where
  "spd_rank spd_debug = 1"
| "spd_rank spd_info = 2"
| "spd_rank spd_warn = 3"
| "spd_rank spd_err = 4"

lemma spd_rank_of [simp]: "spd_rank (spd_level_of l) = Suc (level_rank l)"
  by (cases l) simp_all

lemma ParseSpdlogLevel_is_fallback: "ParseSpdlogLevel s = spd_level_of (ParseFallbackLevel s)"
  by (simp add: ParseSpdlogLevel_def ParseFallbackLevel_def Let_def)

text \<open>
  What spdlog documents of its levels: setting one is remembered, and a message is written exactly
  if its level is not below it.
\<close>

definition spd_filters :: "'g spd_api \<Rightarrow> ('g \<Rightarrow> spd_level) \<Rightarrow> ('g \<Rightarrow> string list) \<Rightarrow> bool" where
  "spd_filters spd threshold written \<longleftrightarrow>
     (\<forall>l g. threshold (snd (spd (Set_spd_level l) g)) = l \<and> written (snd (spd (Set_spd_level l) g)) = written g) \<and>
     (\<forall>l s g. threshold (snd (spd (Write_message l s) g)) = threshold g \<and>
       written (snd (spd (Write_message l s) g)) =
         written g @ (if spd_rank (threshold g) \<le> spd_rank l then [s] else []))"

lemma both_builds_listen_alike:
  assumes "spd_filters spd threshold written"
  shows "written (sp_lib (spd_write spd (spd_level_of l) c m fs (Spd_SetLevel spd s st))) \<noteq> written (sp_lib st) \<longleftrightarrow>
    FallbackLog t l c m fs (SetLevel s st') \<noteq> SetLevel s st'"
proof -
  have "log_line t l c m fs \<noteq> []" by (simp add: log_line_def)
  then have "FallbackLog t l c m fs (SetLevel s st') \<noteq> SetLevel s st' \<longleftrightarrow> level_rank (ParseFallbackLevel s) \<le> level_rank l"
    by (auto simp: FallbackLog_def ShouldEmit_def SetLevel_def Let_def intro: log_state.equality
        dest: arg_cong [where f = lg_cerr] arg_cong [where f = lg_clog])
  moreover have "written (sp_lib (spd_write spd (spd_level_of l) c m fs (Spd_SetLevel spd s st))) \<noteq> written (sp_lib st) \<longleftrightarrow>
      level_rank (ParseFallbackLevel s) \<le> level_rank l"
    using assms by (simp add: spd_filters_def spd_write_def Spd_SetLevel_def ParseSpdlogLevel_is_fallback)
  ultimately show ?thesis by simp
qed

end
