(* ===== verification/Trace_Context.thy ===== *)
theory Trace_Context
  imports Main "HOL-Library.Word"
begin

text \<open>
  \<open>src/infra/trace_context.cpp\<close>: the identifiers of requests. The counter of the process is the state;
  the reading of the steady clock and the number that the generator of the thread yields are
  arguments.
\<close>

subsection \<open>Numbers in base 16\<close>

definition hex_char :: "nat \<Rightarrow> char" where
  "hex_char n = char_of (if n < 10 then 48 + n else 87 + n)"

fun to_hex :: "nat \<Rightarrow> string" where
  "to_hex n = (if n < 16 then [hex_char n] else to_hex (n div 16) @ [hex_char (n mod 16)])"

declare to_hex.simps [simp del]

lemma of_char_hex: "n < 16 \<Longrightarrow> of_char (hex_char n) = (if n < 10 then 48 + n else 87 + n)"
  unfolding hex_char_def of_char_of by (rule mod_less) simp

lemma hex_char_inj:
  assumes "m < 16" and "n < 16" and "hex_char m = hex_char n"
  shows "m = n"
proof -
  have "(if m < 10 then 48 + m else 87 + m) = (if n < 10 then 48 + n else 87 + n)"
    unfolding of_char_hex [OF assms(1), symmetric] of_char_hex [OF assms(2), symmetric] assms(3) ..
  then show ?thesis using assms(1,2) by (simp split: if_splits)
qed

lemma hex_char_not_minus:
  assumes "n < 16"
  shows "hex_char n \<noteq> CHR ''-''"
proof
  assume e: "hex_char n = CHR ''-''"
  have "(if n < 10 then 48 + n else 87 + n) = of_char (CHR ''-'')"
    unfolding of_char_hex [OF assms, symmetric] e ..
  then show False by (simp split: if_splits)
qed

lemma to_hex_not_empty: "to_hex n \<noteq> []"
  by (subst to_hex.simps) simp

lemma to_hex_no_minus: "CHR ''-'' \<notin> set (to_hex n)"
proof (induction n rule: to_hex.induct)
  case (1 n)
  then show ?case
    using hex_char_not_minus [of n] hex_char_not_minus [of "n mod 16"]
    by (subst to_hex.simps) (auto dest: sym)
qed

lemma to_hex_inj: "to_hex m = to_hex n \<Longrightarrow> m = n"
proof (induction m arbitrary: n rule: to_hex.induct)
  case (1 m)
  note mn = "1.prems" [unfolded to_hex.simps [of m] to_hex.simps [of n]]
  show ?case
  proof (cases "m < 16")
    case True
    with mn have "n < 16" using to_hex_not_empty [of "n div 16"] by (simp split: if_splits)
    with True mn show ?thesis by (auto intro: hex_char_inj)
  next
    case False
    with mn have n: "\<not> n < 16" using to_hex_not_empty [of "m div 16"] by (auto split: if_splits)
    with False mn have "to_hex (m div 16) = to_hex (n div 16)" "hex_char (m mod 16) = hex_char (n mod 16)"
      by simp_all
    then have "m div 16 = n div 16" "m mod 16 = n mod 16"
      using "1.IH" [OF False] hex_char_inj [of "m mod 16" "n mod 16"] by simp_all
    then show ?thesis by (metis div_mult_mod_eq)
  qed
qed

subsection \<open>Identifiers\<close>

definition GenerateTraceId :: "64 word \<Rightarrow> 64 word \<Rightarrow> 64 word \<Rightarrow> string \<times> 64 word" where
  "GenerateTraceId now random_value counter =
     (to_hex (unat now) @ ''-'' @ to_hex (unat counter) @ ''-'' @ to_hex (unat random_value), counter + 1)"

text \<open>The identifiers of a sequence of calls, each with its clock and its random number.\<close>

fun trace_ids :: "(64 word \<times> 64 word) list \<Rightarrow> 64 word \<Rightarrow> string list" where
  "trace_ids [] counter = []"
| "trace_ids ((now, random_value) # calls) counter =
     (case GenerateTraceId now random_value counter of
        (trace_id, counter') \<Rightarrow> trace_id # trace_ids calls counter')"

lemma split_at_minus:
  "a @ CHR ''-'' # b = c @ CHR ''-'' # d \<Longrightarrow> CHR ''-'' \<notin> set a \<Longrightarrow> CHR ''-'' \<notin> set c \<Longrightarrow> a = c \<and> b = d"
  by (induction a arbitrary: c) (auto simp: Cons_eq_append_conv append_eq_Cons_conv)

lemma trace_id_tells_the_call:
  assumes "fst (GenerateTraceId now r c) = fst (GenerateTraceId now' r' c')"
  shows "now = now' \<and> r = r' \<and> c = c'"
proof -
  from assms have "to_hex (unat now) @ CHR ''-'' # to_hex (unat c) @ CHR ''-'' # to_hex (unat r) =
      to_hex (unat now') @ CHR ''-'' # to_hex (unat c') @ CHR ''-'' # to_hex (unat r')"
    by (simp add: GenerateTraceId_def)
  from split_at_minus [OF this to_hex_no_minus to_hex_no_minus]
  have "unat now = unat now'" and rest: "to_hex (unat c) @ CHR ''-'' # to_hex (unat r) = to_hex (unat c') @ CHR ''-'' # to_hex (unat r')"
    by (auto dest: to_hex_inj)
  moreover from split_at_minus [OF rest to_hex_no_minus to_hex_no_minus]
  have "unat c = unat c'" "unat r = unat r'" by (auto dest: to_hex_inj)
  ultimately show ?thesis by (simp add: word_unat_eq_iff)
qed

lemma trace_ids_conv:
  "trace_ids calls c = map (\<lambda>i. fst (GenerateTraceId (fst (calls ! i)) (snd (calls ! i)) (c + of_nat i))) [0..<length calls]"
proof (induction calls arbitrary: c)
  case (Cons call calls)
  obtain now r where "call = (now, r)" by (cases call)
  then show ?case
    by (simp add: Cons GenerateTraceId_def map_upt_Suc add.assoc del: upt_Suc)
qed simp

text \<open>Clocks and random numbers apart, the first \<open>2 ^ 64\<close> identifiers of a process are distinct.\<close>

lemma trace_ids_are_distinct:
  assumes "length calls \<le> 2 ^ 64"
  shows "distinct (trace_ids calls c)"
proof -
  have "i = j" if "i < length calls" "j < length calls" "of_nat i = (of_nat j :: 64 word)" for i j
  proof -
    from that(1,2) assms have "i < 2 ^ 64" "j < 2 ^ 64" by linarith+
    moreover from that(3) have "unat (of_nat i :: 64 word) = unat (of_nat j :: 64 word)" by simp
    ultimately show ?thesis by (simp add: unat_of_nat take_bit_nat_eq_self)
  qed
  then show ?thesis
    unfolding trace_ids_conv distinct_map
    by (auto simp: inj_on_def dest: trace_id_tells_the_call)
qed

end
