(* ===== verification/Spec2Isabelle.thy ===== *)
theory Spec2Isabelle
  imports Wal_Properties Rocks_Properties Routing Gateway_Guards Thread_Pool Pool_Front Faiss_Properties
    Embedding_Service Onnx_Embedding Outbox_Worker Migration_Properties Config_Properties Search_Service
    Etcd_Discovery Server_Properties Lifecycle_Properties Brpc_Properties Benchmark_Properties
    Http_Listener Main_Brpc Spdlog_Logging Trace_Context
begin

text \<open>
  RangeVecKV is a server that keeps documents under (collection, key), finds them by range and by
  meaning, and shares them among the nodes of a cluster. This development is a shallow embedding
  of its C++ sources under \<open>src/\<close>: every function is a HOL function or a step of a relation, every
  object a record that operations take and return, every exception the value \<open>Throw\<close> of
  \<open>outcome\<close>, every \<open>StatusOr\<close> a sum. Definitions keep the names of the source.

  The path of a request. A runtime (HTTP or BRPC) reads it, checks the key and calls the gateway
  server. The server asks the rate limiter and the router, completes the mutation, and calls the
  document store; an upsert also enters the document into the outbox, from which it is
  embedded and put into the vector index. A search is embedded by the thread pool and looked up in
  the index, or answered by words. In the background the migration sends the documents of other
  nodes to them, and the discovery follows the list of nodes in etcd and rebuilds the ring.

  Theories and sources.

  \<^item> Common ground: \<open>Ordered_Map\<close> (\<open>std::map\<close>), \<open>Cxx_Strings\<close> (strings and number parsers),
    \<open>Status_Model\<close> (\<open>infra/status\<close>), \<open>Documents\<close> (\<open>core/document\<close>), \<open>Files\<close> (files and
    directories), \<open>Json\<close> (JSON values).
  \<^item> Files of the stores: \<open>Codec\<close> (\<open>core/persistence_codec\<close>), \<open>Wire_Format\<close> (an instance of the
    serialiser), \<open>Legacy_Text\<close> (the older text format of \<open>core/kv_store.cpp\<close>).
  \<^item> Document stores, \<open>core/kv_store\<close>: \<open>Kv_Interface\<close> (the mutation rules and the contract),
    \<open>Wal_Store\<close>, \<open>Wal_Properties\<close> (\<open>WriteAheadKvStore\<close>), \<open>Rocks_Store\<close>, \<open>Rocks_Properties\<close>
    (\<open>RocksDbKvStore\<close>), \<open>Store_Interfaces\<close> (the virtual functions, paging).
  \<^item> Vectors: \<open>Vector_Index\<close>, \<open>Faiss_Index\<close>, \<open>Faiss_Properties\<close> (\<open>search/vector_index\<close>),
    \<open>Embedding_Service\<close>, \<open>Onnx_Embedding\<close> (\<open>ai/embedding_service\<close>), \<open>Outbox\<close>, \<open>Outbox_Worker\<close>
    (\<open>gateway/vector_index_outbox\<close>).
  \<^item> Cluster: \<open>Routing\<close> (\<open>infra/cluster_routing\<close>), \<open>Etcd_Discovery\<close> (\<open>infra/etcd_discovery\<close>),
    \<open>Migration\<close>, \<open>Migration_Properties\<close> (\<open>gateway/data_migration\<close>).
  \<^item> Gateway: \<open>Gateway_Guards\<close> (\<open>gateway/auth\<close>, \<open>interceptors\<close>), \<open>Search_Service\<close>
    (\<open>gateway/semantic_search_service\<close>, \<open>infra/metrics\<close>), \<open>Server\<close>, \<open>Server_Lifecycle\<close>,
    \<open>Server_Properties\<close>, \<open>Lifecycle_Properties\<close> (\<open>gateway/server\<close>).
  \<^item> Runtimes: \<open>Json_Api\<close> (\<open>gateway/json_helpers\<close>), \<open>Http_Runtime\<close>, \<open>Http_Listener\<close>,
    \<open>Http_Properties\<close> (\<open>gateway/http_runtime\<close>), \<open>Brpc_Service\<close>, \<open>Brpc_Properties\<close>
    (\<open>gateway/brpc_*\<close>), \<open>Main_Program\<close>, \<open>Main_Brpc\<close> (\<open>gateway/main.cpp\<close>, in the builds without and
    with BRPC).
  \<^item> Measuring: \<open>Benchmark_Client\<close>, \<open>Benchmark_Properties\<close> (\<open>gateway/brpc_kv_benchmark.cpp\<close>).
  \<^item> Infrastructure: \<open>Server_Config\<close>, \<open>Config_Loader\<close>, \<open>Config_Properties\<close> (\<open>infra/config\<close>),
    \<open>Thread_Pool\<close>, \<open>Tbb_Pool\<close>, \<open>Pool_Front\<close> (\<open>infra/thread_pool\<close>), \<open>Logging\<close>, \<open>Spdlog_Logging\<close>
    (\<open>infra/logging\<close>, in the builds without and with spdlog), \<open>Trace_Context\<close>
    (\<open>infra/trace_context\<close>).

  Contracts. Each is a locale with an interpretation on every component that provides it.
  \<open>dictionary\<close> is what replaying a log needs of a map. \<open>framed_codec\<close> is what a framed file needs of
  a message codec (three codecs). \<open>kv_store\<close> and its extension \<open>retry_store\<close> are what callers need
  of \<open>Put\<close>: what a lookup returns after it, that a failure changes nothing, that a retry does not
  either (the write-ahead store, and the RocksDB store over any database that behaves as
  documented). \<open>paged\<close> is what the paging loop needs of \<open>Range\<close> (the write-ahead store).
  \<open>document_index\<close> is which documents an index holds after upserts and removals (FAISS, and
  the brute-force index through \<open>vector_index\<close>, the stronger contract of the outbox).
  \<open>pool_backend\<close> is what \<open>Submit\<close> needs of a pool (both backends).

  What is shown. Stores: recovery gives back the store after any calls, batches are all or
  nothing, ranges are sorted intervals, retries change nothing, and the places where an
  acknowledged write or a deletion is lost. Index and outbox: a search returns the best
  matches, a search with FAISS only documents that are there, a drain indexes what waits, the
  file mirrors the outbox, and the worker comes to rest exactly if everything can be indexed. Routing: a route ends with
  distinct replicas, and adding a node moves keys only to it. Pools: order, no lost task, no forgotten
  future, and an end of every shutdown. Migration: every misplaced document is found, and nothing is deleted
  that the target has not acknowledged. Server and runtimes: refused calls change nothing, every
  request keeps the state well-formed, a stopped server is opened as it was, requests are read
  however they are split, a migrated document arrives as it left, and the two gateways answer
  alike. Configuration: the two readers agree and bounds hold. Programs: a
  signal ends the server, and the benchmark counts every request, though its measured run
  repeats the mutations of the run that warms up.

  Loops and bounds. Every loop of the source is a recursion with a proof of its end, except the
  search along the ring in \<open>Route\<close> and the paging loop, which may run for ever; they are
  \<open>while_option\<close> and a partial function, \<open>None\<close> is a run that does not return, and that they do
  return is proved under the condition that makes them. No fuel is used. Counters, versions and
  times of the source that may wrap are 64-bit words; \<open>std::size_t\<close> values that only count are
  natural numbers.

  Parameters. Code outside of \<open>src/\<close> is an argument with laws from its documentation: the
  generated messages (\<open>pb_api\<close>, \<open>pb_laws\<close>), nlohmann::json (\<open>json_api\<close>, \<open>json_laws\<close>), yaml-cpp
  (\<open>yaml_api\<close>), FAISS (\<open>faiss_api\<close>, \<open>faiss_laws\<close>), RocksDB (\<open>rocks_api\<close>, \<open>rocks_laws\<close>), ONNX
  Runtime and the image decoder (\<open>onnx_env\<close>), the etcd client (\<open>etcd_api\<close>), BRPC (the fields of a
  request, the end of its wait), spdlog (\<open>spd_api\<close>), the TBB arena (a multiset of tasks). So are \<open>std::hash\<close>, floating-point arithmetic,
  \<open>std::sort\<close> on equal elements, clocks, random numbers, sockets, and the readings of the
  host. Every hypothesis of this kind is met by a concrete instance in a witness.

  Interleaving. The pools, the outbox, the discovery, the workers of the benchmark and the threads that
  wait for a signal are step relations, since their operations
  release the lock in between. Operations that hold one lock throughout are one step. The
  calls of a gateway operation on several components are taken without other operations
  between them.

  Not modelled. The threads of a server that is started a second time after \<open>Stop\<close>; the
  destructors that release handles of a library and change no state of the program; sums of the
  benchmark beyond \<open>2 ^ 64\<close> requests; \<open>third_party/\<close>, the tests, the scripts and the container
  files.
\<close>

end
